(* ===== verification/EMS_Prelude.thy ===== *)
theory EMS_Prelude
  imports Complex_Main "HOL-Library.Word" "HOL-Library.Sublist"
begin

text \<open>
  The vocabulary the component theories share: Go's byte strings with the functions of the
  packages \<^verbatim>\<open>strings\<close> and \<^verbatim>\<open>strconv\<close> that the element manager calls, its fixed-width
  integers, its error values, and the generic lemmas about them.

  A Go string is a sequence of bytes, which is exactly HOL's \<open>string\<close>. A \<^verbatim>\<open>uint32\<close> or
  \<^verbatim>\<open>int32\<close> is a \<open>32 word\<close>, read by \<open>uint\<close> and \<open>sint\<close>. Functions that return
  \<^verbatim>\<open>(value, bool)\<close> return an \<open>option\<close>; functions that return \<^verbatim>\<open>(value, error)\<close> return
  \<open>err + 'a\<close>. \<^verbatim>\<open>TrimSpace\<close> removes Unicode white space in its UTF-8 encoding, as Go
  does; \<^verbatim>\<open>ToLower\<close> and \<^verbatim>\<open>EqualFold\<close> are modelled on ASCII letters and leave every
  other byte as it is.

  The collection \<open>go_string\<close> holds the defining equations of the string functions, for the
  proofs that evaluate them; \<open>go_index\<close> holds the bounds that index arithmetic needs.
\<close>

named_theorems go_string \<open>defining equations of the Go string functions\<close>
named_theorems go_index \<open>bounds of the positions that the scanners return\<close>

section \<open>Types\<close>

type_synonym uint32 = "32 word"
type_synonym int32 = "32 word"
type_synonym int64 = "64 word"
type_synonym uint64 = "64 word"
type_synonym bytes = string

text \<open>The errors that the operating system reports, and Go's error values built on them:
  \<^verbatim>\<open>fmt.Errorf\<close> without a cause, an error of package \<^verbatim>\<open>os\<close>, and an error that wraps
  another one with \<^verbatim>\<open>%w\<close>.\<close>

datatype oserr = ENOENT | EEXIST | EPERM | EBUSY | EXDEV | EIO

datatype err = Errorf string | OSErr oserr | WrapErr string err

type_synonym 'a result = "err + 'a"

text \<open>A call that returns an error when it is not nil and goes on otherwise.\<close>

fun bindE :: "'e + 'a \<Rightarrow> ('a \<Rightarrow> 'e + 'b) \<Rightarrow> 'e + 'b" where
  "bindE (Inl e) f = Inl e"
| "bindE (Inr x) f = f x"

lemma bindE_Inr_iff [simp]: "bindE m f = Inr y \<longleftrightarrow> (\<exists>x. m = Inr x \<and> f x = Inr y)"
  by (cases m) auto

lemma bindE_cong [fundef_cong]:
  assumes "m = m'" and "\<And>x. m' = Inr x \<Longrightarrow> f x = f' x"
  shows "bindE m f = bindE m' f'"
  using assms by (cases m') auto

fun is_ok :: "'e + 'a \<Rightarrow> bool" where
  "is_ok (Inl e) = False"
| "is_ok (Inr x) = True"

lemma is_ok_iff: "is_ok r \<longleftrightarrow> (\<exists>x. r = Inr x)"
  by (cases r) auto

section \<open>Prefixes, suffixes and positions\<close>

definition hasPrefix :: "string \<Rightarrow> string \<Rightarrow> bool" where
  "hasPrefix s p \<longleftrightarrow> prefix p s"

definition hasSuffix :: "string \<Rightarrow> string \<Rightarrow> bool" where
  "hasSuffix s p \<longleftrightarrow> suffix p s"

definition trimPrefix :: "string \<Rightarrow> string \<Rightarrow> string" where
  "trimPrefix s p = (if hasPrefix s p then drop (length p) s else s)"

definition trimSuffix :: "string \<Rightarrow> string \<Rightarrow> string" where
  "trimSuffix s p = (if hasSuffix s p then take (length s - length p) s else s)"

text \<open>\<^verbatim>\<open>strings.IndexByte\<close> and \<^verbatim>\<open>strings.Index\<close>; \<open>None\<close> is Go's -1.\<close>

fun indexByte :: "string \<Rightarrow> char \<Rightarrow> nat option" where
  "indexByte [] c = None"
| "indexByte (x # xs) c = (if x = c then Some 0 else map_option Suc (indexByte xs c))"

fun index :: "string \<Rightarrow> string \<Rightarrow> nat option" where
  "index s sub = (if prefix sub s then Some 0 else (case s of [] \<Rightarrow> None
     | x # xs \<Rightarrow> map_option Suc (index xs sub)))"

declare index.simps [simp del]

definition contains :: "string \<Rightarrow> string \<Rightarrow> bool" where
  "contains s sub \<longleftrightarrow> index s sub \<noteq> None"

lemmas [go_string] = hasPrefix_def hasSuffix_def trimPrefix_def trimSuffix_def

lemma indexByte_Some:
  "indexByte s c = Some i \<Longrightarrow> i < length s \<and> s ! i = c \<and> c \<notin> set (take i s)"
proof (induction s arbitrary: i)
  case (Cons x xs)
  then show ?case by (cases i) (auto split: if_splits)
qed simp

lemma indexByte_None: "indexByte s c = None \<longleftrightarrow> c \<notin> set s"
  by (induction s) auto

lemma trimSuffix_append [simp]: "trimSuffix (s @ p) p = s"
  by (simp add: trimSuffix_def hasSuffix_def suffix_def)

lemma trimPrefix_append [simp]: "trimPrefix (p @ s) p = s"
  by (simp add: trimPrefix_def hasPrefix_def)

section \<open>TrimSpace\<close>

text \<open>The UTF-8 encodings of the code points for which \<^verbatim>\<open>unicode.IsSpace\<close> holds.\<close>

definition space_runes :: "string list" where
  "space_runes =
    [[CHR 0x20], [CHR 0x09], [CHR 0x0A], [CHR 0x0B], [CHR 0x0C], [CHR 0x0D],
     [CHR 0xC2, CHR 0x85], [CHR 0xC2, CHR 0xA0], [CHR 0xE1, CHR 0x9A, CHR 0x80],
     [CHR 0xE2, CHR 0x80, CHR 0x80], [CHR 0xE2, CHR 0x80, CHR 0x81],
     [CHR 0xE2, CHR 0x80, CHR 0x82], [CHR 0xE2, CHR 0x80, CHR 0x83],
     [CHR 0xE2, CHR 0x80, CHR 0x84], [CHR 0xE2, CHR 0x80, CHR 0x85],
     [CHR 0xE2, CHR 0x80, CHR 0x86], [CHR 0xE2, CHR 0x80, CHR 0x87],
     [CHR 0xE2, CHR 0x80, CHR 0x88], [CHR 0xE2, CHR 0x80, CHR 0x89],
     [CHR 0xE2, CHR 0x80, CHR 0x8A], [CHR 0xE2, CHR 0x80, CHR 0xA8],
     [CHR 0xE2, CHR 0x80, CHR 0xA9], [CHR 0xE2, CHR 0x80, CHR 0xAF],
     [CHR 0xE2, CHR 0x81, CHR 0x9F], [CHR 0xE3, CHR 0x80, CHR 0x80]]"

text \<open>Remove from the front of a string as many of the given words as there are.\<close>

function strip :: "string list \<Rightarrow> string \<Rightarrow> string" where
  "strip ws s = (case find (\<lambda>w. w \<noteq> [] \<and> prefix w s) ws of
     None \<Rightarrow> s | Some w \<Rightarrow> strip ws (drop (length w) s))"
  by pat_completeness auto
termination
proof (relation "measure (\<lambda>(ws, s). length s)", simp)
  fix ws :: "string list" and s w :: string
  assume "find (\<lambda>w. w \<noteq> [] \<and> prefix w s) ws = Some w"
  then have "w \<noteq> []" "prefix w s"
    by (auto simp: find_Some_iff)
  then have "0 < length w" "0 < length s"
    by (auto simp: prefix_def)
  then show "((ws, drop (length w) s), (ws, s)) \<in> measure (\<lambda>(ws, s). length s)"
    by simp
qed

declare strip.simps [simp del]

definition trimLeftSpace :: "string \<Rightarrow> string" where
  "trimLeftSpace s = strip space_runes s"

definition trimRightSpace :: "string \<Rightarrow> string" where
  "trimRightSpace s = rev (strip (map rev space_runes) (rev s))"

definition trimSpace :: "string \<Rightarrow> string" where
  "trimSpace s = trimRightSpace (trimLeftSpace s)"

lemma strip_suffix: "suffix (strip ws s) s"
proof (induction ws s rule: strip.induct)
  case (1 ws s)
  show ?case
  proof (cases "find (\<lambda>w. w \<noteq> [] \<and> prefix w s) ws")
    case None
    then show ?thesis by (subst strip.simps) simp
  next
    case (Some w)
    then have "suffix (strip ws (drop (length w) s)) (drop (length w) s)"
      by (rule "1.IH")
    with Some show ?thesis
      by (subst strip.simps) (auto intro: suffix_order.trans suffix_drop)
  qed
qed

lemma strip_clean: "w \<in> set ws \<Longrightarrow> w \<noteq> [] \<Longrightarrow> \<not> prefix w (strip ws s)"
proof (induction ws s rule: strip.induct)
  case (1 ws s)
  show ?case
  proof (cases "find (\<lambda>w. w \<noteq> [] \<and> prefix w s) ws")
    case None
    then have "strip ws s = s" by (subst strip.simps) simp
    with None "1.prems" show ?thesis by (auto simp: find_None_iff)
  next
    case (Some v)
    with "1.IH" [OF Some] "1.prems" show ?thesis by (subst strip.simps) simp
  qed
qed

lemma strip_id: "(\<And>w. w \<in> set ws \<Longrightarrow> w \<noteq> [] \<Longrightarrow> \<not> prefix w s) \<Longrightarrow> strip ws s = s"
proof (subst strip.simps)
  assume "\<And>w. w \<in> set ws \<Longrightarrow> w \<noteq> [] \<Longrightarrow> \<not> prefix w s"
  then have "find (\<lambda>w. w \<noteq> [] \<and> prefix w s) ws = None"
    by (auto simp: find_None_iff)
  then show "(case find (\<lambda>w. w \<noteq> [] \<and> prefix w s) ws of None \<Rightarrow> s
      | Some w \<Rightarrow> strip ws (drop (length w) s)) = s"
    by simp
qed

text \<open>What trimming leaves: no white space at either end, and a contiguous part of the
  input.\<close>

definition no_edge_space :: "string \<Rightarrow> bool" where
  "no_edge_space s \<longleftrightarrow>
     (\<forall>w \<in> set space_runes. w \<noteq> [] \<longrightarrow> \<not> prefix w s \<and> \<not> suffix w s)"

lemma trimSpace_id: "no_edge_space s \<Longrightarrow> trimSpace s = s"
proof -
  assume a: "no_edge_space s"
  then have "trimLeftSpace s = s"
    unfolding trimLeftSpace_def by (intro strip_id) (auto simp: no_edge_space_def)
  moreover have "strip (map rev space_runes) (rev s) = rev s"
    using a by (intro strip_id) (auto simp: no_edge_space_def suffix_to_prefix)
  ultimately show ?thesis
    by (simp add: trimSpace_def trimRightSpace_def)
qed

lemma trimRightSpace_prefix: "prefix (trimRightSpace s) s"
  using strip_suffix [of "map rev space_runes" "rev s"]
  by (simp add: trimRightSpace_def suffix_to_prefix)

lemma trimSpace_clean: "no_edge_space (trimSpace s)"
proof -
  have pre: "prefix (trimSpace s) (trimLeftSpace s)"
    by (simp add: trimSpace_def trimRightSpace_prefix)
  have "\<not> prefix w (trimSpace s)" if "w \<in> set space_runes" "w \<noteq> []" for w
    using strip_clean [OF that, of s] prefix_order.trans [OF _ pre, of w]
    by (auto simp: trimLeftSpace_def)
  moreover have "\<not> suffix w (trimSpace s)" if "w \<in> set space_runes" "w \<noteq> []" for w
    using that strip_clean [of "rev w" "map rev space_runes" "rev (trimLeftSpace s)"]
    by (simp add: trimSpace_def trimRightSpace_def suffix_to_prefix)
  ultimately show ?thesis by (auto simp: no_edge_space_def)
qed

lemma trimSpace_idem [simp]: "trimSpace (trimSpace s) = trimSpace s"
  by (rule trimSpace_id [OF trimSpace_clean])

lemma trimSpace_sublist: "\<exists>pre post. s = pre @ trimSpace s @ post"
proof -
  obtain pre where "s = pre @ trimLeftSpace s"
    using strip_suffix by (auto simp: trimLeftSpace_def suffix_def)
  moreover obtain post where "trimLeftSpace s = trimSpace s @ post"
    using trimRightSpace_prefix by (auto simp: trimSpace_def prefix_def)
  ultimately show ?thesis by (metis)
qed

lemma set_trimSpace: "set (trimSpace s) \<subseteq> set s"
proof -
  obtain pre post where s: "s = pre @ trimSpace s @ post"
    using trimSpace_sublist by blast
  have "set (trimSpace s) \<subseteq> set (pre @ trimSpace s @ post)" by auto
  with s show ?thesis by metis
qed

lemma length_trimSpace: "length (trimSpace s) \<le> length s"
proof -
  obtain pre post where s: "s = pre @ trimSpace s @ post"
    using trimSpace_sublist by blast
  have "length (trimSpace s) \<le> length (pre @ trimSpace s @ post)" by simp
  with s show ?thesis by metis
qed

text \<open>A string whose first and last bytes are printable ASCII is not changed: the rule by
  which the simplifier evaluates \<open>trimSpace\<close> on literals.\<close>

definition printable :: "char \<Rightarrow> bool" where
  "printable c \<longleftrightarrow> 33 \<le> (of_char c :: nat) \<and> (of_char c :: nat) \<le> 126"

lemma space_runes_edges:
  "w \<in> set space_runes \<Longrightarrow> w \<noteq> [] \<and> \<not> printable (hd w) \<and> \<not> printable (last w)"
proof -
  have "\<forall>w \<in> set space_runes. w \<noteq> [] \<and> \<not> printable (hd w) \<and> \<not> printable (last w)"
    by (simp add: space_runes_def printable_def)
  then show "w \<in> set space_runes \<Longrightarrow> w \<noteq> [] \<and> \<not> printable (hd w) \<and> \<not> printable (last w)"
    by blast
qed

lemma trimSpace_printable:
  assumes "s = [] \<or> (printable (hd s) \<and> printable (last s))"
  shows "trimSpace s = s"
proof (rule trimSpace_id, unfold no_edge_space_def, intro ballI impI)
  fix w assume w: "w \<in> set space_runes" "w \<noteq> []"
  note e = space_runes_edges [OF w(1)]
  have "\<not> prefix w s"
    using assms w e by (auto simp: prefix_def hd_append)
  moreover have "\<not> suffix w s"
    using assms w e by (auto simp: suffix_def last_append)
  ultimately show "\<not> prefix w s \<and> \<not> suffix w s" ..
qed

lemma trimSpace_Nil [simp]: "trimSpace [] = []"
  by (rule trimSpace_printable) simp

lemma printable_ascii [simp]:
  "printable c \<Longrightarrow> c \<noteq> CHR 0x20 \<and> c \<noteq> CHR 0x09 \<and> c \<noteq> CHR 0x0A \<and> c \<noteq> CHR 0x0D"
  by (auto simp: printable_def)

section \<open>Splitting at a separator\<close>

text \<open>\<^verbatim>\<open>strings.Split\<close> at a one-byte separator, and \<^verbatim>\<open>strings.Cut\<close> at its first
  occurrence.\<close>

fun splitOn :: "char \<Rightarrow> string \<Rightarrow> string list" where
  "splitOn d [] = [[]]"
| "splitOn d (c # cs) = (if c = d then [] # splitOn d cs
     else case splitOn d cs of [] \<Rightarrow> [[c]] | l # ls \<Rightarrow> (c # l) # ls)"

definition cut :: "string \<Rightarrow> char \<Rightarrow> (string \<times> string) option" where
  "cut s c = map_option (\<lambda>i. (take i s, drop (i + 1) s)) (indexByte s c)"

lemma splitOn_parts: "part \<in> set (splitOn d p) \<Longrightarrow> d \<notin> set part"
  by (induction d p arbitrary: part rule: splitOn.induct) (auto split: list.splits if_splits)

lemma splitOn_not_Nil: "splitOn d p \<noteq> []"
  by (induction d p rule: splitOn.induct) (auto split: list.split)

lemma splitOn_append: "d \<notin> set p \<Longrightarrow> splitOn d (p @ d # q) = p # splitOn d q"
  by (induction p) auto

lemma splitOn_single: "d \<notin> set p \<Longrightarrow> splitOn d p = [p]"
  by (induction p) auto

lemma cut_append: "c \<notin> set k \<Longrightarrow> cut (k @ c # v) c = Some (k, v)"
proof -
  assume "c \<notin> set k"
  then have "indexByte (k @ c # v) c = Some (length k)" by (induction k) auto
  then show ?thesis by (simp add: cut_def)
qed

lemma cut_Some: "cut s c = Some (k, v) \<longleftrightarrow> s = k @ c # v \<and> c \<notin> set k"
  by (auto simp: cut_append) (auto simp: cut_def dest!: indexByte_Some intro: id_take_nth_drop)

section \<open>ASCII case mapping\<close>

definition toLowerChar :: "char \<Rightarrow> char" where
  "toLowerChar c = (let n = (of_char c :: nat) in
     if 65 \<le> n \<and> n \<le> 90 then char_of (n + 32) else c)"

definition toLower :: "string \<Rightarrow> string" where
  "toLower s = map toLowerChar s"

definition equalFold :: "string \<Rightarrow> string \<Rightarrow> bool" where
  "equalFold s t \<longleftrightarrow> toLower s = toLower t"

lemma equalFold_refl [simp]: "equalFold s s"
  by (simp add: equalFold_def)

lemmas [go_string] = toLower_def toLowerChar_def equalFold_def

section \<open>Decimal integers\<close>

definition isDigit :: "char \<Rightarrow> bool" where
  "isDigit c \<longleftrightarrow> 48 \<le> (of_char c :: nat) \<and> (of_char c :: nat) \<le> 57"

definition digitVal :: "char \<Rightarrow> nat" where
  "digitVal c = of_char c - 48"

definition digitChar :: "nat \<Rightarrow> char" where
  "digitChar n = char_of (n + 48)"

fun formatNat :: "nat \<Rightarrow> string" where
  "formatNat n = (if n < 10 then [digitChar n] else formatNat (n div 10) @ [digitChar (n mod 10)])"

declare formatNat.simps [simp del]

text \<open>\<^verbatim>\<open>strconv.FormatInt(i, 10)\<close>.\<close>

definition formatInt :: "int \<Rightarrow> string" where
  "formatInt i = (if i < 0 then CHR ''-'' # formatNat (nat (- i)) else formatNat (nat i))"

definition parseNat :: "string \<Rightarrow> nat option" where
  "parseNat s = (if s = [] \<or> \<not> list_all isDigit s then None
     else Some (foldl (\<lambda>n c. 10 * n + digitVal c) 0 s))"

text \<open>\<^verbatim>\<open>strconv.ParseUint(s, 10, bits)\<close> and \<^verbatim>\<open>strconv.ParseInt(s, 10, bits)\<close>; a syntax error
  and a range error are both \<open>None\<close>.\<close>

definition parseUint :: "nat \<Rightarrow> string \<Rightarrow> nat option" where
  "parseUint bits s = (case parseNat s of None \<Rightarrow> None
     | Some n \<Rightarrow> if n < 2 ^ bits then Some n else None)"

definition parseInt :: "nat \<Rightarrow> string \<Rightarrow> int option" where
  "parseInt bits s = (case s of [] \<Rightarrow> None
     | c # cs \<Rightarrow>
         (let neg = (c = CHR ''-'');
              body = (if c = CHR ''-'' \<or> c = CHR ''+'' then cs else s)
          in case parseUint 64 body of None \<Rightarrow> None
             | Some n \<Rightarrow>
                 if neg then (if int n \<le> 2 ^ (bits - 1) then Some (- int n) else None)
                 else (if int n < 2 ^ (bits - 1) then Some (int n) else None)))"

lemma digitChar_digit: "n < 10 \<Longrightarrow> isDigit (digitChar n) \<and> digitVal (digitChar n) = n"
  by (simp add: isDigit_def digitVal_def digitChar_def)

lemma isDigit_printable: "isDigit c \<Longrightarrow> printable c"
  by (simp add: isDigit_def printable_def)

lemma formatNat_digits: "formatNat n \<noteq> [] \<and> list_all isDigit (formatNat n)"
proof (induction n rule: formatNat.induct)
  case (1 n)
  then show ?case
    by (subst (1 2) formatNat.simps) (auto simp: digitChar_digit)
qed

lemma formatNat_value: "foldl (\<lambda>n c. 10 * n + digitVal c) 0 (formatNat n) = n"
proof (induction n rule: formatNat.induct)
  case (1 n)
  then show ?case
    by (subst formatNat.simps) (auto simp: digitChar_digit)
qed

lemma parseNat_formatNat [simp]: "parseNat (formatNat n) = Some n"
  using formatNat_digits [of n] by (simp add: parseNat_def formatNat_value)

lemma formatNat_hd: "isDigit (hd (formatNat n))"
  using formatNat_digits [of n] by (cases "formatNat n") auto

lemma parseUint_formatInt:
  "0 \<le> i \<Longrightarrow> i < 2 ^ bits \<Longrightarrow> parseUint bits (formatInt i) = Some (nat i)"
  by (simp add: parseUint_def formatInt_def nat_less_iff)

text \<open>Parsing undoes formatting on the whole range of the width.\<close>

lemma parseInt_formatInt:
  assumes "- (2 ^ (bits - 1)) \<le> i" and "i < 2 ^ (bits - 1)" and "bits \<le> 64"
  shows "parseInt bits (formatInt i) = Some i"
proof (cases "i < 0")
  case True
  have "- i \<le> 2 ^ (bits - 1)" using assms(1) by simp
  also have "\<dots> \<le> 2 ^ 63" using assms(3) by (intro power_increasing) auto
  finally have "nat (- i) < 2 ^ 64" by simp
  with True assms(1) show ?thesis
    by (simp add: parseInt_def formatInt_def parseUint_def)
next
  case False
  obtain c cs where f: "formatNat (nat i) = c # cs" and c: "isDigit c"
    using formatNat_digits [of "nat i"] by (cases "formatNat (nat i)") auto
  have "i < 2 ^ (bits - 1)" using assms(2) .
  also have "(2::int) ^ (bits - 1) \<le> 2 ^ 63" using assms(3) by (intro power_increasing) auto
  finally have "nat i < 2 ^ 64" by simp
  moreover have "c \<noteq> CHR ''-''" "c \<noteq> CHR ''+''" using c by (auto simp: isDigit_def)
  moreover have "parseNat (c # cs) = Some (nat i)" by (simp flip: f)
  ultimately show ?thesis
    using False assms(2) f by (simp add: parseInt_def formatInt_def parseUint_def)
qed

text \<open>Go's \<^verbatim>\<open>int32\<close> and \<^verbatim>\<open>uint32\<close> values as decimal text.\<close>

definition formatInt32 :: "int32 \<Rightarrow> string" where
  "formatInt32 w = formatInt (sint w)"

definition formatUint32 :: "uint32 \<Rightarrow> string" where
  "formatUint32 w = formatInt (uint w)"

definition parseInt32 :: "string \<Rightarrow> int32 option" where
  "parseInt32 s = map_option word_of_int (parseInt 32 s)"

definition parseUint32 :: "string \<Rightarrow> uint32 option" where
  "parseUint32 s = map_option of_nat (parseUint 32 s)"

lemma parse_formatInt32 [simp]: "parseInt32 (formatInt32 w) = Some w"
proof -
  have "- (2 ^ (32 - 1)) \<le> sint w" "sint w < 2 ^ (32 - 1)"
    using sint_ge [of w] sint_lt [of w] by simp_all
  then have "parseInt 32 (formatInt (sint w)) = Some (sint w)"
    by (rule parseInt_formatInt) simp
  then show ?thesis by (simp add: parseInt32_def formatInt32_def)
qed

lemma parse_formatUint32 [simp]: "parseUint32 (formatUint32 w) = Some w"
proof -
  have "uint w < 2 ^ 32" using uint_bounded [of w] by simp
  then have "parseUint 32 (formatInt (uint w)) = Some (nat (uint w))"
    by (intro parseUint_formatInt) auto
  then show ?thesis by (simp add: parseUint32_def formatUint32_def)
qed

end
