(* ===== verification/GoTime.thy ===== *)
theory GoTime
  imports EMS_Prelude
begin

text \<open>
  Go's instants and durations: an instant is its distance in nanoseconds from the zero time,
  midnight of the first of January of the year 1 in UTC, and a duration is a number of nanoseconds
  that arithmetic on instants saturates at 64 bits.
\<close>

type_synonym time = int

type_synonym duration = int

abbreviation isZero :: "time \<Rightarrow> bool" where "isZero t \<equiv> t = 0"

definition second :: duration where "second = 1000000000"

text \<open>\<^verbatim>\<open>Time.Sub\<close> saturates at the ends of a 64-bit duration.\<close>

definition timeSub :: "time \<Rightarrow> time \<Rightarrow> duration" where
  "timeSub t u = max (- (2 ^ 63)) (min (2 ^ 63 - 1) (t - u))"

lemma timeSub_le: "0 < limit \<Longrightarrow> limit < 2 ^ 63 - 1 \<Longrightarrow> timeSub t u \<le> limit \<longleftrightarrow> t \<le> u + limit"
  by (auto simp: timeSub_def)

text \<open>The civil date of a day, counted from the zero time, and \<^verbatim>\<open>Time.Format(time.RFC3339)\<close> of
  an instant in UTC.\<close>

definition civil :: "int \<Rightarrow> int \<times> int \<times> int" where
  "civil day =
     (let z = day + 306;
          era = z div 146097;
          doe = z mod 146097;
          yoe = (doe - doe div 1460 + doe div 36524 - doe div 146096) div 365;
          doy = doe - (365 * yoe + yoe div 4 - yoe div 100);
          mp = (5 * doy + 2) div 153;
          d = doy - (153 * mp + 2) div 5 + 1;
          m = (if mp < 10 then mp + 3 else mp - 9)
      in (yoe + era * 400 + (if m \<le> 2 then 1 else 0), m, d))"

definition padInt :: "nat \<Rightarrow> int \<Rightarrow> string" where
  "padInt n i = (let s = formatInt i in replicate (n - length s) (CHR ''0'') @ s)"

definition formatRFC3339 :: "time \<Rightarrow> string" where
  "formatRFC3339 t =
     (let secs = t div second;
          s = secs mod 86400
      in case civil (secs div 86400) of (y, mo, d) \<Rightarrow>
         padInt 4 y @ ''-'' @ padInt 2 mo @ ''-'' @ padInt 2 d @ ''T''
         @ padInt 2 (s div 3600) @ '':'' @ padInt 2 ((s div 60) mod 60) @ '':'' @ padInt 2 (s mod 60) @ ''Z'')"

end
