(* ===== verification/GoFloat.thy ===== *)
theory GoFloat
  imports EMS_Prelude "HOL-Library.Log_Nat"
begin

text \<open>
  Go's \<^verbatim>\<open>float64\<close>: the finite binary64 numbers by their exact rational value, with the
  negative zero, the infinities and NaN apart. Comparisons follow IEEE 754 (every comparison
  with NaN is false, the two zeros are equal). Arithmetic is exact arithmetic followed by
  \<open>round64\<close>, round-to-nearest-even into 53 bits with gradual underflow. Parsing and formatting
  cover the decimal syntax; the hexadecimal literals and digit separators that
  \<^verbatim>\<open>strconv.ParseFloat\<close> also takes are rejected by the model.
\<close>

datatype float64 = Fin rat | NegZero | PosInf | NegInf | NaN

section \<open>Comparison\<close>

text \<open>The position of a value on the extended line: infinities outside the rationals.\<close>

fun f64_key :: "float64 \<Rightarrow> int \<times> rat" where
  "f64_key (Fin q) = (0, q)"
| "f64_key NegZero = (0, 0)"
| "f64_key PosInf = (1, 0)"
| "f64_key NegInf = (-1, 0)"
| "f64_key NaN = (0, 0)"

definition f64_lt :: "float64 \<Rightarrow> float64 \<Rightarrow> bool" where
  "f64_lt x y \<longleftrightarrow> x \<noteq> NaN \<and> y \<noteq> NaN \<and>
     (fst (f64_key x) < fst (f64_key y) \<or>
      fst (f64_key x) = fst (f64_key y) \<and> snd (f64_key x) < snd (f64_key y))"

definition f64_eq :: "float64 \<Rightarrow> float64 \<Rightarrow> bool" where
  "f64_eq x y \<longleftrightarrow> x \<noteq> NaN \<and> y \<noteq> NaN \<and> f64_key x = f64_key y"

definition f64_le :: "float64 \<Rightarrow> float64 \<Rightarrow> bool" where
  "f64_le x y \<longleftrightarrow> f64_lt x y \<or> f64_eq x y"

fun f64_isNaN :: "float64 \<Rightarrow> bool" where
  "f64_isNaN x = (x = NaN)"

fun f64_isInf :: "float64 \<Rightarrow> bool" where
  "f64_isInf x = (x = PosInf \<or> x = NegInf)"

fun f64_finite :: "float64 \<Rightarrow> bool" where
  "f64_finite x = (\<not> f64_isNaN x \<and> \<not> f64_isInf x)"

lemma f64_lt_Fin [simp]: "f64_lt (Fin p) (Fin q) \<longleftrightarrow> p < q"
  by (simp add: f64_lt_def)

lemma f64_lt_NaN [simp]: "\<not> f64_lt NaN y" "\<not> f64_lt x NaN"
  by (simp_all add: f64_lt_def)

lemma f64_lt_irrefl [simp]: "\<not> f64_lt x x"
  by (simp add: f64_lt_def)

lemma f64_lt_trans: "f64_lt x y \<Longrightarrow> f64_lt y z \<Longrightarrow> f64_lt x z"
  by (auto simp: f64_lt_def)

text \<open>Two comparisons bound the value of a number that is not NaN; with NaN both tests of
  a range check are false, which is how NaN passes range checks written with \<open><\<close> and
  \<open>>\<close>.\<close>

lemma f64_range_finite:
  assumes "\<not> f64_lt x (Fin a)" and "\<not> f64_lt (Fin b) x" and "x \<noteq> NaN"
  shows "\<exists>q. snd (f64_key x) = q \<and> fst (f64_key x) = 0 \<and> a \<le> q \<and> q \<le> b"
  using assms by (cases x) (auto simp: f64_lt_def)

section \<open>Rounding\<close>

definition pow2 :: "int \<Rightarrow> rat" where
  "pow2 k = (if 0 \<le> k then 2 ^ nat k else 1 / 2 ^ nat (- k))"

text \<open>The exponent of the leading bit of a positive rational.\<close>

definition ilog2 :: "rat \<Rightarrow> int" where
  "ilog2 q = (let (a, b) = quotient_of q; k = bitlen a - bitlen b
     in if pow2 k \<le> q then k else k - 1)"

definition roundHalfEven :: "rat \<Rightarrow> int" where
  "roundHalfEven x = (let f = \<lfloor>x\<rfloor>; d = x - of_int f
     in if d < 1 / 2 then f else if d > 1 / 2 then f + 1
        else if even f then f else f + 1)"

definition round64 :: "rat \<Rightarrow> float64" where
  "round64 q = (if q = 0 then Fin 0 else
     (let e = max (ilog2 \<bar>q\<bar> - 52) (-1074);
          m = roundHalfEven (q / pow2 e);
          v = of_int m * pow2 e
      in if v = 0 \<and> q < 0 then NegZero
         else if pow2 1024 \<le> v then PosInf
         else if v \<le> - pow2 1024 then NegInf
         else Fin v))"

lemma roundHalfEven_int [simp]: "roundHalfEven (of_int i) = i"
  by (simp add: roundHalfEven_def)

lemma pow2_pos [simp]: "0 < pow2 k"
  by (simp add: pow2_def)

text \<open>Rounding changes an integer of at most 53 bits by nothing: conversions from the
  32-bit configuration values to \<^verbatim>\<open>float64\<close> are exact.\<close>

lemma pow2_minus: "0 \<le> k \<Longrightarrow> i / pow2 (- k) = i * pow2 k"
  by (cases "k = 0") (simp_all add: pow2_def)

lemma ilog2_int_bounds:
  assumes "0 < i"
  shows "ilog2 (of_int i) = bitlen i - 1"
proof -
  have q: "quotient_of (of_int i) = (i, 1)"
    by (simp add: of_int_rat quotient_of_Fract)
  have b: "0 < bitlen i"
    using assms bitlen_bounds [of i] by (cases "bitlen i \<le> 0") auto
  have "i < 2 ^ nat (bitlen i)" using assms bitlen_bounds [of i] by simp
  then have "(of_int i :: rat) < 2 ^ nat (bitlen i)"
    by (metis of_int_less_iff of_int_numeral of_int_power)
  moreover have "2 ^ nat (bitlen i - 1) \<le> i" using assms bitlen_bounds [of i] by simp
  then have "(2::rat) ^ nat (bitlen i - 1) \<le> of_int i"
    by (metis of_int_le_iff of_int_numeral of_int_power)
  moreover have "bitlen 1 = 1" by (simp add: bitlen_def floorlog_def)
  ultimately show ?thesis
    using b by (simp add: ilog2_def q pow2_def Let_def)
qed

lemma pow2_int: "0 \<le> k \<Longrightarrow> pow2 k = of_int (2 ^ nat k)"
  by (simp add: pow2_def)

lemma round64_int:
  assumes "\<bar>i\<bar> < 2 ^ 53"
  shows "round64 (of_int i) = Fin (of_int i)"
proof (cases "i = 0")
  case True
  then show ?thesis by (simp add: round64_def)
next
  case False
  define e where "e = max (ilog2 (of_int \<bar>i\<bar>) - 52) (-1074)"
  have l: "ilog2 (of_int \<bar>i\<bar>) = bitlen \<bar>i\<bar> - 1"
    using False by (intro ilog2_int_bounds) simp
  have "2 ^ nat (bitlen \<bar>i\<bar> - 1) \<le> \<bar>i\<bar>" using False bitlen_bounds [of "\<bar>i\<bar>"] by simp
  also have "\<bar>i\<bar> < 2 ^ 53" by fact
  finally have "nat (bitlen \<bar>i\<bar> - 1) < 53"
    by (rule power_less_imp_less_exp [rotated]) simp
  then have e: "- 1074 \<le> e" "e \<le> 0" using l by (auto simp: e_def)
  have "(of_int i :: rat) / pow2 e = of_int (i * 2 ^ nat (- e))"
    using pow2_minus [of "- e" "of_int i"] e by (simp add: pow2_int)
  then have m: "roundHalfEven (of_int i / pow2 e) = i * 2 ^ nat (- e)"
    by (simp only: roundHalfEven_int)
  have v: "of_int (i * 2 ^ nat (- e)) * pow2 e = (of_int i :: rat)"
    using e by (cases "e = 0") (simp_all add: pow2_def)
  have "\<bar>of_int i :: rat\<bar> < 2 ^ 53"
    using assms by (metis of_int_abs of_int_less_iff of_int_numeral of_int_power)
  moreover have "(2::rat) ^ 53 \<le> pow2 1024" by (simp add: pow2_def)
  ultimately have b: "\<bar>of_int i :: rat\<bar> < pow2 1024" by linarith
  have ee: "max (ilog2 \<bar>of_int i\<bar> - 52) (- 1074) = e" by (simp add: e_def)
  show ?thesis
    using False b unfolding round64_def Let_def ee m v by auto
qed

definition f64_add :: "float64 \<Rightarrow> float64 \<Rightarrow> float64" where
  "f64_add x y = (case (x, y) of
       (NaN, _) \<Rightarrow> NaN | (_, NaN) \<Rightarrow> NaN
     | (PosInf, NegInf) \<Rightarrow> NaN | (NegInf, PosInf) \<Rightarrow> NaN
     | (PosInf, _) \<Rightarrow> PosInf | (_, PosInf) \<Rightarrow> PosInf
     | (NegInf, _) \<Rightarrow> NegInf | (_, NegInf) \<Rightarrow> NegInf
     | (NegZero, NegZero) \<Rightarrow> NegZero
     | (NegZero, Fin q) \<Rightarrow> Fin q | (Fin p, NegZero) \<Rightarrow> Fin p
     | (Fin p, Fin q) \<Rightarrow> round64 (p + q))"

section \<open>Decimal text\<close>

text \<open>\<^verbatim>\<open>strconv.FormatFloat(v, 'f', prec, 64)\<close>, for a positive precision.\<close>

definition padLeft :: "nat \<Rightarrow> string \<Rightarrow> string" where
  "padLeft n s = replicate (n - length s) (CHR ''0'') @ s"

definition formatFixedAbs :: "nat \<Rightarrow> rat \<Rightarrow> string" where
  "formatFixedAbs prec q = (let m = nat (roundHalfEven (q * 10 ^ prec))
     in formatNat (m div 10 ^ prec) @ CHR ''.'' # padLeft prec (formatNat (m mod 10 ^ prec)))"

fun formatFixed :: "nat \<Rightarrow> float64 \<Rightarrow> string" where
  "formatFixed prec (Fin q) =
     (if q < 0 then CHR ''-'' # formatFixedAbs prec (- q) else formatFixedAbs prec q)"
| "formatFixed prec NegZero = CHR ''-'' # formatFixedAbs prec 0"
| "formatFixed prec PosInf = ''+Inf''"
| "formatFixed prec NegInf = ''-Inf''"
| "formatFixed prec NaN = ''NaN''"

text \<open>\<^verbatim>\<open>strconv.ParseFloat(s, 64)\<close> on decimal literals, infinities and NaN. A range error is
  \<open>None\<close>, underflow is not an error.\<close>

definition parseExponent :: "string \<Rightarrow> int option" where
  "parseExponent s = (case s of
       [] \<Rightarrow> Some 0
     | c # cs \<Rightarrow>
         if c = CHR ''e'' \<or> c = CHR ''E'' then
           (case cs of
              [] \<Rightarrow> None
            | d # ds \<Rightarrow>
                if d = CHR ''-'' then map_option (\<lambda>n. - int n) (parseNat ds)
                else if d = CHR ''+'' then map_option int (parseNat ds)
                else map_option int (parseNat cs))
         else None)"

definition pow10 :: "int \<Rightarrow> rat" where
  "pow10 k = (if 0 \<le> k then 10 ^ nat k else 1 / 10 ^ nat (- k))"

definition parseUnsignedDecimal :: "string \<Rightarrow> rat option" where
  "parseUnsignedDecimal s =
     (let mant = takeWhile (\<lambda>c. isDigit c \<or> c = CHR ''.'') s;
          ip = takeWhile isDigit mant;
          rest = drop (length ip) mant;
          fp = (case rest of [] \<Rightarrow> [] | _ # r \<Rightarrow> r)
      in if ip @ fp = [] \<or> \<not> list_all isDigit fp then None
         else case (parseNat (ip @ fp), parseExponent (drop (length mant) s)) of
                (Some n, Some e) \<Rightarrow> Some (of_nat n * pow10 (e - int (length fp)))
              | _ \<Rightarrow> None)"

definition f64_neg :: "float64 \<Rightarrow> float64" where
  "f64_neg x = (case x of Fin q \<Rightarrow> if q = 0 then NegZero else Fin (- q)
     | NegZero \<Rightarrow> Fin 0 | PosInf \<Rightarrow> NegInf | NegInf \<Rightarrow> PosInf | NaN \<Rightarrow> NaN)"

definition parseFloatBody :: "string \<Rightarrow> float64 option" where
  "parseFloatBody s =
     (if toLower s = ''inf'' \<or> toLower s = ''infinity'' then Some PosInf
      else case parseUnsignedDecimal s of None \<Rightarrow> None
        | Some q \<Rightarrow> (case round64 q of PosInf \<Rightarrow> None | v \<Rightarrow> Some v))"

definition parseFloat :: "string \<Rightarrow> float64 option" where
  "parseFloat s = (case s of
       [] \<Rightarrow> None
     | c # cs \<Rightarrow>
         if toLower s = ''nan'' then Some NaN
         else if c = CHR ''-'' then map_option f64_neg (parseFloatBody cs)
         else if c = CHR ''+'' then parseFloatBody cs
         else parseFloatBody s)"

end
