(* ===== verification/GoDuration.thy ===== *)
theory GoDuration
  imports GoTime GoFloat
begin

text \<open>
  Standard library functions that the settings of the agent go through: \<^verbatim>\<open>time.ParseDuration\<close>, which
  reads a sequence of decimal numbers with units into 64 bits of nanoseconds, the integer verb of
  \<^verbatim>\<open>fmt.Sscanf\<close>, and \<^verbatim>\<open>net.SplitHostPort\<close>.
\<close>

section \<open>Durations\<close>

abbreviation half64 :: int where "half64 \<equiv> 9223372036854775808"

text \<open>The digits in front of the point; \<open>None\<close> when the number leaves the range.\<close>

fun leadingInt :: "string \<Rightarrow> int \<Rightarrow> (int \<times> string) option" where
  "leadingInt [] x = Some (x, [])"
| "leadingInt (c # s) x =
     (if \<not> isDigit c then Some (x, c # s)
      else if x > half64 div 10 then None
      else let x' = x * 10 + int (digitVal c) in if x' > half64 then None else leadingInt s x')"

text \<open>The digits after the point, with their power of ten; those that do not fit are ignored.\<close>

fun leadingFraction :: "string \<Rightarrow> bool \<Rightarrow> int \<Rightarrow> int \<Rightarrow> int \<times> int \<times> string" where
  "leadingFraction [] over x scale = (x, scale, [])"
| "leadingFraction (c # s) over x scale =
     (if \<not> isDigit c then (x, scale, c # s)
      else if over \<or> x > (half64 - 1) div 10 \<or> x * 10 + int (digitVal c) > half64 then leadingFraction s True x scale
      else leadingFraction s False (x * 10 + int (digitVal c)) (scale * 10))"

definition unitMap :: "(string \<times> int) list" where
  "unitMap = [(''ns'', 1), (''us'', 1000), ([CHR 0xC2, CHR 0xB5, CHR ''s''], 1000), ([CHR 0xCE, CHR 0xBC, CHR ''s''], 1000),
     (''ms'', 1000000), (''s'', 1000000000), (''m'', 60000000000), (''h'', 3600000000000)]"

definition fractionValue :: "int \<Rightarrow> int \<Rightarrow> int \<Rightarrow> int" where
  "fractionValue f scale unit =
     (case (round64 (of_int f), round64 (of_int unit / of_int scale)) of
        (Fin a, Fin b) \<Rightarrow> (case round64 (a * b) of Fin q \<Rightarrow> \<lfloor>q\<rfloor> | _ \<Rightarrow> 0)
      | _ \<Rightarrow> 0)"

definition unitChar :: "char \<Rightarrow> bool" where
  "unitChar c \<longleftrightarrow> \<not> (c = CHR ''.'' \<or> isDigit c)"

lemma leadingInt_length: "leadingInt s x = Some (v, r) \<Longrightarrow> length r \<le> length s"
  by (induction s x rule: leadingInt.induct) (auto simp: Let_def split: if_splits)

lemma leadingFraction_length: "leadingFraction s over x scale = (f, sc, r) \<Longrightarrow> length r \<le> length s"
  by (induction s over x scale rule: leadingFraction.induct) (auto split: if_splits)

text \<open>One number with its unit: its nanoseconds and the rest of the text.\<close>

definition durationItem :: "string \<Rightarrow> (int \<times> string) option" where
  "durationItem s =
     (if s = [] \<or> \<not> (hd s = CHR ''.'' \<or> isDigit (hd s)) then None
      else case leadingInt s 0 of
        None \<Rightarrow> None
      | Some (v, s1) \<Rightarrow>
          (let pre = length s1 \<noteq> length s;
               (f, scale, s2) = (if s1 \<noteq> [] \<and> hd s1 = CHR ''.'' then leadingFraction (tl s1) False 0 1 else (0, 1, s1));
               post = s1 \<noteq> [] \<and> hd s1 = CHR ''.'' \<and> length s2 \<noteq> length (tl s1);
               u = takeWhile unitChar s2
           in if \<not> pre \<and> \<not> post \<or> u = [] then None
              else case map_of unitMap u of
                None \<Rightarrow> None
              | Some unit \<Rightarrow>
                  if v > half64 div unit then None
                  else let v' = v * unit + (if f > 0 then fractionValue f scale unit else 0)
                       in if f > 0 \<and> v' > half64 then None else Some (v', drop (length u) s2)))"

lemma durationItem_progress:
  assumes "durationItem s = Some (v, r)"
  shows "length r < length s"
proof -
  have "length r < length s" if l: "leadingInt s 0 = Some (w, s1)" and f: "(f, sc, s2) = (if s1 \<noteq> [] \<and> hd s1 = CHR ''.'' then leadingFraction (tl s1) False 0 1 else (0, 1, s1))"
    and u: "takeWhile unitChar s2 \<noteq> []" and r: "r = drop (length (takeWhile unitChar s2)) s2" for w s1 f sc s2
  proof -
    have "length s2 \<le> length s1"
      using f leadingFraction_length [of "tl s1" False 0 1 f sc s2] by (auto split: if_splits)
    moreover have "length s1 \<le> length s" by (rule leadingInt_length [OF l])
    moreover have "0 < length s2" using u by (cases s2) auto
    moreover have "0 < length (takeWhile unitChar s2)" using u by simp
    ultimately show ?thesis using r by (metis diff_less length_drop less_le_trans)
  qed
  then show ?thesis using assms
    by (auto simp: durationItem_def Let_def split: if_splits option.splits prod.splits)
qed

function durationSum :: "string \<Rightarrow> int \<Rightarrow> int option" where
  "durationSum s d =
     (if s = [] then Some d
      else case durationItem s of
        None \<Rightarrow> None
      | Some (v, r) \<Rightarrow> if d + v > half64 then None else durationSum r (d + v))"
  by pat_completeness auto
termination
  by (relation "measure (length \<circ> fst)") (auto dest: durationItem_progress)

declare durationSum.simps [simp del]

definition parseDuration :: "string \<Rightarrow> duration option" where
  "parseDuration s =
     (let (neg, s1) = (case s of c # r \<Rightarrow> if c = CHR ''-'' \<or> c = CHR ''+'' then (c = CHR ''-'', r) else (False, s) | [] \<Rightarrow> (False, s))
      in if s1 = ''0'' then Some 0
         else if s1 = [] then None
         else case durationSum s1 0 of
           None \<Rightarrow> None
         | Some d \<Rightarrow> if neg then Some (- d) else if d > half64 - 1 then None else Some d)"

section \<open>Integers from text\<close>

text \<open>\<^verbatim>\<open>Sscanf(v, "%d", &out)\<close>: white space without newlines, a sign, and as many digits as there are;
  what follows is not looked at.\<close>

definition sscanfInt :: "string \<Rightarrow> int option" where
  "sscanfInt v =
     (let r = trimLeftSpace v;
          blank = take (length v - length r) v;
          (sign, r) = (case r of c # r' \<Rightarrow> if c = CHR ''-'' \<or> c = CHR ''+'' then ([c], r') else ([], r) | [] \<Rightarrow> ([], r));
          ds = takeWhile isDigit r
      in if CHR 0x0A \<in> set blank \<or> ds = [] then None else parseInt 64 (sign @ ds))"

section \<open>Host and port\<close>

definition lastIndexByte :: "string \<Rightarrow> char \<Rightarrow> nat option" where
  "lastIndexByte s c = (case indexByte (rev s) c of None \<Rightarrow> None | Some i \<Rightarrow> Some (length s - 1 - i))"

definition splitHostPort :: "string \<Rightarrow> (string \<times> string) option" where
  "splitHostPort hostport = (case lastIndexByte hostport (CHR '':'') of
       None \<Rightarrow> None
     | Some i \<Rightarrow>
         if hd hostport = CHR ''['' then
           (case indexByte hostport (CHR '']'') of
              None \<Rightarrow> None
            | Some e \<Rightarrow>
                if e + 1 \<noteq> i then None
                else if CHR ''['' \<in> set (drop 1 hostport) \<or> CHR '']'' \<in> set (drop (e + 1) hostport) then None
                else Some (drop 1 (take e hostport), drop (i + 1) hostport))
         else let host = take i hostport
              in if CHR '':'' \<in> set host then None
                 else if CHR ''['' \<in> set hostport \<or> CHR '']'' \<in> set hostport then None
                 else Some (host, drop (i + 1) hostport))"

end
