(* ===== verification/FileSys.thy ===== *)
theory FileSys
  imports EMS_Prelude
begin

text \<open>
  The operating system as the configuration store uses it, and the store's own file primitives
  \<^verbatim>\<open>writeTempSibling\<close>, \<^verbatim>\<open>renameAtomic\<close>, \<^verbatim>\<open>atomicWrite\<close> and
  \<^verbatim>\<open>cleanupStagedFiles\<close> (\<^verbatim>\<open>internal/ems/configuration/store.go\<close>).

  A file has a content, permission bits and an owner. Every system call may fail: the state
  carries a schedule \<open>faults\<close> that says, for the n-th call from the start, with which error it
  fails, if it does; a call that fails has no effect. The names that \<^verbatim>\<open>os.CreateTemp\<close> tries are
  drawn from a stream of random suffixes, up to the 10000 attempts of the Go library.

  An operation returns its result and the new state. The frame laws \<open>touches\<close> and \<open>keeps\<close> say
  which files it may change: no file that existed before, except the one it is meant to replace.
\<close>

section \<open>State and system calls\<close>

record inode =
  content :: bytes
  perm :: nat
  uid :: nat
  gid :: nat

record fs =
  files :: "string \<Rightarrow> inode option"
  faults :: "nat \<Rightarrow> oserr option"
  clock :: nat
  rnd :: "nat \<Rightarrow> string"
  drawn :: nat

type_synonym 'a io = "fs \<Rightarrow> 'a result \<times> fs"

definition tick :: "fs \<Rightarrow> fs" where
  "tick s = s\<lparr>clock := Suc (clock s)\<rparr>"

text \<open>A system call: the scheduled error, or what the call does.\<close>

definition syscall :: "(fs \<Rightarrow> 'a result \<times> fs) \<Rightarrow> 'a io" where
  "syscall f s = (case faults s (clock s) of Some e \<Rightarrow> (Inl (OSErr e), tick s) | None \<Rightarrow> f (tick s))"

definition osReadFile :: "string \<Rightarrow> bytes io" where
  "osReadFile path = syscall (\<lambda>s. case files s path of
     None \<Rightarrow> (Inl (OSErr ENOENT), s) | Some f \<Rightarrow> (Inr (content f), s))"

definition osStat :: "string \<Rightarrow> inode io" where
  "osStat path = syscall (\<lambda>s. case files s path of
     None \<Rightarrow> (Inl (OSErr ENOENT), s) | Some f \<Rightarrow> (Inr f, s))"

definition osRemove :: "string \<Rightarrow> unit io" where
  "osRemove path = syscall (\<lambda>s. case files s path of
     None \<Rightarrow> (Inl (OSErr ENOENT), s) | Some f \<Rightarrow> (Inr (), s\<lparr>files := (files s)(path := None)\<rparr>))"

definition osRename :: "string \<Rightarrow> string \<Rightarrow> unit io" where
  "osRename old new = syscall (\<lambda>s. case files s old of
     None \<Rightarrow> (Inl (OSErr ENOENT), s)
   | Some f \<Rightarrow> (Inr (), s\<lparr>files := (files s)(old := None, new := Some f)\<rparr>))"

text \<open>Changing an open temporary file: owner, content, permission bits; and the calls without an
  effect on the model, \<^verbatim>\<open>Sync\<close> and \<^verbatim>\<open>Close\<close>.\<close>

definition osUpdate :: "string \<Rightarrow> (inode \<Rightarrow> inode) \<Rightarrow> unit io" where
  "osUpdate name g = syscall (\<lambda>s. (Inr (), s\<lparr>files := (files s)(name := map_option g (files s name))\<rparr>))"

definition osNop :: "unit io" where
  "osNop = syscall (\<lambda>s. (Inr (), s))"

text \<open>\<^verbatim>\<open>filepath.Dir\<close> and \<^verbatim>\<open>filepath.Base\<close> on clean paths.\<close>

definition goDir :: "string \<Rightarrow> string" where
  "goDir path = (if CHR ''/'' \<notin> set path then ''.''
     else let d = butlast (rev (dropWhile (\<lambda>c. c \<noteq> CHR ''/'') (rev path)))
       in if d = [] then ''/'' else d)"

definition goBase :: "string \<Rightarrow> string" where
  "goBase path = (let b = rev (takeWhile (\<lambda>c. c \<noteq> CHR ''/'') (rev path)) in
     if path = [] then ''.'' else if b = [] then ''/'' else b)"

definition tempName :: "string \<Rightarrow> string \<Rightarrow> string" where
  "tempName dir r = dir @ ''/.cfg-'' @ r"

fun drawTemp :: "nat \<Rightarrow> string \<Rightarrow> string io" where
  "drawTemp 0 dir s = (Inl (OSErr EEXIST), s)"
| "drawTemp (Suc tries) dir s =
     (let name = tempName dir (rnd s (drawn s)); s = s\<lparr>drawn := Suc (drawn s)\<rparr> in
      if files s name \<noteq> None then drawTemp tries dir s
      else (Inr name, s\<lparr>files := (files s)(name \<mapsto> \<lparr>content = [], perm = 384, uid = 0, gid = 0\<rparr>)\<rparr>))"

definition osCreateTemp :: "string \<Rightarrow> string io" where
  "osCreateTemp dir = syscall (drawTemp 10000 dir)"

section \<open>The store's file primitives\<close>

definition bindIO :: "'a io \<Rightarrow> ('a \<Rightarrow> 'b io) \<Rightarrow> 'b io" where
  "bindIO m f s = (case m s of (Inl e, s') \<Rightarrow> (Inl e, s') | (Inr x, s') \<Rightarrow> f x s')"

text \<open>On an error, run a clean-up whose own error is ignored.\<close>

definition onError :: "'a io \<Rightarrow> (fs \<Rightarrow> fs) \<Rightarrow> 'a io" where
  "onError m h s = (case m s of (Inl e, s') \<Rightarrow> (Inl e, h s') | r \<Rightarrow> r)"

definition closeRemove :: "string \<Rightarrow> fs \<Rightarrow> fs" where
  "closeRemove tmp s = snd (osRemove tmp (snd (osNop s)))"

text \<open>The owner is copied when the old file could be examined; not being allowed to is no
  error.\<close>

definition chownTemp :: "string \<Rightarrow> (nat \<times> nat) option \<Rightarrow> unit io" where
  "chownTemp tmp owner s = (case owner of None \<Rightarrow> (Inr (), s)
     | Some (u, g) \<Rightarrow> (case osUpdate tmp (\<lambda>f. f\<lparr>uid := u, gid := g\<rparr>) s of
           (Inl (OSErr EPERM), s') \<Rightarrow> (Inr (), s') | r \<Rightarrow> r))"

definition writeTempSibling :: "string \<Rightarrow> bytes \<Rightarrow> string io" where
  "writeTempSibling path data s =
     (case osStat path s of (st, s) \<Rightarrow>
        let mode = (case st of Inr f \<Rightarrow> perm f | Inl _ \<Rightarrow> 420);
            owner = (case st of Inr f \<Rightarrow> Some (uid f, gid f) | Inl _ \<Rightarrow> None)
        in bindIO (osCreateTemp (goDir path)) (\<lambda>tmp.
             bindIO (onError (chownTemp tmp owner) (closeRemove tmp)) (\<lambda>_.
             bindIO (onError (osUpdate tmp (\<lambda>f. f\<lparr>content := data\<rparr>)) (closeRemove tmp)) (\<lambda>_.
             bindIO (onError (osUpdate tmp (\<lambda>f. f\<lparr>perm := mode\<rparr>)) (closeRemove tmp)) (\<lambda>_.
             bindIO (onError osNop (closeRemove tmp)) (\<lambda>_.
             bindIO (onError osNop (\<lambda>s. snd (osRemove tmp s))) (\<lambda>_ s. (Inr tmp, s))))))) s)"

definition renameAtomic :: "string \<Rightarrow> string \<Rightarrow> unit io" where
  "renameAtomic tmp final s = (case osRename tmp final s of
       (Inl (OSErr e), s') \<Rightarrow>
         (Inl (if e \<in> {EBUSY, EXDEV, EPERM}
               then WrapErr (''atomic rename '' @ tmp @ '' -> '' @ final @ '' failed'') (OSErr e)
               else OSErr e), s')
     | (Inl e, s') \<Rightarrow> (Inl e, s')
     | (Inr _, s') \<Rightarrow>
         (case osNop s' of (Inl _, s'') \<Rightarrow> (Inr (), s'')
          | (Inr _, s'') \<Rightarrow> (Inr (), snd (osNop (snd (osNop s''))))))"

definition atomicWrite :: "string \<Rightarrow> bytes \<Rightarrow> unit io" where
  "atomicWrite path data = bindIO (writeTempSibling path data) (\<lambda>tmp.
     onError (renameAtomic tmp path) (\<lambda>s. snd (osRemove tmp s)))"

record stagedFile =
  final :: string
  tmp :: string

fun cleanupStagedFiles :: "stagedFile list \<Rightarrow> fs \<Rightarrow> err option \<times> fs" where
  "cleanupStagedFiles [] s = (None, s)"
| "cleanupStagedFiles (f # fs) s = (case osRemove (tmp f) s of (r, s1) \<Rightarrow>
     (case cleanupStagedFiles fs s1 of (rest, s2) \<Rightarrow>
       (case r of Inl e \<Rightarrow> (if e \<noteq> OSErr ENOENT then Some e else rest, s2) | Inr _ \<Rightarrow> (rest, s2))))"

text \<open>The loop of \<^verbatim>\<open>commitStagedFiles\<close>, with the files applied so far, last first.\<close>

fun commitLoop :: "stagedFile list \<Rightarrow> stagedFile list \<Rightarrow> unit io" where
  "commitLoop applied [] s = (Inr (), s)"
| "commitLoop applied (f # fs) s = (case renameAtomic (tmp f) (final f) s of
     (Inl e, s') \<Rightarrow> (Inl e, fold (\<lambda>a s. snd (osRemove (tmp a) s)) applied s')
   | (Inr _, s') \<Rightarrow> commitLoop (f # applied) fs s')"

definition commitStagedFiles :: "stagedFile list \<Rightarrow> unit io" where
  "commitStagedFiles staged = commitLoop [] staged"

lemma bindIO_Inr [simp]: "bindIO m f s = (Inr y, s') \<longleftrightarrow> (\<exists>x s1. m s = (Inr x, s1) \<and> f x s1 = (Inr y, s'))"
  by (auto simp: bindIO_def split: prod.splits sum.splits)

lemma onError_Inr [simp]: "onError m h s = (Inr x, s') \<longleftrightarrow> m s = (Inr x, s')"
  by (auto simp: onError_def split: prod.splits sum.splits)

section \<open>Frame laws\<close>

text \<open>\<open>touches A\<close>: a step that changes no file outside \<open>A\<close> and goes on with the same fault
  schedule and random stream.\<close>

definition touches :: "string set \<Rightarrow> fs \<Rightarrow> fs \<Rightarrow> bool" where
  "touches A s s' \<longleftrightarrow> faults s' = faults s \<and> rnd s' = rnd s \<and> clock s \<le> clock s' \<and> drawn s \<le> drawn s'
     \<and> (\<forall>p. p \<notin> A \<longrightarrow> files s' p = files s p)"

named_theorems touch_intros \<open>which files an operation touches\<close>

lemma touches_refl [simp, touch_intros]: "touches A s s"
  by (simp add: touches_def)

lemma touches_trans: "touches A s s' \<Longrightarrow> touches B s' s'' \<Longrightarrow> touches (A \<union> B) s s''"
  by (auto simp: touches_def)

lemma touches_trans_same: "touches A s s' \<Longrightarrow> touches A s' s'' \<Longrightarrow> touches A s s''"
  by (auto simp: touches_def)

lemma touches_mono: "touches A s s' \<Longrightarrow> A \<subseteq> B \<Longrightarrow> touches B s s'"
  by (auto simp: touches_def)

lemma touches_syscall [touch_intros]:
  "(\<And>s. touches A s (snd (f s))) \<Longrightarrow> touches A s (snd (syscall f s))"
proof -
  assume a: "\<And>s. touches A s (snd (f s))"
  have "touches A s (tick s)" by (simp add: touches_def tick_def)
  then show ?thesis
    using touches_trans_same [OF _ a [of "tick s"]] by (simp add: syscall_def split: option.split)
qed

lemma touches_bindIO [touch_intros]:
  assumes "touches A s (snd (m s))" "\<And>x s'. m s = (Inr x, s') \<Longrightarrow> touches A s' (snd (f x s'))"
  shows "touches A s (snd (bindIO m f s))"
  using assms by (auto simp: bindIO_def split: prod.split sum.split intro: touches_trans_same)

lemma touches_onError [touch_intros]:
  assumes "touches A s (snd (m s))" "\<And>s'. touches A s' (h s')"
  shows "touches A s (snd (onError m h s))"
  using assms by (auto simp: onError_def split: prod.split sum.split intro: touches_trans_same)

lemma touches_osReadFile [touch_intros]: "touches A s (snd (osReadFile p s))"
  unfolding osReadFile_def by (rule touches_syscall) (simp split: option.split)

lemma touches_osStat [touch_intros]: "touches A s (snd (osStat p s))"
  unfolding osStat_def by (rule touches_syscall) (simp split: option.split)

lemma touches_osRemove [touch_intros]: "p \<in> A \<Longrightarrow> touches A s (snd (osRemove p s))"
  unfolding osRemove_def by (rule touches_syscall) (auto simp: touches_def split: option.split)

lemma touches_osRename [touch_intros]: "p \<in> A \<Longrightarrow> q \<in> A \<Longrightarrow> touches A s (snd (osRename p q s))"
  unfolding osRename_def by (rule touches_syscall) (auto simp: touches_def split: option.split)

lemma touches_osUpdate [touch_intros]: "p \<in> A \<Longrightarrow> touches A s (snd (osUpdate p g s))"
  unfolding osUpdate_def by (rule touches_syscall) (auto simp: touches_def)

lemma touches_osNop [touch_intros]: "touches A s (snd (osNop s))"
  unfolding osNop_def by (rule touches_syscall) simp

lemma touches_closeRemove [touch_intros]: "p \<in> A \<Longrightarrow> touches A s (closeRemove p s)"
  unfolding closeRemove_def by (rule touches_trans_same [OF touches_osNop touches_osRemove])

lemma touches_chownTemp [touch_intros]: "p \<in> A \<Longrightarrow> touches A s (snd (chownTemp p owner s))"
  using touches_osUpdate [of p A s]
  by (auto simp: chownTemp_def split: option.split prod.split sum.split err.split oserr.split)
     (metis snd_conv)+

lemma touches_renameAtomic [touch_intros]:
  assumes "p \<in> A" "q \<in> A" shows "touches A s (snd (renameAtomic p q s))"
proof -
  have 1: "touches A s (snd (osRename p q s))" using assms by (rule touches_osRename)
  have 2: "touches A s' (snd (osNop s'))" for s' by (rule touches_osNop)
  have "touches A s s1 \<Longrightarrow> touches A s (snd (osNop s1))" for s1 using 2 touches_trans_same by blast
  then show ?thesis using 1
    by (auto simp: renameAtomic_def split: prod.split sum.split err.split) (metis snd_conv)+
qed

lemma drawTemp_spec:
  "drawTemp n dir s = (r, s') \<Longrightarrow> faults s' = faults s \<and> rnd s' = rnd s \<and> clock s' = clock s \<and> drawn s \<le> drawn s'
    \<and> (case r of Inl e \<Rightarrow> files s' = files s
       | Inr t \<Rightarrow> files s t = None \<and> (\<exists>f. files s' = (files s)(t \<mapsto> f))
           \<and> (\<exists>n < drawn s'. t = tempName dir (rnd s n)))"
proof (induction n dir s rule: drawTemp.induct)
  case (2 n dir s)
  define name where "name = tempName dir (rnd s (drawn s))"
  define s1 where "s1 = s\<lparr>drawn := Suc (drawn s)\<rparr>"
  show ?case
  proof (cases "files s name")
    case None
    then show ?thesis using "2.prems" by (auto simp: name_def Let_def)
  next
    case (Some f)
    then have "drawTemp n dir s1 = (r, s')" using "2.prems" by (auto simp: name_def s1_def Let_def)
    then show ?thesis
      using "2.IH" [OF name_def s1_def] Some by (auto simp: s1_def split: sum.splits)
  qed
qed auto

lemma osCreateTemp_ok:
  assumes "osCreateTemp dir s = (Inr t, s')"
  shows "files s t = None" "touches {t} s s'" "\<exists>f. files s' t = Some f"
    "\<exists>n < drawn s'. t = tempName dir (rnd s n)"
  using assms drawTemp_spec [of 10000 dir "tick s" "Inr t" s']
  by (auto simp: osCreateTemp_def syscall_def touches_def tick_def split: option.splits)

lemma osCreateTemp_err: "osCreateTemp dir s = (Inl e, s') \<Longrightarrow> touches {} s s'"
  using drawTemp_spec [of 10000 dir "tick s" "Inl e" s']
  by (auto simp: osCreateTemp_def syscall_def touches_def tick_def split: option.splits)

text \<open>The part of \<^verbatim>\<open>writeTempSibling\<close> after the temporary file exists.\<close>

definition fillTemp :: "string \<Rightarrow> bytes \<Rightarrow> nat \<Rightarrow> (nat \<times> nat) option \<Rightarrow> string io" where
  "fillTemp t data mode owner =
     bindIO (onError (chownTemp t owner) (closeRemove t)) (\<lambda>_.
     bindIO (onError (osUpdate t (\<lambda>f. f\<lparr>content := data\<rparr>)) (closeRemove t)) (\<lambda>_.
     bindIO (onError (osUpdate t (\<lambda>f. f\<lparr>perm := mode\<rparr>)) (closeRemove t)) (\<lambda>_.
     bindIO (onError osNop (closeRemove t)) (\<lambda>_.
     bindIO (onError osNop (\<lambda>s. snd (osRemove t s))) (\<lambda>_ s. (Inr t, s))))))"

lemma touches_fillTemp: "touches {t} s (snd (fillTemp t data mode owner s))"
  unfolding fillTemp_def by (intro touch_intros) simp_all

lemma osUpdate_ok: "osUpdate t g s = (Inr x, s') \<Longrightarrow> files s' t = map_option g (files s t)"
  by (auto simp: osUpdate_def syscall_def tick_def split: option.splits)

lemma osNop_ok: "osNop s = (r, s') \<Longrightarrow> files s' = files s"
  by (auto simp: osNop_def syscall_def tick_def split: option.splits)

lemma chownTemp_ok:
  "chownTemp t owner s = (Inr x, s') \<Longrightarrow> files s t \<noteq> None \<Longrightarrow> files s' t \<noteq> None"
  by (auto simp: chownTemp_def osUpdate_def syscall_def tick_def
      split: option.splits prod.splits sum.splits err.splits oserr.splits)

lemma fillTemp_ok:
  assumes "fillTemp t data mode owner s = (Inr t', s')" "files s t \<noteq> None"
  shows "t' = t" "\<exists>f. files s' t = Some f \<and> content f = data \<and> perm f = mode"
proof -
  obtain s1 s2 s3 s4 where
    1: "chownTemp t owner s = (Inr (), s1)" and
    2: "osUpdate t (\<lambda>f. f\<lparr>content := data\<rparr>) s1 = (Inr (), s2)" and
    3: "osUpdate t (\<lambda>f. f\<lparr>perm := mode\<rparr>) s2 = (Inr (), s3)" and
    4: "osNop s3 = (Inr (), s4)" and 5: "osNop s4 = (Inr (), s')" and "t' = t"
    using assms(1) by (auto simp: fillTemp_def)
  then show "t' = t" by simp
  obtain f where "files s1 t = Some f" using chownTemp_ok [OF 1 assms(2)] by blast
  then show "\<exists>f. files s' t = Some f \<and> content f = data \<and> perm f = mode"
    using osUpdate_ok [OF 2] osUpdate_ok [OF 3] osNop_ok [OF 4] osNop_ok [OF 5] by auto
qed

lemma writeTempSibling_fill:
  "writeTempSibling path data s = (case osStat path s of (st, s1) \<Rightarrow>
     bindIO (osCreateTemp (goDir path)) (\<lambda>t. fillTemp t data
       (case st of Inr f \<Rightarrow> perm f | Inl _ \<Rightarrow> 420)
       (case st of Inr f \<Rightarrow> Some (uid f, gid f) | Inl _ \<Rightarrow> None)) s1)"
  by (simp add: writeTempSibling_def fillTemp_def Let_def)

text \<open>A successful \<^verbatim>\<open>writeTempSibling\<close> creates one new file with the data; a failed one changes no
  existing file.\<close>

lemma writeTempSibling_ok:
  assumes "writeTempSibling path data s = (Inr t, s')"
  shows "files s t = None" "touches {t} s s'" "\<exists>f. files s' t = Some f \<and> content f = data"
    "\<exists>d. \<exists>n < drawn s'. t = tempName d (rnd s n)"
proof -
  obtain st s1 where st: "osStat path s = (st, s1)" by (cases "osStat path s")
  have s1: "touches {} s s1" using touches_osStat [of "{}" s path] st by simp
  obtain t1 s2 where t1: "osCreateTemp (goDir path) s1 = (Inr t1, s2)"
    and fill: "fillTemp t1 data (case st of Inr f \<Rightarrow> perm f | Inl _ \<Rightarrow> 420)
       (case st of Inr f \<Rightarrow> Some (uid f, gid f) | Inl _ \<Rightarrow> None) s2 = (Inr t, s')"
    using assms st by (auto simp: writeTempSibling_fill)
  note c = osCreateTemp_ok [OF t1]
  note f = fillTemp_ok [OF fill]
  have "t = t1" using f(1) c(3) by auto
  have "touches {t1} s2 s'" using touches_fillTemp [of t1 s2] fill by (metis snd_conv)
  then show "touches {t} s s'"
    using s1 c(2) \<open>t = t1\<close> touches_trans_same touches_mono [OF s1, of "{t1}"] by blast
  show "files s t = None" using c(1) s1 \<open>t = t1\<close> by (simp add: touches_def)
  have "drawn s2 \<le> drawn s'" "rnd s1 = rnd s" using \<open>touches {t1} s2 s'\<close> s1 by (auto simp: touches_def)
  then show "\<exists>d. \<exists>n < drawn s'. t = tempName d (rnd s n)"
    using c(4) \<open>t = t1\<close> less_le_trans by metis
  show "\<exists>f. files s' t = Some f \<and> content f = data" using f(2) c(3) \<open>t = t1\<close> by auto
qed

lemma writeTempSibling_err:
  assumes "writeTempSibling path data s = (Inl e, s')"
  shows "\<exists>A. touches A s s' \<and> (\<forall>p \<in> A. files s p = None \<and> (\<exists>d. \<exists>n < drawn s'. p = tempName d (rnd s n)))"
proof -
  obtain st s1 where st: "osStat path s = (st, s1)" by (cases "osStat path s")
  have s1: "touches {} s s1" using touches_osStat [of "{}" s path] st by simp
  obtain r s2 where r: "osCreateTemp (goDir path) s1 = (r, s2)" by (cases "osCreateTemp (goDir path) s1")
  show ?thesis
  proof (cases r)
    case (Inl e')
    then have "s' = s2" using assms st r by (simp add: writeTempSibling_fill bindIO_def)
    then show ?thesis using Inl r osCreateTemp_err s1 touches_trans_same by blast
  next
    case (Inr t)
    note c = osCreateTemp_ok [OF r [unfolded Inr]]
    have "touches {t} s2 s'"
      using assms st r Inr touches_fillTemp [of t s2] by (simp add: writeTempSibling_fill bindIO_def) (metis snd_conv)
    then have "touches {t} s s'"
      using c(2) s1 touches_trans_same touches_mono [OF s1, of "{t}"] by blast
    moreover have "files s t = None" using c(1) s1 by (simp add: touches_def)
    moreover have "drawn s2 \<le> drawn s'" "rnd s1 = rnd s"
      using \<open>touches {t} s2 s'\<close> s1 by (auto simp: touches_def)
    then have "\<exists>d. \<exists>n < drawn s'. t = tempName d (rnd s n)" using c(4) less_le_trans by metis
    ultimately show ?thesis by blast
  qed
qed

section \<open>Existing files\<close>

text \<open>\<open>keeps P\<close>: every existing file outside \<open>P\<close> is unchanged. Unlike \<open>touches\<close> it does
  not speak of new names, so it composes over any sequence of operations.\<close>

definition keeps :: "string set \<Rightarrow> fs \<Rightarrow> fs \<Rightarrow> bool" where
  "keeps P s s' \<longleftrightarrow> faults s' = faults s \<and> clock s \<le> clock s'
     \<and> (\<forall>q. files s q \<noteq> None \<and> q \<notin> P \<longrightarrow> files s' q = files s q)"

lemma keeps_refl [simp]: "keeps P s s"
  by (simp add: keeps_def)

lemma keeps_trans: "keeps P s s' \<Longrightarrow> keeps P s' s'' \<Longrightarrow> keeps P s s''"
  by (auto simp: keeps_def)

lemma keeps_mono: "keeps P s s' \<Longrightarrow> P \<subseteq> Q \<Longrightarrow> keeps Q s s'"
  by (auto simp: keeps_def)

lemma touches_keeps: "touches A s s' \<Longrightarrow> (\<And>p. p \<in> A \<Longrightarrow> files s p = None \<or> p \<in> P) \<Longrightarrow> keeps P s s'"
  by (fastforce simp: touches_def keeps_def)

lemma writeTempSibling_keeps:
  assumes "writeTempSibling path data s = (r, s')" shows "keeps {} s s'"
proof (cases r)
  case (Inl e)
  then show ?thesis
    using writeTempSibling_err [of path data s e s'] assms touches_keeps by blast
next
  case (Inr t)
  then have "files s t = None" "touches {t} s s'" using writeTempSibling_ok [of path data s t s'] assms by auto
  then show ?thesis by (intro touches_keeps [of "{t}"]) auto
qed

definition faulted :: "fs \<Rightarrow> fs \<Rightarrow> bool" where
  "faulted s s' \<longleftrightarrow> (\<exists>k. clock s \<le> k \<and> k < clock s' \<and> faults s k \<noteq> None)"

lemma osRename_cases:
  "(\<exists>e. osRename t p s = (Inl e, tick s) \<and> (files s t = None \<or> faults s (clock s) \<noteq> None))
   \<or> (\<exists>f. files s t = Some f \<and> osRename t p s = (Inr (), (tick s)\<lparr>files := (files s)(t := None, p \<mapsto> f)\<rparr>))"
  by (auto simp: osRename_def syscall_def tick_def split: option.split)

lemma renameAtomic_ok:
  assumes "renameAtomic t p s = (Inr x, s')"
  shows "\<exists>f. files s t = Some f \<and> files s' = (files s)(t := None, p \<mapsto> f)"
  using osRename_cases [of t p s]
proof
  assume "\<exists>e. osRename t p s = (Inl e, tick s) \<and> (files s t = None \<or> faults s (clock s) \<noteq> None)"
  then show ?thesis using assms by (auto simp: renameAtomic_def split: err.splits)
next
  assume "\<exists>f. files s t = Some f \<and> osRename t p s = (Inr (), (tick s)\<lparr>files := (files s)(t := None, p \<mapsto> f)\<rparr>)"
  then obtain f s1 where f: "files s t = Some f" "osRename t p s = (Inr (), s1)"
    "files s1 = (files s)(t := None, p \<mapsto> f)" by auto
  have nop: "files (snd (osNop s0)) = files s0" for s0 using osNop_ok by (metis prod.collapse)
  have "files s' = files s1"
    using assms f(2) nop by (auto simp: renameAtomic_def split: prod.splits sum.splits) (metis snd_conv)+
  then show ?thesis using f by simp
qed

lemma renameAtomic_err:
  assumes "renameAtomic t p s = (Inl e, s')"
  shows "keeps {} s s'" "files s' = files s" "files s t \<noteq> None \<Longrightarrow> faulted s s'" "touches {} s s'"
proof -
  have "\<not> (\<exists>f s1. osRename t p s = (Inr f, s1))"
    using assms by (auto simp: renameAtomic_def split: prod.splits sum.splits)
  then have *: "s' = tick s" "files s t = None \<or> faults s (clock s) \<noteq> None"
    using osRename_cases [of t p s] assms by (auto simp: renameAtomic_def split: err.splits)
  then show "keeps {} s s'" "files s' = files s" "touches {} s s'"
    by (auto simp: keeps_def tick_def touches_def)
  show "files s t \<noteq> None \<Longrightarrow> faulted s s'"
    using * by (auto simp: faulted_def tick_def intro!: exI [of _ "clock s"])
qed

lemma osRemove_keeps: "files s t = None \<or> t \<in> P \<Longrightarrow> keeps P s (snd (osRemove t s))"
  using touches_osRemove [of t "{t}" s] by (rule touches_keeps) auto

text \<open>\<^verbatim>\<open>atomicWrite\<close> gives the file the new content or leaves it as it was; other files stay.\<close>

lemma atomicWrite_spec:
  assumes "atomicWrite p data s = (r, s')" "files s p \<noteq> None"
  shows "keeps {p} s s'"
    "case r of Inl e \<Rightarrow> files s' p = files s p | Inr _ \<Rightarrow> \<exists>f. files s' p = Some f \<and> content f = data"
proof -
  obtain r1 s1 where w: "writeTempSibling p data s = (r1, s1)" by (cases "writeTempSibling p data s")
  have k1: "keeps {} s s1" using w by (rule writeTempSibling_keeps)
  have goal: "keeps {p} s s' \<and> (case r of Inl e \<Rightarrow> files s' p = files s p
      | Inr _ \<Rightarrow> \<exists>f. files s' p = Some f \<and> content f = data)"
  proof (cases r1)
    case (Inl e)
    then have "r = Inl e" "s' = s1" using assms w by (auto simp: atomicWrite_def bindIO_def)
    then show ?thesis using k1 assms(2) keeps_mono [OF k1] by (auto simp: keeps_def)
  next
    case (Inr t)
    note t = writeTempSibling_ok [OF w [unfolded Inr]]
    have tp: "t \<noteq> p" using t(1) assms(2) by auto
    obtain r2 s2 where rn: "renameAtomic t p s1 = (r2, s2)" by (cases "renameAtomic t p s1")
    show ?thesis
    proof (cases r2)
      case (Inl e)
      then have rs: "r = Inl e" "s' = snd (osRemove t s2)"
        using assms w Inr rn by (auto simp: atomicWrite_def bindIO_def onError_def)
      have s2: "files s2 = files s1" "touches {} s1 s2" using renameAtomic_err [OF rn [unfolded Inl]] by auto
      have "touches {t} s s'"
        using t(2) touches_mono [OF s2(2), of "{t}"] touches_osRemove [of t "{t}" s2] rs(2) touches_trans_same by blast
      then show ?thesis using rs t(1) tp touches_keeps [of "{t}" s s' "{p}"] by (auto simp: touches_def)
    next
      case (Inr u)
      then have rs: "r = Inr u" "s' = s2"
        using assms w \<open>r1 = Inr t\<close> rn by (auto simp: atomicWrite_def bindIO_def onError_def)
      obtain f where f: "files s1 t = Some f" "files s2 = (files s1)(t := None, p \<mapsto> f)"
        using renameAtomic_ok [OF rn [unfolded Inr]] by blast
      have "touches {t, p} s1 s2" using touches_renameAtomic [of t "{t, p}" p s1] rn by simp
      then have "touches {t, p} s s'"
        using touches_mono [OF t(2), of "{t, p}"] rs(2) touches_trans_same by auto
      then have "keeps {p} s s'" using t(1) by (auto intro: touches_keeps)
      moreover have "content f = data" using t(3) f(1) by auto
      ultimately show ?thesis using rs f(2) by auto
    qed
  qed
  show "keeps {p} s s'" using goal by blast
  show "case r of Inl e \<Rightarrow> files s' p = files s p | Inr _ \<Rightarrow> \<exists>f. files s' p = Some f \<and> content f = data"
    using goal by blast
qed

section \<open>Runs without further faults\<close>

text \<open>No call fails from here on.\<close>

definition spent :: "fs \<Rightarrow> bool" where
  "spent s \<longleftrightarrow> (\<forall>k \<ge> clock s. faults s k = None)"

text \<open>The random names still to be drawn are not taken, and different draws give different
  names.\<close>

definition tempNames :: "fs \<Rightarrow> bool" where
  "tempNames s \<longleftrightarrow> inj (rnd s) \<and> (\<forall>n. CHR ''-'' \<notin> set (rnd s n))
     \<and> (\<forall>n \<ge> drawn s. \<forall>d. files s (tempName d (rnd s n)) = None)"

lemma tempName_inj:
  assumes "tempName d r = tempName d' r'" "CHR ''-'' \<notin> set r" "CHR ''-'' \<notin> set r'"
  shows "r = r'"
proof -
  have tail: "takeWhile (\<lambda>c. c \<noteq> CHR ''-'') (rev (tempName d r)) = rev r"
    if "CHR ''-'' \<notin> set r" for d r
    using that takeWhile_tail [of "\<lambda>c. c \<noteq> CHR ''-''" "CHR ''-''" "rev r"]
    by (auto simp: tempName_def takeWhile_append)
  from tail [OF assms(2), of d] tail [OF assms(3), of d'] assms(1) have "rev r = rev r'" by simp
  then show ?thesis by simp
qed

lemma tempNames_touches:
  assumes "tempNames s" "touches A s s'"
    and "\<And>p. p \<in> A \<Longrightarrow> files s p \<noteq> None \<or> (\<exists>d. \<exists>n < drawn s'. p = tempName d (rnd s n))"
  shows "tempNames s'"
  unfolding tempNames_def
proof (intro conjI allI impI)
  show "inj (rnd s')" "CHR ''-'' \<notin> set (rnd s' n)" for n
    using assms(1,2) by (auto simp: tempNames_def touches_def)
  fix n d assume n: "drawn s' \<le> n"
  have r: "rnd s' = rnd s" and "drawn s \<le> drawn s'" using assms(2) by (auto simp: touches_def)
  then have none: "files s (tempName d (rnd s n)) = None" using assms(1) n by (auto simp: tempNames_def)
  show "files s' (tempName d (rnd s' n)) = None"
  proof (cases "tempName d (rnd s n) \<in> A")
    case True
    then obtain d' m where m: "m < drawn s'" "tempName d (rnd s n) = tempName d' (rnd s m)"
      using assms(3) none by blast
    have "CHR ''-'' \<notin> set (rnd s n)" "CHR ''-'' \<notin> set (rnd s m)" "inj (rnd s)"
      using assms(1) by (auto simp: tempNames_def)
    then have "n = m" using tempName_inj [OF m(2)] by (simp add: inj_eq)
    then show ?thesis using n m(1) by simp
  next
    case False
    then show ?thesis using none assms(2) r by (auto simp: touches_def)
  qed
qed

lemma spent_keeps: "spent s \<Longrightarrow> keeps P s s' \<Longrightarrow> spent s'"
  by (auto simp: spent_def keeps_def)

lemma syscall_spent: "spent s \<Longrightarrow> syscall f s = f (tick s)"
  by (simp add: syscall_def spent_def)

lemma spent_tick [simp]: "spent s \<Longrightarrow> spent (tick s)"
  by (simp add: spent_def tick_def)

lemma osUpdate_spent: "spent s \<Longrightarrow> osUpdate t g s = (Inr (), (tick s)\<lparr>files := (files s)(t := map_option g (files s t))\<rparr>)"
  by (simp add: osUpdate_def syscall_spent tick_def)

lemma osNop_spent: "spent s \<Longrightarrow> osNop s = (Inr (), tick s)"
  by (simp add: osNop_def syscall_spent)

lemma spent_files [simp]: "spent (s\<lparr>files := m\<rparr>) = spent s" "spent (s\<lparr>drawn := n\<rparr>) = spent s"
  by (simp_all add: spent_def)

lemma osCreateTemp_spent:
  assumes "spent s" "tempNames s"
  shows "\<exists>t s'. osCreateTemp dir s = (Inr t, s') \<and> spent s'"
proof -
  have 1: "drawTemp 10000 dir = drawTemp (Suc 9999) dir" by simp
  have "files (tick s) (tempName dir (rnd (tick s) (drawn (tick s)))) = None"
    using assms(2) by (simp add: tempNames_def tick_def)
  then show ?thesis
    using assms(1) unfolding osCreateTemp_def syscall_spent [OF assms(1)] 1 drawTemp.simps Let_def by simp
qed

lemma fillTemp_spent: "spent s \<Longrightarrow> \<exists>s'. fillTemp t data mode owner s = (Inr t, s')"
  by (cases owner) (auto simp: fillTemp_def bindIO_def onError_def chownTemp_def osUpdate_spent osNop_spent)

lemma writeTempSibling_spent:
  assumes "spent s" "tempNames s"
  shows "\<exists>t s'. writeTempSibling path data s = (Inr t, s') \<and> spent s' \<and> tempNames s'"
proof -
  obtain st s1 where st: "osStat path s = (st, s1)" by (cases "osStat path s")
  have s1: "s1 = tick s" using st assms(1) by (auto simp: osStat_def syscall_spent split: option.splits)
  have tn1: "tempNames s1" using assms(2) s1 by (simp add: tempNames_def tick_def)
  obtain t s2 where t: "osCreateTemp (goDir path) s1 = (Inr t, s2)" "spent s2"
    using osCreateTemp_spent [of s1 "goDir path"] assms(1) s1 tn1 by auto
  obtain s' where "fillTemp t data (case st of Inr f \<Rightarrow> perm f | Inl _ \<Rightarrow> 420)
       (case st of Inr f \<Rightarrow> Some (uid f, gid f) | Inl _ \<Rightarrow> None) s2 = (Inr t, s')"
    using fillTemp_spent [OF t(2)] by blast
  then have w: "writeTempSibling path data s = (Inr t, s')"
    using st t by (simp add: writeTempSibling_fill bindIO_def)
  note ok = writeTempSibling_ok [OF w]
  have "spent s'" using spent_keeps [OF assms(1) writeTempSibling_keeps [OF w]] .
  moreover have "tempNames s'" using ok(4) by (intro tempNames_touches [OF assms(2) ok(2)]) auto
  ultimately show ?thesis using w by blast
qed

lemma renameAtomic_spent:
  assumes "spent s" "files s t = Some f"
  shows "\<exists>s'. renameAtomic t p s = (Inr (), s')"
proof -
  obtain s1 where "osRename t p s = (Inr (), s1)"
    using assms by (simp add: osRename_def syscall_spent tick_def)
  then show ?thesis by (auto simp: renameAtomic_def split: prod.split sum.split)
qed

lemma atomicWrite_spent:
  assumes "spent s" "tempNames s" "files s p \<noteq> None"
  shows "\<exists>s'. atomicWrite p data s = (Inr (), s') \<and> spent s' \<and> tempNames s'"
proof -
  obtain t s1 where w: "writeTempSibling p data s = (Inr t, s1)" "spent s1" "tempNames s1"
    using writeTempSibling_spent [OF assms(1,2)] by blast
  note ok = writeTempSibling_ok [OF w(1)]
  obtain s2 where r: "renameAtomic t p s1 = (Inr (), s2)" using renameAtomic_spent w(2) ok(3) by blast
  have a: "atomicWrite p data s = (Inr (), s2)" using w r by (simp add: atomicWrite_def)
  have t12: "touches {t, p} s1 s2" using touches_renameAtomic [of t "{t, p}" p s1] r by simp
  have "files s1 p = files s p" using ok(1,2) assms(3) by (metis singletonD touches_def)
  then have "tempNames s2" using ok(3) assms(3) by (intro tempNames_touches [OF w(3) t12]) auto
  moreover have "spent s2" using spent_keeps [OF assms(1) atomicWrite_spec(1) [OF a assms(3)]] .
  ultimately show ?thesis using a by blast
qed

end
