(* ===== verification/AlarmDictionary.thy ===== *)
theory AlarmDictionary
  imports GoFloat
begin

text \<open>
  The alarm dictionary and the normalisation of alarms
  (\<^verbatim>\<open>internal/ems/fcaps/alarms/dictionary.go\<close>, constants of \<^verbatim>\<open>types.go\<close>): an alarm
  raised with a bare code is completed to the X.733 fields that the northbound interface needs.
\<close>

section \<open>Constants\<close>

definition StatusActive :: string where "StatusActive = ''active''"
definition StatusCleared :: string where "StatusCleared = ''cleared''"
definition EventTypeCommunicationsAlarm :: string where "EventTypeCommunicationsAlarm = ''CommunicationsAlarm''"
definition EventTypeProcessingErrorAlarm :: string where "EventTypeProcessingErrorAlarm = ''ProcessingErrorAlarm''"
definition EventTypeQualityOfServiceAlarm :: string where "EventTypeQualityOfServiceAlarm = ''QualityOfServiceAlarm''"
definition EventTypeEquipmentAlarm :: string where "EventTypeEquipmentAlarm = ''EquipmentAlarm''"
definition SeverityCritical :: string where "SeverityCritical = ''CRITICAL''"
definition SeverityMajor :: string where "SeverityMajor = ''MAJOR''"
definition SeverityMinor :: string where "SeverityMinor = ''MINOR''"
definition SeverityWarning :: string where "SeverityWarning = ''WARNING''"
definition SeverityCleared :: string where "SeverityCleared = ''CLEARED''"
definition ProbableCauseLANError :: string where "ProbableCauseLANError = ''LAN_ERROR''"
definition ProbableCauseSoftwareError :: string where "ProbableCauseSoftwareError = ''SOFTWARE_ERROR''"
definition ProbableCauseThresholdCrossed :: string where "ProbableCauseThresholdCrossed = ''THRESHOLD_CROSSED''"
definition ProbableCauseEquipmentMalfunc :: string where "ProbableCauseEquipmentMalfunc = ''EQUIPMENT_MALFUNCTION''"
definition ProbableCauseCommunicationsFail :: string where "ProbableCauseCommunicationsFail = ''COMMUNICATIONS_FAILURE''"
definition AlarmS1Down :: string where "AlarmS1Down = ''Alarm_S1_Down''"
definition AlarmS1InterfaceDown :: string where "AlarmS1InterfaceDown = ''Alarm_S1_Interface_Down''"
definition AlarmNASSignalingLoss :: string where "AlarmNASSignalingLoss = ''Alarm_NAS_Signaling_Loss''"
definition AlarmNASSecurityMismatch :: string where "AlarmNASSecurityMismatch = ''Alarm_NAS_Security_Mismatch''"
definition AlarmNASParsingFailure :: string where "AlarmNASParsingFailure = ''Alarm_NAS_Parsing_Failure''"
definition AlarmRRCProtocolError :: string where "AlarmRRCProtocolError = ''Alarm_RRC_Protocol_Error''"
definition AlarmRRCConnectionRejection :: string where "AlarmRRCConnectionRejection = ''Alarm_RRC_Connection_Rejection''"
definition AlarmCoreServiceReject :: string where "AlarmCoreServiceReject = ''Alarm_Core_Service_Reject''"
definition AlarmPagingCapacityExceeded :: string where "AlarmPagingCapacityExceeded = ''Alarm_Paging_Capacity_Exceeded''"
definition AlarmRLCMaxRetransmissions :: string where "AlarmRLCMaxRetransmissions = ''Alarm_RLC_Max_Retransmissions''"
definition AlarmLowThroughput :: string where "AlarmLowThroughput = ''Alarm_Low_Throughput''"
definition AlarmLowThroughputActiveUsers :: string where "AlarmLowThroughputActiveUsers = ''Alarm_Low_Throughput_Active_Users''"
definition AlarmLowSINR :: string where "AlarmLowSINR = ''Alarm_Low_SINR''"
definition AlarmBadSignalCondition :: string where "AlarmBadSignalCondition = ''Alarm_Bad_Signal_Condition''"
definition AlarmHighBLER :: string where "AlarmHighBLER = ''Alarm_High_BLER''"
definition AlarmRadioLinkFailureStorm :: string where "AlarmRadioLinkFailureStorm = ''Alarm_Radio_Link_Failure_Storm''"
definition AlarmRFInterferenceDetected :: string where "AlarmRFInterferenceDetected = ''Alarm_RF_Interference_Detected''"
definition AlarmUEInactivityCleanup :: string where "AlarmUEInactivityCleanup = ''Alarm_UE_Inactivity_Cleanup''"
definition AlarmBearerCongestion :: string where "AlarmBearerCongestion = ''Alarm_Bearer_Congestion''"
definition AlarmPowerHeadroomCritical :: string where "AlarmPowerHeadroomCritical = ''Alarm_Power_Headroom_Critical''"
definition AlarmUDSDisconnected :: string where "AlarmUDSDisconnected = ''Alarm_UDS_Disconnected''"
definition AlarmSrsENBProcessDown :: string where "AlarmSrsENBProcessDown = ''Alarm_SrsENB_ProcessDown''"
definition AlarmNetconfDown :: string where "AlarmNetconfDown = ''Alarm_Netconf_Down''"
definition AlarmGenericEMS :: string where "AlarmGenericEMS = ''Alarm_EMS_Generic''"

section \<open>Alarms and definitions\<close>

record Alarm =
  aCode :: string
  aMessage :: string
  aSeverity :: string
  aAlarmID :: string
  aManagedObjectInstance :: string
  aEventType :: string
  aProbableCause :: string
  aPerceivedSeverity :: string
  aSpecificProblem :: string

record Definition =
  dAlarmID :: string
  dEventType :: string
  dProbableCause :: string
  dPerceivedSeverity :: string
  dSpecificProblem :: string

definition Dictionary :: "(string \<times> Definition) list" where
  "Dictionary = [
     (AlarmS1Down, \<lparr>dAlarmID = AlarmS1Down, dEventType = EventTypeCommunicationsAlarm, dProbableCause = ProbableCauseCommunicationsFail,
        dPerceivedSeverity = SeverityCritical, dSpecificProblem = ''S1AP connectivity is down''\<rparr>),
     (AlarmS1InterfaceDown, \<lparr>dAlarmID = AlarmS1InterfaceDown, dEventType = EventTypeCommunicationsAlarm, dProbableCause = ProbableCauseCommunicationsFail,
        dPerceivedSeverity = SeverityCritical, dSpecificProblem = ''S1 interface to MME is down''\<rparr>),
     (AlarmNASSignalingLoss, \<lparr>dAlarmID = AlarmNASSignalingLoss, dEventType = EventTypeCommunicationsAlarm, dProbableCause = ProbableCauseCommunicationsFail,
        dPerceivedSeverity = SeverityMajor, dSpecificProblem = ''NAS signalling messages are dropped or failed''\<rparr>),
     (AlarmNASSecurityMismatch, \<lparr>dAlarmID = AlarmNASSecurityMismatch, dEventType = EventTypeProcessingErrorAlarm, dProbableCause = ProbableCauseSoftwareError,
        dPerceivedSeverity = SeverityMajor, dSpecificProblem = ''Unknown NAS security header was observed''\<rparr>),
     (AlarmNASParsingFailure, \<lparr>dAlarmID = AlarmNASParsingFailure, dEventType = EventTypeProcessingErrorAlarm, dProbableCause = ProbableCauseSoftwareError,
        dPerceivedSeverity = SeverityCritical, dSpecificProblem = ''NAS message parsing failed''\<rparr>),
     (AlarmRRCProtocolError, \<lparr>dAlarmID = AlarmRRCProtocolError, dEventType = EventTypeProcessingErrorAlarm, dProbableCause = ProbableCauseSoftwareError,
        dPerceivedSeverity = SeverityMajor, dSpecificProblem = ''RRC protocol failure was reported''\<rparr>),
     (AlarmRRCConnectionRejection, \<lparr>dAlarmID = AlarmRRCConnectionRejection, dEventType = EventTypeCommunicationsAlarm, dProbableCause = ProbableCauseThresholdCrossed,
        dPerceivedSeverity = SeverityMinor, dSpecificProblem = ''RRC connection requests are being rejected''\<rparr>),
     (AlarmCoreServiceReject, \<lparr>dAlarmID = AlarmCoreServiceReject, dEventType = EventTypeCommunicationsAlarm, dProbableCause = ProbableCauseCommunicationsFail,
        dPerceivedSeverity = SeverityMajor, dSpecificProblem = ''Core network rejected UE service request''\<rparr>),
     (AlarmPagingCapacityExceeded, \<lparr>dAlarmID = AlarmPagingCapacityExceeded, dEventType = EventTypeCommunicationsAlarm, dProbableCause = ProbableCauseThresholdCrossed,
        dPerceivedSeverity = SeverityMajor, dSpecificProblem = ''Paging queue capacity was exceeded''\<rparr>),
     (AlarmRLCMaxRetransmissions, \<lparr>dAlarmID = AlarmRLCMaxRetransmissions, dEventType = EventTypeQualityOfServiceAlarm, dProbableCause = ProbableCauseThresholdCrossed,
        dPerceivedSeverity = SeverityMajor, dSpecificProblem = ''RLC maximum retransmission threshold reached''\<rparr>),
     (AlarmUDSDisconnected, \<lparr>dAlarmID = AlarmUDSDisconnected, dEventType = EventTypeCommunicationsAlarm, dProbableCause = ProbableCauseLANError,
        dPerceivedSeverity = SeverityCritical, dSpecificProblem = ''srsRAN metrics UDS is disconnected''\<rparr>),
     (AlarmSrsENBProcessDown, \<lparr>dAlarmID = AlarmSrsENBProcessDown, dEventType = EventTypeProcessingErrorAlarm, dProbableCause = ProbableCauseSoftwareError,
        dPerceivedSeverity = SeverityCritical, dSpecificProblem = ''srsENB process is not running''\<rparr>),
     (AlarmLowSINR, \<lparr>dAlarmID = AlarmLowSINR, dEventType = EventTypeQualityOfServiceAlarm, dProbableCause = ProbableCauseThresholdCrossed,
        dPerceivedSeverity = SeverityMajor, dSpecificProblem = ''UL SINR threshold crossed''\<rparr>),
     (AlarmBadSignalCondition, \<lparr>dAlarmID = AlarmBadSignalCondition, dEventType = EventTypeQualityOfServiceAlarm, dProbableCause = ProbableCauseThresholdCrossed,
        dPerceivedSeverity = SeverityWarning, dSpecificProblem = ''Radio signal quality is below acceptable threshold''\<rparr>),
     (AlarmHighBLER, \<lparr>dAlarmID = AlarmHighBLER, dEventType = EventTypeQualityOfServiceAlarm, dProbableCause = ProbableCauseThresholdCrossed,
        dPerceivedSeverity = SeverityMajor, dSpecificProblem = ''BLER threshold crossed''\<rparr>),
     (AlarmLowThroughput, \<lparr>dAlarmID = AlarmLowThroughput, dEventType = EventTypeQualityOfServiceAlarm, dProbableCause = ProbableCauseThresholdCrossed,
        dPerceivedSeverity = SeverityMajor, dSpecificProblem = ''Throughput threshold crossed''\<rparr>),
     (AlarmLowThroughputActiveUsers, \<lparr>dAlarmID = AlarmLowThroughputActiveUsers, dEventType = EventTypeQualityOfServiceAlarm, dProbableCause = ProbableCauseThresholdCrossed,
        dPerceivedSeverity = SeverityMajor, dSpecificProblem = ''Low throughput while RRC users are connected''\<rparr>),
     (AlarmRadioLinkFailureStorm, \<lparr>dAlarmID = AlarmRadioLinkFailureStorm, dEventType = EventTypeQualityOfServiceAlarm, dProbableCause = ProbableCauseThresholdCrossed,
        dPerceivedSeverity = SeverityCritical, dSpecificProblem = ''Radio link failures are increasing rapidly''\<rparr>),
     (AlarmRFInterferenceDetected, \<lparr>dAlarmID = AlarmRFInterferenceDetected, dEventType = EventTypeQualityOfServiceAlarm, dProbableCause = ProbableCauseThresholdCrossed,
        dPerceivedSeverity = SeverityMajor, dSpecificProblem = ''RF interference is detected on uplink control channel''\<rparr>),
     (AlarmUEInactivityCleanup, \<lparr>dAlarmID = AlarmUEInactivityCleanup, dEventType = EventTypeQualityOfServiceAlarm, dProbableCause = ProbableCauseThresholdCrossed,
        dPerceivedSeverity = SeverityWarning, dSpecificProblem = ''UE inactivity releases are growing abnormally''\<rparr>),
     (AlarmBearerCongestion, \<lparr>dAlarmID = AlarmBearerCongestion, dEventType = EventTypeQualityOfServiceAlarm, dProbableCause = ProbableCauseThresholdCrossed,
        dPerceivedSeverity = SeverityMinor, dSpecificProblem = ''Bearer queue is congested''\<rparr>),
     (AlarmPowerHeadroomCritical, \<lparr>dAlarmID = AlarmPowerHeadroomCritical, dEventType = EventTypeQualityOfServiceAlarm, dProbableCause = ProbableCauseThresholdCrossed,
        dPerceivedSeverity = SeverityWarning, dSpecificProblem = ''UE power headroom is critical''\<rparr>),
     (AlarmNetconfDown, \<lparr>dAlarmID = AlarmNetconfDown, dEventType = EventTypeCommunicationsAlarm, dProbableCause = ProbableCauseLANError,
        dPerceivedSeverity = SeverityMajor, dSpecificProblem = ''NETCONF server is down''\<rparr>),
     (AlarmGenericEMS, \<lparr>dAlarmID = AlarmGenericEMS, dEventType = EventTypeProcessingErrorAlarm, dProbableCause = ProbableCauseSoftwareError,
        dPerceivedSeverity = SeverityMajor, dSpecificProblem = ''EMS internal fault''\<rparr>)]"

text \<open>The entry of the generic alarm, which the code reads for unknown codes.\<close>

definition genericDefinition :: Definition where
  "genericDefinition = \<lparr>dAlarmID = AlarmGenericEMS, dEventType = EventTypeProcessingErrorAlarm,
     dProbableCause = ProbableCauseSoftwareError, dPerceivedSeverity = SeverityMajor,
     dSpecificProblem = ''EMS internal fault''\<rparr>"

section \<open>Normalisation\<close>

definition firstOf :: "string list \<Rightarrow> string" where
  "firstOf values = (case find (\<lambda>v. trimSpace v \<noteq> []) values of Some v \<Rightarrow> trimSpace v | None \<Rightarrow> [])"

definition canonicalCode :: "string \<Rightarrow> string \<Rightarrow> string" where
  "canonicalCode component code = (let c = toLower (trimSpace component) in
     if c = ''uds'' then AlarmUDSDisconnected
     else if c = ''netconf'' then AlarmNetconfDown
     else if contains code ''PROCESS'' then AlarmSrsENBProcessDown
     else if contains code ''NETWORK'' then AlarmS1Down
     else code)"

definition normalizeSeverity :: "string \<Rightarrow> string" where
  "normalizeSeverity sev = (let s = toLower (trimSpace sev) in
     if s = ''critical'' then SeverityCritical
     else if s = ''major'' then SeverityMajor
     else if s = ''minor'' then SeverityMinor
     else if s = ''warning'' \<or> s = ''warn'' then SeverityWarning
     else if s = ''cleared'' \<or> s = ''clear'' then SeverityCleared
     else [])"

definition Normalize :: "string \<Rightarrow> string \<Rightarrow> Alarm \<Rightarrow> Alarm" where
  "Normalize component managedObject alarm =
     (let code0 = (if trimSpace (aCode alarm) = [] then AlarmGenericEMS else trimSpace (aCode alarm));
          code = canonicalCode component code0;
          def = (case map_of Dictionary code of Some d \<Rightarrow> d | None \<Rightarrow> genericDefinition\<lparr>dAlarmID := code\<rparr>);
          perceived = firstOf [aPerceivedSeverity alarm, dPerceivedSeverity def, normalizeSeverity (aSeverity alarm)];
          problem = firstOf [aSpecificProblem alarm, aMessage alarm, dSpecificProblem def]
      in \<lparr>aCode = code,
          aMessage = firstOf [aMessage alarm, problem],
          aSeverity = firstOf [aSeverity alarm, toLower perceived],
          aAlarmID = firstOf [aAlarmID alarm, dAlarmID def, code],
          aManagedObjectInstance = firstOf [aManagedObjectInstance alarm, managedObject, component],
          aEventType = firstOf [aEventType alarm, dEventType def],
          aProbableCause = firstOf [aProbableCause alarm, dProbableCause def],
          aPerceivedSeverity = perceived,
          aSpecificProblem = problem\<rparr>)"

definition NewThresholdAlarmWithSeverity :: "string \<Rightarrow> string \<Rightarrow> string \<Rightarrow> float64 \<Rightarrow> string \<Rightarrow> Alarm" where
  "NewThresholdAlarmWithSeverity code moi problem value severity =
     (let def = (case map_of Dictionary code of Some d \<Rightarrow> d | None \<Rightarrow> genericDefinition);
          msg = (if problem = [] then dSpecificProblem def else problem);
          perceived = (if normalizeSeverity severity \<noteq> [] then normalizeSeverity severity else dPerceivedSeverity def)
      in \<lparr>aCode = code, aMessage = msg, aSeverity = toLower perceived, aAlarmID = code,
          aManagedObjectInstance = moi, aEventType = dEventType def, aProbableCause = dProbableCause def,
          aPerceivedSeverity = perceived, aSpecificProblem = msg\<rparr>)"

definition NewThresholdAlarm :: "string \<Rightarrow> string \<Rightarrow> string \<Rightarrow> float64 \<Rightarrow> Alarm" where
  "NewThresholdAlarm code moi problem value = NewThresholdAlarmWithSeverity code moi problem value []"

section \<open>What normalisation achieves\<close>

lemma genericDefinition_entry: "map_of Dictionary AlarmGenericEMS = Some genericDefinition"
  by (simp add: Dictionary_def genericDefinition_def) (code_simp)

definition settled :: "string \<Rightarrow> bool" where
  "settled s \<longleftrightarrow> s \<noteq> [] \<and> trimSpace s = s"

lemma firstOf_Cons: "firstOf (v # vs) = (if trimSpace v \<noteq> [] then trimSpace v else firstOf vs)"
  by (simp add: firstOf_def)

lemma firstOf_Nil [simp]: "firstOf [] = []"
  by (simp add: firstOf_def)

lemma firstOf_settled: "settled s \<Longrightarrow> firstOf (s # vs) = s"
  by (simp add: firstOf_Cons settled_def)

lemma firstOf_trimmed [simp]: "trimSpace (firstOf vs) = firstOf vs"
  by (auto simp: firstOf_def split: option.split)

lemma firstOf_is_settled: "v \<in> set vs \<Longrightarrow> settled v \<Longrightarrow> settled (firstOf vs)"
  by (induction vs) (auto simp: firstOf_Cons settled_def)

definition settledDef :: "Definition \<Rightarrow> bool" where
  "settledDef d \<longleftrightarrow> settled (dAlarmID d) \<and> settled (dEventType d) \<and> settled (dProbableCause d)
     \<and> settled (dPerceivedSeverity d) \<and> settled (dSpecificProblem d)"

lemma Dictionary_settled: "list_all (\<lambda>(k, d). settledDef d) Dictionary"
  by code_simp

lemma definition_settled:
  assumes "settled code"
  shows "settledDef (case map_of Dictionary code of Some d \<Rightarrow> d | None \<Rightarrow> genericDefinition\<lparr>dAlarmID := code\<rparr>)"
proof (cases "map_of Dictionary code")
  case None
  have "settledDef genericDefinition"
    using map_of_SomeD [OF genericDefinition_entry] Dictionary_settled by (auto simp: list_all_iff)
  then show ?thesis using None assms by (simp add: settledDef_def)
next
  case (Some d)
  then show ?thesis using map_of_SomeD [OF Some] Dictionary_settled by (auto simp: list_all_iff)
qed

lemma canonicalCode_cases:
  "canonicalCode c code \<in> {AlarmUDSDisconnected, AlarmNetconfDown, AlarmSrsENBProcessDown, AlarmS1Down, code}"
  by (simp add: canonicalCode_def Let_def)

lemma code_constants:
  "list_all (\<lambda>k. settled k \<and> \<not> contains k ''PROCESS'' \<and> \<not> contains k ''NETWORK'')
     [AlarmUDSDisconnected, AlarmNetconfDown, AlarmSrsENBProcessDown, AlarmS1Down, AlarmGenericEMS]"
  by code_simp

lemma canonicalCode_settled: "settled code \<Longrightarrow> settled (canonicalCode c code)"
  using canonicalCode_cases [of c code] code_constants by auto

lemma canonicalCode_idem: "canonicalCode c (canonicalCode c code) = canonicalCode c code"
  using code_constants by (simp add: canonicalCode_def Let_def)

text \<open>Lower case keeps the ends of a string free of white space.\<close>

lemma toLowerChar_space:
  assumes "w \<in> set space_runes" "x \<in> set w" "toLowerChar c = x" shows "c = x"
proof -
  have sp: "list_all (list_all (\<lambda>x. (of_char x :: nat) < 97 \<or> 122 < (of_char x :: nat))) space_runes"
    by (simp add: space_runes_def)
  show ?thesis
  proof (cases "65 \<le> (of_char c :: nat) \<and> (of_char c :: nat) \<le> 90")
    case True
    then have "x = char_of ((of_char c :: nat) + 32)" using assms(3) by (simp add: toLowerChar_def Let_def)
    then have "(of_char x :: nat) = of_char c + 32" using True by (simp add: of_char_of)
    moreover have "(of_char x :: nat) < 97 \<or> 122 < (of_char x :: nat)" using sp assms(1,2) by (auto simp: list_all_iff)
    ultimately show ?thesis using True by simp
  qed (use assms(3) in \<open>auto simp: toLowerChar_def Let_def\<close>)
qed

lemma prefix_map_origin: "prefix w (map f s) \<Longrightarrow> (\<And>x c. x \<in> set w \<Longrightarrow> f c = x \<Longrightarrow> c = x) \<Longrightarrow> prefix w s"
proof (induction w arbitrary: s)
  case (Cons x w)
  from Cons.prems(1) obtain a t where s: "s = a # t" "f a = x" "prefix w (map f t)" by (cases s) auto
  have "a = x" by (rule Cons.prems(2) [OF _ s(2)]) simp
  moreover have "prefix w t" by (rule Cons.IH [OF s(3)]) (rule Cons.prems(2), simp_all)
  ultimately show ?case using s(1) by simp
qed simp

lemma trimSpace_toLower: "trimSpace s = s \<Longrightarrow> trimSpace (toLower s) = toLower s"
proof (rule trimSpace_id)
  assume "trimSpace s = s"
  then have s: "no_edge_space s" using trimSpace_clean [of s] by simp
  show "no_edge_space (toLower s)"
    unfolding no_edge_space_def
  proof (intro ballI impI conjI notI)
    fix w assume w: "w \<in> set space_runes" "w \<noteq> []"
    { assume "prefix w (toLower s)"
      then have "prefix w s" using toLowerChar_space [OF w(1)] by (auto simp: toLower_def dest: prefix_map_origin)
      then show False using s w by (auto simp: no_edge_space_def) }
    { assume "suffix w (toLower s)"
      then have "prefix (rev w) (map toLowerChar (rev s))" by (simp add: toLower_def suffix_to_prefix rev_map)
      then have "prefix (rev w) (rev s)" using toLowerChar_space [OF w(1)] by (auto dest: prefix_map_origin)
      then show False using s w by (auto simp: no_edge_space_def suffix_to_prefix) }
  qed
qed

lemma settled_toLower: "settled s \<Longrightarrow> settled (toLower s)"
  by (simp add: settled_def trimSpace_toLower) (simp add: toLower_def)

definition settledAlarm :: "Alarm \<Rightarrow> bool" where
  "settledAlarm a \<longleftrightarrow> settled (aCode a) \<and> settled (aMessage a) \<and> settled (aSeverity a) \<and> settled (aAlarmID a)
     \<and> settled (aEventType a) \<and> settled (aProbableCause a) \<and> settled (aPerceivedSeverity a) \<and> settled (aSpecificProblem a)"

lemma Normalize_settled: "settledAlarm (Normalize c mo a)"
proof -
  define code where "code = canonicalCode c (if trimSpace (aCode a) = [] then AlarmGenericEMS else trimSpace (aCode a))"
  define def where "def = (case map_of Dictionary code of Some d \<Rightarrow> d | None \<Rightarrow> genericDefinition\<lparr>dAlarmID := code\<rparr>)"
  define perceived where "perceived = firstOf [aPerceivedSeverity a, dPerceivedSeverity def, normalizeSeverity (aSeverity a)]"
  define problem where "problem = firstOf [aSpecificProblem a, aMessage a, dSpecificProblem def]"
  have c: "settled code" unfolding code_def using code_constants by (intro canonicalCode_settled) (auto simp: settled_def)
  note d = definition_settled [OF c, folded def_def, unfolded settledDef_def]
  have p: "settled perceived" "settled problem"
    unfolding perceived_def problem_def using d by (auto intro: firstOf_is_settled)
  have "settled (firstOf [aMessage a, problem])" "settled (firstOf [aSeverity a, toLower perceived])"
      "settled (firstOf [aAlarmID a, dAlarmID def, code])" "settled (firstOf [aEventType a, dEventType def])"
      "settled (firstOf [aProbableCause a, dProbableCause def])"
    using d p settled_toLower [OF p(1)] by (auto intro: firstOf_is_settled)
  then show ?thesis using c p
    unfolding settledAlarm_def Normalize_def Let_def code_def [symmetric] def_def [symmetric]
      perceived_def [symmetric] problem_def [symmetric] by simp
qed

text \<open>normalisation completes every alarm and is stable: whatever an alarm lacks, afterwards its
  code, message, severities, identifier, event type, cause and problem are non-empty and trimmed, and
  normalising again changes nothing.\<close>

theorem normalize_completes_and_is_stable:
  "settledAlarm (Normalize component managedObject alarm)
   \<and> Normalize component managedObject (Normalize component managedObject alarm) = Normalize component managedObject alarm"
proof -
  let ?n = "Normalize component managedObject alarm"
  note s = Normalize_settled [of component managedObject alarm, unfolded settledAlarm_def]
  have code: "canonicalCode component (aCode ?n) = aCode ?n"
    by (simp add: Normalize_def Let_def canonicalCode_idem)
  have mo: "firstOf [aManagedObjectInstance ?n, managedObject, component] = aManagedObjectInstance ?n"
    by (simp add: Normalize_def Let_def firstOf_Cons)
  have "trimSpace (aCode ?n) \<noteq> []" "trimSpace (aCode ?n) = aCode ?n" using s by (auto simp: settled_def)
  then have "Normalize component managedObject ?n = ?n"
    unfolding Normalize_def [of component managedObject ?n] Let_def
    using s code mo by (simp add: firstOf_settled)
  then show ?thesis using Normalize_settled by blast
qed

end
