(* ===== verification/EmsErrors.thy ===== *)
theory EmsErrors
  imports GoTime AlarmDictionary
begin

text \<open>
  The element manager's typed errors (\<^verbatim>\<open>internal/errors\<close>): a chain of errors in which any
  link may carry a code and a severity, and what fault management reads off the chain. Stack
  traces are not modelled.
\<close>

type_synonym Severity = string

definition ErrCodeInternal :: string where "ErrCodeInternal = ''INTERNAL''"
definition ErrCodeNetwork :: string where "ErrCodeNetwork = ''NETWORK''"
definition ErrCodeDataCorrupt :: string where "ErrCodeDataCorrupt = ''DATA_CORRUPT''"
definition ErrCodeConfig :: string where "ErrCodeConfig = ''CONFIG''"
definition ErrCodeIO :: string where "ErrCodeIO = ''IO''"
definition ErrCodeProcess :: string where "ErrCodeProcess = ''PROCESS''"

definition ErrSeverityUnknown :: Severity where "ErrSeverityUnknown = ''unknown''"
definition ErrSeverityInfo :: Severity where "ErrSeverityInfo = ''info''"
definition ErrSeverityWarning :: Severity where "ErrSeverityWarning = ''warning''"
definition ErrSeverityMinor :: Severity where "ErrSeverityMinor = ''minor''"
definition ErrSeverityMajor :: Severity where "ErrSeverityMajor = ''major''"
definition ErrSeverityCritical :: Severity where "ErrSeverityCritical = ''critical''"

text \<open>An error of the Go libraries with its text and, if it wraps one, its cause; or a typed error.\<close>

datatype goerror = StdErr string "goerror option"
  | EmsErr (eCode: string) (eSeverity: Severity) (eOp: string) (eMsg: string) (eErr: "goerror option") (eTime: time)

fun errorText :: "goerror \<Rightarrow> string" where
  "errorText (StdErr s cause) = s"
| "errorText (EmsErr code sev op msg cause t) =
     (if op \<noteq> [] then op @ '': '' else []) @ (if code \<noteq> [] then code @ '': '' else []) @ msg
     @ (case cause of None \<Rightarrow> [] | Some e \<Rightarrow> (if msg \<noteq> [] then '': '' else []) @ errorText e)"

type_synonym errOption = "goerror \<Rightarrow> goerror"

fun WithOp :: "string \<Rightarrow> errOption" where
  "WithOp op (EmsErr code sev op' msg cause t) = EmsErr code sev op msg cause t"
| "WithOp op e = e"

fun WithSeverity :: "Severity \<Rightarrow> errOption" where
  "WithSeverity sev (EmsErr code sev' op msg cause t) = EmsErr code sev op msg cause t"
| "WithSeverity sev e = e"

fun WithTime :: "time \<Rightarrow> errOption" where
  "WithTime t (EmsErr code sev op msg cause t') = EmsErr code sev op msg cause t"
| "WithTime t e = e"

definition NewError :: "time \<Rightarrow> string \<Rightarrow> string \<Rightarrow> errOption list \<Rightarrow> goerror" where
  "NewError now code msg opts = fold (\<lambda>f e. f e) opts (EmsErr code ErrSeverityUnknown [] msg None now)"

definition Wrap :: "time \<Rightarrow> goerror option \<Rightarrow> string \<Rightarrow> string \<Rightarrow> errOption list \<Rightarrow> goerror option" where
  "Wrap now err code msg opts =
     (if err = None then None
      else Some (fold (\<lambda>f e. f e) opts (EmsErr code ErrSeverityUnknown [] msg err now)))"

fun unwrap :: "goerror \<Rightarrow> goerror option" where
  "unwrap (StdErr s cause) = cause"
| "unwrap (EmsErr code sev op msg cause t) = cause"

text \<open>The first typed error of the chain.\<close>

fun asError :: "goerror \<Rightarrow> goerror option" where
  "asError (EmsErr code sev op msg cause t) = Some (EmsErr code sev op msg cause t)"
| "asError (StdErr s cause) = (case cause of None \<Rightarrow> None | Some e \<Rightarrow> asError e)"

definition CodeOf :: "goerror option \<Rightarrow> string" where
  "CodeOf err = (case Option.bind err asError of Some (EmsErr code _ _ _ _ _) \<Rightarrow> code | _ \<Rightarrow> [])"

definition SeverityOf :: "goerror option \<Rightarrow> Severity" where
  "SeverityOf err = (case Option.bind err asError of
       Some (EmsErr _ sev _ _ _ _) \<Rightarrow> if sev \<noteq> [] then sev else ErrSeverityUnknown
     | _ \<Rightarrow> ErrSeverityUnknown)"

definition severityRank :: "Severity \<Rightarrow> int" where
  "severityRank s =
     (if s = ErrSeverityInfo then 1 else if s = ErrSeverityWarning then 2 else if s = ErrSeverityMinor then 3
      else if s = ErrSeverityMajor then 4 else if s = ErrSeverityCritical then 5 else 0)"

definition AtLeast :: "Severity \<Rightarrow> Severity \<Rightarrow> bool" where
  "AtLeast s m \<longleftrightarrow> severityRank s \<ge> severityRank m"

definition emptyAlarm :: Alarm where
  "emptyAlarm = \<lparr>aCode = [], aMessage = [], aSeverity = [], aAlarmID = [], aManagedObjectInstance = [],
     aEventType = [], aProbableCause = [], aPerceivedSeverity = [], aSpecificProblem = []\<rparr>"

definition errorAlarm :: "goerror option \<Rightarrow> Alarm" where
  "errorAlarm err = (case err of
       None \<Rightarrow> emptyAlarm\<lparr>aCode := ''OK'', aMessage := ''no error'', aSeverity := ErrSeverityInfo\<rparr>
     | Some e \<Rightarrow>
         (case asError e of
            Some (EmsErr code sev op msg cause t) \<Rightarrow>
              (let msg = (if msg = [] then ''error'' else msg);
                   msg = (case cause of None \<Rightarrow> msg | Some c \<Rightarrow> msg @ '': '' @ errorText c)
               in emptyAlarm\<lparr>aCode := ''EMS_'' @ code, aMessage := msg,
                    aSeverity := if sev = [] then ErrSeverityUnknown else sev\<rparr>)
          | _ \<Rightarrow> emptyAlarm\<lparr>aCode := ''EMS_UNKNOWN'', aMessage := errorText e, aSeverity := ErrSeverityUnknown\<rparr>))"

section \<open>Laws\<close>

text \<open>Wrapping an error keeps the chain reachable and puts its own code and severity in front.\<close>

lemma Wrap_front:
  "CodeOf (Wrap now (Some e) code msg [WithSeverity sev]) = code"
  "SeverityOf (Wrap now (Some e) code msg [WithSeverity sev]) = (if sev = [] then ErrSeverityUnknown else sev)"
  "Option.bind (Wrap now (Some e) code msg [WithOp op]) unwrap = Some e"
  by (simp_all add: CodeOf_def SeverityOf_def Wrap_def)

lemma AtLeast_trans: "AtLeast s t \<Longrightarrow> AtLeast t u \<Longrightarrow> AtLeast s u"
  by (simp add: AtLeast_def)

lemma severe_is_typed: "AtLeast (SeverityOf err) ErrSeverityMajor \<Longrightarrow> \<exists>e. err = Some e \<and> asError e \<noteq> None"
  by (cases err) (auto simp: SeverityOf_def AtLeast_def severityRank_def ErrSeverityUnknown_def ErrSeverityMajor_def
      ErrSeverityInfo_def ErrSeverityWarning_def ErrSeverityMinor_def ErrSeverityCritical_def split: option.splits)

text \<open>The severity of the alarm of an error is the severity that decided to raise it.\<close>

lemma errorAlarm_severity: "aSeverity (errorAlarm (Some e)) = SeverityOf (Some e)"
  by (auto simp: errorAlarm_def SeverityOf_def Let_def split: option.split goerror.split)

end
