(* ===== verification/GoMaps.thy ===== *)
theory GoMaps
  imports Main "HOL-Library.AList"
begin

text \<open>
  A Go map is an association list without repeated keys: assigning to a key replaces its entry or
  appends a new one. The order of the list is the order of an iteration, which Go leaves open;
  nothing is proved from it unless the claim says so.
\<close>

lemma set_update_subset: "set (AList.update k v xs) \<subseteq> insert (k, v) (set xs)"
  by (induction xs) auto

lemma keys_update: "set (map fst (AList.update k v xs)) = insert k (set (map fst xs))"
  using dom_update [of k v xs] by (auto simp: dom_map_of_conv_image_fst)

lemma update_fresh: "k \<notin> set (map fst xs) \<Longrightarrow> AList.update k v xs = xs @ [(k, v)]"
  by (induction xs) auto

lemma update_known: "k \<in> set (map fst xs) \<Longrightarrow> map fst (AList.update k v xs) = map fst xs"
  by (induction xs) auto

end
