(* ===== verification/NRM.thy ===== *)
theory NRM
  imports EmsErrors GoMaps "HOL-Library.List_Lexorder" "HOL-Library.Char_ord"
begin

text \<open>
  The network resource model: distinguished names (\<^verbatim>\<open>internal/ems/domain/nrm/dn.go\<close>), the
  registry of managed objects (\<^verbatim>\<open>registry.go\<close>, \<^verbatim>\<open>mo.go\<close>) and the canonical samples it
  names (\<^verbatim>\<open>domain/canonical/canonical.go\<close>).

  A Go map is an association list without repeated keys. Every method that touches the maps of
  the registry holds its mutex from the first to the last access, so a run of concurrent callers
  is a sequence of calls. The locale \<open>naming\<close> states what the clients of the registry rely on:
  the name of a sample does not depend on the samples named before.
\<close>

section \<open>Canonical samples\<close>

definition Counter :: string where "Counter = ''COUNTER''"
definition Gauge :: string where "Gauge = ''GAUGE''"

record Metric =
  mName :: string
  mType :: string
  mValue :: float64
  mUnit :: string

record Sample =
  sTimestamp :: int64
  sSourceID :: string
  sScope :: string
  sMetrics :: "(string \<times> Metric) list"
  sAttrs :: "(string \<times> string) list"

section \<open>Distinguished names\<close>

type_synonym DN = string

record RDN =
  rKey :: string
  rValue :: string

definition rdn :: "string \<Rightarrow> string \<Rightarrow> RDN" where
  "rdn k v = \<lparr>rKey = k, rValue = v\<rparr>"

definition rdnText :: "RDN \<Rightarrow> string" where
  "rdnText p = rKey p @ CHR ''='' # rValue p"

definition Build :: "RDN list \<Rightarrow> DN" where
  "Build parts = (case parts of [] \<Rightarrow> [] | p # ps \<Rightarrow> rdnText p @ concat (map (\<lambda>q. CHR '','' # rdnText q) ps))"

definition AppendDN :: "DN \<Rightarrow> RDN list \<Rightarrow> DN" where
  "AppendDN base parts =
     (if base = [] then Build parts
      else if parts = [] then base
      else base @ concat (map (\<lambda>q. CHR '','' # rdnText q) parts))"

definition putSegment :: "string \<Rightarrow> (string \<times> string) list \<Rightarrow> (string \<times> string) list" where
  "putSegment seg m = (case cut seg (CHR ''='') of None \<Rightarrow> m | Some (k, v) \<Rightarrow> AList.update k v m)"

definition KeyValues :: "DN \<Rightarrow> (string \<times> string) list" where
  "KeyValues dn = (if dn = [] then [] else fold putSegment (splitOn (CHR '','') dn) [])"

definition Canonicalize :: "DN \<Rightarrow> DN" where
  "Canonicalize dn =
     (let m = KeyValues dn
      in if m = [] then []
         else Build (map (\<lambda>k. rdn k (case map_of m k of Some v \<Rightarrow> v | None \<Rightarrow> [])) (sort (map fst m))))"

section \<open>The registry\<close>

definition MOTypeSubNetwork :: string where "MOTypeSubNetwork = ''SubNetwork''"
definition MOTypeManagedElement :: string where "MOTypeManagedElement = ''ManagedElement''"
definition MOTypeENBFunction :: string where "MOTypeENBFunction = ''ENBFunction''"
definition MOTypeGNBFunction :: string where "MOTypeGNBFunction = ''GNBCUCPFunction''"
definition MOTypeEUtranCell :: string where "MOTypeEUtranCell = ''EUtranCell''"
definition MOTypeNRCellDU :: string where "MOTypeNRCellDU = ''NRCellDU''"

lemmas MOTypes = MOTypeSubNetwork_def MOTypeManagedElement_def MOTypeENBFunction_def
  MOTypeGNBFunction_def MOTypeEUtranCell_def MOTypeNRCellDU_def

record Object =
  oType :: string
  oName :: string
  oDN :: DN

record NRMConfig =
  nSubNetwork :: string
  nManagedElement :: string
  nENBFunctionID :: string
  nGNBFunctionID :: string
  nElementType :: string

record Registry =
  subNetwork :: string
  element :: string
  enbFnID :: string
  gnbFnID :: string
  elementType :: string
  objectsByDN :: "(DN \<times> Object) list"
  cellsByKey :: "(string \<times> Object) list"

definition isGNB :: "Registry \<Rightarrow> bool" where
  "isGNB r \<longleftrightarrow> gnbFnID r \<noteq> [] \<or> elementType r = ''gnb'' \<or> elementType r = ''oai-gnb''"

definition initStatic :: "Registry \<Rightarrow> Registry" where
  "initStatic r =
     (let (fnType, fnID) = (if isGNB r then (MOTypeGNBFunction, gnbFnID r) else (MOTypeENBFunction, enbFnID r));
          base = Build [rdn MOTypeSubNetwork (subNetwork r), rdn MOTypeManagedElement (element r), rdn fnType fnID]
      in r\<lparr>objectsByDN := AList.update base \<lparr>oType = fnType, oName = fnID, oDN = base\<rparr> (objectsByDN r)\<rparr>)"

definition NewRegistry :: "time \<Rightarrow> NRMConfig \<Rightarrow> goerror + Registry" where
  "NewRegistry now cfg =
     (let missing = (if nElementType cfg = ''gnb'' \<or> nElementType cfg = ''oai-gnb''
                     then nGNBFunctionID cfg = [] else nENBFunctionID cfg = [])
      in if nSubNetwork cfg = [] \<or> nManagedElement cfg = [] \<or> missing
         then Inl (NewError now ErrCodeConfig ''nrm config is incomplete''
                     [WithOp ''nrm'', WithSeverity ErrSeverityCritical])
         else Inr (initStatic \<lparr>subNetwork = nSubNetwork cfg, element = nManagedElement cfg,
                     enbFnID = nENBFunctionID cfg, gnbFnID = nGNBFunctionID cfg,
                     elementType = nElementType cfg, objectsByDN = [], cellsByKey = []\<rparr>))"

definition ENBDN :: "Registry \<Rightarrow> DN" where
  "ENBDN r = Build [rdn MOTypeSubNetwork (subNetwork r), rdn MOTypeManagedElement (element r),
     rdn MOTypeENBFunction (enbFnID r)]"

definition NodeDN :: "Registry \<Rightarrow> DN" where
  "NodeDN r = (if isGNB r
     then Build [rdn MOTypeSubNetwork (subNetwork r), rdn MOTypeManagedElement (element r),
                 rdn MOTypeGNBFunction (gnbFnID r)]
     else ENBDN r)"

function indexFrom :: "string \<Rightarrow> string \<Rightarrow> nat \<Rightarrow> nat option" where
  "indexFrom s sub i =
     (if i + length sub \<le> length s
      then if take (length sub) (drop i s) = sub then Some i else indexFrom s sub (i + 1)
      else None)"
  by auto
termination
  by (relation "measure (\<lambda>(s, sub, i). Suc (length s) - i)") auto

declare indexFrom.simps [simp del]

definition cellKeyFromSample :: "Sample \<Rightarrow> string" where
  "cellKeyFromSample s =
     (if sScope s = [] then []
      else let scope = (case indexFrom (sScope s) ''/ue:'' 0 of Some i \<Rightarrow> take i (sScope s) | None \<Rightarrow> sScope s)
           in if 5 \<le> length scope \<and> take 5 scope = ''cell:'' then scope else [])"

definition sanitizeChar :: "char \<Rightarrow> char" where
  "sanitizeChar ch =
     (let n = (of_char ch :: nat)
      in if 97 \<le> n \<and> n \<le> 122 then ch
         else if 65 \<le> n \<and> n \<le> 90 then char_of (n + 32)
         else if 48 \<le> n \<and> n \<le> 57 then ch
         else if ch = CHR ''-'' \<or> ch = CHR ''_'' \<or> ch = CHR ''.'' then ch
         else CHR ''-'')"

definition sanitizeCellID :: "string \<Rightarrow> string" where
  "sanitizeCellID scopeKey =
     (let id = (if 5 \<le> length scopeKey \<and> take 5 scopeKey = ''cell:'' then drop 5 scopeKey else scopeKey)
      in if id = [] then ''1''
         else let out = map sanitizeChar id
              in if out = [] then formatNat (length scopeKey) else out)"

definition ensureCell :: "string \<Rightarrow> Registry \<Rightarrow> DN \<times> Registry" where
  "ensureCell key r =
     (case map_of (cellsByKey r) key of
        Some obj \<Rightarrow> (oDN obj, r)
      | None \<Rightarrow>
          (let cellName = sanitizeCellID key;
               cellType = (if isGNB r then MOTypeNRCellDU else MOTypeEUtranCell);
               cellDN = AppendDN (NodeDN r) [rdn cellType cellName];
               obj = \<lparr>oType = cellType, oName = cellName, oDN = cellDN\<rparr>
           in (cellDN, r\<lparr>cellsByKey := AList.update key obj (cellsByKey r),
                         objectsByDN := AList.update cellDN obj (objectsByDN r)\<rparr>)))"

definition Resolve :: "time \<Rightarrow> Registry \<Rightarrow> Sample \<Rightarrow> (goerror + DN) \<times> Registry" where
  "Resolve now r s =
     (if sScope s = ''node'' then (Inr (NodeDN r), r)
      else if sScope s = [] then
        (Inl (NewError now ErrCodeDataCorrupt ''canonical sample scope is empty''
                [WithOp ''nrm'', WithSeverity ErrSeverityMajor]), r)
      else let cellKey = cellKeyFromSample s
           in if cellKey = [] then (Inr (NodeDN r), r)
              else (case ensureCell cellKey r of (dn, r') \<Rightarrow> (Inr dn, r')))"

definition GetObject :: "Registry \<Rightarrow> DN \<Rightarrow> Object option" where
  "GetObject r dn = map_of (objectsByDN r) dn"

definition EUtranCells :: "Registry \<Rightarrow> Object list" where
  "EUtranCells r = sort_key oDN (map snd (cellsByKey r))"

definition GetAttributes :: "Object \<Rightarrow> (string \<times> string) list" where
  "GetAttributes ob = [(''name'', oName ob)]"

section \<open>Reading a name back\<close>

definition cleanRDN :: "RDN \<Rightarrow> bool" where
  "cleanRDN p \<longleftrightarrow> CHR '','' \<notin> set (rKey p) \<and> CHR ''='' \<notin> set (rKey p) \<and> CHR '','' \<notin> set (rValue p)"

abbreviation rdnPair :: "RDN \<Rightarrow> string \<times> string" where
  "rdnPair p \<equiv> (rKey p, rValue p)"

lemma rdn_simps [simp]: "rKey (rdn k v) = k" "rValue (rdn k v) = v"
  by (simp_all add: rdn_def)

lemma rdnText_not_Nil [simp]: "rdnText p \<noteq> []"
  by (simp add: rdnText_def)

lemma Build_eq_Nil [simp]: "Build ps = [] \<longleftrightarrow> ps = []"
  by (cases ps) (auto simp: Build_def)

lemma rdnText_no_comma: "cleanRDN p \<Longrightarrow> CHR '','' \<notin> set (rdnText p)"
  by (auto simp: cleanRDN_def rdnText_def)

lemma Build_Cons: "ps \<noteq> [] \<Longrightarrow> Build (p # ps) = rdnText p @ CHR '','' # Build ps"
  by (cases ps) (simp_all add: Build_def)

lemma Build_snoc: "ps \<noteq> [] \<Longrightarrow> Build (ps @ [p]) = Build ps @ CHR '','' # rdnText p"
  by (cases ps) (simp_all add: Build_def)

lemma AppendDN_Build: "ps \<noteq> [] \<Longrightarrow> AppendDN (Build ps) [p] = Build (ps @ [p])"
  by (simp add: AppendDN_def Build_snoc)

lemma splitOn_Build: "ps \<noteq> [] \<Longrightarrow> list_all cleanRDN ps \<Longrightarrow> splitOn (CHR '','') (Build ps) = map rdnText ps"
proof (induction ps)
  case (Cons p ps)
  then show ?case
    by (cases "ps = []") (simp_all add: Build_Cons splitOn_append rdnText_no_comma,
        simp add: Build_def splitOn_single rdnText_no_comma)
qed simp

lemma putSegment_rdnText: "cleanRDN p \<Longrightarrow> putSegment (rdnText p) m = AList.update (rKey p) (rValue p) m"
  by (simp add: putSegment_def rdnText_def cut_append cleanRDN_def)

lemma fold_putSegment:
  "list_all cleanRDN ps \<Longrightarrow> distinct (map fst m @ map rKey ps) \<Longrightarrow>
   fold putSegment (map rdnText ps) m = m @ map rdnPair ps"
proof (induction ps arbitrary: m)
  case (Cons p ps)
  then have "AList.update (rKey p) (rValue p) m = m @ [rdnPair p]"
    by (intro update_fresh) simp
  with Cons show ?case by (simp add: putSegment_rdnText)
qed simp

lemma KeyValues_Build:
  "list_all cleanRDN ps \<Longrightarrow> distinct (map rKey ps) \<Longrightarrow> KeyValues (Build ps) = map rdnPair ps"
  by (auto simp: KeyValues_def splitOn_Build fold_putSegment)

text \<open>Every name is read as pairs that a name can be built of again, so a canonical name stands
  for the pairs of the name it was computed from.\<close>

lemma KeyValues_clean:
  "(k, v) \<in> set (KeyValues dn) \<Longrightarrow> cleanRDN (rdn k v)" and distinct_KeyValues: "distinct (map fst (KeyValues dn))"
proof -
  have "distinct (map fst (fold putSegment segs m)) \<and> (\<forall>(k, v) \<in> set (fold putSegment segs m). cleanRDN (rdn k v))"
    if "\<forall>seg \<in> set segs. CHR '','' \<notin> set seg" "distinct (map fst m)" "\<forall>(k, v) \<in> set m. cleanRDN (rdn k v)" for segs m
    using that
  proof (induction segs arbitrary: m)
    case (Cons seg segs)
    then have "distinct (map fst (putSegment seg m)) \<and> (\<forall>(k, v) \<in> set (putSegment seg m). cleanRDN (rdn k v))"
      using set_update_subset
      by (fastforce simp: putSegment_def cut_Some cleanRDN_def distinct_update split: option.splits)
    with Cons show ?case by auto
  qed simp
  from this [of "splitOn (CHR '','') dn" "[]"]
  show "(k, v) \<in> set (KeyValues dn) \<Longrightarrow> cleanRDN (rdn k v)" "distinct (map fst (KeyValues dn))"
    using splitOn_parts by (fastforce simp: KeyValues_def split: if_splits)+
qed

lemma KeyValues_Canonicalize: "map_of (KeyValues (Canonicalize dn)) = map_of (KeyValues dn)"
proof (cases "KeyValues dn = []")
  case False
  let ?m = "KeyValues dn"
  let ?f = "\<lambda>k. case map_of ?m k of Some v \<Rightarrow> v | None \<Rightarrow> []"
  let ?ps = "map (\<lambda>k. rdn k (?f k)) (sort (map fst ?m))"
  have f: "map_of ?m k = Some (?f k)" if "k \<in> fst ` set ?m" for k
    using that by (cases "map_of ?m k") (auto simp: map_of_eq_None_iff)
  have "list_all cleanRDN ?ps"
    using f by (auto simp: list_all_iff dest: map_of_SomeD intro!: KeyValues_clean)
  moreover have keys: "map rKey ?ps = sort (map fst ?m)" by (simp add: o_def)
  then have "distinct (map rKey ?ps)" using distinct_KeyValues [of dn] by (simp only: distinct_sort)
  ultimately have "KeyValues (Build ?ps) = map (\<lambda>k. (k, ?f k)) (sort (map fst ?m))"
    by (simp add: KeyValues_Build o_def)
  moreover have "map_of ?m = (Some \<circ> ?f) |` set (map fst ?m)"
  proof
    fix k
    show "map_of ?m k = ((Some \<circ> ?f) |` set (map fst ?m)) k"
      using f [of k] by (cases "map_of ?m k") (force simp: restrict_map_def map_of_eq_None_iff dest: map_of_SomeD)+
  qed
  ultimately show ?thesis using False by (simp add: Canonicalize_def Let_def map_of_map_restrict)
qed (simp add: Canonicalize_def KeyValues_def)

lemma Canonicalize_cong:
  assumes "map_of (KeyValues dn) = map_of (KeyValues dn')"
  shows "Canonicalize dn = Canonicalize dn'"
proof -
  have "set (map fst (KeyValues dn)) = set (map fst (KeyValues dn'))"
    using arg_cong [OF assms, of dom] by (simp add: dom_map_of_conv_image_fst)
  then have "sort (map fst (KeyValues dn)) = sort (map fst (KeyValues dn'))"
    using distinct_KeyValues by (metis distinct_remdups_id sorted_list_of_set_sort_remdups)
  moreover have "KeyValues dn = [] \<longleftrightarrow> KeyValues dn' = []"
    using \<open>set (map fst (KeyValues dn)) = _\<close> by auto
  ultimately show ?thesis using assms by (simp add: Canonicalize_def Let_def)
qed

lemma Canonicalize_normal_form:
  "Canonicalize dn = Canonicalize dn' \<longleftrightarrow> map_of (KeyValues dn) = map_of (KeyValues dn')"
  "Canonicalize (Canonicalize dn) = Canonicalize dn"
  using Canonicalize_cong KeyValues_Canonicalize by metis+

section \<open>Stable names\<close>

lemma index_short: "length s < length sub \<Longrightarrow> index s sub = None"
  by (induction s) (auto simp: index.simps [of "[]"] index.simps [of "_ # _"] dest: prefix_length_le)

lemma indexFrom_index: "indexFrom s sub i = map_option ((+) i) (index (drop i s) sub)" if "i \<le> length s"
  using that
proof (induction s sub i rule: indexFrom.induct)
  case (1 s sub i)
  have pre: "prefix sub (drop i s) \<longleftrightarrow> i + length sub \<le> length s \<and> take (length sub) (drop i s) = sub"
  proof
    assume "prefix sub (drop i s)"
    then show "i + length sub \<le> length s \<and> take (length sub) (drop i s) = sub"
      using 1(2) prefix_length_le [of sub "drop i s"] by (auto simp: prefix_def)
  qed (metis take_is_prefix)
  show ?case
  proof (cases "i < length s")
    case True
    then have step: "index (drop i s) sub = (if prefix sub (drop i s) then Some 0 else map_option Suc (index (drop (i + 1) s) sub))"
      by (subst index.simps) (simp add: Cons_nth_drop_Suc [symmetric])
    have none: "index (drop (i + 1) s) sub = None" if "\<not> i + length sub \<le> length s"
      using that True by (intro index_short) simp
    show ?thesis
    proof (cases "i + length sub \<le> length s \<and> take (length sub) (drop i s) \<noteq> sub")
      case rec: True
      then have "indexFrom s sub (Suc i) = map_option (\<lambda>a. Suc (i + a)) (index (drop (Suc i) s) sub)"
        using 1(1) True by simp
      with rec pre step show ?thesis
        by (cases "index (drop (Suc i) s) sub") (simp_all add: indexFrom.simps [of s sub i])
    qed (use pre step none in \<open>auto simp: indexFrom.simps [of s sub i]\<close>)
  next
    case False
    with 1 pre show ?thesis by (cases sub) (auto simp: indexFrom.simps [of s _ "length s"] index.simps [of "[]"])
  qed
qed

lemma sanitizeChar_clean: "sanitizeChar c \<noteq> CHR '',''"
proof
  assume "sanitizeChar c = CHR '',''"
  then have "of_char (sanitizeChar c) = (44 :: nat)" by simp
  then show False by (auto simp: sanitizeChar_def Let_def split: if_splits)
qed

text \<open>What a configuration and a sample determine, without the registry.\<close>

definition nodeIsGNB :: "NRMConfig \<Rightarrow> bool" where
  "nodeIsGNB cfg \<longleftrightarrow> nGNBFunctionID cfg \<noteq> [] \<or> nElementType cfg = ''gnb'' \<or> nElementType cfg = ''oai-gnb''"

definition nodeObject :: "NRMConfig \<Rightarrow> string \<times> string" where
  "nodeObject cfg = (if nodeIsGNB cfg then (MOTypeGNBFunction, nGNBFunctionID cfg) else (MOTypeENBFunction, nENBFunctionID cfg))"

definition nodeRDNs :: "NRMConfig \<Rightarrow> RDN list" where
  "nodeRDNs cfg = [rdn MOTypeSubNetwork (nSubNetwork cfg), rdn MOTypeManagedElement (nManagedElement cfg),
     rdn (fst (nodeObject cfg)) (snd (nodeObject cfg))]"

definition cellRDN :: "NRMConfig \<Rightarrow> string \<Rightarrow> RDN" where
  "cellRDN cfg key = rdn (if nodeIsGNB cfg then MOTypeNRCellDU else MOTypeEUtranCell) (sanitizeCellID key)"

definition objectRDNs :: "NRMConfig \<Rightarrow> Sample \<Rightarrow> RDN list" where
  "objectRDNs cfg s = nodeRDNs cfg @ (let key = cellKeyFromSample s in if key = [] then [] else [cellRDN cfg key])"

definition objectName :: "NRMConfig \<Rightarrow> Sample \<Rightarrow> DN option" where
  "objectName cfg s = (if sScope s = [] then None else Some (Build (objectRDNs cfg s)))"

definition objectOf :: "RDN list \<Rightarrow> Object" where
  "objectOf ps = \<lparr>oType = rKey (last ps), oName = rValue (last ps), oDN = Build ps\<rparr>"

definition coherent :: "NRMConfig \<Rightarrow> Registry \<Rightarrow> bool" where
  "coherent cfg r \<longleftrightarrow>
     subNetwork r = nSubNetwork cfg \<and> element r = nManagedElement cfg \<and> enbFnID r = nENBFunctionID cfg
     \<and> gnbFnID r = nGNBFunctionID cfg \<and> elementType r = nElementType cfg
     \<and> map_of (objectsByDN r) (Build (nodeRDNs cfg)) = Some (objectOf (nodeRDNs cfg))
     \<and> (\<forall>key ob. map_of (cellsByKey r) key = Some ob \<longrightarrow>
          ob = objectOf (nodeRDNs cfg @ [cellRDN cfg key]) \<and> map_of (objectsByDN r) (oDN ob) = Some ob)
     \<and> (\<forall>dn ob. map_of (objectsByDN r) dn = Some ob \<longrightarrow>
          oDN ob = dn \<and> (ob = objectOf (nodeRDNs cfg) \<or> (\<exists>key. ob = objectOf (nodeRDNs cfg @ [cellRDN cfg key]))))"

lemma coherent_node:
  assumes "coherent cfg r"
  shows "isGNB r \<longleftrightarrow> nodeIsGNB cfg" "NodeDN r = Build (nodeRDNs cfg)"
  using assms by (auto simp: coherent_def isGNB_def nodeIsGNB_def NodeDN_def ENBDN_def nodeRDNs_def nodeObject_def)

lemma nodeRDNs_not_Nil [simp]: "nodeRDNs cfg \<noteq> []"
  by (simp add: nodeRDNs_def)

lemma cell_not_node: "Build (nodeRDNs cfg @ [cellRDN cfg key]) \<noteq> Build (nodeRDNs cfg)"
  by (simp add: Build_snoc)

lemma same_name_same_cell:
  "Build (nodeRDNs cfg @ [cellRDN cfg key]) = Build (nodeRDNs cfg @ [cellRDN cfg key']) \<Longrightarrow>
   cellRDN cfg key = cellRDN cfg key'"
  by (simp add: Build_snoc rdnText_def cellRDN_def)

lemma NewRegistry_coherent: "NewRegistry now cfg = Inr r \<Longrightarrow> coherent cfg r"
  by (auto simp: NewRegistry_def initStatic_def coherent_def isGNB_def nodeIsGNB_def nodeRDNs_def nodeObject_def
      objectOf_def Let_def split: if_splits prod.splits)

lemma coherent_update:
  assumes r: "coherent cfg r" and ob: "ob = objectOf (nodeRDNs cfg @ [cellRDN cfg key])"
    and old: "\<And>ob'. map_of (objectsByDN r) (oDN ob) = Some ob' \<Longrightarrow> ob' = ob"
  shows "coherent cfg (r\<lparr>cellsByKey := AList.update key ob (cellsByKey r),
    objectsByDN := AList.update (oDN ob) ob (objectsByDN r)\<rparr>)"
proof -
  have node: "oDN ob \<noteq> Build (nodeRDNs cfg)" using cell_not_node by (simp add: ob objectOf_def)
  have cells: "ob' = objectOf (nodeRDNs cfg @ [cellRDN cfg key']) \<and> ((map_of (objectsByDN r))(oDN ob \<mapsto> ob)) (oDN ob') = Some ob'"
    if "((map_of (cellsByKey r))(key \<mapsto> ob)) key' = Some ob'" for key' ob'
  proof (cases "key' = key")
    case False
    then have "ob' = objectOf (nodeRDNs cfg @ [cellRDN cfg key'])" "map_of (objectsByDN r) (oDN ob') = Some ob'"
      using that r by (simp_all add: coherent_def)
    then show ?thesis using old [of ob'] by (cases "oDN ob' = oDN ob") simp_all
  qed (use that ob in simp)
  have objects: "oDN ob' = dn \<and> (ob' = objectOf (nodeRDNs cfg) \<or> (\<exists>key. ob' = objectOf (nodeRDNs cfg @ [cellRDN cfg key])))"
    if "((map_of (objectsByDN r))(oDN ob \<mapsto> ob)) dn = Some ob'" for dn ob'
  proof (cases "dn = oDN ob")
    case True
    with that have "ob' = ob" by simp
    then show ?thesis using True ob by blast
  next
    case False
    with that have "map_of (objectsByDN r) dn = Some ob'" by simp
    then show ?thesis using r unfolding coherent_def by blast
  qed
  from r have "map_of (objectsByDN r) (Build (nodeRDNs cfg)) = Some (objectOf (nodeRDNs cfg))" by (simp add: coherent_def)
  with node have "((map_of (objectsByDN r))(oDN ob \<mapsto> ob)) (Build (nodeRDNs cfg)) = Some (objectOf (nodeRDNs cfg))" by simp
  moreover from r have "subNetwork r = nSubNetwork cfg \<and> element r = nManagedElement cfg \<and> enbFnID r = nENBFunctionID cfg
     \<and> gnbFnID r = nGNBFunctionID cfg \<and> elementType r = nElementType cfg" by (simp add: coherent_def)
  moreover define r2 where "r2 = r\<lparr>cellsByKey := AList.update key ob (cellsByKey r),
    objectsByDN := AList.update (oDN ob) ob (objectsByDN r)\<rparr>"
  then have fields: "map_of (objectsByDN r2) = (map_of (objectsByDN r))(oDN ob \<mapsto> ob)"
    "map_of (cellsByKey r2) = (map_of (cellsByKey r))(key \<mapsto> ob)" "subNetwork r2 = subNetwork r"
    "element r2 = element r" "enbFnID r2 = enbFnID r" "gnbFnID r2 = gnbFnID r" "elementType r2 = elementType r"
    by (simp_all add: update_conv')
  ultimately have "coherent cfg r2" using cells objects unfolding coherent_def fields by blast
  then show ?thesis by (simp only: r2_def)
qed

lemma ensureCell_coherent:
  assumes r: "coherent cfg r" and cell: "ensureCell key r = (dn, r')"
  defines "ob \<equiv> objectOf (nodeRDNs cfg @ [cellRDN cfg key])"
  shows "dn = oDN ob" "coherent cfg r'" "map_of (objectsByDN r') dn = Some ob"
    and "map_of (objectsByDN r) \<subseteq>\<^sub>m map_of (objectsByDN r')"
proof -
  have known: "dn = oDN ob \<and> r' = r \<and> map_of (objectsByDN r) dn = Some ob" if "map_of (cellsByKey r) key \<noteq> None"
    using that r cell by (auto simp: ensureCell_def coherent_def ob_def)
  have fresh: "dn = oDN ob \<and> r' = r\<lparr>cellsByKey := AList.update key ob (cellsByKey r),
      objectsByDN := AList.update dn ob (objectsByDN r)\<rparr>" if "map_of (cellsByKey r) key = None"
    using that cell coherent_node [OF r]
    by (auto simp: ensureCell_def Let_def ob_def objectOf_def cellRDN_def AppendDN_Build)
  have old: "ob' = ob" if "map_of (objectsByDN r) (oDN ob) = Some ob'" for ob'
  proof -
    have "oDN ob' = oDN ob" "ob' = objectOf (nodeRDNs cfg) \<or> (\<exists>key. ob' = objectOf (nodeRDNs cfg @ [cellRDN cfg key]))"
      using that r by (auto simp: coherent_def)
    then obtain key' where "ob' = objectOf (nodeRDNs cfg @ [cellRDN cfg key'])"
      using cell_not_node [of cfg key] by (auto simp: ob_def objectOf_def)
    moreover from this have "cellRDN cfg key' = cellRDN cfg key"
      using \<open>oDN ob' = oDN ob\<close> by (intro same_name_same_cell) (simp add: ob_def objectOf_def)
    ultimately show ?thesis by (simp add: ob_def)
  qed
  show *: "dn = oDN ob" using known fresh by blast
  show "map_of (objectsByDN r') dn = Some ob"
    using known fresh by (cases "map_of (cellsByKey r) key") (auto simp: update_conv')
  show le: "map_of (objectsByDN r) \<subseteq>\<^sub>m map_of (objectsByDN r')"
    using known fresh old by (cases "map_of (cellsByKey r) key") (auto simp: update_conv' map_le_def)
  show "coherent cfg r'"
    using known fresh coherent_update [OF r ob_def [THEN meta_eq_to_obj_eq] old] r
    by (cases "map_of (cellsByKey r) key") auto
qed

subsection \<open>What the clients of the registry rely on\<close>

locale naming =
  fixes resolve :: "'t \<Rightarrow> 'r \<Rightarrow> 's \<Rightarrow> ('e + 'n) \<times> 'r"
    and name :: "'s \<Rightarrow> 'n option"
    and good :: "'r \<Rightarrow> bool"
  assumes resolve_named: "good r \<Longrightarrow> name s = Some n \<Longrightarrow> fst (resolve t r s) = Inr n"
    and resolve_unnamed: "good r \<Longrightarrow> name s = None \<Longrightarrow> \<exists>e. fst (resolve t r s) = Inl e"
    and resolve_good: "good r \<Longrightarrow> good (snd (resolve t r s))"
begin

lemma resolve_name: "good r \<Longrightarrow> case_sum (\<lambda>_. None) Some (fst (resolve t r s)) = name s"
  using resolve_named [of r s] resolve_unnamed [of r s t] by (cases "name s") auto

lemma resolve_run: "good r \<Longrightarrow> good (fold (\<lambda>(t, s) r. snd (resolve t r s)) hist r)"
  by (induction hist arbitrary: r) (auto simp: resolve_good)

lemma name_is_stable:
  "good r \<Longrightarrow> name s = Some n \<Longrightarrow> \<exists>r'. resolve t (fold (\<lambda>(t, s) r. snd (resolve t r s)) hist r) s = (Inr n, r') \<and> good r'"
proof -
  assume "good r" and n: "name s = Some n"
  from resolve_run [OF this(1), of hist] have "good (fold (\<lambda>(t, s) r. snd (resolve t r s)) hist r)" .
  from resolve_named [OF this n, of t] resolve_good [OF this, of t s] show ?thesis
    by (cases "resolve t (fold (\<lambda>(t, s) r. snd (resolve t r s)) hist r) s") simp
qed

end

lemma node_has_no_cell: "sScope s = ''node'' \<Longrightarrow> cellKeyFromSample s = []"
  by (simp add: cellKeyFromSample_def indexFrom_index index.simps)

lemma Resolve_coherent:
  assumes r: "coherent cfg r" and s: "objectName cfg s = Some dn"
  shows "\<exists>r'. Resolve now r s = (Inr dn, r') \<and> coherent cfg r'
    \<and> map_of (objectsByDN r') dn = Some (objectOf (objectRDNs cfg s))
    \<and> map_of (objectsByDN r) \<subseteq>\<^sub>m map_of (objectsByDN r')"
proof (cases "cellKeyFromSample s = []")
  case True
  then have "dn = Build (nodeRDNs cfg)" "objectRDNs cfg s = nodeRDNs cfg"
    using s by (auto simp: objectName_def objectRDNs_def split: if_splits)
  moreover have "map_of (objectsByDN r) (Build (nodeRDNs cfg)) = Some (objectOf (nodeRDNs cfg))"
    using r by (simp add: coherent_def)
  ultimately show ?thesis using True r s coherent_node [OF r] by (auto simp: Resolve_def objectName_def split: if_splits)
next
  case False
  obtain dn' r' where e: "ensureCell (cellKeyFromSample s) r = (dn', r')" by fastforce
  have "dn = dn'"
    using s False ensureCell_coherent(1) [OF r e] by (auto simp: objectName_def objectRDNs_def objectOf_def split: if_splits)
  moreover have "Resolve now r s = (Inr dn', r')"
    using s False e node_has_no_cell [of s] by (auto simp: Resolve_def objectName_def split: if_splits)
  ultimately show ?thesis using ensureCell_coherent [OF r e] False by (simp add: objectRDNs_def)
qed

lemma Resolve_unnamed: "objectName cfg s = None \<Longrightarrow> \<exists>e. Resolve now r s = (Inl e, r)"
  by (simp add: objectName_def Resolve_def split: if_splits)

interpretation nr: naming Resolve "objectName cfg" "coherent cfg" for cfg
proof
  fix r s t
  assume r: "coherent cfg r"
  show "fst (Resolve t r s) = Inr dn" if "objectName cfg s = Some dn" for dn
    using Resolve_coherent [OF r that, of t] by auto
  show "\<exists>e. fst (Resolve t r s) = Inl e" if "objectName cfg s = None" using Resolve_unnamed [OF that, of t r] by auto
  show "coherent cfg (snd (Resolve t r s))"
    using Resolve_coherent [OF r, of s _ t] Resolve_unnamed [of cfg s t r] r by (cases "objectName cfg s") auto
qed

lemma sanitizeCellID_clean: "CHR '','' \<notin> set (sanitizeCellID key)"
  using sanitizeChar_clean formatNat_digits [of "length key"]
  by (auto simp: sanitizeCellID_def Let_def eq_commute [of "CHR '',''"])

definition cleanConfig :: "NRMConfig \<Rightarrow> bool" where
  "cleanConfig cfg \<longleftrightarrow> list_all (\<lambda>v. CHR '','' \<notin> set v)
     [nSubNetwork cfg, nManagedElement cfg, nENBFunctionID cfg, nGNBFunctionID cfg]"

lemma KeyValues_objectRDNs: "cleanConfig cfg \<Longrightarrow> KeyValues (Build (objectRDNs cfg s)) = map rdnPair (objectRDNs cfg s)"
  by (intro KeyValues_Build)
    (auto simp: objectRDNs_def nodeRDNs_def nodeObject_def cellRDN_def cleanConfig_def cleanRDN_def
       sanitizeCellID_clean Let_def MOTypes)

text \<open>C37: Whatever samples were resolved before, by whichever callers, the name of a sample depends
  only on the configuration and the sample's scope: the node, or the node followed by the cell with
  its cleaned identifier. The object of that name is registered, no object registered earlier is
  lost or changed, and when no configured name contains a comma, reading the name back yields the
  parts it was built of.\<close>

theorem resolved_names_are_stable:
  assumes "NewRegistry now cfg = Inr r0" and "cleanConfig cfg" and "objectName cfg s = Some dn"
    and "r = fold (\<lambda>(t, s) r. snd (Resolve t r s)) hist r0"
  shows "\<exists>r'. Resolve t r s = (Inr dn, r')
    \<and> GetObject r' dn = Some (objectOf (objectRDNs cfg s))
    \<and> map_of (objectsByDN r) \<subseteq>\<^sub>m map_of (objectsByDN r')
    \<and> KeyValues dn = map rdnPair (objectRDNs cfg s)"
proof -
  have "coherent cfg r" using nr.resolve_run NewRegistry_coherent assms(1,4) by blast
  moreover have "dn = Build (objectRDNs cfg s)" using assms(3) by (simp add: objectName_def split: if_splits)
  ultimately show ?thesis
    using Resolve_coherent [of cfg r s dn t] KeyValues_objectRDNs assms(2,3) by (auto simp: GetObject_def)
qed

definition lteConfig :: NRMConfig where
  "lteConfig = \<lparr>nSubNetwork = ''lab'', nManagedElement = ''enb1'', nENBFunctionID = ''7'', nGNBFunctionID = [], nElementType = ''enb''\<rparr>"

definition scoped :: "string \<Rightarrow> Sample" where
  "scoped scope = \<lparr>sTimestamp = 0, sSourceID = [], sScope = scope, sMetrics = [], sAttrs = []\<rparr>"

lemma sScope_scoped [simp]: "sScope (scoped scope) = scope"
  by (simp add: scoped_def)

theorem resolved_names_are_stable_witness:
  "\<exists>r0 r' dn. NewRegistry 0 lteConfig = Inr r0
    \<and> Resolve 9 (fold (\<lambda>(t, s) r. snd (Resolve t r s)) [(1, scoped ''node''), (2, scoped ''cell:PCI=1/ue:70'')] r0)
        (scoped ''cell:PCI=1'') = (Inr dn, r')
    \<and> dn = ''SubNetwork=lab,ManagedElement=enb1,ENBFunction=7,EUtranCell=pci-1''
    \<and> KeyValues dn = [(''SubNetwork'', ''lab''), (''ManagedElement'', ''enb1''), (''ENBFunction'', ''7''), (''EUtranCell'', ''pci-1'')]"
proof -
  obtain r0 where r0: "NewRegistry 0 lteConfig = Inr r0" by (simp add: NewRegistry_def lteConfig_def)
  have rdns: "objectRDNs lteConfig (scoped ''cell:PCI=1'') =
    [rdn ''SubNetwork'' ''lab'', rdn ''ManagedElement'' ''enb1'', rdn ''ENBFunction'' ''7'', rdn ''EUtranCell'' ''pci-1'']"
    by code_simp
  have dn: "objectName lteConfig (scoped ''cell:PCI=1'') = Some ''SubNetwork=lab,ManagedElement=enb1,ENBFunction=7,EUtranCell=pci-1''"
    by (simp add: objectName_def rdns Build_def rdnText_def)
  have "cleanConfig lteConfig" by (simp add: cleanConfig_def lteConfig_def)
  from resolved_names_are_stable [OF r0 this dn refl, of 9 "[(1, scoped ''node''), (2, scoped ''cell:PCI=1/ue:70'')]"]
  show ?thesis using r0 rdns by auto
qed

text \<open>The cleaned identifier is not injective: cells whose scopes differ only in case or in
  punctuation share one object.\<close>

lemma cells_can_share_a_name:
  "cellKeyFromSample (scoped ''cell:pci=1'') \<noteq> cellKeyFromSample (scoped ''cell:PCI-1'')
   \<and> objectName cfg (scoped ''cell:pci=1'') = objectName cfg (scoped ''cell:PCI-1'')"
proof -
  have "cellKeyFromSample (scoped ''cell:pci=1'') = ''cell:pci=1''" "cellKeyFromSample (scoped ''cell:PCI-1'') = ''cell:PCI-1''"
    "sanitizeCellID ''cell:pci=1'' = ''pci-1''" "sanitizeCellID ''cell:PCI-1'' = ''pci-1''" by code_simp+
  then show ?thesis by (simp add: objectName_def objectRDNs_def cellRDN_def)
qed

end
