(* ===== verification/AgentConfig.thy ===== *)
theory AgentConfig
  imports GoDuration FileSys NRM
begin

text \<open>
  The settings of the agent, \<^verbatim>\<open>config/config.go\<close>: the record of settings, its defaults, and how a
  settings file and the environment are laid over them. The YAML decoder is a library and a
  parameter: given the bytes of the file and the settings so far, it returns the settings it leaves
  behind or an error. The environment is a function from names to values, the empty string where a
  variable is not set.
\<close>

section \<open>Settings\<close>

record ElementConfig =
  elType :: string
  elSocketPath :: string

record LogConfig =
  lgLevel :: string
  lgFormat :: string
  lgColor :: bool
  lgTimestamp :: bool
  lgComponents :: "(string \<times> string) list option"

record MetricsConfig =
  mtSnapshotPath :: string
  mtLogUDS :: bool

record NetconfSSHConfig =
  HostKey :: string
  AuthorizedKey :: string
  sshUser :: string

record NetconfConfig =
  ncEnabled :: bool
  ncAddr :: string
  ncTransport :: string
  ncSnapshotPath :: string
  ncDatastoreDir :: string
  ncYangDir :: string
  ncSSH :: NetconfSSHConfig

record NRMSettings =
  stSubNetwork :: string
  stManagedElement :: string
  stENBFunctionID :: string
  stGNBFunctionID :: string

record PMSettings =
  pmOn :: bool
  GranularityPeriod :: string
  ReportPeriod :: string

record TCARuleConfig =
  ruleOn :: bool
  ruleRaise :: float64
  ruleClear :: float64
  ruleRaiseFor :: string
  ruleClearFor :: string

record TCARuleSetConfig =
  S1InterfaceDown :: TCARuleConfig
  NASSignalingLoss :: TCARuleConfig
  NASSecurityMismatch :: TCARuleConfig
  NASParsingFailure :: TCARuleConfig
  RRCProtocolError :: TCARuleConfig
  RRCConnectionRejection :: TCARuleConfig
  CoreServiceReject :: TCARuleConfig
  PagingCapacityExceeded :: TCARuleConfig
  RLCMaxRetransmissions :: TCARuleConfig
  LowThroughput :: TCARuleConfig
  LowULSINR :: TCARuleConfig
  BadSignalCondition :: TCARuleConfig
  HighBLER :: TCARuleConfig
  RadioLinkFailureStorm :: TCARuleConfig
  RFInterferenceDetected :: TCARuleConfig
  UEInactivityCleanup :: TCARuleConfig
  BearerCongestion :: TCARuleConfig
  PowerHeadroomCritical :: TCARuleConfig

record TCAConfig =
  tcaOn :: bool
  TestInjectionEnabled :: bool
  tcaRules :: TCARuleSetConfig

record ControlRestartTarget =
  tgSerial :: string
  tgContainer :: string
  tgENBConfigPath :: string
  tgRRConfigPath :: string
  tgSIBConfigPath :: string
  tgRBConfigPath :: string
  tgDependents :: "string list"
  tgDelayAfterStart :: string

record ControlRestart =
  DockerSocket :: string
  ctTimeout :: string
  ctTargets :: "ControlRestartTarget list"

record ControlConfig =
  ctlEnabled :: bool
  ctlAddr :: string
  ctlRestart :: ControlRestart

record AgentSettings =
  Element :: ElementConfig
  busBuffer :: int
  Log :: LogConfig
  Metrics :: MetricsConfig
  Netconf :: NetconfConfig
  nrmSettings :: NRMSettings
  pmSettings :: PMSettings
  FM :: TCAConfig
  ControlAPI :: ControlConfig

definition zeroTCARule :: TCARuleConfig where
  "zeroTCARule = \<lparr>ruleOn = False, ruleRaise = Fin 0, ruleClear = Fin 0, ruleRaiseFor = [], ruleClearFor = []\<rparr>"

definition zeroTCARules :: TCARuleSetConfig where
  "zeroTCARules = \<lparr>S1InterfaceDown = zeroTCARule, NASSignalingLoss = zeroTCARule, NASSecurityMismatch = zeroTCARule,
     NASParsingFailure = zeroTCARule, RRCProtocolError = zeroTCARule, RRCConnectionRejection = zeroTCARule,
     CoreServiceReject = zeroTCARule, PagingCapacityExceeded = zeroTCARule, RLCMaxRetransmissions = zeroTCARule,
     LowThroughput = zeroTCARule, LowULSINR = zeroTCARule, BadSignalCondition = zeroTCARule, HighBLER = zeroTCARule,
     RadioLinkFailureStorm = zeroTCARule, RFInterferenceDetected = zeroTCARule, UEInactivityCleanup = zeroTCARule,
     BearerCongestion = zeroTCARule, PowerHeadroomCritical = zeroTCARule\<rparr>"

definition Default :: AgentSettings where
  "Default = \<lparr>
     Element = \<lparr>elType = ''enb'', elSocketPath = ''/var/run/enb-metrics/enb_metrics.uds''\<rparr>,
     busBuffer = 200,
     Log = \<lparr>lgLevel = ''info'', lgFormat = ''json'', lgColor = False, lgTimestamp = True, lgComponents = None\<rparr>,
     Metrics = \<lparr>mtSnapshotPath = [], mtLogUDS = False\<rparr>,
     Netconf = \<lparr>ncEnabled = False, ncAddr = ''0.0.0.0:8300'', ncTransport = ''tcp'', ncSnapshotPath = [], ncDatastoreDir = [],
       ncYangDir = ''yang'', ncSSH = \<lparr>HostKey = [], AuthorizedKey = [], sshUser = ''admin''\<rparr>\<rparr>,
     nrmSettings = \<lparr>stSubNetwork = ''srsRAN'', stManagedElement = ''enb1'', stENBFunctionID = ''1'', stGNBFunctionID = []\<rparr>,
     pmSettings = \<lparr>pmOn = False, GranularityPeriod = ''10s'', ReportPeriod = ''10s''\<rparr>,
     FM = \<lparr>tcaOn = False, TestInjectionEnabled = False, tcaRules = zeroTCARules\<rparr>,
     ControlAPI = \<lparr>ctlEnabled = False, ctlAddr = ''0.0.0.0:18080'',
       ctlRestart = \<lparr>DockerSocket = ''/var/run/docker.sock'', ctTimeout = ''20s'', ctTargets = []\<rparr>\<rparr>\<rparr>"

section \<open>Defaults\<close>

definition isNRGNB :: "string \<Rightarrow> bool" where
  "isNRGNB typ \<longleftrightarrow> typ = ''gnb'' \<or> typ = ''oai-gnb''"

definition orElse :: "string \<Rightarrow> string \<Rightarrow> string" where
  "orElse v d = (if v = [] then d else v)"

definition applyDefaults :: "AgentSettings \<Rightarrow> AgentSettings" where
  "applyDefaults cfg =
     (let def = Default; el = Element cfg; lg = Log cfg; nc = Netconf cfg; nrm = nrmSettings cfg; pm = pmSettings cfg; ctl = ControlAPI cfg;
          typ = orElse (elType el) (elType (Element def));
          socket = orElse (elSocketPath el) (elSocketPath (Element def));
          managed = orElse (stManagedElement nrm) (stManagedElement (nrmSettings def));
          enbID = stENBFunctionID nrm;
          gnbID = stGNBFunctionID nrm
      in cfg\<lparr>
       Element := \<lparr>elType = typ,
         elSocketPath = (if isNRGNB typ \<and> socket = elSocketPath (Element def) then ''/var/run/gnb-metrics/gnb_metrics.uds'' else socket)\<rparr>,
       busBuffer := (if busBuffer cfg = 0 then busBuffer def else busBuffer cfg),
       Log := lg\<lparr>lgLevel := orElse (lgLevel lg) (lgLevel (Log def)), lgFormat := orElse (lgFormat lg) (lgFormat (Log def)),
         lgComponents := (case lgComponents lg of None \<Rightarrow> Some [] | Some m \<Rightarrow> Some m)\<rparr>,
       Metrics := (Metrics cfg)\<lparr>mtSnapshotPath := orElse (mtSnapshotPath (Metrics cfg)) (mtSnapshotPath (Metrics def))\<rparr>,
       Netconf := nc\<lparr>ncAddr := orElse (ncAddr nc) (ncAddr (Netconf def)), ncTransport := orElse (ncTransport nc) (ncTransport (Netconf def)),
         ncSnapshotPath := orElse (ncSnapshotPath nc) (ncSnapshotPath (Netconf def)), ncYangDir := orElse (ncYangDir nc) (ncYangDir (Netconf def)),
         ncSSH := (ncSSH nc)\<lparr>sshUser := orElse (sshUser (ncSSH nc)) (sshUser (ncSSH (Netconf def)))\<rparr>\<rparr>,
       nrmSettings := \<lparr>stSubNetwork = orElse (stSubNetwork nrm) (stSubNetwork (nrmSettings def)),
         stManagedElement = (if isNRGNB typ \<and> managed = stManagedElement (nrmSettings def) then ''gnb1'' else managed),
         stENBFunctionID =
           (if enbID = [] then (if \<not> isNRGNB typ then stENBFunctionID (nrmSettings def) else enbID)
            else if isNRGNB typ \<and> enbID = stENBFunctionID (nrmSettings def) then [] else enbID),
         stGNBFunctionID = (if gnbID = [] \<and> isNRGNB typ then ''1'' else gnbID)\<rparr>,
       pmSettings := pm\<lparr>GranularityPeriod := orElse (GranularityPeriod pm) (GranularityPeriod (pmSettings def)),
         ReportPeriod := orElse (ReportPeriod pm) (ReportPeriod (pmSettings def))\<rparr>,
       ControlAPI := ctl\<lparr>ctlAddr := orElse (ctlAddr ctl) (ctlAddr (ControlAPI def)),
         ctlRestart := (ctlRestart ctl)\<lparr>DockerSocket := orElse (DockerSocket (ctlRestart ctl)) (DockerSocket (ctlRestart (ControlAPI def))),
           ctTimeout := orElse (ctTimeout (ctlRestart ctl)) (ctTimeout (ctlRestart (ControlAPI def)))\<rparr>\<rparr>\<rparr>)"

section \<open>The environment\<close>

type_synonym environment = "string \<Rightarrow> string"

fun envString :: "environment \<Rightarrow> string list \<Rightarrow> string" where
  "envString env [] = []"
| "envString env (k # ks) = (if env k \<noteq> [] then env k else envString env ks)"

fun envInt :: "environment \<Rightarrow> string list \<Rightarrow> int option" where
  "envInt env [] = None"
| "envInt env (k # ks) = (if env k \<noteq> [] then (case sscanfInt (env k) of Some n \<Rightarrow> Some n | None \<Rightarrow> envInt env ks) else envInt env ks)"

definition boolWord :: "string \<Rightarrow> bool option" where
  "boolWord v = (if v \<in> set [''1'', ''true'', ''TRUE'', ''yes'', ''YES'', ''y'', ''Y''] then Some True
     else if v \<in> set [''0'', ''false'', ''FALSE'', ''no'', ''NO'', ''n'', ''N''] then Some False else None)"

fun envBool :: "environment \<Rightarrow> string list \<Rightarrow> bool option" where
  "envBool env [] = None"
| "envBool env (k # ks) = (if env k \<noteq> [] then (case boolWord (env k) of Some b \<Rightarrow> Some b | None \<Rightarrow> envBool env ks) else envBool env ks)"

text \<open>An override of each type: every setting is read under its name with the prefix \<^verbatim>\<open>EMS_\<close> and
  under the name without it.\<close>

definition envNames :: "string \<Rightarrow> string list" where
  "envNames k = [''EMS_'' @ k, k]"

definition overString :: "environment \<Rightarrow> string \<Rightarrow> string \<Rightarrow> string" where
  "overString env k v = (let e = envString env (envNames k) in if e \<noteq> [] then e else v)"

definition overInt :: "environment \<Rightarrow> string \<Rightarrow> int \<Rightarrow> int" where
  "overInt env k v = (case envInt env (envNames k) of Some n \<Rightarrow> n | None \<Rightarrow> v)"

definition overBool :: "environment \<Rightarrow> string \<Rightarrow> bool \<Rightarrow> bool" where
  "overBool env k v = (case envBool env (envNames k) of Some b \<Rightarrow> b | None \<Rightarrow> v)"

definition applyEnvOverrides :: "environment \<Rightarrow> AgentSettings \<Rightarrow> AgentSettings" where
  "applyEnvOverrides env cfg =
     (let el = Element cfg; lg = Log cfg; mt = Metrics cfg; nc = Netconf cfg; ssh = ncSSH nc; nrm = nrmSettings cfg; pm = pmSettings cfg;
          ctl = ControlAPI cfg; rst = ctlRestart ctl
      in cfg\<lparr>
       Element := \<lparr>elType = overString env ''ELEMENT_TYPE'' (elType el), elSocketPath = overString env ''SOCKET_PATH'' (elSocketPath el)\<rparr>,
       busBuffer := overInt env ''BUS_BUFFER'' (busBuffer cfg),
       Log := lg\<lparr>lgLevel := overString env ''LOG_LEVEL'' (lgLevel lg), lgFormat := overString env ''LOG_FORMAT'' (lgFormat lg),
         lgColor := overBool env ''LOG_COLOR'' (lgColor lg), lgTimestamp := overBool env ''LOG_TIMESTAMP'' (lgTimestamp lg)\<rparr>,
       Metrics := \<lparr>mtSnapshotPath = overString env ''METRICS_SNAPSHOT_PATH'' (mtSnapshotPath mt),
         mtLogUDS = overBool env ''METRICS_LOG_UDS'' (mtLogUDS mt)\<rparr>,
       Netconf := nc\<lparr>ncEnabled := overBool env ''NETCONF_ENABLED'' (ncEnabled nc), ncAddr := overString env ''NETCONF_ADDR'' (ncAddr nc),
         ncTransport := overString env ''NETCONF_TRANSPORT'' (ncTransport nc),
         ncSnapshotPath := overString env ''NETCONF_SNAPSHOT_PATH'' (ncSnapshotPath nc),
         ncYangDir := overString env ''NETCONF_YANG_DIR'' (ncYangDir nc),
         ncSSH := \<lparr>HostKey = overString env ''NETCONF_SSH_HOSTKEY'' (HostKey ssh),
           AuthorizedKey = overString env ''NETCONF_SSH_AUTHORIZED_KEY'' (AuthorizedKey ssh),
           sshUser = overString env ''NETCONF_SSH_USERNAME'' (sshUser ssh)\<rparr>\<rparr>,
       nrmSettings := \<lparr>stSubNetwork = overString env ''NRM_SUBNETWORK'' (stSubNetwork nrm),
         stManagedElement = overString env ''NRM_MANAGED_ELEMENT'' (stManagedElement nrm),
         stENBFunctionID = overString env ''NRM_ENB_FUNCTION_ID'' (stENBFunctionID nrm),
         stGNBFunctionID = overString env ''NRM_GNB_FUNCTION_ID'' (stGNBFunctionID nrm)\<rparr>,
       pmSettings := \<lparr>pmOn = overBool env ''PM_ENABLED'' (pmOn pm), GranularityPeriod = overString env ''PM_GRANULARITY_PERIOD'' (GranularityPeriod pm),
         ReportPeriod = overString env ''PM_REPORT_PERIOD'' (ReportPeriod pm)\<rparr>,
       ControlAPI := \<lparr>ctlEnabled = overBool env ''CONTROL_ENABLED'' (ctlEnabled ctl), ctlAddr = overString env ''CONTROL_ADDR'' (ctlAddr ctl),
         ctlRestart = rst\<lparr>DockerSocket := overString env ''CONTROL_DOCKER_SOCKET'' (DockerSocket rst),
           ctTimeout := overString env ''CONTROL_RESTART_TIMEOUT'' (ctTimeout rst)\<rparr>\<rparr>\<rparr>)"

section \<open>Loading\<close>

definition settingsPath :: "environment \<Rightarrow> string \<Rightarrow> string" where
  "settingsPath env p = (if p = [] then (if env ''EMS_CONFIG'' \<noteq> [] then env ''EMS_CONFIG'' else ''config/ems-agent/ems-agent.yaml'') else p)"

type_synonym yamlDecoder = "bytes \<Rightarrow> AgentSettings \<Rightarrow> AgentSettings result"

definition LoadSettings :: "yamlDecoder \<Rightarrow> environment \<Rightarrow> string \<Rightarrow> AgentSettings io" where
  "LoadSettings yaml env p s = (case osReadFile (settingsPath env p) s of
       (Inl e, s') \<Rightarrow> (if e = OSErr ENOENT then Inr (applyEnvOverrides env (applyDefaults Default)) else Inl e, s')
     | (Inr data, s') \<Rightarrow>
         (case yaml data Default of
            Inl e \<Rightarrow> Inl e
          | Inr cfg \<Rightarrow> Inr (applyEnvOverrides env (applyDefaults cfg)), s'))"

section \<open>What the settings promise\<close>

text \<open>The configuration that the wiring hands to the registry of objects.\<close>

definition nrmConfig :: "AgentSettings \<Rightarrow> NRMConfig" where
  "nrmConfig cfg = \<lparr>nSubNetwork = stSubNetwork (nrmSettings cfg), nManagedElement = stManagedElement (nrmSettings cfg),
     nENBFunctionID = stENBFunctionID (nrmSettings cfg), nGNBFunctionID = stGNBFunctionID (nrmSettings cfg),
     nElementType = elType (Element cfg)\<rparr>"

definition firstSet :: "string list \<Rightarrow> string" where
  "firstSet vs = (case find (\<lambda>v. v \<noteq> []) vs of Some v \<Rightarrow> v | None \<Rightarrow> [])"

text \<open>The settings that are texts, by the name of their variable; the four whose default depends on
  the type of the element are not among them.\<close>

definition plainSettings :: "(string \<times> (AgentSettings \<Rightarrow> string)) list" where
  "plainSettings = [
     (''ELEMENT_TYPE'', elType \<circ> Element),
     (''LOG_LEVEL'', lgLevel \<circ> Log), (''LOG_FORMAT'', lgFormat \<circ> Log),
     (''METRICS_SNAPSHOT_PATH'', mtSnapshotPath \<circ> Metrics),
     (''NETCONF_ADDR'', ncAddr \<circ> Netconf), (''NETCONF_TRANSPORT'', ncTransport \<circ> Netconf),
     (''NETCONF_SNAPSHOT_PATH'', ncSnapshotPath \<circ> Netconf), (''NETCONF_YANG_DIR'', ncYangDir \<circ> Netconf),
     (''NETCONF_SSH_HOSTKEY'', HostKey \<circ> ncSSH \<circ> Netconf), (''NETCONF_SSH_AUTHORIZED_KEY'', AuthorizedKey \<circ> ncSSH \<circ> Netconf),
     (''NETCONF_SSH_USERNAME'', sshUser \<circ> ncSSH \<circ> Netconf),
     (''NRM_SUBNETWORK'', stSubNetwork \<circ> nrmSettings),
     (''PM_GRANULARITY_PERIOD'', GranularityPeriod \<circ> pmSettings), (''PM_REPORT_PERIOD'', ReportPeriod \<circ> pmSettings),
     (''CONTROL_ADDR'', ctlAddr \<circ> ControlAPI), (''CONTROL_DOCKER_SOCKET'', DockerSocket \<circ> ctlRestart \<circ> ControlAPI),
     (''CONTROL_RESTART_TIMEOUT'', ctTimeout \<circ> ctlRestart \<circ> ControlAPI)]"

text \<open>The settings that the file leaves: what the decoder makes of it over the defaults, or the
  defaults where there is no file.\<close>

definition fileSettings :: "yamlDecoder \<Rightarrow> bytes result \<Rightarrow> AgentSettings option" where
  "fileSettings yaml f = (case f of
       Inl e \<Rightarrow> if e = OSErr ENOENT then Some Default else None
     | Inr data \<Rightarrow> (case yaml data Default of Inl _ \<Rightarrow> None | Inr cfg \<Rightarrow> Some cfg))"

lemma LoadSettings_file:
  "LoadSettings yaml env p s =
     (case fst (osReadFile (settingsPath env p) s) of
        Inl e \<Rightarrow> if e = OSErr ENOENT then Inr (applyEnvOverrides env (applyDefaults Default)) else Inl e
      | Inr data \<Rightarrow> (case yaml data Default of Inl e \<Rightarrow> Inl e | Inr cfg \<Rightarrow> Inr (applyEnvOverrides env (applyDefaults cfg))),
      snd (osReadFile (settingsPath env p) s))"
  by (simp add: LoadSettings_def split: prod.split sum.split)

lemma LoadSettings_ok:
  "fst (LoadSettings yaml env p s) = Inr cfg \<longleftrightarrow>
     (\<exists>base. fileSettings yaml (fst (osReadFile (settingsPath env p) s)) = Some base \<and> cfg = applyEnvOverrides env (applyDefaults base))"
  by (auto simp: LoadSettings_file fileSettings_def split: sum.split)

lemma over_first: "overString env k v = firstSet [env (''EMS_'' @ k), env k, v]"
  by (simp add: overString_def envNames_def firstSet_def)

lemma firstSet_Cons: "firstSet (v # vs) = (if v \<noteq> [] then v else firstSet vs)" "firstSet [] = []"
  by (simp_all add: firstSet_def)

lemma over_orElse: "overString env k (orElse v d) = firstSet [env (''EMS_'' @ k), env k, v, d]"
  by (simp add: over_first firstSet_Cons orElse_def)

lemma plain_env: "\<forall>(k, get) \<in> set plainSettings. get (applyEnvOverrides env cfg) = overString env k (get cfg)"
  by (simp add: plainSettings_def applyEnvOverrides_def Let_def)

lemma plain_default: "\<forall>(k, get) \<in> set plainSettings. get (applyDefaults cfg) = orElse (get cfg) (get Default)"
  by (simp add: plainSettings_def applyDefaults_def Let_def) (simp add: Default_def orElse_def)

lemma plain_settings:
  assumes "(k, get) \<in> set plainSettings"
  shows "get (applyEnvOverrides env (applyDefaults base)) = firstSet [env (''EMS_'' @ k), env k, get base, get Default]"
  using bspec [OF plain_env [of env "applyDefaults base"] assms] bspec [OF plain_default [of base] assms] over_orElse by simp

lemma over_nonempty: "v \<noteq> [] \<Longrightarrow> overString env k v \<noteq> []"
  by (simp add: overString_def Let_def)

lemma registry_settings:
  assumes "isNRGNB (elType (Element (applyEnvOverrides env (applyDefaults base)))) = isNRGNB (elType (Element (applyDefaults base)))"
  shows "\<exists>reg. NewRegistry now (nrmConfig (applyEnvOverrides env (applyDefaults base))) = Inr reg"
proof -
  let ?d = "applyDefaults base"
  have "stSubNetwork (nrmSettings ?d) \<noteq> []" "stManagedElement (nrmSettings ?d) \<noteq> []"
    "(if isNRGNB (elType (Element ?d)) then stGNBFunctionID (nrmSettings ?d) else stENBFunctionID (nrmSettings ?d)) \<noteq> []"
    by (auto simp: applyDefaults_def Let_def orElse_def Default_def)
  then show ?thesis using assms
    by (auto simp: NewRegistry_def nrmConfig_def applyEnvOverrides_def Let_def over_nonempty isNRGNB_def split: if_splits)
qed

section \<open>Properties\<close>


definition sampleYaml :: yamlDecoder where
  "sampleYaml data cfg = Inr (cfg\<lparr>Element := \<lparr>elType = ''gnb'', elSocketPath = []\<rparr>, pmSettings := (pmSettings cfg)\<lparr>ReportPeriod := data\<rparr>\<rparr>)"

definition settingsDisk :: fs where
  "settingsDisk = \<lparr>files = [''ems.yaml'' \<mapsto> \<lparr>content = ''5s'', perm = 420, uid = 0, gid = 0\<rparr>], faults = (\<lambda>_. None), clock = 0,
     rnd = (\<lambda>_. []), drawn = 0\<rparr>"


text \<open>The environment is laid over the defaults last: a type from the environment comes too late for
  them, and the identity of the function stays empty.\<close>

lemma late_type_leaves_no_function:
  "\<not> is_ok (NewRegistry now (nrmConfig (applyEnvOverrides (\<lambda>k. if k = ''EMS_ELEMENT_TYPE'' then ''gnb'' else []) (applyDefaults Default))))"
  by (simp add: NewRegistry_def nrmConfig_def applyEnvOverrides_def applyDefaults_def Default_def Let_def orElse_def isNRGNB_def
      overString_def envNames_def)

end
