(* ===== verification/NetIP.thy ===== *)
theory NetIP
  imports EMS_Prelude
begin

text \<open>
  Which strings \<^verbatim>\<open>net.ParseIP\<close> takes as an address. The configuration validator only asks
  whether the result is nil, so the model is the predicate \<open>parseIP\<close>: a dotted IPv4
  address without leading zeros, or an IPv6 address with at most one ellipsis and an optional
  embedded IPv4 tail; an address with a zone is not an IP address for \<^verbatim>\<open>net.ParseIP\<close>.
\<close>

text \<open>\<open>ipv4Fields s val pos digLen prevDot\<close> is the loop over the bytes: the value and the
  number of digits of the current octet, the number of complete octets, and whether the byte
  before was a dot (or the string has just begun).\<close>

fun ipv4Fields :: "string \<Rightarrow> nat \<Rightarrow> nat \<Rightarrow> nat \<Rightarrow> bool \<Rightarrow> bool" where
  "ipv4Fields [] val pos digLen prevDot = (pos = 3)"
| "ipv4Fields (c # cs) val pos digLen prevDot =
     (if isDigit c then
        (if digLen = 1 \<and> val = 0 then False
         else if 10 * val + digitVal c > 255 then False
         else ipv4Fields cs (10 * val + digitVal c) pos (digLen + 1) False)
      else if c = CHR ''.'' then
        (if prevDot \<or> cs = [] then False
         else if pos = 3 then False
         else ipv4Fields cs 0 (pos + 1) 0 True)
      else False)"

definition parseIPv4 :: "string \<Rightarrow> bool" where
  "parseIPv4 s = ipv4Fields s 0 0 0 True"

definition isHexDigit :: "char \<Rightarrow> bool" where
  "isHexDigit c \<longleftrightarrow> isDigit c \<or>
     (97 \<le> (of_char c :: nat) \<and> (of_char c :: nat) \<le> 102) \<or>
     (65 \<le> (of_char c :: nat) \<and> (of_char c :: nat) \<le> 70)"

text \<open>The loop of \<^verbatim>\<open>netip.parseIPv6\<close>: \<open>i\<close> bytes are filled, \<open>ell\<close> tells whether the
  ellipsis was seen, and the result is the final count, the flag and the unread text.\<close>

function ipv6Loop :: "nat \<Rightarrow> bool \<Rightarrow> string \<Rightarrow> (nat \<times> bool \<times> string) option" where
  "ipv6Loop i ell s =
     (if i \<ge> 16 then Some (i, ell, s)
      else let hex = takeWhile isHexDigit s; rest = drop (length hex) s in
        if hex = [] \<or> length hex > 4 then None
        else case rest of
            [] \<Rightarrow> Some (i + 2, ell, [])
          | d # ds \<Rightarrow>
              if d = CHR ''.'' then
                (if (\<not> ell \<and> i \<noteq> 12) \<or> i + 4 > 16 then None
                 else if parseIPv4 s then Some (i + 4, ell, []) else None)
              else if d \<noteq> CHR '':'' then None
              else (case ds of
                  [] \<Rightarrow> None
                | e # es \<Rightarrow>
                    if e = CHR '':'' then
                      (if ell then None
                       else if es = [] then Some (i + 2, True, [])
                       else ipv6Loop (i + 2) True es)
                    else ipv6Loop (i + 2) ell ds))"
  by pat_completeness auto
termination
  by (relation "measure (\<lambda>(i, ell, s). 16 - i)") auto

declare ipv6Loop.simps [simp del]

definition parseIPv6 :: "string \<Rightarrow> bool" where
  "parseIPv6 s =
     (let lead = prefix ''::'' s; body = (if lead then drop 2 s else s)
      in if lead \<and> body = [] then True
         else case ipv6Loop 0 lead body of
             None \<Rightarrow> False
           | Some (i, ell, rest) \<Rightarrow> rest = [] \<and> (if i < 16 then ell else \<not> ell))"

definition parseIP :: "string \<Rightarrow> bool" where
  "parseIP s = (case find (\<lambda>c. c = CHR ''.'' \<or> c = CHR '':'' \<or> c = CHR ''%'') s of
       None \<Rightarrow> False
     | Some c \<Rightarrow>
         if c = CHR ''.'' then parseIPv4 s
         else if c = CHR '':'' then CHR ''%'' \<notin> set s \<and> parseIPv6 s
         else False)"

text \<open>An accepted IPv4 address is made of digits and dots, so it needs no quoting in a
  configuration file.\<close>

lemma ipv4Fields_chars:
  "ipv4Fields s val pos digLen pd \<Longrightarrow> list_all (\<lambda>c. isDigit c \<or> c = CHR ''.'') s"
  by (induction s val pos digLen pd rule: ipv4Fields.induct) (auto split: if_splits)

lemma parseIP_nonempty: "parseIP s \<Longrightarrow> s \<noteq> []"
  by (auto simp: parseIP_def)

end
