(* ===== verification/EditableConfig.thy ===== *)
theory EditableConfig
  imports GoFloat NetIP "HOL-Library.Multiset"
begin

text \<open>
  The configuration the element manager edits (\<^verbatim>\<open>internal/ems/configuration/store.go\<close>):
  the record \<open>EditableConfig\<close>, the conversion of dynamically typed values, the assignment of
  one key (\<open>applyChange\<close> with the list entries of \<open>applyQCIProfileChange\<close>) and the
  range checks of \<open>validate\<close>.

  The switch over the keys is a table from keys to setters, in the order of the source; its
  readers are the getters of the NETCONF bindings (\<open>leafGetters\<close>). The laws proved at the
  end say that assigning a key changes the value of that key and of no other one; everything
  later about tracking and rendering changes rests on them.
\<close>

section \<open>The data model\<close>

record QCIProfile =
  QCI :: int32
  DiscardTimer :: int32
  PDCPSNSize :: int32
  TPollRetx :: int32
  MaxRetxThresh :: int32
  TReordering :: int32
  Priority :: int32

record EditableConfig =
  ENBSerial :: string
  SIBConfigFile :: string
  RRConfigFile :: string
  RBConfigFile :: string
  ReportJSONUDSEnable :: bool
  ReportJSONUDSPath :: string
  AlarmsLogEnable :: bool
  AlarmsFilename :: string
  ENBID :: string
  MCC :: string
  MNC :: string
  MMEAddr :: string
  GTPBindAddr :: string
  S1CBindAddr :: string
  S1CBindPort :: uint32
  NPRB :: uint32
  TM :: uint32
  DeviceName :: string
  DeviceArgs :: string
  TXGain :: float64
  RXGain :: float64
  TimeAdvNSamples :: string
  SchedPolicy :: string
  PDSCHMaxMCS :: int32
  PUSCHMaxMCS :: int32
  TargetBLER :: float64
  MinCtrlSymbols :: int32
  MaxCtrlSymbols :: int32
  CellID :: string
  TAC :: string
  DLEARFCN :: uint32
  PCI :: uint32
  HOActive :: bool
  A3Offset :: int32
  TimeToTrigger :: int32
  Hysteresis :: int32
  QRxLevMin :: int32
  CellBarred :: string
  NumRAPreambles :: int32
  PreambleInitRxTargetPwr :: int32
  PwrRampingStep :: int32
  ReferenceSignalPower :: int32
  P0NominalPUSCH :: int32
  P0NominalPUCCH :: int32
  Alpha :: float64
  DefaultPagingCycle :: int32
  T300 :: int32
  T301 :: int32
  T310 :: int32
  N310 :: int32
  T311 :: int32
  QCIProfiles :: "QCIProfile list"
  PUSCHMaxIts :: int32
  NRPUSCHMaxIts :: int32
  PUSCH8bitDecoder :: bool
  NofPHYThreads :: int32
  MetricsPeriodSecs :: int32
  TXAmplitude :: float64
  RRCInactivityTimer :: int32
  RLFReleaseTimerMs :: int32
  EEAPrefList :: string
  EIAPrefList :: string
  GTPUTunnelTimeout :: int32
  S1SetupMaxRetries :: int32
  S1ConnectTimer :: int32
  RXGainOffset :: float64
  UseCedronFEstAlg :: bool
  RLFMinULSNREstim :: float64
  MaxMacDLKOs :: int32
  MaxMacULKOs :: int32

text \<open>A value of the empty interface type, as JSON decoding and the NETCONF bindings produce
  it.\<close>

datatype goany = VString string | VBool bool | VFloat64 float64 | VFloat32 float64
  | VInt int64 | VInt32 int32 | VInt64 int64 | VUint32 uint32 | VNumber string | VOther

section \<open>Conversions\<close>

definition asString :: "goany \<Rightarrow> string option" where
  "asString v = (case v of VString s \<Rightarrow> Some s | _ \<Rightarrow> None)"

definition asFloat64 :: "goany \<Rightarrow> float64 option" where
  "asFloat64 v = (case v of
       VFloat64 x \<Rightarrow> if f64_isNaN x \<or> f64_isInf x then None else Some x
     | VFloat32 x \<Rightarrow> if f64_isNaN x \<or> f64_isInf x then None else Some x
     | VInt x \<Rightarrow> Some (round64 (of_int (sint x)))
     | VInt64 x \<Rightarrow> Some (round64 (of_int (sint x)))
     | VNumber s \<Rightarrow> parseFloat s
     | _ \<Rightarrow> None)"

text \<open>The integer that a \<^verbatim>\<open>float64\<close> equal to its own truncation stands for.\<close>

fun f64_integral :: "float64 \<Rightarrow> int option" where
  "f64_integral (Fin q) = (if of_int \<lfloor>q\<rfloor> = q then Some \<lfloor>q\<rfloor> else None)"
| "f64_integral NegZero = Some 0"
| "f64_integral PosInf = None"
| "f64_integral NegInf = None"
| "f64_integral NaN = None"

definition f64_to_word :: "int \<Rightarrow> int \<Rightarrow> float64 \<Rightarrow> 32 word option" where
  "f64_to_word lo hi x =
     (if f64_lt x (Fin (of_int lo)) \<or> f64_lt (Fin (of_int hi)) x then None
      else map_option word_of_int (f64_integral x))"

definition asUint32 :: "goany \<Rightarrow> uint32 option" where
  "asUint32 v = (case v of
       VFloat64 x \<Rightarrow> f64_to_word 0 4294967295 x
     | VInt x \<Rightarrow> if sint x < 0 then None else Some (ucast x)
     | VInt64 x \<Rightarrow> if sint x < 0 \<or> sint x > 4294967295 then None else Some (ucast x)
     | VUint32 x \<Rightarrow> Some x
     | VNumber s \<Rightarrow> parseUint32 s
     | _ \<Rightarrow> None)"

definition asInt32 :: "goany \<Rightarrow> int32 option" where
  "asInt32 v = (case v of
       VFloat64 x \<Rightarrow> f64_to_word (-2147483648) 2147483647 x
     | VInt x \<Rightarrow> if sint x < -2147483648 \<or> sint x > 2147483647 then None else Some (ucast x)
     | VInt32 x \<Rightarrow> Some x
     | VInt64 x \<Rightarrow> if sint x < -2147483648 \<or> sint x > 2147483647 then None else Some (ucast x)
     | VNumber s \<Rightarrow> parseInt32 s
     | _ \<Rightarrow> None)"

section \<open>Assigning one key\<close>

type_synonym setter = "goany \<Rightarrow> EditableConfig \<Rightarrow> EditableConfig result"

definition setString :: "string \<Rightarrow> (string \<Rightarrow> EditableConfig \<Rightarrow> EditableConfig) \<Rightarrow> setter" where
  "setString key f val cfg = (case asString val of
       None \<Rightarrow> Inl (Errorf (key @ '' must be string''))
     | Some s \<Rightarrow> Inr (f (trimSpace s) cfg))"

definition setUint32 :: "string \<Rightarrow> (uint32 \<Rightarrow> EditableConfig \<Rightarrow> EditableConfig) \<Rightarrow> setter" where
  "setUint32 key f val cfg = (case asUint32 val of
       None \<Rightarrow> Inl (Errorf (key @ '' must be uint32''))
     | Some u \<Rightarrow> Inr (f u cfg))"

definition setInt32 :: "string \<Rightarrow> (int32 \<Rightarrow> EditableConfig \<Rightarrow> EditableConfig) \<Rightarrow> setter" where
  "setInt32 key f val cfg = (case asInt32 val of
       None \<Rightarrow> Inl (Errorf (key @ '' must be int32''))
     | Some i \<Rightarrow> Inr (f i cfg))"

definition setFloat64 :: "string \<Rightarrow> (float64 \<Rightarrow> EditableConfig \<Rightarrow> EditableConfig) \<Rightarrow> setter" where
  "setFloat64 key f val cfg = (case asFloat64 val of
       None \<Rightarrow> Inl (Errorf (key @ '' must be number''))
     | Some x \<Rightarrow> Inr (f x cfg))"

definition setBool :: "string \<Rightarrow> (bool \<Rightarrow> EditableConfig \<Rightarrow> EditableConfig) \<Rightarrow> setter" where
  "setBool key f val cfg = (case val of
       VBool b \<Rightarrow> Inr (f b cfg)
     | _ \<Rightarrow> Inl (Errorf (key @ '' must be boolean'')))"

text \<open>The keys of [enb], [rf] and rr.conf.\<close>

definition coreTable :: "(string \<times> setter) list" where
  "coreTable = [
    (''enb_serial'', setString ''enb_serial'' (\<lambda>s c. c\<lparr>ENBSerial := s\<rparr>)),
    (''mcc'', setString ''mcc'' (\<lambda>s c. c\<lparr>MCC := s\<rparr>)),
    (''mnc'', setString ''mnc'' (\<lambda>s c. c\<lparr>MNC := s\<rparr>)),
    (''enb_id'', setString ''enb_id'' (\<lambda>s c. c\<lparr>ENBID := s\<rparr>)),
    (''mme_addr'', setString ''mme_addr'' (\<lambda>s c. c\<lparr>MMEAddr := s\<rparr>)),
    (''gtp_bind_addr'', setString ''gtp_bind_addr'' (\<lambda>s c. c\<lparr>GTPBindAddr := s\<rparr>)),
    (''s1c_bind_addr'', setString ''s1c_bind_addr'' (\<lambda>s c. c\<lparr>S1CBindAddr := s\<rparr>)),
    (''s1c_bind_port'', setUint32 ''s1c_bind_port'' (\<lambda>u c. c\<lparr>S1CBindPort := u\<rparr>)),
    (''tx_gain'', setFloat64 ''tx_gain'' (\<lambda>x c. c\<lparr>TXGain := x\<rparr>)),
    (''rx_gain'', setFloat64 ''rx_gain'' (\<lambda>x c. c\<lparr>RXGain := x\<rparr>)),
    (''device_name'', setString ''device_name'' (\<lambda>s c. c\<lparr>DeviceName := s\<rparr>)),
    (''device_args'', setString ''device_args'' (\<lambda>s c. c\<lparr>DeviceArgs := s\<rparr>)),
    (''time_adv_nsamples'', setString ''time_adv_nsamples'' (\<lambda>s c. c\<lparr>TimeAdvNSamples := s\<rparr>)),
    (''n_prb'', setUint32 ''n_prb'' (\<lambda>u c. c\<lparr>NPRB := u\<rparr>)),
    (''tm'', setUint32 ''tm'' (\<lambda>u c. c\<lparr>TM := u\<rparr>)),
    (''dl_earfcn'', setUint32 ''dl_earfcn'' (\<lambda>u c. c\<lparr>DLEARFCN := u\<rparr>)),
    (''pci'', setUint32 ''pci'' (\<lambda>u c. c\<lparr>PCI := u\<rparr>)),
    (''cell_id'', setString ''cell_id'' (\<lambda>s c. c\<lparr>CellID := s\<rparr>)),
    (''tac'', setString ''tac'' (\<lambda>s c. c\<lparr>TAC := s\<rparr>)),
    (''ho_active'', setBool ''ho_active'' (\<lambda>b c. c\<lparr>HOActive := b\<rparr>)),
    (''a3_offset'', setInt32 ''a3_offset'' (\<lambda>i c. c\<lparr>A3Offset := i\<rparr>)),
    (''time_to_trigger'', setInt32 ''time_to_trigger'' (\<lambda>i c. c\<lparr>TimeToTrigger := i\<rparr>)),
    (''hysteresis'', setInt32 ''hysteresis'' (\<lambda>i c. c\<lparr>Hysteresis := i\<rparr>))]"

text \<open>The keys of [scheduler].\<close>

definition schedTable :: "(string \<times> setter) list" where
  "schedTable = [
    (''sched_policy'', setString ''sched_policy'' (\<lambda>s c. c\<lparr>SchedPolicy := s\<rparr>)),
    (''pdsch_max_mcs'', setInt32 ''pdsch_max_mcs'' (\<lambda>i c. c\<lparr>PDSCHMaxMCS := i\<rparr>)),
    (''pusch_max_mcs'', setInt32 ''pusch_max_mcs'' (\<lambda>i c. c\<lparr>PUSCHMaxMCS := i\<rparr>)),
    (''target_bler'', setFloat64 ''target_bler'' (\<lambda>x c. c\<lparr>TargetBLER := x\<rparr>)),
    (''min_nof_ctrl_symbols'', setInt32 ''min_nof_ctrl_symbols'' (\<lambda>i c. c\<lparr>MinCtrlSymbols := i\<rparr>)),
    (''max_nof_ctrl_symbols'', setInt32 ''max_nof_ctrl_symbols'' (\<lambda>i c. c\<lparr>MaxCtrlSymbols := i\<rparr>))]"

text \<open>The keys of sib.conf.\<close>

definition sibTable :: "(string \<times> setter) list" where
  "sibTable = [
    (''q_rx_lev_min'', setInt32 ''q_rx_lev_min'' (\<lambda>i c. c\<lparr>QRxLevMin := i\<rparr>)),
    (''cell_barred'', setString ''cell_barred'' (\<lambda>s c. c\<lparr>CellBarred := s\<rparr>)),
    (''num_ra_preambles'', setInt32 ''num_ra_preambles'' (\<lambda>i c. c\<lparr>NumRAPreambles := i\<rparr>)),
    (''preamble_init_rx_target_pwr'', setInt32 ''preamble_init_rx_target_pwr'' (\<lambda>i c. c\<lparr>PreambleInitRxTargetPwr := i\<rparr>)),
    (''pwr_ramping_step'', setInt32 ''pwr_ramping_step'' (\<lambda>i c. c\<lparr>PwrRampingStep := i\<rparr>)),
    (''reference_signal_power'', setInt32 ''reference_signal_power'' (\<lambda>i c. c\<lparr>ReferenceSignalPower := i\<rparr>)),
    (''p0_nominal_pusch'', setInt32 ''p0_nominal_pusch'' (\<lambda>i c. c\<lparr>P0NominalPUSCH := i\<rparr>)),
    (''p0_nominal_pucch'', setInt32 ''p0_nominal_pucch'' (\<lambda>i c. c\<lparr>P0NominalPUCCH := i\<rparr>)),
    (''alpha'', setFloat64 ''alpha'' (\<lambda>x c. c\<lparr>Alpha := x\<rparr>)),
    (''default_paging_cycle'', setInt32 ''default_paging_cycle'' (\<lambda>i c. c\<lparr>DefaultPagingCycle := i\<rparr>)),
    (''t300'', setInt32 ''t300'' (\<lambda>i c. c\<lparr>T300 := i\<rparr>)),
    (''t301'', setInt32 ''t301'' (\<lambda>i c. c\<lparr>T301 := i\<rparr>)),
    (''t310'', setInt32 ''t310'' (\<lambda>i c. c\<lparr>T310 := i\<rparr>)),
    (''n310'', setInt32 ''n310'' (\<lambda>i c. c\<lparr>N310 := i\<rparr>)),
    (''t311'', setInt32 ''t311'' (\<lambda>i c. c\<lparr>T311 := i\<rparr>))]"

text \<open>The keys of [expert].\<close>

definition expertTable :: "(string \<times> setter) list" where
  "expertTable = [
    (''pusch_max_its'', setInt32 ''pusch_max_its'' (\<lambda>i c. c\<lparr>PUSCHMaxIts := i\<rparr>)),
    (''nr_pusch_max_its'', setInt32 ''nr_pusch_max_its'' (\<lambda>i c. c\<lparr>NRPUSCHMaxIts := i\<rparr>)),
    (''pusch_8bit_decoder'', setBool ''pusch_8bit_decoder'' (\<lambda>b c. c\<lparr>PUSCH8bitDecoder := b\<rparr>)),
    (''nof_phy_threads'', setInt32 ''nof_phy_threads'' (\<lambda>i c. c\<lparr>NofPHYThreads := i\<rparr>)),
    (''metrics_period_secs'', setInt32 ''metrics_period_secs'' (\<lambda>i c. c\<lparr>MetricsPeriodSecs := i\<rparr>)),
    (''tx_amplitude'', setFloat64 ''tx_amplitude'' (\<lambda>x c. c\<lparr>TXAmplitude := x\<rparr>)),
    (''rrc_inactivity_timer'', setInt32 ''rrc_inactivity_timer'' (\<lambda>i c. c\<lparr>RRCInactivityTimer := i\<rparr>)),
    (''rlf_release_timer_ms'', setInt32 ''rlf_release_timer_ms'' (\<lambda>i c. c\<lparr>RLFReleaseTimerMs := i\<rparr>)),
    (''eea_pref_list'', setString ''eea_pref_list'' (\<lambda>s c. c\<lparr>EEAPrefList := s\<rparr>)),
    (''eia_pref_list'', setString ''eia_pref_list'' (\<lambda>s c. c\<lparr>EIAPrefList := s\<rparr>)),
    (''gtpu_tunnel_timeout'', setInt32 ''gtpu_tunnel_timeout'' (\<lambda>i c. c\<lparr>GTPUTunnelTimeout := i\<rparr>)),
    (''s1_setup_max_retries'', setInt32 ''s1_setup_max_retries'' (\<lambda>i c. c\<lparr>S1SetupMaxRetries := i\<rparr>)),
    (''s1_connect_timer'', setInt32 ''s1_connect_timer'' (\<lambda>i c. c\<lparr>S1ConnectTimer := i\<rparr>)),
    (''rx_gain_offset'', setFloat64 ''rx_gain_offset'' (\<lambda>x c. c\<lparr>RXGainOffset := x\<rparr>)),
    (''use_cedron_f_est_alg'', setBool ''use_cedron_f_est_alg'' (\<lambda>b c. c\<lparr>UseCedronFEstAlg := b\<rparr>)),
    (''rlf_min_ul_snr_estim'', setFloat64 ''rlf_min_ul_snr_estim'' (\<lambda>x c. c\<lparr>RLFMinULSNREstim := x\<rparr>)),
    (''max_mac_dl_kos'', setInt32 ''max_mac_dl_kos'' (\<lambda>i c. c\<lparr>MaxMacDLKOs := i\<rparr>)),
    (''max_mac_ul_kos'', setInt32 ''max_mac_ul_kos'' (\<lambda>i c. c\<lparr>MaxMacULKOs := i\<rparr>))]"

definition applyTable :: "(string \<times> setter) list" where
  "applyTable = coreTable @ schedTable @ sibTable @ expertTable"

text \<open>Byte classes of identifiers (renderer.go).\<close>

definition isIdentStart :: "char \<Rightarrow> bool" where
  "isIdentStart c = (let n = (of_char c :: nat) in
     (65 \<le> n \<and> n \<le> 90) \<or> (97 \<le> n \<and> n \<le> 122) \<or> c = CHR ''_'')"

definition isIdent :: "char \<Rightarrow> bool" where
  "isIdent c = (isIdentStart c \<or> isDigit c)"

text \<open>The key of a list entry, \<^verbatim>\<open>qci_profiles[<qci>].<field>\<close>.\<close>

definition parseQCIProfileKey :: "string \<Rightarrow> (int32 \<times> string) option" where
  "parseQCIProfileKey key =
     (if \<not> hasPrefix key ''qci_profiles['' then None
      else let rest = trimPrefix key ''qci_profiles['' in
        case indexByte rest (CHR '']'') of
          None \<Rightarrow> None
        | Some close \<Rightarrow>
            if close = 0 \<or> length rest \<le> close + 1 \<or> rest ! (close + 1) \<noteq> CHR ''.'' then None
            else case parseInt32 (take close rest) of
                None \<Rightarrow> None
              | Some qci \<Rightarrow>
                  (let field = drop (close + 2) rest in
                   if field = [] \<or> \<not> list_all isIdent field then None
                   else Some (qci, field)))"

definition emptyQCIProfile :: "int32 \<Rightarrow> QCIProfile" where
  "emptyQCIProfile q = \<lparr>QCI = q, DiscardTimer = 0, PDCPSNSize = 0, TPollRetx = 0,
     MaxRetxThresh = 0, TReordering = 0, Priority = 0\<rparr>"

text \<open>The assignable fields of a profile.\<close>

definition qciSetters :: "(string \<times> (int32 \<Rightarrow> QCIProfile \<Rightarrow> QCIProfile)) list" where
  "qciSetters = [
    (''discard_timer'', \<lambda>i p. p\<lparr>DiscardTimer := i\<rparr>),
    (''pdcp_sn_size'', \<lambda>i p. p\<lparr>PDCPSNSize := i\<rparr>),
    (''t_poll_retx'', \<lambda>i p. p\<lparr>TPollRetx := i\<rparr>),
    (''max_retx_thresh'', \<lambda>i p. p\<lparr>MaxRetxThresh := i\<rparr>),
    (''t_reordering'', \<lambda>i p. p\<lparr>TReordering := i\<rparr>),
    (''priority'', \<lambda>i p. p\<lparr>Priority := i\<rparr>)]"

definition setQCIField :: "string \<Rightarrow> goany \<Rightarrow> QCIProfile \<Rightarrow> QCIProfile result" where
  "setQCIField field val p = (case map_of qciSetters field of
       None \<Rightarrow> Inl (Errorf (''unsupported qci profile field: '' @ field))
     | Some f \<Rightarrow> (case asInt32 val of
           None \<Rightarrow> Inl (Errorf (field @ '' must be int32''))
         | Some i \<Rightarrow> Inr (f i p)))"

definition qciIndex :: "QCIProfile list \<Rightarrow> int32 \<Rightarrow> nat" where
  "qciIndex ps q = length (takeWhile (\<lambda>p. QCI p \<noteq> q) ps)"

definition applyQCIProfileChange ::
    "EditableConfig \<Rightarrow> string \<Rightarrow> goany \<Rightarrow> EditableConfig result" where
  "applyQCIProfileChange cfg key val = (case parseQCIProfileKey key of
       None \<Rightarrow> Inl (Errorf (''invalid qci_profiles key: '' @ key))
     | Some (qci, field) \<Rightarrow>
         if sint qci < 1 \<or> sint qci > 9 then Inl (Errorf ''qci must be in range 1..9'')
         else let idx = qciIndex (QCIProfiles cfg) qci;
                  ps = (if idx = length (QCIProfiles cfg)
                        then QCIProfiles cfg @ [emptyQCIProfile qci] else QCIProfiles cfg)
              in bindE (setQCIField field val (ps ! idx))
                   (\<lambda>p. Inr (cfg\<lparr>QCIProfiles := ps[idx := p]\<rparr>)))"

definition applyChange :: "EditableConfig \<Rightarrow> string \<Rightarrow> goany \<Rightarrow> EditableConfig result" where
  "applyChange cfg key val = (case map_of applyTable key of
       Some f \<Rightarrow> f val cfg
     | None \<Rightarrow>
         if hasPrefix key ''qci_profiles['' then applyQCIProfileChange cfg key val
         else Inl (Errorf (''unsupported config key: '' @ key)))"

section \<open>Validation\<close>

definition isFixedDigits :: "string \<Rightarrow> nat \<Rightarrow> bool" where
  "isFixedDigits s n \<longleftrightarrow> length s = n \<and> list_all isDigit s"

definition blank :: "string \<Rightarrow> bool" where
  "blank s \<longleftrightarrow> trimSpace s = []"

text \<open>The conditions that \<open>validate\<close> rejects, in the order it tests them, with its
  messages.\<close>

definition validateChecks :: "EditableConfig \<Rightarrow> (bool \<times> string) list" where
  "validateChecks cfg = [
    (blank (ENBSerial cfg) \<or> length (ENBSerial cfg) > 128, ''enb_serial is invalid''),
    (\<not> isFixedDigits (MCC cfg) 3, ''mcc must match [0-9]{3}''),
    (\<not> (isFixedDigits (MNC cfg) 2 \<or> isFixedDigits (MNC cfg) 3), ''mnc must match [0-9]{2,3}''),
    (blank (ENBID cfg) \<or> length (ENBID cfg) > 64, ''enb_id is invalid''),
    (blank (MMEAddr cfg) \<or> length (MMEAddr cfg) > 64, ''mme_addr is invalid''),
    (\<not> parseIP (trimSpace (MMEAddr cfg)), ''mme_addr must be a valid IP address''),
    (blank (GTPBindAddr cfg) \<or> length (GTPBindAddr cfg) > 64, ''gtp_bind_addr is invalid''),
    (\<not> parseIP (trimSpace (GTPBindAddr cfg)), ''gtp_bind_addr must be a valid IP address''),
    (blank (S1CBindAddr cfg) \<or> length (S1CBindAddr cfg) > 64, ''s1c_bind_addr is invalid''),
    (\<not> parseIP (trimSpace (S1CBindAddr cfg)), ''s1c_bind_addr must be a valid IP address''),
    (S1CBindPort cfg > 65535, ''s1c_bind_port must be in range 0..65535''),
    (PCI cfg > 503, ''pci must be in range 0..503''),
    (DLEARFCN cfg > 262143, ''dl_earfcn must be in range 0..262143''),
    (f64_lt (TXGain cfg) (Fin 0) \<or> f64_lt (Fin 120) (TXGain cfg), ''tx_gain must be in range 0..120''),
    (f64_lt (RXGain cfg) (Fin 0) \<or> f64_lt (Fin 120) (RXGain cfg), ''rx_gain must be in range 0..120''),
    (length (DeviceName cfg) > 128, ''device_name is too long''),
    (length (DeviceArgs cfg) > 512, ''device_args is too long''),
    (NPRB cfg \<notin> {6, 15, 25, 50, 75, 100}, ''n_prb must be one of 6,15,25,50,75,100''),
    (TM cfg \<noteq> 0 \<and> (TM cfg < 1 \<or> TM cfg > 4), ''tm must be in range 1..4''),
    (MinCtrlSymbols cfg \<noteq> 0 \<and> (sint (MinCtrlSymbols cfg) < 1 \<or> sint (MinCtrlSymbols cfg) > 3),
      ''min_nof_ctrl_symbols must be in range 1..3''),
    (MaxCtrlSymbols cfg \<noteq> 0 \<and> (sint (MaxCtrlSymbols cfg) < 1 \<or> sint (MaxCtrlSymbols cfg) > 3),
      ''max_nof_ctrl_symbols must be in range 1..3''),
    (\<not> f64_eq (TargetBLER cfg) (Fin 0) \<and>
       (f64_lt (TargetBLER cfg) (Fin 0) \<or> f64_lt (Fin 1) (TargetBLER cfg)),
      ''target_bler must be in range 0..1''),
    (blank (CellID cfg), ''cell_id is invalid''),
    (blank (TAC cfg), ''tac is invalid''),
    (\<not> list_all (\<lambda>p. 1 \<le> sint (QCI p) \<and> sint (QCI p) \<le> 9) (QCIProfiles cfg),
      ''qci must be in range 1..9'')]"

definition validate :: "EditableConfig \<Rightarrow> unit result" where
  "validate cfg = (case find fst (validateChecks cfg) of
       None \<Rightarrow> Inr () | Some (_, msg) \<Rightarrow> Inl (Errorf msg))"

abbreviation valid :: "EditableConfig \<Rightarrow> bool" where
  "valid cfg \<equiv> validate cfg = Inr ()"

section \<open>The value of a key\<close>

text \<open>The getters of the NETCONF bindings (\<^verbatim>\<open>Key\<close> and \<^verbatim>\<open>Get\<close> of the list in
  \<^verbatim>\<open>newRegistry\<close>, bindings.go), and the value they give a key.\<close>

definition leafGetters :: "(string \<times> (EditableConfig \<Rightarrow> goany)) list" where
  "leafGetters = [
    (''enb_id'', \<lambda>c. VString (ENBID c)),
    (''mcc'', \<lambda>c. VString (MCC c)),
    (''mnc'', \<lambda>c. VString (MNC c)),
    (''mme_addr'', \<lambda>c. VString (MMEAddr c)),
    (''gtp_bind_addr'', \<lambda>c. VString (GTPBindAddr c)),
    (''s1c_bind_addr'', \<lambda>c. VString (S1CBindAddr c)),
    (''s1c_bind_port'', \<lambda>c. VUint32 (S1CBindPort c)),
    (''n_prb'', \<lambda>c. VUint32 (NPRB c)),
    (''tm'', \<lambda>c. VUint32 (TM c)),
    (''cell_id'', \<lambda>c. VString (CellID c)),
    (''tac'', \<lambda>c. VString (TAC c)),
    (''dl_earfcn'', \<lambda>c. VUint32 (DLEARFCN c)),
    (''pci'', \<lambda>c. VUint32 (PCI c)),
    (''ho_active'', \<lambda>c. VBool (HOActive c)),
    (''a3_offset'', \<lambda>c. VInt32 (A3Offset c)),
    (''time_to_trigger'', \<lambda>c. VInt32 (TimeToTrigger c)),
    (''hysteresis'', \<lambda>c. VInt32 (Hysteresis c)),
    (''enb_serial'', \<lambda>c. VString (ENBSerial c)),
    (''tx_gain'', \<lambda>c. VFloat64 (TXGain c)),
    (''rx_gain'', \<lambda>c. VFloat64 (RXGain c)),
    (''time_adv_nsamples'', \<lambda>c. VString (TimeAdvNSamples c)),
    (''device_name'', \<lambda>c. VString (DeviceName c)),
    (''device_args'', \<lambda>c. VString (DeviceArgs c)),
    (''sched_policy'', \<lambda>c. VString (SchedPolicy c)),
    (''pdsch_max_mcs'', \<lambda>c. VInt32 (PDSCHMaxMCS c)),
    (''pusch_max_mcs'', \<lambda>c. VInt32 (PUSCHMaxMCS c)),
    (''target_bler'', \<lambda>c. VFloat64 (TargetBLER c)),
    (''min_nof_ctrl_symbols'', \<lambda>c. VInt32 (MinCtrlSymbols c)),
    (''max_nof_ctrl_symbols'', \<lambda>c. VInt32 (MaxCtrlSymbols c)),
    (''q_rx_lev_min'', \<lambda>c. VInt32 (QRxLevMin c)),
    (''cell_barred'', \<lambda>c. VString (CellBarred c)),
    (''num_ra_preambles'', \<lambda>c. VInt32 (NumRAPreambles c)),
    (''preamble_init_rx_target_pwr'', \<lambda>c. VInt32 (PreambleInitRxTargetPwr c)),
    (''pwr_ramping_step'', \<lambda>c. VInt32 (PwrRampingStep c)),
    (''reference_signal_power'', \<lambda>c. VInt32 (ReferenceSignalPower c)),
    (''p0_nominal_pusch'', \<lambda>c. VInt32 (P0NominalPUSCH c)),
    (''p0_nominal_pucch'', \<lambda>c. VInt32 (P0NominalPUCCH c)),
    (''alpha'', \<lambda>c. VFloat64 (Alpha c)),
    (''default_paging_cycle'', \<lambda>c. VInt32 (DefaultPagingCycle c)),
    (''t300'', \<lambda>c. VInt32 (T300 c)),
    (''t301'', \<lambda>c. VInt32 (T301 c)),
    (''t310'', \<lambda>c. VInt32 (T310 c)),
    (''n310'', \<lambda>c. VInt32 (N310 c)),
    (''t311'', \<lambda>c. VInt32 (T311 c)),
    (''pusch_max_its'', \<lambda>c. VInt32 (PUSCHMaxIts c)),
    (''nr_pusch_max_its'', \<lambda>c. VInt32 (NRPUSCHMaxIts c)),
    (''pusch_8bit_decoder'', \<lambda>c. VBool (PUSCH8bitDecoder c)),
    (''nof_phy_threads'', \<lambda>c. VInt32 (NofPHYThreads c)),
    (''metrics_period_secs'', \<lambda>c. VInt32 (MetricsPeriodSecs c)),
    (''tx_amplitude'', \<lambda>c. VFloat64 (TXAmplitude c)),
    (''rrc_inactivity_timer'', \<lambda>c. VInt32 (RRCInactivityTimer c)),
    (''rlf_release_timer_ms'', \<lambda>c. VInt32 (RLFReleaseTimerMs c)),
    (''eea_pref_list'', \<lambda>c. VString (EEAPrefList c)),
    (''eia_pref_list'', \<lambda>c. VString (EIAPrefList c)),
    (''gtpu_tunnel_timeout'', \<lambda>c. VInt32 (GTPUTunnelTimeout c)),
    (''s1_setup_max_retries'', \<lambda>c. VInt32 (S1SetupMaxRetries c)),
    (''s1_connect_timer'', \<lambda>c. VInt32 (S1ConnectTimer c)),
    (''rx_gain_offset'', \<lambda>c. VFloat64 (RXGainOffset c)),
    (''use_cedron_f_est_alg'', \<lambda>c. VBool (UseCedronFEstAlg c)),
    (''rlf_min_ul_snr_estim'', \<lambda>c. VFloat64 (RLFMinULSNREstim c)),
    (''max_mac_dl_kos'', \<lambda>c. VInt32 (MaxMacDLKOs c)),
    (''max_mac_ul_kos'', \<lambda>c. VInt32 (MaxMacULKOs c))]"

definition leafValue :: "EditableConfig \<Rightarrow> string \<Rightarrow> goany option" where
  "leafValue cfg key = map_option (\<lambda>g. g cfg) (map_of leafGetters key)"

section \<open>Laws of assignment\<close>

text \<open>The fields that no key reaches, and the value a leaf of a given type takes from a
  dynamically typed one.\<close>

definition unmanaged :: "EditableConfig \<Rightarrow> string list \<times> bool list" where
  "unmanaged c = ([SIBConfigFile c, RRConfigFile c, RBConfigFile c, ReportJSONUDSPath c,
      AlarmsFilename c], [ReportJSONUDSEnable c, AlarmsLogEnable c])"

definition coerceLike :: "goany \<Rightarrow> goany \<Rightarrow> goany option" where
  "coerceLike old v = (case old of
       VString _ \<Rightarrow> map_option (\<lambda>s. VString (trimSpace s)) (asString v)
     | VUint32 _ \<Rightarrow> map_option VUint32 (asUint32 v)
     | VInt32 _ \<Rightarrow> map_option VInt32 (asInt32 v)
     | VFloat64 _ \<Rightarrow> map_option VFloat64 (asFloat64 v)
     | VBool _ \<Rightarrow> (case v of VBool b \<Rightarrow> Some (VBool b) | _ \<Rightarrow> None)
     | _ \<Rightarrow> None)"

text \<open>A field update that writes the leaf of key \<open>k\<close> (with values built by \<open>mk\<close>) and
  nothing else, and a setter of the switch that converts its argument and makes such an
  update.\<close>

definition writes :: "string \<Rightarrow> ('a \<Rightarrow> goany) \<Rightarrow> ('a \<Rightarrow> EditableConfig \<Rightarrow> EditableConfig) \<Rightarrow> bool" where
  "writes k mk F \<longleftrightarrow>
     list_all (\<lambda>(k', g). if k' = k then (\<forall>x c. g (F x c) = mk x) \<and> (\<forall>c. \<exists>x. g c = mk x)
                         else (\<forall>x c. g (F x c) = g c)) leafGetters
     \<and> (\<forall>x c. QCIProfiles (F x c) = QCIProfiles c \<and> unmanaged (F x c) = unmanaged c)"

definition lawful :: "string \<Rightarrow> setter \<Rightarrow> bool" where
  "lawful k f \<longleftrightarrow> (\<forall>v c old. leafValue c k = Some old \<longrightarrow>
     (case coerceLike old v of
       None \<Rightarrow> \<exists>m. f v c = Inl (Errorf m)
     | Some x \<Rightarrow> \<exists>c'. f v c = Inr c' \<and> leafValue c' = (leafValue c)(k \<mapsto> x)
                    \<and> QCIProfiles c' = QCIProfiles c \<and> unmanaged c' = unmanaged c))"

lemma writes_leafValue:
  assumes "writes k mk F" "leafValue c k = Some old"
  shows "leafValue (F x c) = (leafValue c)(k \<mapsto> mk x)" "\<exists>y. old = mk y"
proof -
  have *: "if k' = k then (\<forall>x c. g (F x c) = mk x) \<and> (\<forall>c. \<exists>x. g c = mk x)
      else (\<forall>x c. g (F x c) = g c)" if "map_of leafGetters k' = Some g" for k' g
    using assms(1) map_of_SomeD [OF that] by (auto simp: writes_def list_all_iff)
  show "leafValue (F x c) = (leafValue c)(k \<mapsto> mk x)"
  proof
    fix k' show "leafValue (F x c) k' = ((leafValue c)(k \<mapsto> mk x)) k'"
      using * [of k'] assms(2) by (cases "map_of leafGetters k'") (auto simp: leafValue_def split: if_splits)
  qed
  show "\<exists>y. old = mk y"
    using * [of k] assms(2) by (auto simp: leafValue_def)
qed

lemma writes_rest:
  "writes k mk F \<Longrightarrow> QCIProfiles (F x c) = QCIProfiles c"
  "writes k mk F \<Longrightarrow> unmanaged (F x c) = unmanaged c"
  by (auto simp: writes_def)

named_theorems lawful_intros \<open>when a setter of the switch is lawful\<close>

lemma lawful_setString [lawful_intros]: "writes k VString F \<Longrightarrow> lawful k (setString k F)"
  by (auto simp: lawful_def setString_def coerceLike_def writes_leafValue(1) writes_rest
      dest: writes_leafValue(2) split: option.split)

lemma lawful_setUint32 [lawful_intros]: "writes k VUint32 F \<Longrightarrow> lawful k (setUint32 k F)"
  by (auto simp: lawful_def setUint32_def coerceLike_def writes_leafValue(1) writes_rest
      dest: writes_leafValue(2) split: option.split)

lemma lawful_setInt32 [lawful_intros]: "writes k VInt32 F \<Longrightarrow> lawful k (setInt32 k F)"
  by (auto simp: lawful_def setInt32_def coerceLike_def writes_leafValue(1) writes_rest
      dest: writes_leafValue(2) split: option.split)

lemma lawful_setFloat64 [lawful_intros]: "writes k VFloat64 F \<Longrightarrow> lawful k (setFloat64 k F)"
  by (auto simp: lawful_def setFloat64_def coerceLike_def writes_leafValue(1) writes_rest
      dest: writes_leafValue(2) split: option.split)

lemma lawful_setBool [lawful_intros]: "writes k VBool F \<Longrightarrow> lawful k (setBool k F)"
  by (auto simp: lawful_def setBool_def coerceLike_def writes_leafValue(1) writes_rest
      dest: writes_leafValue(2) split: option.split goany.split)

abbreviation allLawful :: "(string \<times> setter) list \<Rightarrow> bool" where
  "allLawful t \<equiv> list_all (\<lambda>(k, f). lawful k f) t"

lemmas each_key = list.pred_inject prod.case simp_thms
lemmas writes_list = writes_def [unfolded leafGetters_def each_key]

lemma lawful_core: "allLawful coreTable"
  unfolding coreTable_def
  by (simp only: each_key, intro conjI; rule lawful_intros; simp add: writes_list unmanaged_def)

lemma lawful_sched: "allLawful schedTable"
  unfolding schedTable_def
  by (simp only: each_key, intro conjI; rule lawful_intros; simp add: writes_list unmanaged_def)

lemma lawful_sib: "allLawful sibTable"
  unfolding sibTable_def
  by (simp only: each_key, intro conjI; rule lawful_intros; simp add: writes_list unmanaged_def)

lemma lawful_expert: "allLawful expertTable"
  unfolding expertTable_def
  by (simp only: each_key, intro conjI; rule lawful_intros; simp add: writes_list unmanaged_def)

lemma lawful_applyTable: "map_of applyTable k = Some f \<Longrightarrow> lawful k f"
  using lawful_core lawful_sched lawful_sib lawful_expert
  by (auto simp: applyTable_def list_all_iff dest!: map_of_SomeD)


definition leafKeys :: "string list" where
  "leafKeys = map fst applyTable"

definition getterKeys :: "string list" where
  "getterKeys = map fst leafGetters"

lemmas leafKeys_list [code] = leafKeys_def [unfolded applyTable_def coreTable_def schedTable_def
    sibTable_def expertTable_def append.simps list.map fst_conv]
lemmas getterKeys_list [code] = getterKeys_def [unfolded leafGetters_def list.map fst_conv]

lemma getterKeys_eq: "set getterKeys = set leafKeys"
proof
  show "set getterKeys \<subseteq> set leafKeys" by code_simp
  show "set leafKeys \<subseteq> set getterKeys" by code_simp
qed

lemma leafValue_None_iff: "leafValue c k = None \<longleftrightarrow> k \<notin> set leafKeys"
  using getterKeys_eq by (auto simp: leafValue_def map_of_eq_None_iff getterKeys_def)

lemma applyTable_None_iff: "map_of applyTable k = None \<longleftrightarrow> k \<notin> set leafKeys"
  by (simp add: leafKeys_def map_of_eq_None_iff)

lemma applyChange_leaf:
  assumes "k \<in> set leafKeys" "leafValue c k = Some old"
  shows "case coerceLike old v of None \<Rightarrow> \<exists>m. applyChange c k v = Inl (Errorf m)
     | Some x \<Rightarrow> \<exists>c'. applyChange c k v = Inr c' \<and> leafValue c' = (leafValue c)(k \<mapsto> x)
                    \<and> QCIProfiles c' = QCIProfiles c \<and> unmanaged c' = unmanaged c"
proof -
  obtain f where f: "map_of applyTable k = Some f"
    using assms(1) applyTable_None_iff by (metis not_None_eq)
  show ?thesis
    using lawful_applyTable [OF f, unfolded lawful_def, rule_format, OF assms(2), of v]
    unfolding applyChange_def f option.case .
qed

subsection \<open>List entries\<close>

definition qciGetters :: "(string \<times> (QCIProfile \<Rightarrow> int32)) list" where
  "qciGetters = [
    (''discard_timer'', DiscardTimer),
    (''pdcp_sn_size'', PDCPSNSize),
    (''t_poll_retx'', TPollRetx),
    (''max_retx_thresh'', MaxRetxThresh),
    (''t_reordering'', TReordering),
    (''priority'', Priority)]"

definition qciLookup :: "QCIProfile list \<Rightarrow> int32 \<Rightarrow> QCIProfile option" where
  "qciLookup ps q = find (\<lambda>p. QCI p = q) ps"

text \<open>The value of a field of an entry; an absent entry reads as the zero entry, which is what
  the first assignment to it creates.\<close>

definition qciValue :: "QCIProfile list \<Rightarrow> int32 \<Rightarrow> string \<Rightarrow> goany option" where
  "qciValue ps q field = map_option
     (\<lambda>g. VInt32 (g (case qciLookup ps q of Some p \<Rightarrow> p | None \<Rightarrow> emptyQCIProfile q)))
     (map_of qciGetters field)"

lemma qci_writes:
  "list_all (\<lambda>(f, s). list_all (\<lambda>(f', g). \<forall>i p. g (s i p) = (if f' = f then i else g p)) qciGetters
     \<and> (\<forall>i p. QCI (s i p) = QCI p)) qciSetters"
  by (simp add: qciSetters_def qciGetters_def)

lemma qciSetter_law:
  assumes "map_of qciSetters f = Some s"
  shows "map_of qciGetters f' = Some g \<Longrightarrow> g (s i p) = (if f' = f then i else g p)"
    and "QCI (s i p) = QCI p"
  using assms qci_writes by (fastforce simp: list_all_iff dest!: map_of_SomeD)+

lemma qci_dom: "map_of qciSetters f = None \<longleftrightarrow> map_of qciGetters f = None"
  by (simp add: qciSetters_def qciGetters_def)

lemma qciIndex_less: "qciIndex ps q < length ps \<longleftrightarrow> q \<in> QCI ` set ps"
  by (induction ps) (auto simp: qciIndex_def)

lemma qciIndex_le: "qciIndex ps q \<le> length ps"
  by (simp add: qciIndex_def length_takeWhile_le)

lemma qciLookup_index:
  "qciLookup ps q = (if qciIndex ps q < length ps then Some (ps ! qciIndex ps q) else None)"
  by (induction ps) (auto simp: qciIndex_def qciLookup_def)

lemma qciLookup_update:
  "QCI p = q \<Longrightarrow> qciIndex ps q < length ps \<Longrightarrow>
     qciLookup (ps[qciIndex ps q := p]) q' = (if q' = q then Some p else qciLookup ps q')"
  by (induction ps) (auto simp: qciIndex_def qciLookup_def)

lemma qciLookup_append:
  "q \<notin> QCI ` set ps \<Longrightarrow> QCI p = q \<Longrightarrow>
     qciLookup (ps @ [p]) q' = (if q' = q then Some p else qciLookup ps q')"
  by (induction ps) (auto simp: qciLookup_def)

text \<open>Updating an entry, as the index loop and the append of the source do it.\<close>

definition qciUpsert :: "QCIProfile list \<Rightarrow> int32 \<Rightarrow> (QCIProfile \<Rightarrow> QCIProfile) \<Rightarrow> QCIProfile list" where
  "qciUpsert ps q f = (let idx = qciIndex ps q;
      ps' = (if idx = length ps then ps @ [emptyQCIProfile q] else ps) in ps'[idx := f (ps' ! idx)])"

lemma qciLookup_upsert:
  assumes "\<And>p. QCI (f p) = QCI p"
  shows "qciLookup (qciUpsert ps q f) q' =
    (if q' = q then Some (f (case qciLookup ps q of Some p \<Rightarrow> p | None \<Rightarrow> emptyQCIProfile q))
     else qciLookup ps q')"
proof (cases "qciIndex ps q < length ps")
  case True
  then have "QCI (ps ! qciIndex ps q) = q"
    using qciLookup_index [of ps q] by (auto simp: qciLookup_def find_Some_iff)
  with True show ?thesis
    using assms qciLookup_update [of "f (ps ! qciIndex ps q)" q ps q']
    by (simp add: qciUpsert_def Let_def qciLookup_index [of ps q])
next
  case False
  then have idx: "qciIndex ps q = length ps" and "q \<notin> QCI ` set ps"
    using qciIndex_le [of ps q] qciIndex_less [of ps q] by auto
  then show ?thesis
    using assms qciLookup_append [of q ps "f (emptyQCIProfile q)" q']
    by (simp add: qciUpsert_def Let_def qciLookup_index [of ps q] emptyQCIProfile_def
        list_update_append)
qed

lemma qciUpsert_QCIs: 
  assumes "\<And>p. QCI (f p) = QCI p"
  shows "map QCI (qciUpsert ps q f) = (if q \<in> QCI ` set ps then map QCI ps else map QCI ps @ [q])"
  using assms qciIndex_less [of ps q] qciIndex_le [of ps q]
  by (auto simp: qciUpsert_def Let_def map_update list_update_append emptyQCIProfile_def
      list_update_same_conv)


lemma applyQCI_upsert:
  "applyQCIProfileChange cfg key val = (case parseQCIProfileKey key of
       None \<Rightarrow> Inl (Errorf (''invalid qci_profiles key: '' @ key))
     | Some (q, field) \<Rightarrow>
         if sint q < 1 \<or> sint q > 9 then Inl (Errorf ''qci must be in range 1..9'')
         else case map_of qciSetters field of
             None \<Rightarrow> Inl (Errorf (''unsupported qci profile field: '' @ field))
           | Some s \<Rightarrow> (case asInt32 val of
               None \<Rightarrow> Inl (Errorf (field @ '' must be int32''))
             | Some i \<Rightarrow> Inr (cfg\<lparr>QCIProfiles := qciUpsert (QCIProfiles cfg) q (s i)\<rparr>)))"
  by (auto simp: applyQCIProfileChange_def setQCIField_def qciUpsert_def Let_def
      split: option.split)

subsection \<open>All keys at once\<close>

text \<open>The place a key writes: the leaf of a scalar key, or the field of a list entry. Keys that
  write no place are rejected.\<close>

datatype slot = Leaf string | QField int32 string

definition keySlot :: "string \<Rightarrow> slot option" where
  "keySlot key = (if key \<in> set leafKeys then Some (Leaf key) else
     case parseQCIProfileKey key of None \<Rightarrow> None
     | Some (q, f) \<Rightarrow> if 1 \<le> sint q \<and> sint q \<le> 9 \<and> map_of qciGetters f \<noteq> None
                     then Some (QField q f) else None)"

fun slotValue :: "EditableConfig \<Rightarrow> slot \<Rightarrow> goany option" where
  "slotValue c (Leaf k) = leafValue c k"
| "slotValue c (QField q f) = qciValue (QCIProfiles c) q f"

text \<open>What the tests and the later components need to know of a dynamically keyed record: an
  assignment converts the value to the type of the place, or fails, and changes that place
  only.\<close>

locale slot_store =
  fixes put :: "'c \<Rightarrow> 'k \<Rightarrow> 'v \<Rightarrow> 'c result"
    and slot_of :: "'k \<Rightarrow> 'l option"
    and get :: "'c \<Rightarrow> 'l \<Rightarrow> 'w option"
    and conv :: "'w \<Rightarrow> 'v \<Rightarrow> 'w option"
  assumes slot_dom: "slot_of k = Some l \<Longrightarrow> \<exists>w. get c l = Some w"
    and put_ok: "slot_of k = Some l \<Longrightarrow> get c l = Some w \<Longrightarrow> conv w v = Some w' \<Longrightarrow>
      \<exists>c'. put c k v = Inr c' \<and> get c' = (get c)(l \<mapsto> w')"
    and put_bad: "slot_of k = Some l \<Longrightarrow> get c l = Some w \<Longrightarrow> conv w v = None \<Longrightarrow>
      \<exists>e. put c k v = Inl e"
    and put_unknown: "slot_of k = None \<Longrightarrow> \<exists>e. put c k v = Inl e"
begin

lemma put_Inr_iff:
  assumes "put c k v = Inr c'"
  obtains l w w' where "slot_of k = Some l" "get c l = Some w" "conv w v = Some w'"
    "get c' = (get c)(l \<mapsto> w')"
proof (cases "slot_of k")
  case None then show ?thesis using assms put_unknown [OF None, of c v] by auto
next
  case (Some l)
  then obtain w where w: "get c l = Some w" using slot_dom by blast
  show ?thesis
  proof (cases "conv w v")
    case None then show ?thesis using assms put_bad [OF \<open>slot_of k = Some l\<close> w None] by fastforce
  next
    case (Some w') then show ?thesis
      using assms put_ok [OF \<open>slot_of k = Some l\<close> w Some] that [OF \<open>slot_of k = Some l\<close> w Some] by auto
  qed
qed

text \<open>A sequence of assignments, stopping at the first failure.\<close>

primrec putAll :: "'c \<Rightarrow> ('k \<times> 'v) list \<Rightarrow> 'c result" where
  "putAll c [] = Inr c"
| "putAll c (kv # kvs) = bindE (put c (fst kv) (snd kv)) (\<lambda>c'. putAll c' kvs)"

definition accepts :: "'c \<Rightarrow> 'k \<times> 'v \<Rightarrow> bool" where
  "accepts c kv \<longleftrightarrow> (\<exists>l w w'. slot_of (fst kv) = Some l \<and> get c l = Some w \<and> conv w (snd kv) = Some w')"

lemma put_is_ok: "(\<exists>c'. put c k v = Inr c') \<longleftrightarrow> accepts c (k, v)"
  unfolding accepts_def by (auto elim: put_Inr_iff dest: put_ok)

lemma accepts_cong: "(\<And>l. slot_of (fst kv) = Some l \<Longrightarrow> get c l = get c' l) \<Longrightarrow> accepts c kv = accepts c' kv"
  unfolding accepts_def by (metis)

lemma putAll_other:
  assumes "putAll c kvs = Inr c'" "\<And>k v. (k, v) \<in> set kvs \<Longrightarrow> slot_of k \<noteq> Some l"
  shows "get c' l = get c l"
  using assms
proof (induction kvs arbitrary: c)
  case (Cons kv kvs)
  then obtain c1 where c1: "put c (fst kv) (snd kv) = Inr c1" "putAll c1 kvs = Inr c'" by auto
  then have "get c1 l = get c l"
    using Cons.prems(2) [of "fst kv" "snd kv"] by (auto elim!: put_Inr_iff)
  moreover have "get c' l = get c1 l"
    using Cons.IH [OF c1(2)] Cons.prems(2) by auto
  ultimately show ?case by simp
qed simp

text \<open>With distinct places the order of the assignments does not matter: whether they succeed
  and every value afterwards is a function of the set of assignments.\<close>

abbreviation distinct_slots :: "('k \<times> 'v) list \<Rightarrow> bool" where
  "distinct_slots kvs \<equiv> distinct (map (slot_of \<circ> fst) kvs)"

lemma putAll_is_ok:
  "distinct_slots kvs \<Longrightarrow> (\<exists>c'. putAll c kvs = Inr c') \<longleftrightarrow> (\<forall>kv \<in> set kvs. accepts c kv)"
proof (induction kvs arbitrary: c)
  case (Cons kv kvs)
  show ?case
  proof (cases "put c (fst kv) (snd kv)")
    case (Inl e) then show ?thesis using put_is_ok [of c "fst kv" "snd kv"] by auto
  next
    case (Inr c1)
    then have "\<forall>x \<in> set kvs. accepts c1 x = accepts c x"
      using Cons.prems by (intro ballI accepts_cong) (force elim!: put_Inr_iff)
    then show ?thesis
      using Cons Inr put_is_ok [of c "fst kv" "snd kv"] by auto
  qed
qed simp

lemma putAll_value:
  "putAll c kvs = Inr c' \<Longrightarrow> distinct_slots kvs \<Longrightarrow> (k, v) \<in> set kvs \<Longrightarrow> slot_of k = Some l \<Longrightarrow>
    \<exists>w w'. get c l = Some w \<and> conv w v = Some w' \<and> get c' l = Some w'"
proof (induction kvs arbitrary: c)
  case (Cons kv kvs)
  then obtain c1 where c1: "put c (fst kv) (snd kv) = Inr c1" "putAll c1 kvs = Inr c'" by auto
  show ?case
  proof (cases "(k, v) = kv")
    case True
    then have "get c' l = get c1 l"
      using Cons.prems by (intro putAll_other [OF c1(2)]) force
    then show ?thesis using c1(1) True Cons.prems(4) by (auto elim!: put_Inr_iff)
  next
    case False
    then have mem: "(k, v) \<in> set kvs" using Cons.prems(3) by simp
    then have "slot_of (fst kv) \<noteq> Some l" using Cons.prems(2,4) by force
    then have "get c1 l = get c l" using c1(1) by (auto elim!: put_Inr_iff)
    then show ?thesis using Cons.IH [OF c1(2) _ mem Cons.prems(4)] Cons.prems(2) by simp
  qed
qed simp

lemma putAll_order:
  assumes "mset kvs = mset kvs'" "distinct_slots kvs" "putAll c kvs = Inr c1"
  shows "\<exists>c2. putAll c kvs' = Inr c2 \<and> get c2 = get c1"
proof -
  have set: "set kvs' = set kvs" using assms(1) mset_eq_setD by metis
  have dist: "distinct_slots kvs'"
    using assms(1,2) by (metis distinct_count_atmost_1 mset_map set_map set)
  obtain c2 where c2: "putAll c kvs' = Inr c2"
    using putAll_is_ok [OF dist, of c] putAll_is_ok [OF assms(2), of c] assms(3) set by auto
  have "get c2 l = get c1 l" for l
  proof (cases "\<exists>kv \<in> set kvs. slot_of (fst kv) = Some l")
    case True
    then obtain k v where "(k, v) \<in> set kvs" "slot_of k = Some l" by auto
    then show ?thesis
      using putAll_value [OF c2 dist] putAll_value [OF assms(3,2)] set by fastforce
  next
    case False
    then show ?thesis
      using putAll_other [OF c2, of l] putAll_other [OF assms(3), of l] set by fastforce
  qed
  then show ?thesis using c2 by auto
qed

end

lemma qciValue_upsert:
  assumes "map_of qciSetters f = Some s"
  shows "qciValue (qciUpsert ps q (s i)) q' f' =
    (if q' = q \<and> f' = f then Some (VInt32 i) else qciValue ps q' f')"
proof (cases "map_of qciGetters f'")
  case None
  then show ?thesis using qci_dom [of f] assms by (auto simp: qciValue_def)
next
  case (Some g)
  then show ?thesis
    using qciSetter_law [OF assms]
    by (auto simp: qciValue_def qciLookup_upsert qciSetter_law(1) [OF assms Some])
qed

lemma leafValue_QCIProfiles [simp]: "leafValue (c\<lparr>QCIProfiles := ps\<rparr>) = leafValue c"
proof -
  have "list_all (\<lambda>(k, g). g (c\<lparr>QCIProfiles := ps\<rparr>) = g c) leafGetters"
    unfolding leafGetters_def by simp
  then have "map_option (\<lambda>g. g (c\<lparr>QCIProfiles := ps\<rparr>)) (map_of leafGetters k)
      = map_option (\<lambda>g. g c) (map_of leafGetters k)" for k
    by (cases "map_of leafGetters k") (auto simp: list_all_iff dest!: map_of_SomeD)
  then show ?thesis by (simp add: leafValue_def fun_eq_iff)
qed


lemma slotValue_Some: "keySlot k = Some l \<Longrightarrow> \<exists>w. slotValue c l = Some w"
  using leafValue_None_iff [of c k]
  by (auto simp: keySlot_def qciValue_def split: if_splits option.splits)

lemma slotValue_leaf_update:
  "leafValue c' = (leafValue c)(k \<mapsto> x) \<Longrightarrow> QCIProfiles c' = QCIProfiles c \<Longrightarrow>
    slotValue c' = (slotValue c)(Leaf k \<mapsto> x)"
  by (rule ext, case_tac xa) auto

lemma slotValue_qci_update:
  "map_of qciSetters f = Some s \<Longrightarrow> slotValue (c\<lparr>QCIProfiles := qciUpsert (QCIProfiles c) q (s i)\<rparr>)
    = (slotValue c)(QField q f \<mapsto> VInt32 i)"
  by (rule ext, case_tac x) (auto simp: qciValue_upsert)

lemma not_leafKey_hasPrefix:
  "parseQCIProfileKey k = Some x \<Longrightarrow> hasPrefix k ''qci_profiles[''"
  by (simp add: parseQCIProfileKey_def split: if_splits)

lemma applyChange_slot:
  assumes "keySlot k = Some l" "slotValue c l = Some old"
  shows "case coerceLike old v of None \<Rightarrow> \<exists>m. applyChange c k v = Inl (Errorf m)
     | Some x \<Rightarrow> \<exists>c'. applyChange c k v = Inr c' \<and> slotValue c' = (slotValue c)(l \<mapsto> x)
                    \<and> unmanaged c' = unmanaged c"
proof (cases "k \<in> set leafKeys")
  case True
  then show ?thesis
    using assms applyChange_leaf [OF True, of c old v] slotValue_leaf_update
    by (auto simp: keySlot_def split: option.splits)
next
  case False
  then obtain q f where q: "parseQCIProfileKey k = Some (q, f)" "1 \<le> sint q" "sint q \<le> 9"
      "map_of qciGetters f \<noteq> None" "l = QField q f"
    using assms(1) by (auto simp: keySlot_def split: option.splits if_splits)
  then obtain s where s: "map_of qciSetters f = Some s" using qci_dom [of f] by auto
  obtain j where "old = VInt32 j" using assms(2) q by (auto simp: qciValue_def)
  then have "coerceLike old v = map_option VInt32 (asInt32 v)" by (simp add: coerceLike_def)
  moreover have "applyChange c k v = (case asInt32 v of None \<Rightarrow> Inl (Errorf (f @ '' must be int32''))
       | Some i \<Rightarrow> Inr (c\<lparr>QCIProfiles := qciUpsert (QCIProfiles c) q (s i)\<rparr>))"
    using False q s not_leafKey_hasPrefix [OF q(1)] applyTable_None_iff [of k]
    by (simp add: applyChange_def applyQCI_upsert)
  ultimately show ?thesis
    using slotValue_qci_update [OF s] q(5)
    by (auto simp: unmanaged_def split: option.split)
qed

lemma applyChange_unknown: "keySlot k = None \<Longrightarrow> \<exists>m. applyChange c k v = Inl (Errorf m)"
  using applyTable_None_iff [of k]
  by (auto simp: keySlot_def applyChange_def applyQCI_upsert qci_dom [symmetric]
      split: if_splits option.splits)

interpretation cfg: slot_store applyChange keySlot slotValue coerceLike
proof
  show "\<exists>w. slotValue c l = Some w" if "keySlot k = Some l" for k l c
    using slotValue_Some [OF that] .
  show "\<exists>c'. applyChange c k v = Inr c' \<and> slotValue c' = (slotValue c)(l \<mapsto> w')"
    if "keySlot k = Some l" "slotValue c l = Some w" "coerceLike w v = Some w'" for k l c w v w'
    using applyChange_slot [OF that(1,2), of v] that(3) by auto
  show "\<exists>e. applyChange c k v = Inl e"
    if "keySlot k = Some l" "slotValue c l = Some w" "coerceLike w v = None" for k l c w v
    using applyChange_slot [OF that(1,2), of v] that(3) by auto
  show "\<exists>e. applyChange c k v = Inl e" if "keySlot k = None" for k c v
    using applyChange_unknown [OF that] by auto
qed

lemma applyChange_unmanaged: "applyChange c k v = Inr c' \<Longrightarrow> unmanaged c' = unmanaged c"
proof -
  assume ok: "applyChange c k v = Inr c'"
  then obtain l w w' where "keySlot k = Some l" "slotValue c l = Some w" "coerceLike w v = Some w'"
    by (rule cfg.put_Inr_iff)
  then show ?thesis using ok applyChange_slot [of k l c w v] by auto
qed


subsection \<open>Validation\<close>

lemma find_fst_Some: "find fst xs = Some (b, m) \<Longrightarrow> b \<and> (b, m) \<in> set xs"
  by (induction xs) (auto split: if_splits)

lemma valid_iff: "valid cfg \<longleftrightarrow> (\<forall>(bad, msg) \<in> set (validateChecks cfg). \<not> bad)"
  by (auto simp: validate_def find_None_iff dest!: find_fst_Some split: option.splits)

lemma validate_error: "validate cfg = Inl e \<Longrightarrow> \<exists>msg. e = Errorf msg \<and> (True, msg) \<in> set (validateChecks cfg)"
  by (auto simp: validate_def dest!: find_fst_Some split: option.splits)

lemma valid_cases: "valid cfg \<or> (\<exists>msg. validate cfg = Inl (Errorf msg))"
  by (auto simp: validate_def split: option.splits)

text \<open>What an accepted configuration is known to satisfy. The float ranges hold in the sense of
  Go's comparisons: a NaN passes them.\<close>

lemma valid_identity:
  assumes "valid cfg"
  shows "length (MCC cfg) = 3" "list_all isDigit (MCC cfg)"
    "length (MNC cfg) \<in> {2, 3}" "list_all isDigit (MNC cfg)"
    "parseIP (trimSpace (MMEAddr cfg))" "parseIP (trimSpace (GTPBindAddr cfg))"
    "parseIP (trimSpace (S1CBindAddr cfg))"
  using assms by (auto simp: valid_iff validateChecks_def isFixedDigits_def)

lemma valid_ranges:
  assumes "valid cfg"
  shows "unat (S1CBindPort cfg) \<le> 65535" "unat (PCI cfg) \<le> 503" "unat (DLEARFCN cfg) \<le> 262143"
    "NPRB cfg \<in> {6, 15, 25, 50, 75, 100}" "unat (TM cfg) \<le> 4"
    "p \<in> set (QCIProfiles cfg) \<Longrightarrow> sint (QCI p) \<in> {1..9}"
proof -
  from assms have *: "S1CBindPort cfg \<le> 65535" "PCI cfg \<le> 503" "DLEARFCN cfg \<le> 262143" "TM cfg \<le> 4"
    by (auto simp: valid_iff validateChecks_def not_less)
  from * show "unat (S1CBindPort cfg) \<le> 65535" "unat (PCI cfg) \<le> 503" "unat (DLEARFCN cfg) \<le> 262143"
    "unat (TM cfg) \<le> 4"
    by (simp_all add: word_le_nat_alt)
  show "NPRB cfg \<in> {6, 15, 25, 50, 75, 100}" "p \<in> set (QCIProfiles cfg) \<Longrightarrow> sint (QCI p) \<in> {1..9}"
    using assms by (auto simp: valid_iff validateChecks_def list_all_iff)
qed

lemma valid_gain_range:
  "valid cfg \<Longrightarrow> TXGain cfg = Fin q \<Longrightarrow> 0 \<le> q \<and> q \<le> 120"
  "valid cfg \<Longrightarrow> RXGain cfg = Fin q \<Longrightarrow> 0 \<le> q \<and> q \<le> 120"
  by (auto simp: valid_iff validateChecks_def)

text \<open>Whether a configuration is valid depends on its leaves and on which list entries it
  has.\<close>

lemma distinct_getterKeys: "distinct getterKeys" by code_simp

lemma leafValue_getters:
  assumes "leafValue c1 = leafValue c2" shows "list_all (\<lambda>(k, g). g c1 = g c2) leafGetters"
proof -
  have "g c1 = g c2" if "(k, g) \<in> set leafGetters" for k g
  proof -
    have "map_of leafGetters k = Some g"
      using distinct_getterKeys that by (simp add: getterKeys_def)
    then show ?thesis using fun_cong [OF assms, of k] by (simp add: leafValue_def)
  qed
  then show ?thesis by (auto simp: list_all_iff)
qed

lemma validate_cong:
  assumes "leafValue c1 = leafValue c2" "QCI ` set (QCIProfiles c1) = QCI ` set (QCIProfiles c2)"
  shows "validate c1 = validate c2"
proof -
  note eqs = leafValue_getters [OF assms(1), unfolded leafGetters_def each_key goany.inject]
  have "list_all (\<lambda>p. 1 \<le> sint (QCI p) \<and> sint (QCI p) \<le> 9) (QCIProfiles c)
      \<longleftrightarrow> (\<forall>q \<in> QCI ` set (QCIProfiles c). 1 \<le> sint q \<and> sint q \<le> 9)" for c
    by (auto simp: list_all_iff)
  from this [of c1] this [of c2] have "list_all (\<lambda>p. 1 \<le> sint (QCI p) \<and> sint (QCI p) \<le> 9) (QCIProfiles c1)
      = list_all (\<lambda>p. 1 \<le> sint (QCI p) \<and> sint (QCI p) \<le> 9) (QCIProfiles c2)"
    by (simp only: assms(2))
  then have "validateChecks c1 = validateChecks c2"
    unfolding validateChecks_def using eqs by simp
  then show ?thesis by (simp add: validate_def)
qed

definition keyQCI :: "string \<Rightarrow> int32 set" where
  "keyQCI k = (case keySlot k of Some (QField q f) \<Rightarrow> {q} | _ \<Rightarrow> {})"

lemma applyChange_QCIs:
  assumes "applyChange c k v = Inr c'"
  shows "QCI ` set (QCIProfiles c') = QCI ` set (QCIProfiles c) \<union> keyQCI k"
proof (cases "k \<in> set leafKeys")
  case True
  then obtain old where "leafValue c k = Some old" using leafValue_None_iff [of c k] by auto
  then show ?thesis
    using applyChange_leaf [OF True, of c old v] assms True
    by (auto simp: keyQCI_def keySlot_def split: option.splits)
next
  case False
  obtain l w w' where "keySlot k = Some l" using assms by (rule cfg.put_Inr_iff)
  then obtain q f where q: "parseQCIProfileKey k = Some (q, f)" "1 \<le> sint q" "sint q \<le> 9"
      "map_of qciGetters f \<noteq> None" "l = QField q f"
    using False by (auto simp: keySlot_def split: option.splits if_splits)
  then obtain s where s: "map_of qciSetters f = Some s" using qci_dom [of f] by auto
  have "applyChange c k v = (case asInt32 v of None \<Rightarrow> Inl (Errorf (f @ '' must be int32''))
       | Some i \<Rightarrow> Inr (c\<lparr>QCIProfiles := qciUpsert (QCIProfiles c) q (s i)\<rparr>))"
    using False q s not_leafKey_hasPrefix [OF q(1)] applyTable_None_iff [of k]
    by (simp add: applyChange_def applyQCI_upsert)
  then obtain i where "c' = c\<lparr>QCIProfiles := qciUpsert (QCIProfiles c) q (s i)\<rparr>"
    using assms by (auto split: option.splits)
  moreover have "set (map QCI (qciUpsert (QCIProfiles c) q (s i))) = QCI ` set (QCIProfiles c) \<union> {q}"
    using qciUpsert_QCIs [of "s i" "QCIProfiles c" q] qciSetter_law(2) [OF s] by (auto split: if_splits)
  ultimately show ?thesis using \<open>keySlot k = Some l\<close> q(5) by (simp add: keyQCI_def)
qed
end
