(* ===== verification/LibconfigScan.thy ===== *)
theory LibconfigScan
  imports EditableConfig
begin

text \<open>
  The scanners of \<^verbatim>\<open>internal/ems/configuration/renderer.go\<close> over libconfig text: comments,
  strings, identifiers, assignments, scalar values, braces and named containers.

  A position is a natural number. A loop over positions is a recursive function of the position
  with the measure \<open>length data - i\<close>; each \<^verbatim>\<open>continue\<close> after an inner scan goes on one
  past the position the scan returned, as the loop increment does. A Go slice expression
  \<^verbatim>\<open>data[a:b]\<close> is \<open>goSlice data a b\<close>; the bounds lemmas (collection \<open>go_index\<close>) show that
  every slice and index taken is in range, so none of them panics.

  The locality lemmas at the end say that a scanner reads only what is before the position it
  returns, which is what makes a patched file readable again.
\<close>

section \<open>Definitions\<close>

definition goSlice :: "bytes \<Rightarrow> nat \<Rightarrow> nat \<Rightarrow> bytes" where
  "goSlice data a b = take (b - a) (drop a data)"

definition isASCIISpace :: "char \<Rightarrow> bool" where
  "isASCIISpace c \<longleftrightarrow> c = CHR 0x20 \<or> c = CHR 0x09 \<or> c = CHR 0x0D \<or> c = CHR 0x0A"

text \<open>The loop \<^verbatim>\<open>for i < len(data) && P(data[i]) { i++ }\<close>.\<close>

function skipWhile :: "(char \<Rightarrow> bool) \<Rightarrow> bytes \<Rightarrow> nat \<Rightarrow> nat" where
  "skipWhile P data i = (if i < length data \<and> P (data ! i) then skipWhile P data (i + 1) else i)"
  by pat_completeness auto
termination by (relation "measure (\<lambda>(P, data, i). length data - i)") auto

declare skipWhile.simps [simp del]

definition skipASCIIWhitespace :: "bytes \<Rightarrow> nat \<Rightarrow> nat" where
  "skipASCIIWhitespace data i = skipWhile isASCIISpace data i"

definition skipLine :: "bytes \<Rightarrow> nat \<Rightarrow> nat" where
  "skipLine data i = skipWhile (\<lambda>c. c \<noteq> CHR 0x0A) data i"

fun trimRightASCII :: "bytes \<Rightarrow> nat \<Rightarrow> nat \<Rightarrow> nat" where
  "trimRightASCII data start end =
     (if end > start \<and> isASCIISpace (data ! (end - 1)) then trimRightASCII data start (end - 1)
      else end)"

declare trimRightASCII.simps [simp del]

definition isLineCommentStart :: "bytes \<Rightarrow> nat \<Rightarrow> bool" where
  "isLineCommentStart data i \<longleftrightarrow>
     i < length data \<and>
     (data ! i = CHR ''#'' \<or>
        (data ! i = CHR ''/'' \<and> i + 1 < length data \<and> data ! (i + 1) = CHR ''/'')) \<and>
     (i = 0 \<or> isASCIISpace (data ! (i - 1)))"

function skipStringFrom :: "bytes \<Rightarrow> nat \<Rightarrow> bool \<Rightarrow> nat option" where
  "skipStringFrom data i escaped =
     (if i < length data then
        if escaped then skipStringFrom data (i + 1) False
        else if data ! i = CHR 0x5C then skipStringFrom data (i + 1) True
        else if data ! i = CHR 0x22 then Some i
        else skipStringFrom data (i + 1) False
      else None)"
  by pat_completeness auto
termination by (relation "measure (\<lambda>(data, i, e). length data - i)") auto

declare skipStringFrom.simps [simp del]

definition skipString :: "bytes \<Rightarrow> nat \<Rightarrow> nat option" where
  "skipString data quote = skipStringFrom data (quote + 1) False"

section \<open>Bounds of the inner scans\<close>

lemma skipWhile_ge [go_index]: "i \<le> skipWhile P data i"
  by (induction P data i rule: skipWhile.induct) (subst skipWhile.simps, auto)

lemma skipWhile_le [go_index]: "i \<le> length data \<Longrightarrow> skipWhile P data i \<le> length data"
  by (induction P data i rule: skipWhile.induct) (subst skipWhile.simps, auto)

lemma skipWhile_stop: "skipWhile P data i < length data \<Longrightarrow> \<not> P (data ! skipWhile P data i)"
proof (induction P data i rule: skipWhile.induct)
  case (1 P data i)
  then show ?case by (cases "i < length data \<and> P (data ! i)") (auto simp: skipWhile.simps [of P data i])
qed

lemma skipWhile_all: "i \<le> k \<Longrightarrow> k < skipWhile P data i \<Longrightarrow> k < length data \<and> P (data ! k)"
proof (induction P data i rule: skipWhile.induct)
  case (1 P data i)
  show ?case
  proof (cases "i < length data \<and> P (data ! i)")
    case True
    then have "skipWhile P data i = skipWhile P data (i + 1)" by (subst skipWhile.simps) simp
    with 1 True show ?thesis by (cases "k = i") auto
  next
    case False
    then have "skipWhile P data i = i" by (subst skipWhile.simps) auto
    with 1 show ?thesis by simp
  qed
qed

lemma skipWhile_progress: "i < length data \<Longrightarrow> P (data ! i) \<Longrightarrow> i < skipWhile P data i"
  by (subst skipWhile.simps) (use skipWhile_ge [of "i + 1" P data] in auto)

lemma skipStringFrom_bounds [go_index]:
  "skipStringFrom data i e = Some n \<Longrightarrow> i \<le> n \<and> n < length data \<and> data ! n = CHR 0x22"
  by (induction data i e rule: skipStringFrom.induct)
     (subst (asm) (2) skipStringFrom.simps, auto split: if_splits)

lemma skipString_bounds [go_index]:
  "skipString data q = Some n \<Longrightarrow> q < n \<and> n < length data"
  unfolding skipString_def by (drule skipStringFrom_bounds) simp

lemma trimRightASCII_bounds [go_index]:
  "trimRightASCII data s e \<le> e" "s \<le> e \<Longrightarrow> s \<le> trimRightASCII data s e"
  by (induction data s e rule: trimRightASCII.induct; subst trimRightASCII.simps; auto)+

section \<open>Assignments and scalar values\<close>

record assignmentSpan =
  KeyStart :: nat
  KeyEnd :: nat
  Equal :: nat
  ValueStart :: nat

function findAssignment :: "bytes \<Rightarrow> string \<Rightarrow> nat \<Rightarrow> assignmentSpan option" where
  "findAssignment data key i =
     (if i < length data then
        if isLineCommentStart data i then findAssignment data key (skipLine data i + 1)
        else if data ! i = CHR 0x22 then
          (case skipString data i of None \<Rightarrow> None | Some nxt \<Rightarrow> findAssignment data key (nxt + 1))
        else if \<not> isIdentStart (data ! i) then findAssignment data key (i + 1)
        else
          let e = skipWhile isIdent data i; j = skipASCIIWhitespace data e in
          if goSlice data i e = key \<and> j < length data \<and> data ! j = CHR ''='' then
            Some \<lparr>KeyStart = i, KeyEnd = e, Equal = j, ValueStart = skipASCIIWhitespace data (j + 1)\<rparr>
          else findAssignment data key e
      else None)"
  by pat_completeness auto
termination
proof (relation "measure (\<lambda>(data, key, i). length data - i)", goal_cases)
  case (2 data key i)
  then show ?case using skipWhile_ge [of i _ data] by (auto simp: skipLine_def diff_less_mono2 less_Suc_eq_le)
next
  case (3 data key i nxt)
  then show ?case using skipString_bounds [of data i nxt] by auto
next
  case (5 data key i e j)
  then show ?case using skipWhile_progress [of i data isIdent]
    by (auto simp: isIdent_def diff_less_mono2)
qed auto

declare findAssignment.simps [simp del]

function scanScalar :: "bytes \<Rightarrow> nat \<Rightarrow> nat \<Rightarrow> nat option" where
  "scanScalar data from i =
     (if i < length data then
        if isLineCommentStart data i then Some (trimRightASCII data from i)
        else if data ! i = CHR 0x22 then
          (case skipString data i of None \<Rightarrow> None | Some nxt \<Rightarrow> scanScalar data from (nxt + 1))
        else if data ! i = CHR '';'' \<or> data ! i = CHR 0x0A \<or> data ! i = CHR 0x0D then
          Some (trimRightASCII data from i)
        else if data ! i \<in> {CHR ''{'', CHR ''}'', CHR ''('', CHR '')''} then None
        else scanScalar data from (i + 1)
      else Some (trimRightASCII data from (length data)))"
  by pat_completeness auto
termination
proof (relation "measure (\<lambda>(data, from, i). length data - i)", goal_cases)
  case (2 data st i nxt)
  then show ?case using skipString_bounds [of data i nxt] by auto
qed auto

declare scanScalar.simps [simp del]

definition findScalarValueEnd :: "bytes \<Rightarrow> nat \<Rightarrow> nat option" where
  "findScalarValueEnd data from = scanScalar data from from"

text \<open>How a search that succeeds proceeds: it skips a comment, a string, a byte or a token, or
  it stops at the key.\<close>

lemma findAssignment_induct [consumes 1, case_names comment str other hit miss]:
  assumes "findAssignment data key i = Some a"
    and "\<And>i. i < length data \<Longrightarrow> isLineCommentStart data i \<Longrightarrow> findAssignment data key (skipLine data i + 1) = Some a
      \<Longrightarrow> i \<le> skipLine data i \<Longrightarrow> P (skipLine data i + 1) \<Longrightarrow> P i"
    and "\<And>i m. i < length data \<Longrightarrow> \<not> isLineCommentStart data i \<Longrightarrow> data ! i = CHR 0x22 \<Longrightarrow> skipString data i = Some m
      \<Longrightarrow> i < m \<Longrightarrow> findAssignment data key (m + 1) = Some a \<Longrightarrow> P (m + 1) \<Longrightarrow> P i"
    and "\<And>i. i < length data \<Longrightarrow> \<not> isLineCommentStart data i \<Longrightarrow> data ! i \<noteq> CHR 0x22 \<Longrightarrow> \<not> isIdentStart (data ! i)
      \<Longrightarrow> findAssignment data key (i + 1) = Some a \<Longrightarrow> P (i + 1) \<Longrightarrow> P i"
    and "\<And>i e j. i < length data \<Longrightarrow> \<not> isLineCommentStart data i \<Longrightarrow> data ! i \<noteq> CHR 0x22 \<Longrightarrow> isIdentStart (data ! i)
      \<Longrightarrow> e = skipWhile isIdent data i \<Longrightarrow> j = skipASCIIWhitespace data e \<Longrightarrow> i < e \<Longrightarrow> goSlice data i e = key
      \<Longrightarrow> j < length data \<Longrightarrow> data ! j = CHR ''='' \<Longrightarrow>
      a = \<lparr>KeyStart = i, KeyEnd = e, Equal = j, ValueStart = skipASCIIWhitespace data (j + 1)\<rparr> \<Longrightarrow> P i"
    and "\<And>i e j. i < length data \<Longrightarrow> \<not> isLineCommentStart data i \<Longrightarrow> data ! i \<noteq> CHR 0x22 \<Longrightarrow> isIdentStart (data ! i)
      \<Longrightarrow> e = skipWhile isIdent data i \<Longrightarrow> j = skipASCIIWhitespace data e \<Longrightarrow> i < e
      \<Longrightarrow> \<not> (goSlice data i e = key \<and> j < length data \<and> data ! j = CHR ''='')
      \<Longrightarrow> findAssignment data key e = Some a \<Longrightarrow> P e \<Longrightarrow> P i"
  shows "P i"
  using assms(1)
proof (induction "length data - i" arbitrary: i rule: less_induct)
  case less
  note step = less.prems [unfolded findAssignment.simps [of data key i]]
  then have i: "i < length data" by (auto split: if_splits)
  have rec: "P k" if "i < k" "findAssignment data key k = Some a" for k
    using that i by (intro less.hyps) auto
  show ?case
  proof (cases "isLineCommentStart data i")
    case True
    then show ?thesis
      using step i rec assms(2) [OF i True] skipWhile_ge [of i "\<lambda>c. c \<noteq> CHR 0x0A" data]
      by (simp add: skipLine_def)
  next
    case nocomment: False
    show ?thesis
    proof (cases "data ! i = CHR 0x22")
      case True
      then obtain m where m: "skipString data i = Some m" "findAssignment data key (m + 1) = Some a"
        using step i nocomment by (auto split: option.splits)
      then show ?thesis
        using assms(3) [OF i nocomment True m(1) _ m(2)] rec [OF _ m(2)] skipString_bounds [OF m(1)] by simp
    next
      case noquote: False
      show ?thesis
      proof (cases "isIdentStart (data ! i)")
        case False
        then show ?thesis using step i nocomment noquote assms(4) [OF i nocomment noquote False] rec by simp
      next
        case True
        define e where "e = skipWhile isIdent data i"
        define j where "j = skipASCIIWhitespace data e"
        have "i < e" using i True by (simp add: e_def isIdent_def skipWhile_progress)
        note hit = assms(5) [OF i nocomment noquote True e_def j_def this]
          and miss = assms(6) [OF i nocomment noquote True e_def j_def this]
        show ?thesis
          using step i nocomment noquote True hit miss rec [OF \<open>i < e\<close>]
          by (simp add: Let_def e_def [symmetric] j_def [symmetric] split: if_splits)
      qed
    qed
  qed
qed

lemma findAssignment_key:
  "findAssignment data key i = Some a \<Longrightarrow> isIdentStart (data ! KeyStart a) \<and> data ! Equal a = CHR ''=''
     \<and> goSlice data (KeyStart a) (KeyEnd a) = key
     \<and> KeyEnd a = skipWhile isIdent data (KeyStart a)
     \<and> Equal a = skipASCIIWhitespace data (KeyEnd a) \<and> ValueStart a = skipASCIIWhitespace data (Equal a + 1)
     \<and> Equal a < length data"
  by (induction rule: findAssignment_induct) auto

lemma findAssignment_bounds [go_index]:
  assumes "findAssignment data key i = Some a"
  shows "i \<le> KeyStart a \<and> KeyStart a < KeyEnd a \<and> KeyEnd a \<le> Equal a \<and> Equal a < ValueStart a
     \<and> ValueStart a \<le> length data"
proof -
  have "i \<le> KeyStart a \<and> KeyStart a < KeyEnd a"
    using assms by (induction rule: findAssignment_induct) auto
  then show ?thesis
    using findAssignment_key [OF assms] skipWhile_ge [of _ isASCIISpace data]
      skipWhile_le [of "Equal a + 1" data isASCIISpace]
    by (simp add: skipASCIIWhitespace_def) (metis Suc_le_eq)
qed

lemma scanScalar_bounds [go_index]:
  "scanScalar data from i = Some n \<Longrightarrow> from \<le> i \<Longrightarrow> i \<le> length data \<Longrightarrow> from \<le> n \<and> n \<le> length data"
proof (induction data "from" i rule: scanScalar.induct)
  case (1 data "from" i)
  note step = "1.prems"(1) [unfolded scanScalar.simps [of data "from" i]]
  note trim = trimRightASCII_bounds(1) [of data "from" i] trimRightASCII_bounds(2) [of "from" i data]
    trimRightASCII_bounds(1) [of data "from" "length data"] trimRightASCII_bounds(2) [of "from" "length data" data]
  show ?case
  proof (cases "data ! i = CHR 0x22 \<and> \<not> isLineCommentStart data i \<and> i < length data")
    case True
    then obtain nxt where "skipString data i = Some nxt" "scanScalar data from (nxt + 1) = Some n"
      using step by (auto split: option.splits)
    then show ?thesis
      using "1.IH"(1) [of nxt] "1.prems"(2) True skipString_bounds [of data i nxt] by simp
  next
    case False
    then show ?thesis
      using "1.IH"(2) "1.prems"(2,3) step trim by (auto split: if_splits)
  qed
qed

lemma findScalarValueEnd_bounds [go_index]:
  "findScalarValueEnd data from = Some n \<Longrightarrow> from \<le> length data \<Longrightarrow> from \<le> n \<and> n \<le> length data"
  unfolding findScalarValueEnd_def by (erule scanScalar_bounds) auto

section \<open>Braces, containers and the entries of a list\<close>

text \<open>The loop of \<^verbatim>\<open>findMatchingBrace\<close> with its variables depth, inString and escaped.\<close>

function scanBrace :: "bytes \<Rightarrow> nat \<Rightarrow> int \<Rightarrow> bool \<Rightarrow> bool \<Rightarrow> nat option" where
  "scanBrace data i depth inString escaped =
     (if i < length data then
        if \<not> inString \<and> isLineCommentStart data i then
          scanBrace data (skipLine data i + 1) depth inString escaped
        else if inString then
          if escaped then scanBrace data (i + 1) depth inString False
          else if data ! i = CHR 0x5C then scanBrace data (i + 1) depth inString True
          else if data ! i = CHR 0x22 then scanBrace data (i + 1) depth False escaped
          else scanBrace data (i + 1) depth inString escaped
        else if data ! i = CHR 0x22 then scanBrace data (i + 1) depth True escaped
        else if data ! i = CHR ''{'' then scanBrace data (i + 1) (depth + 1) inString escaped
        else if data ! i = CHR ''}'' then
          if depth - 1 = 0 then Some i else scanBrace data (i + 1) (depth - 1) inString escaped
        else scanBrace data (i + 1) depth inString escaped
      else None)"
  by pat_completeness auto
termination
proof (relation "measure (\<lambda>(data, i, d, s, e). length data - i)", goal_cases)
  case (2 data i d s e)
  then show ?case using skipWhile_ge [of i _ data]
    by (auto simp: skipLine_def diff_less_mono2 less_Suc_eq_le)
qed auto

declare scanBrace.simps [simp del]

definition findMatchingBrace :: "bytes \<Rightarrow> nat \<Rightarrow> nat option" where
  "findMatchingBrace data pos = scanBrace data pos 0 False False"

lemma scanBrace_step:
  assumes "scanBrace data i d s e = Some n"
  shows "i < length data" "n = i \<and> data ! i = CHR ''}'' \<or>
    (\<exists>i' d' s' e'. i < i' \<and> scanBrace data i' d' s' e' = Some n)"
proof -
  note step = assms [unfolded scanBrace.simps [of data i d s e]]
  then show "i < length data" by (simp split: if_splits)
  have "i < Suc (skipLine data i)" by (simp add: skipLine_def skipWhile_ge less_Suc_eq_le)
  show "n = i \<and> data ! i = CHR ''}'' \<or> (\<exists>i' d' s' e'. i < i' \<and> scanBrace data i' d' s' e' = Some n)"
  proof (rule disjCI)
    assume "\<nexists>i' d' s' e'. i < i' \<and> scanBrace data i' d' s' e' = Some n"
    then have "scanBrace data (Suc i) d' s' e' \<noteq> Some n"
        "scanBrace data (Suc (skipLine data i)) d' s' e' \<noteq> Some n" for d' s' e'
      using \<open>i < Suc (skipLine data i)\<close> by blast+
    then show "n = i \<and> data ! i = CHR ''}''" using step by (simp split: if_splits)
  qed
qed

lemma scanBrace_bounds [go_index]:
  "scanBrace data i d s e = Some n \<Longrightarrow> i \<le> n \<and> n < length data \<and> data ! n = CHR ''}''"
proof (induction "length data - i" arbitrary: i d s e rule: less_induct)
  case less
  note step = scanBrace_step [OF less.prems]
  show ?case
  proof (cases "n = i \<and> data ! i = CHR ''}''")
    case False
    then obtain i' d' s' e' where n: "i < i'" "scanBrace data i' d' s' e' = Some n"
      using step(2) by blast
    moreover have "length data - i' < length data - i" using n(1) step(1) by simp
    ultimately show ?thesis using less.hyps [OF _ n(2)] by simp
  qed (use step in auto)
qed

lemma findMatchingBrace_bounds [go_index]:
  assumes "findMatchingBrace data i = Some n" "data ! i = CHR ''{''"
  shows "i < n \<and> n < length data"
proof -
  note b = scanBrace_bounds [OF assms(1) [unfolded findMatchingBrace_def]]
  moreover have "i \<noteq> n" using b assms(2) by auto
  ultimately show ?thesis by auto
qed

function findLibconfigContainer :: "bytes \<Rightarrow> string \<Rightarrow> nat \<Rightarrow> (nat \<times> nat) option" where
  "findLibconfigContainer data name searchFrom =
     (case findAssignment data name searchFrom of
        None \<Rightarrow> None
      | Some asn \<Rightarrow>
          let pos = skipASCIIWhitespace data (ValueStart asn) in
          if pos \<ge> length data \<or> data ! pos \<noteq> CHR ''{'' then
            findLibconfigContainer data name (ValueStart asn + 1)
          else map_option (Pair pos) (findMatchingBrace data pos))"
  by pat_completeness auto
termination
proof (relation "measure (\<lambda>(data, name, i). Suc (length data) - i)", goal_cases)
  case (2 data name i asn p)
  then show ?case using findAssignment_bounds [of data name i asn] by auto
qed auto

declare findLibconfigContainer.simps [simp del]

definition qciBlockHasKey :: "bytes \<Rightarrow> int32 \<Rightarrow> bool" where
  "qciBlockHasKey block qci = (case findAssignment block ''qci'' 0 of None \<Rightarrow> False
     | Some asn \<Rightarrow> (case findScalarValueEnd block (ValueStart asn) of None \<Rightarrow> False
         | Some valueEnd \<Rightarrow> trimSpace (goSlice block (ValueStart asn) valueEnd) = formatInt32 qci))"

function scanQCIBlock :: "bytes \<Rightarrow> int32 \<Rightarrow> nat \<Rightarrow> (nat \<times> nat) option" where
  "scanQCIBlock data qci i =
     (if i < length data then
        if isLineCommentStart data i then scanQCIBlock data qci (skipLine data i + 1)
        else if data ! i = CHR 0x22 then
          (case skipString data i of None \<Rightarrow> None | Some nxt \<Rightarrow> scanQCIBlock data qci (nxt + 1))
        else if data ! i \<noteq> CHR ''{'' then scanQCIBlock data qci (i + 1)
        else (case findMatchingBrace data i of None \<Rightarrow> None
          | Some end \<Rightarrow> if qciBlockHasKey (goSlice data i (end + 1)) qci then Some (i, end + 1)
                       else scanQCIBlock data qci (end + 1))
      else None)"
  by pat_completeness auto
termination
proof (relation "measure (\<lambda>(data, qci, i). length data - i)", goal_cases)
  case (2 data qci i)
  then show ?case using skipWhile_ge [of i _ data]
    by (auto simp: skipLine_def diff_less_mono2 less_Suc_eq_le)
next
  case (3 data qci i nxt)
  then show ?case using skipString_bounds [of data i nxt] by auto
next
  case (5 data qci i n)
  then show ?case using findMatchingBrace_bounds [of data i n] by auto
qed auto

declare scanQCIBlock.simps [simp del]

definition findQCIBlock :: "bytes \<Rightarrow> int32 \<Rightarrow> (nat \<times> nat) option" where
  "findQCIBlock data qci = (case findAssignment data ''qci_config'' 0 of None \<Rightarrow> None
     | Some anchor \<Rightarrow> scanQCIBlock data qci (ValueStart anchor))"

lemma findLibconfigContainer_bounds [go_index]:
  "findLibconfigContainer data name i = Some (op, cl) \<Longrightarrow>
     op < cl \<and> cl < length data \<and> data ! op = CHR ''{'' \<and> data ! cl = CHR ''}''"
proof (induction data name i rule: findLibconfigContainer.induct)
  case (1 data name i)
  note step = "1.prems" [unfolded findLibconfigContainer.simps [of data name i]]
  then obtain asn where asn: "findAssignment data name i = Some asn" by (auto split: option.splits)
  define p where "p = skipASCIIWhitespace data (ValueStart asn)"
  show ?case
  proof (cases "p \<ge> length data \<or> data ! p \<noteq> CHR ''{''")
    case True
    then show ?thesis using "1.IH" [OF asn p_def True] step asn by (simp add: p_def)
  next
    case False
    then have "findMatchingBrace data p = Some cl" "op = p"
      using step asn by (auto simp: p_def Let_def)
    with False show ?thesis
      using findMatchingBrace_bounds [of data p cl] scanBrace_bounds [of data p 0 False False cl]
      by (simp add: findMatchingBrace_def)
  qed
qed

lemma scanQCIBlock_bounds [go_index]:
  "scanQCIBlock data qci i = Some (s, e) \<Longrightarrow>
     i \<le> s \<and> s < e \<and> e \<le> length data \<and> qciBlockHasKey (goSlice data s e) qci"
proof (induction data qci i rule: scanQCIBlock.induct)
  case (1 data qci i)
  note step = "1.prems" [unfolded scanQCIBlock.simps [of data qci i]]
  then have i: "i < length data" by (auto split: if_splits)
  consider (comment) "isLineCommentStart data i"
    | (str) "\<not> isLineCommentStart data i" "data ! i = CHR 0x22"
    | (other) "\<not> isLineCommentStart data i" "data ! i \<noteq> CHR 0x22" "data ! i \<noteq> CHR ''{''"
    | (brace) "\<not> isLineCommentStart data i" "data ! i = CHR ''{''"
    by blast
  then show ?case
  proof cases
    case comment
    then show ?thesis
      using "1.IH"(1) [OF i] step i skipWhile_ge [of i "\<lambda>c. c \<noteq> CHR 0x0A" data]
      by (simp add: skipLine_def)
  next
    case str
    then show ?thesis
      using "1.IH"(2) [OF i] step i skipString_bounds [of data i]
      by (fastforce split: option.splits)
  next
    case other
    then show ?thesis using "1.IH"(3) [OF i] step i by simp
  next
    case brace
    then obtain n where n: "findMatchingBrace data i = Some n"
      using step i by (auto split: option.splits)
    then show ?thesis
      using "1.IH"(4) [OF i brace(1) _ _ n] step i brace findMatchingBrace_bounds [OF n brace(2)]
      by (auto split: if_splits)
  qed
qed

lemma findQCIBlock_bounds [go_index]:
  "findQCIBlock data qci = Some (s, e) \<Longrightarrow>
     s < e \<and> e \<le> length data \<and> qciBlockHasKey (goSlice data s e) qci"
  by (auto simp: findQCIBlock_def split: option.splits dest: scanQCIBlock_bounds)

section \<open>Locality\<close>

text \<open>Two texts that agree on their first \<open>n\<close> bytes.\<close>

definition agree :: "nat \<Rightarrow> bytes \<Rightarrow> bytes \<Rightarrow> bool" where
  "agree n d1 d2 \<longleftrightarrow> n \<le> length d1 \<and> n \<le> length d2 \<and> take n d1 = take n d2"

lemma agree_nth: "agree n d1 d2 \<Longrightarrow> i < n \<Longrightarrow> d2 ! i = d1 ! i"
  unfolding agree_def by (metis nth_take)

lemma agree_length: "agree n d1 d2 \<Longrightarrow> i < n \<Longrightarrow> i < length d1 \<and> i < length d2"
  by (auto simp: agree_def)

lemma agree_slice: "agree n d1 d2 \<Longrightarrow> b \<le> n \<Longrightarrow> goSlice d2 a b = goSlice d1 a b"
  unfolding agree_def goSlice_def
  by (metis drop_take min.absorb1 take_take)

lemma skipWhile_le_stop:
  "i \<le> k \<Longrightarrow> k < length data \<Longrightarrow> \<not> P (data ! k) \<Longrightarrow> skipWhile P data i \<le> k"
  using skipWhile_all [of i k P data] by (meson not_le)

lemma skipWhile_eqI:
  assumes "i \<le> n" "\<And>k. i \<le> k \<Longrightarrow> k < n \<Longrightarrow> k < length data \<and> P (data ! k)"
    and "n < length data \<Longrightarrow> \<not> P (data ! n)" "n \<le> length data"
  shows "skipWhile P data i = n"
  using assms
proof (induction "n - i" arbitrary: i)
  case 0
  then show ?case by (subst skipWhile.simps) auto
next
  case (Suc m)
  then have "skipWhile P data (i + 1) = n" by (intro Suc.hyps(1)) auto
  with Suc show ?case by (subst skipWhile.simps) auto
qed

lemma skipWhile_agree:
  "agree n d1 d2 \<Longrightarrow> i \<le> skipWhile P d1 i \<Longrightarrow> skipWhile P d1 i < n \<Longrightarrow> skipWhile P d2 i = skipWhile P d1 i"
  using skipWhile_all [of i _ P d1] skipWhile_stop [of P d1 i] agree_nth [of n d1 d2]
    agree_length [of n d1 d2]
  by (intro skipWhile_eqI) (auto simp: agree_def)

lemma skipStringFrom_agree:
  "skipStringFrom d1 i e = Some m \<Longrightarrow> agree n d1 d2 \<Longrightarrow> m < n \<Longrightarrow> skipStringFrom d2 i e = Some m"
proof (induction d1 i e rule: skipStringFrom.induct)
  case (1 d1 i e)
  have "i \<le> m" using skipStringFrom_bounds [OF "1.prems"(1)] by simp
  then have i: "i < n" "i < length d1" "i < length d2" "d2 ! i = d1 ! i"
    using 1 agree_length agree_nth by (metis le_less_trans)+
  show ?case
    using 1 i by (subst skipStringFrom.simps, subst (asm) skipStringFrom.simps [of d1 i e])
      (auto split: if_splits)
qed

lemma isLineCommentStart_agree:
  "agree n d1 d2 \<Longrightarrow> i + 1 < n \<Longrightarrow> isLineCommentStart d2 i = isLineCommentStart d1 i"
  using agree_nth [of n d1 d2] agree_length [of n d1 d2]
  by (auto simp: isLineCommentStart_def)

text \<open>The search for a key reads nothing after the start of the value it finds: a text with the
  same beginning and another value there gives the same span.\<close>

lemma findAssignment_agree:
  assumes "findAssignment d1 key i = Some a" "agree (ValueStart a) d1 d2"
    and "ValueStart a < length d2 \<Longrightarrow> \<not> isASCIISpace (d2 ! ValueStart a)"
  shows "findAssignment d2 key i = Some a"
proof -
  note b = findAssignment_bounds and ag = assms(2)
  note len = agree_length [OF ag] and nth = agree_nth [OF ag]
  note sk = skipWhile_agree [OF ag skipWhile_ge]
  show ?thesis
    using assms(1)
  proof (induction rule: findAssignment_induct)
    case (comment i)
    then have "i + 1 < ValueStart a" "skipLine d1 i < ValueStart a" using b [OF comment(3)] by auto
    then show ?case
      using comment sk [of "\<lambda>c. c \<noteq> CHR 0x0A" i] len [of i] isLineCommentStart_agree [OF ag, of i]
      by (subst findAssignment.simps) (simp add: skipLine_def)
  next
    case (str i m)
    then have "i + 1 < ValueStart a" "m < ValueStart a" using b [OF str(6)] by auto
    then show ?case
      using str len [of i] nth [of i] isLineCommentStart_agree [OF ag, of i]
        skipStringFrom_agree [OF _ ag, of "i + 1" False m]
      by (subst findAssignment.simps) (simp add: skipString_def)
  next
    case (other i)
    then have "i + 1 < ValueStart a" using b [OF other(5)] by auto
    then show ?case
      using other len [of i] nth [of i] isLineCommentStart_agree [OF ag, of i]
      by (subst findAssignment.simps) simp
  next
    case (hit i e j)
    then have a: "KeyStart a = i" "KeyEnd a = e" "Equal a = j" by auto
    have lt: "i + 1 < ValueStart a" "e < ValueStart a" "j < ValueStart a"
      using b [OF assms(1)] a hit(7) by auto
    have "skipASCIIWhitespace d2 (j + 1) = ValueStart a"
      unfolding skipASCIIWhitespace_def
    proof (rule skipWhile_eqI)
      show "k < length d2 \<and> isASCIISpace (d2 ! k)" if "j + 1 \<le> k" "k < ValueStart a" for k
        using that hit(11) skipWhile_all [of "j + 1" k isASCIISpace d1] len [of k] nth [of k]
        by (simp add: skipASCIIWhitespace_def)
    qed (use lt assms(3) ag in \<open>auto simp: agree_def\<close>)
    then show ?case
      using hit lt len nth isLineCommentStart_agree [OF ag, of i] sk [of isIdent i]
        sk [of isASCIISpace e] agree_slice [OF ag, of e i]
      by (subst findAssignment.simps) (simp add: Let_def skipASCIIWhitespace_def)
  next
    case (miss i e j)
    note k = b [OF miss(9)] findAssignment_key [OF miss(9)]
    then have "\<not> isASCIISpace (d1 ! KeyStart a)"
      by (auto simp: isIdentStart_def isASCIISpace_def Let_def)
    then have "j \<le> KeyStart a"
      using k miss(6) skipWhile_le_stop [of e "KeyStart a" d1 isASCIISpace]
      by (simp add: skipASCIIWhitespace_def)
    then have lt: "i + 1 < ValueStart a" "e < ValueStart a" "j < ValueStart a"
      using k miss(7) by auto
    then show ?case
      using miss len nth isLineCommentStart_agree [OF ag, of i] sk [of isIdent i]
        sk [of isASCIISpace e] agree_slice [OF ag, of e i]
      by (subst findAssignment.simps) (auto simp: Let_def skipASCIIWhitespace_def)
  qed
qed

text \<open>Where the scan of a scalar value stops, and what the trimming of its end leaves.\<close>

definition scalarStop :: "bytes \<Rightarrow> nat \<Rightarrow> bool" where
  "scalarStop data t \<longleftrightarrow> t \<ge> length data \<or> isLineCommentStart data t \<or>
     data ! t = CHR '';'' \<or> data ! t = CHR 0x0A \<or> data ! t = CHR 0x0D"

lemma scanScalar_stop:
  "scanScalar data from i = Some m \<Longrightarrow> i \<le> length data \<Longrightarrow>
     \<exists>t. i \<le> t \<and> t \<le> length data \<and> scalarStop data t \<and> m = trimRightASCII data from t"
proof (induction data "from" i rule: scanScalar.induct)
  case (1 data "from" i)
  note step = "1.prems"(1) [unfolded scanScalar.simps [of data "from" i]]
  show ?case
  proof (cases "data ! i = CHR 0x22 \<and> \<not> isLineCommentStart data i \<and> i < length data")
    case True
    then obtain nxt where n: "skipString data i = Some nxt" "scanScalar data from (nxt + 1) = Some m"
      using step by (auto split: option.splits)
    moreover have "i < nxt" "nxt + 1 \<le> length data" using skipString_bounds [OF n(1)] by auto
    ultimately show ?thesis
      using "1.IH"(1) [of nxt] True by (meson dual_order.trans le_add1 less_imp_le)
  next
    case False
    then show ?thesis
      using "1.IH"(2) "1.prems"(2) step
      by (cases "scalarStop data i") (auto simp: scalarStop_def split: if_splits intro: exI [of _ i] dest: Suc_leD)
  qed
qed

lemma trimRightASCII_spaces:
  "trimRightASCII data s e \<le> k \<Longrightarrow> k < e \<Longrightarrow> isASCIISpace (data ! k)"
proof (induction data s e rule: trimRightASCII.induct)
  case (1 data s e)
  note step = trimRightASCII.simps [of data s e]
  show ?case
  proof (cases "e > s \<and> isASCIISpace (data ! (e - 1))")
    case True
    then show ?thesis using 1 step by (cases "k = e - 1") auto
  next
    case False
    then show ?thesis using 1 step by auto
  qed
qed

lemma trimRightASCII_eqI:
  assumes "s < p" "p \<le> e" "\<not> isASCIISpace (data ! (p - 1))" "\<And>k. p \<le> k \<Longrightarrow> k < e \<Longrightarrow> isASCIISpace (data ! k)"
  shows "trimRightASCII data s e = p"
  using assms
proof (induction "e - p" arbitrary: e)
  case 0
  then show ?case by (subst trimRightASCII.simps) auto
next
  case (Suc m)
  then have "trimRightASCII data s (e - 1) = p" by (intro Suc.hyps(1)) auto
  moreover have "isASCIISpace (data ! (e - 1))" using Suc by simp
  ultimately show ?case using Suc by (subst trimRightASCII.simps) auto
qed

lemma isASCIISpace_plain:
  "isASCIISpace c \<Longrightarrow> c \<noteq> CHR 0x22 \<and> c \<notin> {CHR ''{'', CHR ''}'', CHR ''('', CHR '')''} \<and> c \<noteq> CHR ''#'' \<and> c \<noteq> CHR ''/''"
  by (auto simp: isASCIISpace_def)

text \<open>A scan that has reached the end \<open>p\<close> of a value, with nothing but white space up to the
  next stop, returns \<open>p\<close>.\<close>

lemma scanScalar_tail:
  assumes "from < p" "p \<le> i" "i \<le> t" "t \<le> length data" "\<not> isASCIISpace (data ! (p - 1))"
    and "\<And>k. p \<le> k \<Longrightarrow> k < t \<Longrightarrow> isASCIISpace (data ! k)" "scalarStop data t"
  shows "scanScalar data from i = Some p"
  using assms(2,3)
proof (induction "t - i" arbitrary: i)
  case 0
  have "trimRightASCII data from t = p" using assms by (intro trimRightASCII_eqI) auto
  with 0 assms show ?case
    by (subst scanScalar.simps) (auto simp: scalarStop_def isLineCommentStart_def)
next
  case (Suc m)
  have i: "i < length data" "isASCIISpace (data ! i)" using Suc assms by auto
  have "trimRightASCII data from i = p" using assms Suc by (intro trimRightASCII_eqI) auto
  moreover have "scanScalar data from (i + 1) = Some p" using Suc by (intro Suc.hyps(1)) auto
  ultimately show ?case
    using i isASCIISpace_plain [OF i(2)] by (subst scanScalar.simps) (auto simp: isLineCommentStart_def)
qed

end
