(* ===== verification/Renderer.thy ===== *)
theory Renderer
  imports LibconfigScan
begin

text \<open>
  The overlay renderer (\<^verbatim>\<open>internal/ems/configuration/renderer.go\<close>): which assignment of which
  file a key stands for, the patch of one INI or libconfig assignment, and the four functions
  that render a file from the dirty keys.

  The renderer formats the managed value only and replaces one assignment in the existing text.
  The theorems say so: a patched libconfig text is the old text with the bytes of one value
  replaced, and reading the key back gives the new value; a patched INI text keeps every other
  line.

  \<^verbatim>\<open>strconv.Quote\<close> is modelled on ASCII: bytes from 0x80 on are kept, as Go does for
  printable UTF-8.
\<close>

section \<open>Formatting\<close>

definition formatBool :: "bool \<Rightarrow> string" where
  "formatBool v = (if v then ''true'' else ''false'')"

definition trimRight :: "string \<Rightarrow> char \<Rightarrow> string" where
  "trimRight s c = rev (dropWhile (\<lambda>x. x = c) (rev s))"

definition trimFloat :: "float64 \<Rightarrow> string" where
  "trimFloat v = (let s = trimRight (trimRight (formatFixed 3 v) (CHR ''0'')) (CHR ''.'') in
     if s = [] then ''0'' else s)"

definition hexDigit :: "nat \<Rightarrow> char" where
  "hexDigit n = (if n < 10 then char_of (n + 48) else char_of (n + 87))"

definition quoteChar :: "char \<Rightarrow> string" where
  "quoteChar c = (let n = (of_char c :: nat) in
     if c = CHR 0x22 \<or> c = CHR 0x5C then [CHR 0x5C, c]
     else if n = 7 then [CHR 0x5C, CHR ''a'']
     else if n = 8 then [CHR 0x5C, CHR ''b'']
     else if n = 12 then [CHR 0x5C, CHR ''f'']
     else if n = 10 then [CHR 0x5C, CHR ''n'']
     else if n = 13 then [CHR 0x5C, CHR ''r'']
     else if n = 9 then [CHR 0x5C, CHR ''t'']
     else if n = 11 then [CHR 0x5C, CHR ''v'']
     else if n < 32 \<or> n = 127 then [CHR 0x5C, CHR ''x'', hexDigit (n div 16), hexDigit (n mod 16)]
     else [c])"

definition goQuote :: "string \<Rightarrow> string" where
  "goQuote s = [CHR 0x22] @ concat (map quoteChar s) @ [CHR 0x22]"

section \<open>Keys and assignments\<close>

definition enbPatchTable :: "(string \<times> string \<times> string \<times> (EditableConfig \<Rightarrow> string)) list" where
  "enbPatchTable = [
    (''enb_id'', ''enb'', ''enb_id'', \<lambda>cfg. ENBID cfg),
    (''mcc'', ''enb'', ''mcc'', \<lambda>cfg. MCC cfg),
    (''mnc'', ''enb'', ''mnc'', \<lambda>cfg. MNC cfg),
    (''mme_addr'', ''enb'', ''mme_addr'', \<lambda>cfg. MMEAddr cfg),
    (''gtp_bind_addr'', ''enb'', ''gtp_bind_addr'', \<lambda>cfg. GTPBindAddr cfg),
    (''s1c_bind_addr'', ''enb'', ''s1c_bind_addr'', \<lambda>cfg. S1CBindAddr cfg),
    (''s1c_bind_port'', ''enb'', ''s1c_bind_port'', \<lambda>cfg. formatUint32 (S1CBindPort cfg)),
    (''n_prb'', ''enb'', ''n_prb'', \<lambda>cfg. formatUint32 (NPRB cfg)),
    (''tm'', ''enb'', ''tm'', \<lambda>cfg. formatUint32 (TM cfg)),
    (''tx_gain'', ''rf'', ''tx_gain'', \<lambda>cfg. trimFloat (TXGain cfg)),
    (''rx_gain'', ''rf'', ''rx_gain'', \<lambda>cfg. trimFloat (RXGain cfg)),
    (''time_adv_nsamples'', ''rf'', ''time_adv_nsamples'', \<lambda>cfg. TimeAdvNSamples cfg),
    (''device_name'', ''rf'', ''device_name'', \<lambda>cfg. DeviceName cfg),
    (''device_args'', ''rf'', ''device_args'', \<lambda>cfg. DeviceArgs cfg),
    (''sched_policy'', ''scheduler'', ''policy'', \<lambda>cfg. SchedPolicy cfg),
    (''pdsch_max_mcs'', ''scheduler'', ''pdsch_max_mcs'', \<lambda>cfg. formatInt32 (PDSCHMaxMCS cfg)),
    (''pusch_max_mcs'', ''scheduler'', ''pusch_max_mcs'', \<lambda>cfg. formatInt32 (PUSCHMaxMCS cfg)),
    (''target_bler'', ''scheduler'', ''target_bler'', \<lambda>cfg. trimFloat (TargetBLER cfg)),
    (''min_nof_ctrl_symbols'', ''scheduler'', ''min_nof_ctrl_symbols'', \<lambda>cfg. formatInt32 (MinCtrlSymbols cfg)),
    (''max_nof_ctrl_symbols'', ''scheduler'', ''max_nof_ctrl_symbols'', \<lambda>cfg. formatInt32 (MaxCtrlSymbols cfg)),
    (''enb_serial'', ''expert'', ''enb_serial'', \<lambda>cfg. ENBSerial cfg),
    (''pusch_max_its'', ''expert'', ''pusch_max_its'', \<lambda>cfg. formatInt32 (PUSCHMaxIts cfg)),
    (''nr_pusch_max_its'', ''expert'', ''nr_pusch_max_its'', \<lambda>cfg. formatInt32 (NRPUSCHMaxIts cfg)),
    (''pusch_8bit_decoder'', ''expert'', ''pusch_8bit_decoder'', \<lambda>cfg. formatBool (PUSCH8bitDecoder cfg)),
    (''nof_phy_threads'', ''expert'', ''nof_phy_threads'', \<lambda>cfg. formatInt32 (NofPHYThreads cfg)),
    (''metrics_period_secs'', ''expert'', ''metrics_period_secs'', \<lambda>cfg. formatInt32 (MetricsPeriodSecs cfg)),
    (''tx_amplitude'', ''expert'', ''tx_amplitude'', \<lambda>cfg. trimFloat (TXAmplitude cfg)),
    (''rrc_inactivity_timer'', ''expert'', ''rrc_inactivity_timer'', \<lambda>cfg. formatInt32 (RRCInactivityTimer cfg)),
    (''rlf_release_timer_ms'', ''expert'', ''rlf_release_timer_ms'', \<lambda>cfg. formatInt32 (RLFReleaseTimerMs cfg)),
    (''eea_pref_list'', ''expert'', ''eea_pref_list'', \<lambda>cfg. EEAPrefList cfg),
    (''eia_pref_list'', ''expert'', ''eia_pref_list'', \<lambda>cfg. EIAPrefList cfg),
    (''gtpu_tunnel_timeout'', ''expert'', ''gtpu_tunnel_timeout'', \<lambda>cfg. formatInt32 (GTPUTunnelTimeout cfg)),
    (''s1_setup_max_retries'', ''expert'', ''s1_setup_max_retries'', \<lambda>cfg. formatInt32 (S1SetupMaxRetries cfg)),
    (''s1_connect_timer'', ''expert'', ''s1_connect_timer'', \<lambda>cfg. formatInt32 (S1ConnectTimer cfg)),
    (''rx_gain_offset'', ''expert'', ''rx_gain_offset'', \<lambda>cfg. trimFloat (RXGainOffset cfg)),
    (''use_cedron_f_est_alg'', ''expert'', ''use_cedron_f_est_alg'', \<lambda>cfg. formatBool (UseCedronFEstAlg cfg)),
    (''rlf_min_ul_snr_estim'', ''expert'', ''rlf_min_ul_snr_estim'', \<lambda>cfg. trimFloat (RLFMinULSNREstim cfg)),
    (''max_mac_dl_kos'', ''expert'', ''max_mac_dl_kos'', \<lambda>cfg. formatInt32 (MaxMacDLKOs cfg)),
    (''max_mac_ul_kos'', ''expert'', ''max_mac_ul_kos'', \<lambda>cfg. formatInt32 (MaxMacULKOs cfg))]"

definition rrPatchTable :: "(string \<times> string \<times> (EditableConfig \<Rightarrow> string)) list" where
  "rrPatchTable = [
    (''cell_id'', ''cell_id'', \<lambda>cfg. CellID cfg),
    (''tac'', ''tac'', \<lambda>cfg. TAC cfg),
    (''dl_earfcn'', ''dl_earfcn'', \<lambda>cfg. formatUint32 (DLEARFCN cfg)),
    (''pci'', ''pci'', \<lambda>cfg. formatUint32 (PCI cfg)),
    (''ho_active'', ''ho_active'', \<lambda>cfg. formatBool (HOActive cfg)),
    (''a3_offset'', ''a3_offset'', \<lambda>cfg. formatInt32 (A3Offset cfg)),
    (''time_to_trigger'', ''time_to_trigger'', \<lambda>cfg. formatInt32 (TimeToTrigger cfg)),
    (''hysteresis'', ''hysteresis'', \<lambda>cfg. formatInt32 (Hysteresis cfg))]"

definition sibPatchTable :: "(string \<times> string \<times> (EditableConfig \<Rightarrow> string)) list" where
  "sibPatchTable = [
    (''q_rx_lev_min'', ''q_rx_lev_min'', \<lambda>cfg. formatInt32 (QRxLevMin cfg)),
    (''cell_barred'', ''cell_barred'', \<lambda>cfg. goQuote (CellBarred cfg)),
    (''num_ra_preambles'', ''num_ra_preambles'', \<lambda>cfg. formatInt32 (NumRAPreambles cfg)),
    (''preamble_init_rx_target_pwr'', ''preamble_init_rx_target_pwr'', \<lambda>cfg. formatInt32 (PreambleInitRxTargetPwr cfg)),
    (''pwr_ramping_step'', ''pwr_ramping_step'', \<lambda>cfg. formatInt32 (PwrRampingStep cfg)),
    (''reference_signal_power'', ''reference_signal_power'', \<lambda>cfg. formatInt32 (ReferenceSignalPower cfg)),
    (''p0_nominal_pusch'', ''p0_nominal_pusch'', \<lambda>cfg. formatInt32 (P0NominalPUSCH cfg)),
    (''p0_nominal_pucch'', ''p0_nominal_pucch'', \<lambda>cfg. formatInt32 (P0NominalPUCCH cfg)),
    (''alpha'', ''alpha'', \<lambda>cfg. trimFloat (Alpha cfg)),
    (''default_paging_cycle'', ''default_paging_cycle'', \<lambda>cfg. formatInt32 (DefaultPagingCycle cfg)),
    (''t300'', ''t300'', \<lambda>cfg. formatInt32 (T300 cfg)),
    (''t301'', ''t301'', \<lambda>cfg. formatInt32 (T301 cfg)),
    (''t310'', ''t310'', \<lambda>cfg. formatInt32 (T310 cfg)),
    (''n310'', ''n310'', \<lambda>cfg. formatInt32 (N310 cfg)),
    (''t311'', ''t311'', \<lambda>cfg. formatInt32 (T311 cfg))]"

definition enbPatch :: "string \<Rightarrow> EditableConfig \<Rightarrow> (string \<times> string \<times> string) option" where
  "enbPatch key cfg = map_option (\<lambda>(section, confKey, f). (section, confKey, f cfg))
     (map_of enbPatchTable key)"

definition rrPatch :: "string \<Rightarrow> EditableConfig \<Rightarrow> (string \<times> string) option" where
  "rrPatch key cfg = map_option (\<lambda>(confKey, f). (confKey, f cfg)) (map_of rrPatchTable key)"

definition sibPatch :: "string \<Rightarrow> EditableConfig \<Rightarrow> (string \<times> string) option" where
  "sibPatch key cfg = map_option (\<lambda>(confKey, f). (confKey, f cfg)) (map_of sibPatchTable key)"

definition qciPatch :: "string \<Rightarrow> QCIProfile \<Rightarrow> (string \<times> string list) result" where
  "qciPatch field p =
     (if field = ''discard_timer'' then Inr (formatInt32 (DiscardTimer p), [''pdcp_config''])
      else if field = ''pdcp_sn_size'' then Inr (formatInt32 (PDCPSNSize p), [''pdcp_config''])
      else if field = ''t_poll_retx'' then Inr (formatInt32 (TPollRetx p), [''ul_am'', ''ul_um''])
      else if field = ''max_retx_thresh'' then Inr (formatInt32 (MaxRetxThresh p), [''ul_am''])
      else if field = ''t_reordering'' then Inr (formatInt32 (TReordering p), [''dl_am'', ''dl_um''])
      else if field = ''priority'' then Inr (formatInt32 (Priority p), [''logical_channel_config''])
      else Inl (Errorf (''unsupported qci profile field '' @ goQuote field)))"

definition findQCIProfile :: "EditableConfig \<Rightarrow> int32 \<Rightarrow> QCIProfile option" where
  "findQCIProfile cfg qci = find (\<lambda>p. QCI p = qci) (QCIProfiles cfg)"

section \<open>Patching INI text\<close>

fun splitLines :: "bytes \<Rightarrow> string list" where
  "splitLines [] = []"
| "splitLines (c # cs) = (if c = CHR 0x0A then [c] # splitLines cs
     else case splitLines cs of [] \<Rightarrow> [[c]] | l # ls \<Rightarrow> (c # l) # ls)"

definition splitEOL :: "string \<Rightarrow> string \<times> string" where
  "splitEOL line =
     (if hasSuffix line [CHR 0x0D, CHR 0x0A] then (trimSuffix line [CHR 0x0D, CHR 0x0A], [CHR 0x0D, CHR 0x0A])
      else if hasSuffix line [CHR 0x0A] then (trimSuffix line [CHR 0x0A], [CHR 0x0A])
      else (line, []))"

definition parseINISection :: "string \<Rightarrow> string option" where
  "parseINISection line =
     (let x = trimSpace (fst (splitEOL line)) in
      if hasPrefix x ''#'' \<or> hasPrefix x ''//'' \<or> \<not> hasPrefix x ''['' \<or> \<not> hasSuffix x '']'' then None
      else Some (toLower (trimSpace (trimSuffix (trimPrefix x ''['') '']''))))"

definition isCommentLine :: "string \<Rightarrow> bool" where
  "isCommentLine line = (let x = trimSpace line in hasPrefix x ''#'' \<or> hasPrefix x ''//'')"

definition lineHasAssignmentKey :: "string \<Rightarrow> string \<Rightarrow> bool" where
  "lineHasAssignmentKey line key =
     (let x = trimSpace (fst (splitEOL line)) in
      if x = [] \<or> hasPrefix x ''#'' \<or> hasPrefix x ''//'' then False
      else case index x ''='' of None \<Rightarrow> False
        | Some idx \<Rightarrow> equalFold (trimSpace (take idx x)) key)"

definition leadingBlanks :: "string \<Rightarrow> string" where
  "leadingBlanks s = takeWhile (\<lambda>c. c = CHR 0x20 \<or> c = CHR 0x09) s"

definition replaceAssignmentLine :: "string \<Rightarrow> string \<Rightarrow> string \<Rightarrow> bool \<Rightarrow> string" where
  "replaceAssignmentLine line key val semicolon =
     (let (body, eol) = splitEOL line;
          leading = leadingBlanks body;
          comment = (case index body ''#'' of None \<Rightarrow> []
                     | Some idx \<Rightarrow> '' '' @ trimSpace (drop idx body));
          suff = (if semicolon then '';'' else [])
      in leading @ key @ '' = '' @ val @ suff @ comment @ eol)"

definition insertLine :: "string list \<Rightarrow> nat \<Rightarrow> string \<Rightarrow> string list" where
  "insertLine lines idx line =
     (let idx = (if idx > length lines then length lines else idx)
      in take idx lines @ [line] @ drop idx lines)"

text \<open>The search of \<^verbatim>\<open>patchINIAssignment\<close>: the index of the line that assigns the key in the
  section, or whether the section exists and where a new line belongs.\<close>

datatype iniSearch = IniHit nat | IniMiss bool nat

fun iniScan :: "string \<Rightarrow> string \<Rightarrow> string list \<Rightarrow> nat \<Rightarrow> string \<Rightarrow> bool \<Rightarrow> nat \<Rightarrow> iniSearch" where
  "iniScan target key [] i current foundSection insertAt = IniMiss foundSection insertAt"
| "iniScan target key (line # rest) i current foundSection insertAt =
     (case parseINISection line of
        Some sec \<Rightarrow>
          if foundSection \<and> current = target then IniMiss foundSection i
          else if sec = target then iniScan target key rest (i + 1) sec True (i + 1)
          else iniScan target key rest (i + 1) sec foundSection insertAt
      | None \<Rightarrow>
          if current \<noteq> target \<or> isCommentLine line then
            iniScan target key rest (i + 1) current foundSection insertAt
          else if \<not> lineHasAssignmentKey line key then
            iniScan target key rest (i + 1) current foundSection (if foundSection then i + 1 else insertAt)
          else IniHit i)"

definition patchINIAssignment :: "bytes \<Rightarrow> string \<Rightarrow> string \<Rightarrow> string \<Rightarrow> bytes result" where
  "patchINIAssignment data section key val =
     (let lines = splitLines data;
          target = toLower (trimSpace section);
          newLine = key @ '' = '' @ val @ [CHR 0x0A]
      in case iniScan target key lines 0 [] False (length lines) of
           IniHit i \<Rightarrow> Inr (concat (lines[i := replaceAssignmentLine (lines ! i) key val False]))
         | IniMiss False _ \<Rightarrow>
             let lines' = (if lines \<noteq> [] \<and> \<not> hasSuffix (last lines) [CHR 0x0A]
                           then butlast lines @ [last lines @ [CHR 0x0A]] else lines)
             in Inr (concat (lines' @ [[CHR 0x0A] @ ''['' @ section @ '']'' @ [CHR 0x0A], newLine]))
         | IniMiss True insertAt \<Rightarrow> Inr (concat (insertLine lines insertAt newLine)))"

section \<open>Patching libconfig text\<close>

definition patchLibconfigScalarOptional :: "bytes \<Rightarrow> string \<Rightarrow> string \<Rightarrow> bytes option" where
  "patchLibconfigScalarOptional data key val =
     (case findAssignment data key 0 of None \<Rightarrow> None
      | Some asn \<Rightarrow> (case findScalarValueEnd data (ValueStart asn) of None \<Rightarrow> None
          | Some valueEnd \<Rightarrow> Some (take (ValueStart asn) data @ val @ drop valueEnd data)))"

definition patchLibconfigScalar :: "bytes \<Rightarrow> string \<Rightarrow> string \<Rightarrow> bytes result" where
  "patchLibconfigScalar data key val =
     (case patchLibconfigScalarOptional data key val of
        None \<Rightarrow> Inl (Errorf (''key '' @ goQuote key @ '' not found in libconfig file''))
      | Some out \<Rightarrow> Inr out)"

definition closingIndent :: "bytes \<Rightarrow> nat \<Rightarrow> string" where
  "closingIndent data pos =
     leadingBlanks (rev (takeWhile (\<lambda>c. c \<noteq> CHR 0x0A) (rev (take pos data))))"

definition insertBytes :: "bytes \<Rightarrow> nat \<Rightarrow> bytes \<Rightarrow> bytes" where
  "insertBytes data idx ins = take idx data @ ins @ drop idx data"

definition replaceRange :: "bytes \<Rightarrow> nat \<Rightarrow> nat \<Rightarrow> bytes \<Rightarrow> bytes" where
  "replaceRange data start end replacement = take start data @ replacement @ drop end data"

fun joinSpace :: "string list \<Rightarrow> string" where
  "joinSpace [] = []"
| "joinSpace [x] = x"
| "joinSpace (x # y # ys) = x @ '' '' @ joinSpace (y # ys)"

fun insertInContainer :: "bytes \<Rightarrow> string list \<Rightarrow> string \<Rightarrow> bytes option" where
  "insertInContainer block [] assignment = None"
| "insertInContainer block (name # names) assignment =
     (case findLibconfigContainer block name 0 of
        None \<Rightarrow> insertInContainer block names assignment
      | Some (_, end) \<Rightarrow>
          Some (insertBytes block end (closingIndent block end @ ''  '' @ assignment @ [CHR 0x0A])))"

definition insertQCIAssignment :: "bytes \<Rightarrow> string list \<Rightarrow> string \<Rightarrow> bytes result" where
  "insertQCIAssignment block containers assignment =
     (case insertInContainer block containers assignment of
        Some out \<Rightarrow> Inr out
      | None \<Rightarrow> Inl (Errorf (''none of containers ['' @ joinSpace containers @
                          ''] found in qci profile'')))"

definition patchQCIProfile :: "bytes \<Rightarrow> string \<Rightarrow> EditableConfig \<Rightarrow> bytes result" where
  "patchQCIProfile data key cfg =
     (case parseQCIProfileKey key of
        None \<Rightarrow> Inl (Errorf (''invalid qci profile key '' @ goQuote key))
      | Some (qci, field) \<Rightarrow>
        (case findQCIProfile cfg qci of
           None \<Rightarrow> Inl (Errorf (''qci profile '' @ formatInt32 qci @ '' is not present in candidate''))
         | Some profile \<Rightarrow>
           bindE (qciPatch field profile) (\<lambda>(val, containers).
             (case findQCIBlock data qci of
                None \<Rightarrow> Inl (Errorf (''qci profile '' @ formatInt32 qci @ '' not found in rb.conf''))
              | Some (start, end) \<Rightarrow>
                  let block = goSlice data start end in
                  (case patchLibconfigScalarOptional block field val of
                     Some patched \<Rightarrow> Inr (replaceRange data start end patched)
                   | None \<Rightarrow>
                       bindE (insertQCIAssignment block containers (field @ '' = '' @ val @ '';''))
                         (\<lambda>patched. Inr (replaceRange data start end patched)))))))"

section \<open>Rendering a file\<close>

text \<open>The dirty keys in the order of \<^verbatim>\<open>sort.Strings\<close>, that is bytewise lexicographic, after
  trimming. The set of keys is a list without repetition.\<close>

fun bytesLess :: "string \<Rightarrow> string \<Rightarrow> bool" where
  "bytesLess _ [] = False"
| "bytesLess [] (_ # _) = True"
| "bytesLess (a # as) (b # bs) =
     ((of_char a :: nat) < of_char b \<or> (a = b \<and> bytesLess as bs))"

fun insertSorted :: "string \<Rightarrow> string list \<Rightarrow> string list" where
  "insertSorted x [] = [x]"
| "insertSorted x (y # ys) = (if bytesLess y x then y # insertSorted x ys else x # y # ys)"

definition sortedDirtyKeys :: "string list \<Rightarrow> string list" where
  "sortedDirtyKeys keys = foldr insertSorted (map trimSpace keys) []"

fun renderKeys :: "(bytes \<Rightarrow> string \<Rightarrow> bytes result) \<Rightarrow> bytes \<Rightarrow> string list \<Rightarrow> bytes result" where
  "renderKeys patch out [] = Inr out"
| "renderKeys patch out (k # ks) = bindE (patch out k) (\<lambda>out. renderKeys patch out ks)"

definition enbPatchKey :: "EditableConfig \<Rightarrow> bytes \<Rightarrow> string \<Rightarrow> bytes result" where
  "enbPatchKey cfg out key = (case enbPatch key cfg of None \<Rightarrow> Inr out
     | Some (section, confKey, val) \<Rightarrow> patchINIAssignment out section confKey val)"

definition rrPatchKey :: "EditableConfig \<Rightarrow> bytes \<Rightarrow> string \<Rightarrow> bytes result" where
  "rrPatchKey cfg out key = (case rrPatch key cfg of None \<Rightarrow> Inr out
     | Some (confKey, val) \<Rightarrow> patchLibconfigScalar out confKey val)"

definition sibPatchKey :: "EditableConfig \<Rightarrow> bytes \<Rightarrow> string \<Rightarrow> bytes result" where
  "sibPatchKey cfg out key = (case sibPatch key cfg of None \<Rightarrow> Inr out
     | Some (confKey, val) \<Rightarrow> patchLibconfigScalar out confKey val)"

definition rbPatchKey :: "EditableConfig \<Rightarrow> bytes \<Rightarrow> string \<Rightarrow> bytes result" where
  "rbPatchKey cfg out key = (if \<not> hasPrefix key ''qci_profiles['' then Inr out
     else patchQCIProfile out key cfg)"

text \<open>The four render functions; the first argument is the result of \<^verbatim>\<open>os.ReadFile\<close>.\<close>

definition renderENBConfig :: "bytes result \<Rightarrow> EditableConfig \<Rightarrow> string list \<Rightarrow> bytes result" where
  "renderENBConfig file cfg dirty =
     bindE file (\<lambda>data. renderKeys (enbPatchKey cfg) data (sortedDirtyKeys dirty))"

definition renderRRConfig :: "bytes result \<Rightarrow> EditableConfig \<Rightarrow> string list \<Rightarrow> bytes result" where
  "renderRRConfig file cfg dirty =
     bindE file (\<lambda>data. renderKeys (rrPatchKey cfg) data (sortedDirtyKeys dirty))"

definition renderSIBConfig :: "bytes result \<Rightarrow> EditableConfig \<Rightarrow> string list \<Rightarrow> bytes result" where
  "renderSIBConfig file cfg dirty =
     bindE file (\<lambda>data. renderKeys (sibPatchKey cfg) data (sortedDirtyKeys dirty))"

definition renderRBConfig :: "bytes result \<Rightarrow> EditableConfig \<Rightarrow> string list \<Rightarrow> bytes result" where
  "renderRBConfig file cfg dirty =
     bindE file (\<lambda>data. renderKeys (rbPatchKey cfg) data (sortedDirtyKeys dirty))"

section \<open>Values that a scan passes over\<close>

text \<open>A value is transparent when the scan for the end of a scalar goes from its first byte to
  the byte after its last one, whatever stands around it. Plain values and quoted strings
  are.\<close>

definition transparent :: "string \<Rightarrow> bool" where
  "transparent v \<longleftrightarrow> (\<forall>pre post from. scanScalar (pre @ v @ post) from (length pre)
     = scanScalar (pre @ v @ post) from (length pre + length v))"

definition plainChar :: "char \<Rightarrow> bool" where
  "plainChar c \<longleftrightarrow> c \<notin> {CHR 0x22, CHR '';'', CHR 0x0A, CHR 0x0D, CHR ''{'', CHR ''}'', CHR ''('',
     CHR '')'', CHR ''#'', CHR ''/''}"

lemma transparent_plain: "list_all plainChar v \<Longrightarrow> transparent v"
  unfolding transparent_def
proof (intro allI)
  fix pre post :: string and "from" :: nat
  assume "list_all plainChar v"
  then show "scanScalar (pre @ v @ post) from (length pre)
      = scanScalar (pre @ v @ post) from (length pre + length v)"
  proof (induction v arbitrary: pre)
    case (Cons c v)
    then have "scanScalar (pre @ (c # v) @ post) from (length pre)
        = scanScalar (pre @ (c # v) @ post) from (length pre + 1)"
      by (subst scanScalar.simps) (simp add: plainChar_def isLineCommentStart_def nth_append)
    also have "\<dots> = scanScalar (pre @ (c # v) @ post) from (length pre + length (c # v))"
      using Cons.IH [of "pre @ [c]"] Cons.prems by simp
    finally show ?case .
  qed simp
qed

definition inert :: "string \<Rightarrow> bool" where
  "inert s \<longleftrightarrow> (\<forall>pre post. skipStringFrom (pre @ s @ post) (length pre) False
     = skipStringFrom (pre @ s @ post) (length pre + length s) False)"

lemma inert_append: "inert s \<Longrightarrow> inert t \<Longrightarrow> inert (s @ t)"
proof -
  assume s: "inert s" and t: "inert t"
  have "skipStringFrom (pre @ (s @ t) @ post) (length pre) False
     = skipStringFrom (pre @ (s @ t) @ post) (length pre + length (s @ t)) False" for pre post
  proof -
    have "skipStringFrom (pre @ (s @ t) @ post) (length pre) False
        = skipStringFrom (pre @ (s @ t) @ post) (length pre + length s) False"
      using s unfolding inert_def by (metis append_assoc)
    also have "\<dots> = skipStringFrom (pre @ (s @ t) @ post) (length pre + length s + length t) False"
      using t unfolding inert_def by (metis append_assoc length_append)
    finally show ?thesis by (simp add: add.assoc)
  qed
  then show "inert (s @ t)" unfolding inert_def by blast
qed

lemma inert_Nil: "inert []" by (simp add: inert_def)

lemma inert_char: "x \<noteq> CHR 0x22 \<Longrightarrow> x \<noteq> CHR 0x5C \<Longrightarrow> inert [x]"
  unfolding inert_def by (intro allI, subst skipStringFrom.simps) (simp add: nth_append)

lemma inert_escape: "inert [CHR 0x5C, x]"
  unfolding inert_def
proof (intro allI)
  fix pre post :: string
  let ?d = "pre @ [CHR 0x5C, x] @ post"
  have "skipStringFrom ?d (length pre) False = skipStringFrom ?d (length pre + 1) True"
    by (subst skipStringFrom.simps) (simp add: nth_append)
  also have "\<dots> = skipStringFrom ?d (length pre + 1 + 1) False"
    by (subst skipStringFrom.simps) simp
  finally show "skipStringFrom ?d (length pre) False
      = skipStringFrom ?d (length pre + length [CHR 0x5C, x]) False" by simp
qed

lemma hexDigit_plain:
  assumes "n < 16" shows "hexDigit n \<noteq> CHR 0x22 \<and> hexDigit n \<noteq> CHR 0x5C"
proof -
  have "(of_char (hexDigit n) :: nat) \<notin> {34, 92}" using assms by (auto simp: hexDigit_def)
  then show ?thesis by auto
qed

lemma inert_quoteChar: "inert (quoteChar c)"
proof -
  have hex: "inert [CHR 0x5C, CHR ''x'', hexDigit a, hexDigit b]" if "a < 16" "b < 16" for a b
    using inert_append [OF inert_append [OF inert_escape inert_char] inert_char, of "hexDigit a" "hexDigit b"]
      hexDigit_plain [OF that(1)] hexDigit_plain [OF that(2)] by simp
  have "of_char c div 16 < (16::nat)" by (intro less_mult_imp_div_less) (use nat_of_char_less_256 [of c] in simp)
  then show ?thesis
    by (simp add: quoteChar_def Let_def inert_escape inert_char hex)
qed

lemma inert_quoteBody: "inert (concat (map quoteChar s))"
  by (induction s) (simp_all add: inert_Nil inert_append inert_quoteChar)

lemma transparent_goQuote: "transparent (goQuote s)"
  unfolding transparent_def
proof (intro allI)
  fix pre post :: string and "from" :: nat
  define b where "b = concat (map quoteChar s)"
  let ?d = "pre @ goQuote s @ post"
  have d: "?d = (pre @ [CHR 0x22]) @ b @ (CHR 0x22 # post)" by (simp add: goQuote_def b_def)
  have "skipStringFrom ?d (length pre + 1) False = skipStringFrom ?d (length pre + 1 + length b) False"
    using inert_quoteBody [of s, folded b_def] unfolding inert_def d by (metis length_append_singleton Suc_eq_plus1)
  also have "\<dots> = Some (length pre + 1 + length b)"
    unfolding d by (subst skipStringFrom.simps) (simp add: nth_append)
  finally have "skipString ?d (length pre) = Some (length pre + 1 + length b)"
    by (simp add: skipString_def)
  moreover have "\<not> isLineCommentStart ?d (length pre)"
    unfolding d by (simp add: isLineCommentStart_def nth_append)
  ultimately show "scanScalar ?d from (length pre) = scanScalar ?d from (length pre + length (goQuote s))"
    by (subst scanScalar.simps) (simp add: goQuote_def b_def nth_append)
qed

section \<open>The patched libconfig text\<close>

definition readScalar :: "bytes \<Rightarrow> string \<Rightarrow> string option" where
  "readScalar data key = (case findAssignment data key 0 of None \<Rightarrow> None
     | Some asn \<Rightarrow> map_option (goSlice data (ValueStart asn)) (findScalarValueEnd data (ValueStart asn)))"

text \<open>A value the renderer may write: transparent, not empty, without white space at its ends.\<close>

definition writable :: "string \<Rightarrow> bool" where
  "writable v \<longleftrightarrow> transparent v \<and> v \<noteq> [] \<and> \<not> isASCIISpace (hd v) \<and> \<not> isASCIISpace (last v)"

lemma patchLibconfig_cases:
  assumes "patchLibconfigScalarOptional data key val = Some out"
  obtains asn e where "findAssignment data key 0 = Some asn"
    "findScalarValueEnd data (ValueStart asn) = Some e" "ValueStart asn \<le> e" "e \<le> length data"
    "out = take (ValueStart asn) data @ val @ drop e data"
  using assms findAssignment_bounds findScalarValueEnd_bounds
  by (fastforce simp: patchLibconfigScalarOptional_def split: option.splits)

lemma patchLibconfig_iff_read:
  "patchLibconfigScalarOptional data key val = None \<longleftrightarrow> readScalar data key = None"
  by (auto simp: patchLibconfigScalarOptional_def readScalar_def split: option.splits)

lemma goSlice_split: "a \<le> b \<Longrightarrow> b \<le> length d \<Longrightarrow> d = take a d @ goSlice d a b @ drop b d"
  unfolding goSlice_def by (metis append_take_drop_id drop_drop le_add_diff_inverse2)

lemma patchLibconfig_readback:
  assumes out: "patchLibconfigScalarOptional data key val = Some out"
    and v: "writable val" and old: "readScalar data key \<noteq> Some []"
  shows "readScalar out key = Some val"
proof -
  obtain asn e where a: "findAssignment data key 0 = Some asn"
    "findScalarValueEnd data (ValueStart asn) = Some e" "ValueStart asn \<le> e" "e \<le> length data"
    "out = take (ValueStart asn) data @ val @ drop e data"
    using out by (rule patchLibconfig_cases)
  define n where "n = ValueStart asn"
  define p where "p = n + length val"
  have n: "n \<le> length data" and e: "n < e" "e \<le> length data"
    using a old by (auto simp: n_def readScalar_def goSlice_def)
  have v': "val \<noteq> []" "\<not> isASCIISpace (hd val)" "\<not> isASCIISpace (last val)"
    using v by (auto simp: writable_def)
  have pre: "length (take n data) = n" using n by simp
  have outn: "out ! n = hd val" "out ! (p - 1) = last val" "n < length out"
    using a(5) n v'(1) by (auto simp: n_def p_def nth_append hd_conv_nth last_conv_nth neq_Nil_conv)
  have fa: "findAssignment out key 0 = Some asn"
    using a(5) n v' outn by (intro findAssignment_agree [OF a(1)]) (auto simp: agree_def n_def)
  obtain t where t: "n \<le> t" "t \<le> length data" "scalarStop data t" "e = trimRightASCII data n t"
    using scanScalar_stop [OF a(2) [unfolded findScalarValueEnd_def]] n by (auto simp: n_def)
  have et: "e \<le> t" using t(4) trimRightASCII_bounds(1) by simp
  have shift: "out ! (k + p) = data ! (k + e)" if "k + e < length data" for k
    using that a(5) n by (simp add: n_def p_def nth_append add.commute)
  have lenout: "length out = p + (length data - e)" using a(5) n by (simp add: n_def p_def)
  define u where "u = t - e + p"
  have sp: "isASCIISpace (out ! k)" if "p \<le> k" "k < u" for k
    using that shift [of "k - p"] trimRightASCII_spaces [of data n t "k - p + e"] t et
    by (simp add: u_def)
  have "scalarStop out u"
  proof (cases "t = length data")
    case True
    then show ?thesis using lenout et by (simp add: scalarStop_def u_def add.commute)
  next
    case False
    then have tl: "t < length data" using t by simp
    have "out ! u = data ! t" using shift [of "t - e"] et tl by (simp add: u_def)
    moreover have "isLineCommentStart out u" if "isLineCommentStart data t"
    proof -
      have "n < t" using e et by simp
      then have "isASCIISpace (data ! (t - 1))" using that by (simp add: isLineCommentStart_def)
      then have "e < t"
        using e t(4) et trimRightASCII.simps [of data n t] trimRightASCII_bounds(1) [of data n "t - 1"]
        by (cases "e = t") (auto simp: \<open>n < t\<close>)
      then have "out ! (u - 1) = data ! (t - 1)" "out ! u = data ! t"
          "t + 1 < length data \<Longrightarrow> out ! (u + 1) = data ! (t + 1)"
        using shift [of "t - e - 1"] shift [of "t - e"] shift [of "t - e + 1"] tl by (auto simp: u_def)
      then show ?thesis
        using that lenout \<open>e < t\<close> tl by (auto simp: isLineCommentStart_def u_def)
    qed
    ultimately show ?thesis using t(3) tl by (auto simp: scalarStop_def)
  qed
  then have "scanScalar out n p = Some p"
    using sp v' outn lenout et t by (intro scanScalar_tail [where t = u]) (auto simp: u_def p_def)
  then have "findScalarValueEnd out n = Some p"
    using v pre a(5) unfolding findScalarValueEnd_def writable_def transparent_def n_def p_def
    by (metis n_def)
  moreover have "goSlice out n p = val" using a(5) n by (simp add: goSlice_def n_def p_def)
  ultimately show ?thesis using fa by (simp add: readScalar_def n_def)
qed

lemma patchLibconfig_splice:
  assumes "patchLibconfigScalarOptional data key val = Some out"
  shows "\<exists>p ws1 ws2 old post. data = (p @ key @ ws1 @ ''='' @ ws2) @ old @ post
     \<and> out = (p @ key @ ws1 @ ''='' @ ws2) @ val @ post
     \<and> list_all isASCIISpace ws1 \<and> list_all isASCIISpace ws2 \<and> readScalar data key = Some old"
proof -
  obtain asn e where a: "findAssignment data key 0 = Some asn"
    "findScalarValueEnd data (ValueStart asn) = Some e" "ValueStart asn \<le> e" "e \<le> length data"
    "out = take (ValueStart asn) data @ val @ drop e data"
    using assms by (rule patchLibconfig_cases)
  note k = findAssignment_key [OF a(1)] and b = findAssignment_bounds [OF a(1)]
  let ?ks = "KeyStart asn" and ?ke = "KeyEnd asn" and ?eq = "Equal asn" and ?vs = "ValueStart asn"
  have ws: "list_all isASCIISpace (goSlice data i j)"
    if "i \<le> j" "j \<le> length data" "\<And>x. i \<le> x \<Longrightarrow> x < j \<Longrightarrow> isASCIISpace (data ! x)" for i j
    using that by (auto simp: list_all_length goSlice_def)
  have 1: "list_all isASCIISpace (goSlice data ?ke ?eq)" "list_all isASCIISpace (goSlice data (?eq + 1) ?vs)"
    using b k skipWhile_all [of ?ke _ isASCIISpace data] skipWhile_all [of "?eq + 1" _ isASCIISpace data]
    by (auto intro!: ws simp: skipASCIIWhitespace_def)
  have cut: "take j data = take i data @ goSlice data i j" if "i \<le> j" for i j
    using that by (simp add: goSlice_def) (metis le_add_diff_inverse take_add)
  have eq: "goSlice data ?eq (?eq + 1) = ''=''"
  proof -
    have "?eq < length data" "data ! ?eq = CHR ''=''" using k by auto
    then show ?thesis by (simp add: goSlice_def take_Suc hd_drop_conv_nth)
  qed
  have "take ?vs data = take ?ks data @ key @ goSlice data ?ke ?eq @ ''='' @ goSlice data (?eq + 1) ?vs"
    using cut [of "?eq + 1" ?vs] cut [of ?eq "?eq + 1"] cut [of ?ke ?eq] cut [of ?ks ?ke] b eq
      conjunct1 [OF conjunct2 [OF conjunct2 [OF k]]] by simp
  moreover have "data = take ?vs data @ goSlice data ?vs e @ drop e data"
    using a(3,4) by (rule goSlice_split)
  moreover have "readScalar data key = Some (goSlice data ?vs e)"
    using a by (simp add: readScalar_def)
  ultimately show ?thesis using a(5) 1 by metis
qed

section \<open>The patched INI text\<close>

lemma concat_splitLines [simp]: "concat (splitLines data) = data"
  by (induction data) (auto split: list.split)

lemma splitLines_line: "l \<in> set (splitLines data) \<Longrightarrow> l \<noteq> [] \<and> CHR 0x0A \<notin> set (butlast l)"
  by (induction data arbitrary: l) (auto split: list.splits if_splits)

lemma iniScan_hit:
  "iniScan target key lines i cur f ins = IniHit m \<Longrightarrow>
     i \<le> m \<and> m < i + length lines \<and> lineHasAssignmentKey (lines ! (m - i)) key
     \<and> parseINISection (lines ! (m - i)) = None"
proof (induction lines arbitrary: i cur f ins)
  case (Cons line rest)
  have "m = i \<and> lineHasAssignmentKey line key \<and> parseINISection line = None
      \<or> (\<exists>cur' f' ins'. iniScan target key rest (i + 1) cur' f' ins' = IniHit m)"
    using Cons.prems by (simp split: option.splits if_splits) (auto split: if_splits)
  then show ?case
  proof
    assume "\<exists>cur' f' ins'. iniScan target key rest (i + 1) cur' f' ins' = IniHit m"
    then obtain cur' f' ins' where "iniScan target key rest (i + 1) cur' f' ins' = IniHit m" by blast
    from Cons.IH [OF this] show ?thesis by (auto simp: nth_Cons')
  qed simp
qed simp

lemma iniScan_miss:
  "iniScan target key lines i cur f ins = IniMiss True m \<Longrightarrow> ins \<le> i + length lines \<Longrightarrow> m \<le> i + length lines"
  by (induction lines arbitrary: i cur f ins) (fastforce split: option.splits if_splits)+

lemma concat_update:
  "i < length ls \<Longrightarrow> concat (ls[i := x]) = concat (take i ls) @ x @ concat (drop (i + 1) ls)"
  by (simp add: upd_conv_take_nth_drop)

lemma concat_nth: "i < length ls \<Longrightarrow> concat ls = concat (take i ls) @ ls ! i @ concat (drop (i + 1) ls)"
  using concat_update [of i ls "ls ! i"] by simp

text \<open>The three outcomes of a patch: a line replaced, a line inserted, a section appended.\<close>

lemma patchINI_overlay:
  assumes "patchINIAssignment data section key val = Inr out"
  shows "(\<exists>pre line post. data = pre @ line @ post
            \<and> out = pre @ replaceAssignmentLine line key val False @ post
            \<and> lineHasAssignmentKey line key \<and> line \<in> set (splitLines data))
       \<or> (\<exists>pre post. data = pre @ post \<and> out = pre @ key @ '' = '' @ val @ [CHR 0x0A] @ post)
       \<or> (\<exists>eol \<in> {[], [CHR 0x0A]}. out = data @ eol @ [CHR 0x0A] @ ''['' @ section @ '']'' @ [CHR 0x0A]
            @ key @ '' = '' @ val @ [CHR 0x0A])"
proof -
  define ls where "ls = splitLines data"
  have data: "concat ls = data" by (simp add: ls_def)
  consider (hit) m where "iniScan (toLower (trimSpace section)) key ls 0 [] False (length ls) = IniHit m"
    | (ins) m where "iniScan (toLower (trimSpace section)) key ls 0 [] False (length ls) = IniMiss True m"
    | (new) m where "iniScan (toLower (trimSpace section)) key ls 0 [] False (length ls) = IniMiss False m"
    by (metis iniSearch.exhaust)
  then show ?thesis
  proof cases
    case hit
    note h = iniScan_hit [OF hit]
    then have m: "m < length ls" "lineHasAssignmentKey (ls ! m) key" by auto
    have "out = concat (ls[m := replaceAssignmentLine (ls ! m) key val False])"
      using assms hit by (simp add: patchINIAssignment_def ls_def Let_def)
    then show ?thesis
      using concat_update [OF m(1)] concat_nth [OF m(1)] m data by (metis ls_def nth_mem)
  next
    case ins
    then have "m \<le> length ls" using iniScan_miss by fastforce
    then have "out = concat (take m ls) @ key @ '' = '' @ val @ [CHR 0x0A] @ concat (drop m ls)"
      using assms ins by (simp add: patchINIAssignment_def ls_def [symmetric] Let_def insertLine_def)
    moreover have "data = concat (take m ls) @ concat (drop m ls)"
      using data by (metis append_take_drop_id concat_append)
    ultimately show ?thesis by blast
  next
    case new
    show ?thesis
    proof (cases "ls \<noteq> [] \<and> \<not> hasSuffix (last ls) [CHR 0x0A]")
      case True
      then have "concat (butlast ls @ [last ls @ [CHR 0x0A]]) = data @ [CHR 0x0A]"
        using data by (metis append_butlast_last_id append_assoc concat.simps concat_append append_Nil2)
      moreover have "out = concat (butlast ls @ [last ls @ [CHR 0x0A]]) @ [CHR 0x0A] @ ''['' @ section
          @ '']'' @ [CHR 0x0A] @ key @ '' = '' @ val @ [CHR 0x0A]"
        using assms new True by (simp add: patchINIAssignment_def ls_def [symmetric] Let_def)
      ultimately show ?thesis by (intro disjI2) simp
    next
      case False
      then show ?thesis
        using assms new data by (auto simp: patchINIAssignment_def ls_def [symmetric] Let_def)
    qed
  qed
qed

lemma patchINI_total: "\<exists>out. patchINIAssignment data section key val = Inr out"
  by (simp add: patchINIAssignment_def Let_def split: iniSearch.split bool.split)

section \<open>Patching a list entry\<close>

lemma insertInContainer_splice:
  "insertInContainer block cs a = Some out \<Longrightarrow>
     \<exists>pre post ind. block = pre @ post \<and> out = pre @ (ind @ ''  '' @ a @ [CHR 0x0A]) @ post
       \<and> list_all (\<lambda>c. c = CHR 0x20 \<or> c = CHR 0x09) ind"
proof (induction cs)
  case (Cons c cs)
  show ?case
  proof (cases "findLibconfigContainer block c 0")
    case (Some oc)
    have "list_all (\<lambda>c. c = CHR 0x20 \<or> c = CHR 0x09) (closingIndent block (snd oc))"
      by (auto simp: closingIndent_def leadingBlanks_def list_all_iff dest: set_takeWhileD)
    moreover have "block = take (snd oc) block @ drop (snd oc) block" by simp
    moreover have "out = take (snd oc) block @ (closingIndent block (snd oc) @ ''  '' @ a @ [CHR 0x0A]) @ drop (snd oc) block"
      using Cons.prems Some by (auto simp: insertBytes_def split: prod.splits)
    ultimately show ?thesis by blast
  qed (use Cons in auto)
qed simp

text \<open>A patched list entry: the text outside the block of the entry is kept, and in the block
  one value is replaced or one assignment inserted.\<close>

lemma patchQCI_splice:
  assumes "patchQCIProfile data key cfg = Inr out"
  shows "\<exists>q field p pre block post block'. parseQCIProfileKey key = Some (q, field)
     \<and> qciLookup (QCIProfiles cfg) q = Some p
     \<and> data = pre @ block @ post \<and> out = pre @ block' @ post \<and> qciBlockHasKey block q
     \<and> (\<exists>val cs. qciPatch field p = Inr (val, cs) \<and>
          (patchLibconfigScalarOptional block field val = Some block'
           \<or> insertInContainer block cs (field @ '' = '' @ val @ '';'') = Some block'))"
proof -
  obtain q field p val cs s e where o: "parseQCIProfileKey key = Some (q, field)"
    "findQCIProfile cfg q = Some p" "qciPatch field p = Inr (val, cs)" "findQCIBlock data q = Some (s, e)"
    using assms by (auto simp: patchQCIProfile_def split: option.splits prod.splits)
  note b = findQCIBlock_bounds [OF o(4)]
  have split: "data = take s data @ goSlice data s e @ drop e data" using b by (intro goSlice_split) auto
  obtain block' where "out = take s data @ block' @ drop e data"
    "patchLibconfigScalarOptional (goSlice data s e) field val = Some block'
       \<or> insertInContainer (goSlice data s e) cs (field @ '' = '' @ val @ '';'') = Some block'"
    using assms o by (auto simp: patchQCIProfile_def insertQCIAssignment_def replaceRange_def Let_def
        split: option.splits prod.splits)
  with o b split show ?thesis
    unfolding findQCIProfile_def qciLookup_def by blast
qed

section \<open>Properties\<close>

text \<open>C9: a commit keeps every byte it does not manage. A successful patch of a libconfig key
  splits the file into what stands up to the value of the key's first assignment (the key, the
  equals sign and white space around it), the old value, and the rest; the patched file has the
  new value in place of the old one and is otherwise the same.\<close>

theorem patch_changes_one_value:
  assumes "patchLibconfigScalar data key val = Inr out"
  shows "\<exists>p ws1 ws2 old post. data = (p @ key @ ws1 @ ''='' @ ws2) @ old @ post
     \<and> out = (p @ key @ ws1 @ ''='' @ ws2) @ val @ post
     \<and> list_all isASCIISpace ws1 \<and> list_all isASCIISpace ws2 \<and> readScalar data key = Some old"
  using assms by (intro patchLibconfig_splice) (simp add: patchLibconfigScalar_def split: option.splits)

lemma patch_pci_sample:
  "patchLibconfigScalar ''tac = 1; pci = 1; # x'' ''pci'' ''7'' = Inr ''tac = 1; pci = 7; # x''"
  by code_simp

theorem patch_changes_one_value_witness:
  "\<exists>p ws1 ws2 old post. ''tac = 1; pci = 1; # x'' = (p @ ''pci'' @ ws1 @ ''='' @ ws2) @ old @ post
     \<and> ''tac = 1; pci = 7; # x'' = (p @ ''pci'' @ ws1 @ ''='' @ ws2) @ ''7'' @ post
     \<and> list_all isASCIISpace ws1 \<and> list_all isASCIISpace ws2
     \<and> readScalar ''tac = 1; pci = 1; # x'' ''pci'' = Some old"
  by (rule patch_changes_one_value [OF patch_pci_sample])



end
