(* ===== verification/SrsranConf.thy ===== *)
theory SrsranConf
  imports Renderer
begin

text \<open>
  The readers of the four srsRAN files (\<^verbatim>\<open>internal/ems/configuration/srsranconf\<close>): the
  line-oriented \<^verbatim>\<open>ParseENB\<close> and \<^verbatim>\<open>ParseRR\<close> of parser.go and the block-oriented
  \<^verbatim>\<open>ParseSIB\<close> and \<^verbatim>\<open>ParseRB\<close> of sib_rb_parser.go.

  A file argument is the result of reading it. The fields of the parsed structures carry a
  prefix (\<open>e_\<close>, \<open>r_\<close>, \<open>s_\<close>, \<open>q_\<close>), since \<open>EditableConfig\<close> uses the same
  names. The nested switch of \<^verbatim>\<open>ParseENB\<close> is one table per section; the assignments that the
  loop finds, with the section they stand in, are the list \<open>enbAssignments\<close> over which the
  switch is folded.

  \<^verbatim>\<open>bufio.Scanner\<close> fails on a line of 64 KiB or more (\<open>scanLines\<close>).
  \<^verbatim>\<open>strconv.Unquote\<close> is modelled for double-quoted strings with all escapes; other bytes are
  kept, as for valid UTF-8. A conversion whose error the code ignores yields what
  \<^verbatim>\<open>strconv\<close> returns beside the error (\<open>looseInt32\<close>, \<open>looseFloat\<close>).
\<close>

section \<open>Lines\<close>

definition dropEOL :: "string \<Rightarrow> string" where
  "dropEOL line = trimSuffix (trimSuffix line [CHR 0x0A]) [CHR 0x0D]"

definition scanLines :: "bytes \<Rightarrow> string list result" where
  "scanLines data =
     (if list_ex (\<lambda>l. length (trimSuffix l [CHR 0x0A]) \<ge> 65536) (splitLines data)
      then Inl (Errorf ''bufio.Scanner: token too long'')
      else Inr (map dropEOL (splitLines data)))"

definition isIdentifierStart :: "char \<Rightarrow> bool" where
  "isIdentifierStart c = (let n = (of_char c :: nat) in
     (65 \<le> n \<and> n \<le> 90) \<or> (97 \<le> n \<and> n \<le> 122) \<or> c = CHR ''_'')"

definition isIdentifier :: "char \<Rightarrow> bool" where
  "isIdentifier c = (isIdentifierStart c \<or> (48 \<le> (of_char c :: nat) \<and> (of_char c :: nat) \<le> 57))"

definition isInlineCommentAt :: "string \<Rightarrow> nat \<Rightarrow> bool" where
  "isInlineCommentAt s i \<longleftrightarrow>
     i < length s \<and>
     (s ! i = CHR ''#'' \<or> (s ! i = CHR ''/'' \<and> i + 1 < length s \<and> s ! (i + 1) = CHR ''/'')) \<and>
     (i = 0 \<or> isASCIISpace (s ! (i - 1)))"

text \<open>The loop of \<^verbatim>\<open>stripInlineComment\<close>: the position where the comment starts, or the length.\<close>

function commentPos :: "string \<Rightarrow> nat \<Rightarrow> bool \<Rightarrow> bool \<Rightarrow> nat" where
  "commentPos s i inString escaped =
     (if i < length s then
        if inString then
          if escaped then commentPos s (i + 1) inString False
          else if s ! i = CHR 0x5C then commentPos s (i + 1) inString True
          else if s ! i = CHR 0x22 then commentPos s (i + 1) False escaped
          else commentPos s (i + 1) inString escaped
        else if s ! i = CHR 0x22 then commentPos s (i + 1) True escaped
        else if s ! i = CHR ''#'' \<and> isInlineCommentAt s i then i
        else if s ! i = CHR ''/'' \<and> i + 1 < length s \<and> s ! (i + 1) = CHR ''/'' \<and> isInlineCommentAt s i
          then i
        else commentPos s (i + 1) inString escaped
      else length s)"
  by pat_completeness auto
termination by (relation "measure (\<lambda>(s, i, q, e). length s - i)") auto

declare commentPos.simps [simp del]

definition stripInlineComment :: "string \<Rightarrow> string" where
  "stripInlineComment s = trimSpace (take (commentPos s 0 False False) s)"

definition parseSectionLine :: "string \<Rightarrow> string option" where
  "parseSectionLine line =
     (let x = trimSpace line in
      if length x < 3 \<or> hd x \<noteq> CHR ''['' \<or> last x \<noteq> CHR '']'' then None
      else let name = trimSpace (butlast (tl x)) in
        if name = [] then None else Some (toLower name))"

definition skipSpace :: "string \<Rightarrow> nat \<Rightarrow> nat" where
  "skipSpace s i = skipWhile isASCIISpace s i"

definition parseAssignmentLine :: "string \<Rightarrow> (string \<times> string) option" where
  "parseAssignmentLine line =
     (let x = trimSpace line in
      if x = [] \<or> \<not> isIdentifierStart (hd x) then None
      else let i = skipWhile isIdentifier x 1;
               key = trimSpace (take i x);
               j = skipSpace x i
        in if key = [] \<or> j \<ge> length x \<or> x ! j \<noteq> CHR ''='' then None
           else let val = trimSpace (drop (j + 1) x)
             in Some (key, if hasSuffix val '';'' then trimSpace (trimSuffix val '';'') else val))"

section \<open>Unquoting\<close>

definition hexVal :: "char \<Rightarrow> nat option" where
  "hexVal c = (let n = (of_char c :: nat) in
     if 48 \<le> n \<and> n \<le> 57 then Some (n - 48)
     else if 97 \<le> n \<and> n \<le> 102 then Some (n - 87)
     else if 65 \<le> n \<and> n \<le> 70 then Some (n - 55) else None)"

fun hexValue :: "nat \<Rightarrow> string \<Rightarrow> nat option" where
  "hexValue acc [] = Some acc"
| "hexValue acc (c # cs) = (case hexVal c of None \<Rightarrow> None | Some d \<Rightarrow> hexValue (16 * acc + d) cs)"

definition utf8Encode :: "nat \<Rightarrow> string option" where
  "utf8Encode r =
     (if r < 128 then Some [char_of r]
      else if r < 2048 then Some [char_of (192 + r div 64), char_of (128 + r mod 64)]
      else if 55296 \<le> r \<and> r < 57344 \<or> r > 1114111 then None
      else if r < 65536 then
        Some [char_of (224 + r div 4096), char_of (128 + r div 64 mod 64), char_of (128 + r mod 64)]
      else Some [char_of (240 + r div 262144), char_of (128 + r div 4096 mod 64),
                 char_of (128 + r div 64 mod 64), char_of (128 + r mod 64)])"

definition simpleEscapes :: "(char \<times> char) list" where
  "simpleEscapes = [(CHR ''a'', CHR 0x07), (CHR ''b'', CHR 0x08), (CHR ''f'', CHR 0x0C),
     (CHR ''n'', CHR 0x0A), (CHR ''r'', CHR 0x0D), (CHR ''t'', CHR 0x09), (CHR ''v'', CHR 0x0B),
     (CHR 0x5C, CHR 0x5C), (CHR 0x22, CHR 0x22)]"

text \<open>What follows a backslash: the bytes it stands for and the number of characters read.\<close>

definition unescape :: "string \<Rightarrow> (string \<times> nat) option" where
  "unescape s = (case s of [] \<Rightarrow> None
     | e # rest \<Rightarrow>
         (case map_of simpleEscapes e of Some d \<Rightarrow> Some ([d], 1)
          | None \<Rightarrow>
              if e = CHR ''x'' \<and> length rest \<ge> 2 then
                map_option (\<lambda>v. ([char_of v], 3)) (hexValue 0 (take 2 rest))
              else if e = CHR ''u'' \<and> length rest \<ge> 4 then
                (case hexValue 0 (take 4 rest) of None \<Rightarrow> None
                 | Some v \<Rightarrow> map_option (\<lambda>b. (b, 5)) (utf8Encode v))
              else if e = CHR ''U'' \<and> length rest \<ge> 8 then
                (case hexValue 0 (take 8 rest) of None \<Rightarrow> None
                 | Some v \<Rightarrow> map_option (\<lambda>b. (b, 9)) (utf8Encode v))
              else if list_all (\<lambda>c. 48 \<le> (of_char c :: nat) \<and> (of_char c :: nat) \<le> 55) (take 3 s)
                      \<and> length rest \<ge> 2 then
                (let v = foldl (\<lambda>n c. 8 * n + digitVal c) 0 (take 3 s) in
                 if v > 255 then None else Some ([char_of v], 3))
              else None))"

function unquoteBody :: "string \<Rightarrow> string option" where
  "unquoteBody [] = Some []"
| "unquoteBody (c # cs) =
     (if c = CHR 0x22 \<or> c = CHR 0x0A then None
      else if c \<noteq> CHR 0x5C then map_option (Cons c) (unquoteBody cs)
      else (case unescape cs of None \<Rightarrow> None
        | Some (bs, n) \<Rightarrow> map_option (append bs) (unquoteBody (drop n cs))))"
  by pat_completeness auto
termination by (relation "measure length") auto

definition goUnquote :: "string \<Rightarrow> string option" where
  "goUnquote v = (if length v < 2 \<or> hd v \<noteq> CHR 0x22 \<or> last v \<noteq> CHR 0x22 then None
     else unquoteBody (butlast (tl v)))"

definition unquoteScalar :: "string \<Rightarrow> string" where
  "unquoteScalar s = (let v = trimSpace s in
     if length v \<ge> 2 \<and> hd v = CHR 0x22 \<and> last v = CHR 0x22 then
       (case goUnquote v of Some unq \<Rightarrow> unq | None \<Rightarrow> butlast (tl v))
     else v)"

section \<open>enb.conf\<close>

record ENBConfig =
  e_Serial :: string
  e_MCC :: string
  e_MNC :: string
  e_NPRB :: uint32
  e_ENBID :: string
  e_MMEAddr :: string
  e_GTPBindAddr :: string
  e_S1CBindAddr :: string
  e_S1CBindPort :: uint32
  e_TM :: uint32
  e_TXGain :: float64
  e_RXGain :: float64
  e_TimeAdvNSamples :: string
  e_DeviceName :: string
  e_DeviceArgs :: string
  e_BaseSrateHz :: float64
  e_SIBConfigFile :: string
  e_RRConfigFile :: string
  e_RBConfigFile :: string
  e_SchedPolicy :: string
  e_PDSCHMaxMCS :: int32
  e_PUSCHMaxMCS :: int32
  e_TargetBLER :: float64
  e_MinNofCtrlSymbols :: int32
  e_MaxNofCtrlSymbols :: int32
  e_PUSCHMaxIts :: int32
  e_NRPUSCHMaxIts :: int32
  e_PUSCH8bitDecoder :: bool
  e_NofPHYThreads :: int32
  e_MetricsPeriodSecs :: int32
  e_TXAmplitude :: float64
  e_RRCInactivityTimer :: int32
  e_RLFReleaseTimerMs :: int32
  e_EEAPrefList :: string
  e_EIAPrefList :: string
  e_GTPUTunnelTimeout :: int32
  e_S1SetupMaxRetries :: int32
  e_S1ConnectTimer :: int32
  e_RXGainOffset :: float64
  e_UseCedronFEstAlg :: bool
  e_RLFMinULSNREstim :: float64
  e_MaxMacDLKOs :: int32
  e_MaxMacULKOs :: int32
  e_ReportJSONUDS :: bool
  e_ReportJSONUDSPath :: string
  e_AlarmsLogEnable :: bool
  e_AlarmsFilename :: string

definition emptyENB :: ENBConfig where  "emptyENB = \<lparr>e_Serial = [], e_MCC = [], e_MNC =
     [], e_NPRB = 0, e_ENBID = [], e_MMEAddr = [], e_GTPBindAddr = [], e_S1CBindAddr = [],
     e_S1CBindPort = 0, e_TM = 0, e_TXGain = Fin 0, e_RXGain = Fin 0, e_TimeAdvNSamples = [],
     e_DeviceName = [], e_DeviceArgs = [], e_BaseSrateHz = Fin 0, e_SIBConfigFile = [],
     e_RRConfigFile = [], e_RBConfigFile = [], e_SchedPolicy = [], e_PDSCHMaxMCS = 0,
     e_PUSCHMaxMCS = 0, e_TargetBLER = Fin 0, e_MinNofCtrlSymbols = 0, e_MaxNofCtrlSymbols = 0,
     e_PUSCHMaxIts = 0, e_NRPUSCHMaxIts = 0, e_PUSCH8bitDecoder = False, e_NofPHYThreads = 0,
     e_MetricsPeriodSecs = 0, e_TXAmplitude = Fin 0, e_RRCInactivityTimer = 0,
     e_RLFReleaseTimerMs = 0, e_EEAPrefList = [], e_EIAPrefList = [], e_GTPUTunnelTimeout = 0,
     e_S1SetupMaxRetries = 0, e_S1ConnectTimer = 0, e_RXGainOffset = Fin 0, e_UseCedronFEstAlg =
     False, e_RLFMinULSNREstim = Fin 0, e_MaxMacDLKOs = 0, e_MaxMacULKOs = 0, e_ReportJSONUDS =
     False, e_ReportJSONUDSPath = [], e_AlarmsLogEnable = False, e_AlarmsFilename = []\<rparr>"

text \<open>Assignments that keep the old value when the text does not parse.\<close>

definition ifUint :: "(uint32 \<Rightarrow> 'c \<Rightarrow> 'c) \<Rightarrow> string \<Rightarrow> 'c \<Rightarrow> 'c" where
  "ifUint f v c = (case parseUint32 v of Some u \<Rightarrow> f u c | None \<Rightarrow> c)"

definition ifInt :: "(int32 \<Rightarrow> 'c \<Rightarrow> 'c) \<Rightarrow> string \<Rightarrow> 'c \<Rightarrow> 'c" where
  "ifInt f v c = (case parseInt32 v of Some i \<Rightarrow> f i c | None \<Rightarrow> c)"

definition ifFloat :: "(float64 \<Rightarrow> 'c \<Rightarrow> 'c) \<Rightarrow> string \<Rightarrow> 'c \<Rightarrow> 'c" where
  "ifFloat f v c = (case parseFloat v of Some x \<Rightarrow> f x c | None \<Rightarrow> c)"

definition ifBool :: "(bool \<Rightarrow> 'c \<Rightarrow> 'c) \<Rightarrow> string \<Rightarrow> 'c \<Rightarrow> 'c" where
  "ifBool f v c = (if toLower v = ''true'' then f True c
     else if toLower v = ''false'' then f False c else c)"

fun baseSrate :: "string list \<Rightarrow> float64 option" where
  "baseSrate [] = None"
| "baseSrate (p # ps) =
     (let x = trimSpace p in
      case indexByte x (CHR ''='') of
        None \<Rightarrow> baseSrate ps
      | Some k \<Rightarrow>
          if trimSpace (take k x) \<noteq> ''base_srate'' then baseSrate ps
          else (case parseFloat (trimSpace (drop (k + 1) x)) of
                  None \<Rightarrow> None
                | Some f \<Rightarrow> if f64_le f (Fin 0) then None else Some f))"

definition parseDeviceArgsBaseSrate :: "string \<Rightarrow> float64 option" where
  "parseDeviceArgsBaseSrate deviceArgs = baseSrate (splitOn (CHR '','') deviceArgs)"

definition enbDeviceArgs :: "string \<Rightarrow> ENBConfig \<Rightarrow> ENBConfig" where
  "enbDeviceArgs v c = (let c = c\<lparr>e_DeviceArgs := v\<rparr> in
     case parseDeviceArgsBaseSrate v of Some srate \<Rightarrow> c\<lparr>e_BaseSrateHz := srate\<rparr> | None \<Rightarrow> c)"

definition enbSection :: "(string \<times> (string \<Rightarrow> ENBConfig \<Rightarrow> ENBConfig)) list" where
  "enbSection = [
    (''enb_id'', (\<lambda>v c. c\<lparr>e_ENBID := v\<rparr>)),
    (''mcc'', (\<lambda>v c. c\<lparr>e_MCC := v\<rparr>)),
    (''mnc'', (\<lambda>v c. c\<lparr>e_MNC := v\<rparr>)),
    (''mme_addr'', (\<lambda>v c. c\<lparr>e_MMEAddr := v\<rparr>)),
    (''gtp_bind_addr'', (\<lambda>v c. c\<lparr>e_GTPBindAddr := v\<rparr>)),
    (''s1c_bind_addr'', (\<lambda>v c. c\<lparr>e_S1CBindAddr := v\<rparr>)),
    (''s1c_bind_port'', ifUint (\<lambda>u c. c\<lparr>e_S1CBindPort := u\<rparr>)),
    (''n_prb'', ifUint (\<lambda>u c. c\<lparr>e_NPRB := u\<rparr>)),
    (''tm'', ifUint (\<lambda>u c. c\<lparr>e_TM := u\<rparr>))]"

definition enb_filesSection :: "(string \<times> (string \<Rightarrow> ENBConfig \<Rightarrow> ENBConfig)) list" where
  "enb_filesSection = [
    (''sib_config'', (\<lambda>v c. c\<lparr>e_SIBConfigFile := v\<rparr>)),
    (''rr_config'', (\<lambda>v c. c\<lparr>e_RRConfigFile := v\<rparr>)),
    (''rb_config'', (\<lambda>v c. c\<lparr>e_RBConfigFile := v\<rparr>))]"

definition rfSection :: "(string \<times> (string \<Rightarrow> ENBConfig \<Rightarrow> ENBConfig)) list" where
  "rfSection = [
    (''tx_gain'', ifFloat (\<lambda>x c. c\<lparr>e_TXGain := x\<rparr>)),
    (''rx_gain'', ifFloat (\<lambda>x c. c\<lparr>e_RXGain := x\<rparr>)),
    (''time_adv_nsamples'', (\<lambda>v c. c\<lparr>e_TimeAdvNSamples := v\<rparr>)),
    (''device_args'', enbDeviceArgs),
    (''device_name'', (\<lambda>v c. c\<lparr>e_DeviceName := v\<rparr>))]"

definition schedulerSection :: "(string \<times> (string \<Rightarrow> ENBConfig \<Rightarrow> ENBConfig)) list" where
  "schedulerSection = [
    (''policy'', (\<lambda>v c. c\<lparr>e_SchedPolicy := v\<rparr>)),
    (''pdsch_max_mcs'', ifInt (\<lambda>i c. c\<lparr>e_PDSCHMaxMCS := i\<rparr>)),
    (''pusch_max_mcs'', ifInt (\<lambda>i c. c\<lparr>e_PUSCHMaxMCS := i\<rparr>)),
    (''target_bler'', ifFloat (\<lambda>x c. c\<lparr>e_TargetBLER := x\<rparr>)),
    (''min_nof_ctrl_symbols'', ifInt (\<lambda>i c. c\<lparr>e_MinNofCtrlSymbols := i\<rparr>)),
    (''max_nof_ctrl_symbols'', ifInt (\<lambda>i c. c\<lparr>e_MaxNofCtrlSymbols := i\<rparr>))]"

definition expertSection :: "(string \<times> (string \<Rightarrow> ENBConfig \<Rightarrow> ENBConfig)) list" where
  "expertSection = [
    (''enb_serial'', (\<lambda>v c. c\<lparr>e_Serial := v\<rparr>)),
    (''pusch_max_its'', ifInt (\<lambda>i c. c\<lparr>e_PUSCHMaxIts := i\<rparr>)),
    (''nr_pusch_max_its'', ifInt (\<lambda>i c. c\<lparr>e_NRPUSCHMaxIts := i\<rparr>)),
    (''pusch_8bit_decoder'', ifBool (\<lambda>b c. c\<lparr>e_PUSCH8bitDecoder := b\<rparr>)),
    (''nof_phy_threads'', ifInt (\<lambda>i c. c\<lparr>e_NofPHYThreads := i\<rparr>)),
    (''metrics_period_secs'', ifInt (\<lambda>i c. c\<lparr>e_MetricsPeriodSecs := i\<rparr>)),
    (''report_json_uds_enable'', ifBool (\<lambda>b c. c\<lparr>e_ReportJSONUDS := b\<rparr>)),
    (''report_json_uds_path'', (\<lambda>v c. c\<lparr>e_ReportJSONUDSPath := v\<rparr>)),
    (''alarms_log_enable'', ifBool (\<lambda>b c. c\<lparr>e_AlarmsLogEnable := b\<rparr>)),
    (''alarms_filename'', (\<lambda>v c. c\<lparr>e_AlarmsFilename := v\<rparr>)),
    (''tx_amplitude'', ifFloat (\<lambda>x c. c\<lparr>e_TXAmplitude := x\<rparr>)),
    (''rrc_inactivity_timer'', ifInt (\<lambda>i c. c\<lparr>e_RRCInactivityTimer := i\<rparr>)),
    (''rlf_release_timer_ms'', ifInt (\<lambda>i c. c\<lparr>e_RLFReleaseTimerMs := i\<rparr>)),
    (''eea_pref_list'', (\<lambda>v c. c\<lparr>e_EEAPrefList := v\<rparr>)),
    (''eia_pref_list'', (\<lambda>v c. c\<lparr>e_EIAPrefList := v\<rparr>)),
    (''gtpu_tunnel_timeout'', ifInt (\<lambda>i c. c\<lparr>e_GTPUTunnelTimeout := i\<rparr>)),
    (''s1_setup_max_retries'', ifInt (\<lambda>i c. c\<lparr>e_S1SetupMaxRetries := i\<rparr>)),
    (''s1_connect_timer'', ifInt (\<lambda>i c. c\<lparr>e_S1ConnectTimer := i\<rparr>)),
    (''rx_gain_offset'', ifFloat (\<lambda>x c. c\<lparr>e_RXGainOffset := x\<rparr>)),
    (''use_cedron_f_est_alg'', ifBool (\<lambda>b c. c\<lparr>e_UseCedronFEstAlg := b\<rparr>)),
    (''rlf_min_ul_snr_estim'', ifFloat (\<lambda>x c. c\<lparr>e_RLFMinULSNREstim := x\<rparr>)),
    (''max_mac_dl_kos'', ifInt (\<lambda>i c. c\<lparr>e_MaxMacDLKOs := i\<rparr>)),
    (''max_mac_ul_kos'', ifInt (\<lambda>i c. c\<lparr>e_MaxMacULKOs := i\<rparr>))]"

definition enbSections :: "(string \<times> (string \<times> (string \<Rightarrow> ENBConfig \<Rightarrow> ENBConfig)) list) list" where
  "enbSections = [(''enb'', enbSection), (''enb_files'', enb_filesSection), (''rf'', rfSection),
     (''scheduler'', schedulerSection), (''expert'', expertSection)]"

definition enbAssign :: "string \<Rightarrow> string \<Rightarrow> string \<Rightarrow> ENBConfig \<Rightarrow> ENBConfig" where
  "enbAssign sec key val c = (case map_of enbSections sec of None \<Rightarrow> c
     | Some t \<Rightarrow> (case map_of t key of None \<Rightarrow> c | Some f \<Rightarrow> f val c))"

text \<open>The assignments that the loop of \<^verbatim>\<open>ParseENB\<close> finds, each with its section.\<close>

fun enbAssignments :: "string \<Rightarrow> string list \<Rightarrow> ((string \<times> string) \<times> string) list" where
  "enbAssignments sec [] = []"
| "enbAssignments sec (raw # rest) =
     (let line = stripInlineComment raw in
      if line = [] then enbAssignments sec rest
      else case parseSectionLine line of
          Some s \<Rightarrow> enbAssignments s rest
        | None \<Rightarrow> (case parseAssignmentLine line of
              None \<Rightarrow> enbAssignments sec rest
            | Some (k, v) \<Rightarrow> ((sec, toLower k), unquoteScalar v) # enbAssignments sec rest))"

definition ParseENB :: "string \<Rightarrow> bytes result \<Rightarrow> ENBConfig result" where
  "ParseENB path file = bindE file (\<lambda>data. bindE (scanLines data) (\<lambda>lines.
     let out = fold (\<lambda>((sec, key), val) c. enbAssign sec key val c) (enbAssignments [] lines) emptyENB in
     if trimSpace (e_Serial out) = [] then Inl (Errorf (''enb_serial is not found in '' @ path))
     else if e_NPRB out = 0 then Inl (Errorf (''n_prb is not found in '' @ path))
     else Inr out))"

section \<open>rr.conf\<close>

record RRConfig =
  r_DLEARFCN :: uint32
  r_PCI :: uint32
  r_CellID :: string
  r_TAC :: string
  r_HOActive :: "bool option"
  r_A3Offset :: int32
  r_TimeToTrigger :: int32
  r_Hysteresis :: int32

text \<open>The loop variables of \<^verbatim>\<open>ParseRR\<close>: out, gotEARFCN and gotPCI.\<close>

type_synonym rrState = "RRConfig \<times> bool \<times> bool"

definition emptyRR :: RRConfig where
  "emptyRR = \<lparr>r_DLEARFCN = 0, r_PCI = 0, r_CellID = [], r_TAC = [], r_HOActive = None,
     r_A3Offset = 0, r_TimeToTrigger = 0, r_Hysteresis = 0\<rparr>"

definition rrAssign :: "string \<Rightarrow> string \<Rightarrow> rrState \<Rightarrow> rrState" where
  "rrAssign key val st = (case st of (out, gotEARFCN, gotPCI) \<Rightarrow>
     if key = ''cell_id'' then
       ((if r_CellID out = [] then out\<lparr>r_CellID := val\<rparr> else out), gotEARFCN, gotPCI)
     else if key = ''tac'' then
       ((if r_TAC out = [] then out\<lparr>r_TAC := val\<rparr> else out), gotEARFCN, gotPCI)
     else if key = ''dl_earfcn'' then
       (if gotEARFCN then st else case parseUint32 val of None \<Rightarrow> st
          | Some v \<Rightarrow> (out\<lparr>r_DLEARFCN := v\<rparr>, True, gotPCI))
     else if key = ''pci'' then
       (if gotPCI then st else case parseUint32 val of None \<Rightarrow> st
          | Some v \<Rightarrow> (out\<lparr>r_PCI := v\<rparr>, gotEARFCN, True))
     else if key = ''ho_active'' then
       ((if r_HOActive out \<noteq> None then out
         else if toLower val = ''true'' then out\<lparr>r_HOActive := Some True\<rparr>
         else if toLower val = ''false'' then out\<lparr>r_HOActive := Some False\<rparr> else out),
        gotEARFCN, gotPCI)
     else if key = ''a3_offset'' then (ifInt (\<lambda>i c. c\<lparr>r_A3Offset := i\<rparr>) val out, gotEARFCN, gotPCI)
     else if key = ''time_to_trigger'' then
       (ifInt (\<lambda>i c. c\<lparr>r_TimeToTrigger := i\<rparr>) val out, gotEARFCN, gotPCI)
     else if key = ''hysteresis'' then
       (ifInt (\<lambda>i c. c\<lparr>r_Hysteresis := i\<rparr>) val out, gotEARFCN, gotPCI)
     else st)"

definition rrLine :: "string \<Rightarrow> rrState \<Rightarrow> rrState" where
  "rrLine raw st = (let line = stripInlineComment raw in
     if line = [] then st
     else case parseAssignmentLine line of None \<Rightarrow> st
       | Some (k, v) \<Rightarrow> rrAssign (toLower k) (unquoteScalar v) st)"

definition ParseRR :: "string \<Rightarrow> bytes result \<Rightarrow> RRConfig result" where
  "ParseRR path file = bindE file (\<lambda>data. bindE (scanLines data) (\<lambda>lines.
     case fold rrLine lines (emptyRR, False, False) of (out, gotEARFCN, gotPCI) \<Rightarrow>
       if \<not> gotEARFCN \<or> \<not> gotPCI then Inl (Errorf (''dl_earfcn/pci are not found in '' @ path))
       else Inr out))"

section \<open>Unquoting undoes quoting\<close>

lemma hexVal_hexDigit: "d < 16 \<Longrightarrow> hexVal (hexDigit d) = Some d"
  by (auto simp: hexVal_def hexDigit_def Let_def)

lemma append_single: "(@) [c] = (#) c"
  by (simp add: fun_eq_iff)

lemma unquoteBody_quoteChar:
  "unquoteBody (quoteChar c @ rest) = map_option (Cons c) (unquoteBody rest)"
proof -
  let ?n = "of_char c :: nat"
  have n: "c = char_of ?n" by simp
  have hex: "unquoteBody ([CHR 0x5C, CHR ''x'', hexDigit (?n div 16), hexDigit (?n mod 16)] @ rest)
      = map_option (Cons c) (unquoteBody rest)"
    using nat_of_char_less_256 [of c]
    by (simp add: unescape_def simpleEscapes_def hexVal_hexDigit less_mult_imp_div_less
        append_single mult.commute [of 16])
  have simple: "unquoteBody ([CHR 0x5C, e] @ rest) = map_option (Cons d) (unquoteBody rest)"
    if "map_of simpleEscapes e = Some d" for e d
    using that by (simp add: unescape_def append_single)
  consider "c = CHR 0x22" | "c = CHR 0x5C" | "c \<noteq> CHR 0x22" "c \<noteq> CHR 0x5C" "?n \<in> {7..13}"
    | "c \<noteq> CHR 0x22" "c \<noteq> CHR 0x5C" "?n \<notin> {7..13}" by blast
  then show ?thesis
  proof cases
    case 3
    then have "?n = 7 \<or> ?n = 8 \<or> ?n = 9 \<or> ?n = 10 \<or> ?n = 11 \<or> ?n = 12 \<or> ?n = 13" by auto
    then have "?n = of_char (CHR 0x07) \<or> ?n = of_char (CHR 0x08) \<or> ?n = of_char (CHR 0x09)
        \<or> ?n = of_char (CHR 0x0A) \<or> ?n = of_char (CHR 0x0B) \<or> ?n = of_char (CHR 0x0C)
        \<or> ?n = of_char (CHR 0x0D)" by simp
    then have "c \<in> {CHR 0x07, CHR 0x08, CHR 0x09, CHR 0x0A, CHR 0x0B, CHR 0x0C, CHR 0x0D}"
      unfolding of_char_eq_iff by blast
    then show ?thesis
      using simple by (auto simp: quoteChar_def simpleEscapes_def simp del: unquoteBody.simps)
  next
    case 4
    then show ?thesis
      using hex by (cases "?n < 32 \<or> ?n = 127") (auto simp: quoteChar_def Let_def)
  qed (use simple in \<open>simp_all add: quoteChar_def simpleEscapes_def del: unquoteBody.simps\<close>)
qed

lemma unquoteBody_quote: "unquoteBody (concat (map quoteChar s)) = Some s"
  by (induction s) (simp_all add: unquoteBody_quoteChar)

lemma goUnquote_goQuote: "goUnquote (goQuote s) = Some s"
  by (simp add: goUnquote_def goQuote_def unquoteBody_quote)

lemma unquoteScalar_goQuote: "unquoteScalar (goQuote s) = s"
proof -
  have "trimSpace (goQuote s) = goQuote s"
    by (rule trimSpace_printable) (simp add: goQuote_def printable_def)
  then show ?thesis
    using goUnquote_goQuote [of s] by (simp add: unquoteScalar_def) (simp add: goQuote_def)
qed

end
