(* ===== verification/SibRbConf.thy ===== *)
theory SibRbConf
  imports SrsranConf
begin

text \<open>
  The block-oriented readers \<^verbatim>\<open>ParseSIB\<close> and \<^verbatim>\<open>ParseRB\<close> of
  \<^verbatim>\<open>internal/ems/configuration/srsranconf/sib_rb_parser.go\<close>.

  The scanners of this file are a second implementation of those of renderer.go. The lemmas at
  the end prove that the two agree: strings, comments, scalar values and matching braces are
  delimited at the same positions, so that the parser reads exactly the bytes the renderer
  replaces. Only the comparison of keys differs: the parser folds case, the renderer does not.
\<close>

section \<open>Scanners\<close>

definition skipTextSpace :: "string \<Rightarrow> nat \<Rightarrow> nat" where
  "skipTextSpace src i = skipWhile isASCIISpace src i"

fun trimTextRight :: "string \<Rightarrow> nat \<Rightarrow> nat \<Rightarrow> nat" where
  "trimTextRight src start end =
     (if end > start \<and> isASCIISpace (src ! (end - 1)) then trimTextRight src start (end - 1) else end)"

declare trimTextRight.simps [simp del]

definition isTextLineCommentStart :: "string \<Rightarrow> nat \<Rightarrow> bool" where
  "isTextLineCommentStart src i \<longleftrightarrow>
     i < length src \<and>
     (src ! i = CHR ''#'' \<or> (src ! i = CHR ''/'' \<and> i + 1 < length src \<and> src ! (i + 1) = CHR ''/'')) \<and>
     (i = 0 \<or> isASCIISpace (src ! (i - 1)))"

definition skipTextLine :: "string \<Rightarrow> nat \<Rightarrow> nat" where
  "skipTextLine src i = skipWhile (\<lambda>c. c \<noteq> CHR 0x0A) src i"

function skipTextStringFrom :: "string \<Rightarrow> nat \<Rightarrow> bool \<Rightarrow> nat option" where
  "skipTextStringFrom src i escaped =
     (if i < length src then
        if escaped then skipTextStringFrom src (i + 1) False
        else if src ! i = CHR 0x5C then skipTextStringFrom src (i + 1) True
        else if src ! i = CHR 0x22 then Some i
        else skipTextStringFrom src (i + 1) False
      else None)"
  by pat_completeness auto
termination by (relation "measure (\<lambda>(src, i, e). length src - i)") auto

declare skipTextStringFrom.simps [simp del]

definition skipTextString :: "string \<Rightarrow> nat \<Rightarrow> nat option" where
  "skipTextString src i = (if i \<ge> length src \<or> src ! i \<noteq> CHR 0x22 then None
     else skipTextStringFrom src (i + 1) False)"

lemma skipTextStringFrom_eq: "skipTextStringFrom src i e = skipStringFrom src i e"
  by (induction src i e rule: skipStringFrom.induct)
     (subst skipTextStringFrom.simps, subst skipStringFrom.simps, auto)

lemma skipTextString_eq: "i < length src \<Longrightarrow> src ! i = CHR 0x22 \<Longrightarrow> skipTextString src i = skipString src i"
  by (simp add: skipTextString_def skipString_def skipTextStringFrom_eq)

lemma skipTextString_bounds [go_index]: "skipTextString src i = Some n \<Longrightarrow> i < n \<and> n < length src"
  using skipTextString_eq [of i src] skipString_bounds [of src i n]
  by (auto simp: skipTextString_def split: if_splits)

text \<open>The start of the value of the first assignment to a key.\<close>

function findAssignmentInText :: "string \<Rightarrow> string \<Rightarrow> nat \<Rightarrow> nat option" where
  "findAssignmentInText src key i =
     (if i < length src then
        if isTextLineCommentStart src i then findAssignmentInText src key (skipTextLine src i + 1)
        else if src ! i = CHR 0x22 then
          (case skipTextString src i of None \<Rightarrow> None | Some nxt \<Rightarrow> findAssignmentInText src key (nxt + 1))
        else if \<not> isIdentifierStart (src ! i) then findAssignmentInText src key (i + 1)
        else
          let e = skipWhile isIdentifier src i; j = skipTextSpace src e in
          if equalFold (goSlice src i e) key \<and> j < length src \<and> src ! j = CHR ''='' then
            Some (skipTextSpace src (j + 1))
          else findAssignmentInText src key e
      else None)"
  by pat_completeness auto
termination
proof (relation "measure (\<lambda>(src, key, i). length src - i)", goal_cases)
  case (2 src key i)
  then show ?case using skipWhile_ge [of i _ src]
    by (auto simp: skipTextLine_def diff_less_mono2 less_Suc_eq_le)
next
  case (3 src key i nxt)
  then show ?case using skipTextString_bounds [of src i nxt] by auto
next
  case (5 src key i e j)
  then show ?case using skipWhile_progress [of i src isIdentifier]
    by (auto simp: isIdentifier_def diff_less_mono2)
qed auto

declare findAssignmentInText.simps [simp del]

function scanTextScalar :: "string \<Rightarrow> nat \<Rightarrow> nat \<Rightarrow> nat option" where
  "scanTextScalar src from i =
     (if i < length src then
        if isTextLineCommentStart src i then Some (trimTextRight src from i)
        else if src ! i = CHR 0x22 then
          (case skipTextString src i of None \<Rightarrow> None | Some nxt \<Rightarrow> scanTextScalar src from (nxt + 1))
        else if src ! i = CHR '';'' \<or> src ! i = CHR 0x0A \<or> src ! i = CHR 0x0D then
          Some (trimTextRight src from i)
        else if src ! i \<in> {CHR ''{'', CHR ''}'', CHR ''('', CHR '')''} then None
        else scanTextScalar src from (i + 1)
      else Some (trimTextRight src from (length src)))"
  by pat_completeness auto
termination
proof (relation "measure (\<lambda>(src, from, i). length src - i)", goal_cases)
  case (2 src st i nxt)
  then show ?case using skipTextString_bounds [of src i nxt] by auto
qed auto

declare scanTextScalar.simps [simp del]

definition findTextScalarValueEnd :: "string \<Rightarrow> nat \<Rightarrow> nat option" where
  "findTextScalarValueEnd src from = scanTextScalar src from from"

function scanDelimiter :: "string \<Rightarrow> nat \<Rightarrow> int \<Rightarrow> char \<Rightarrow> char \<Rightarrow> nat option" where
  "scanDelimiter src i depth openCh closeCh =
     (if i < length src then
        if isTextLineCommentStart src i then scanDelimiter src (skipTextLine src i + 1) depth openCh closeCh
        else if src ! i = CHR 0x22 then
          (case skipTextString src i of None \<Rightarrow> None
           | Some nxt \<Rightarrow> scanDelimiter src (nxt + 1) depth openCh closeCh)
        else if src ! i = openCh then scanDelimiter src (i + 1) (depth + 1) openCh closeCh
        else if src ! i = closeCh then
          if depth - 1 = 0 then Some i else scanDelimiter src (i + 1) (depth - 1) openCh closeCh
        else scanDelimiter src (i + 1) depth openCh closeCh
      else None)"
  by pat_completeness auto
termination
proof (relation "measure (\<lambda>(src, i, d, oc, cc). length src - i)", goal_cases)
  case (2 src i)
  then show ?case using skipWhile_ge [of i _ src]
    by (auto simp: skipTextLine_def diff_less_mono2 less_Suc_eq_le)
next
  case (3 src i d oc cc nxt)
  then show ?case using skipTextString_bounds [of src i nxt] by auto
qed auto

declare scanDelimiter.simps [simp del]

definition findMatchingDelimiter :: "string \<Rightarrow> nat \<Rightarrow> char \<Rightarrow> char \<Rightarrow> nat option" where
  "findMatchingDelimiter src pos openCh closeCh = scanDelimiter src pos 0 openCh closeCh"

section \<open>The two implementations agree\<close>

lemma isTextLineCommentStart_eq [simp]: "isTextLineCommentStart = isLineCommentStart"
  by (simp add: fun_eq_iff isTextLineCommentStart_def isLineCommentStart_def)

lemma skipTextLine_eq [simp]: "skipTextLine = skipLine"
  by (simp add: fun_eq_iff skipTextLine_def skipLine_def)

lemma skipTextSpace_eq [simp]: "skipTextSpace = skipASCIIWhitespace"
  by (simp add: fun_eq_iff skipTextSpace_def skipASCIIWhitespace_def)

lemma trimTextRight_eq: "trimTextRight src s e = trimRightASCII src s e"
  by (induction src s e rule: trimRightASCII.induct)
     (subst trimTextRight.simps, subst trimRightASCII.simps, simp)

lemma isIdentifier_eq: "isIdentifierStart = isIdentStart" "isIdentifier = isIdent"
  by (simp_all add: fun_eq_iff isIdentifierStart_def isIdentStart_def isIdentifier_def isIdent_def isDigit_def)

lemma scanTextScalar_eq: "scanTextScalar src from i = scanScalar src from i"
proof (induction src "from" i rule: scanScalar.induct)
  case (1 src "from" i)
  then show ?case
    by (subst scanTextScalar.simps, subst scanScalar.simps)
       (auto simp: trimTextRight_eq skipTextString_eq split: option.splits)
qed

lemma findTextScalarValueEnd_eq: "findTextScalarValueEnd src from = findScalarValueEnd src from"
  by (simp add: findTextScalarValueEnd_def findScalarValueEnd_def scanTextScalar_eq)

text \<open>Inside a string the brace scanner of the renderer runs to the closing quote, which is where
  \<^verbatim>\<open>skipTextString\<close> goes at once.\<close>

lemma scanBrace_string:
  "scanBrace src i d True e = (case skipStringFrom src i e of None \<Rightarrow> None
     | Some nxt \<Rightarrow> scanBrace src (nxt + 1) d False False)"
proof (induction src i e rule: skipStringFrom.induct)
  case (1 src i e)
  then show ?case
    by (subst scanBrace.simps, subst skipStringFrom.simps) auto
qed

lemma scanDelimiter_eq: "scanDelimiter src i d (CHR ''{'') (CHR ''}'') = scanBrace src i d False False"
proof (induction "length src - i" arbitrary: i d rule: less_induct)
  case less
  show ?case
  proof (cases "i < length src")
    case True
    have next1: "scanDelimiter src (Suc i) d' (CHR ''{'') (CHR ''}'') = scanBrace src (Suc i) d' False False" for d'
      using True by (intro less.hyps) auto
    have line: "scanDelimiter src (Suc (skipLine src i)) d (CHR ''{'') (CHR ''}'')
        = scanBrace src (Suc (skipLine src i)) d False False"
      using True skipWhile_ge [of i "\<lambda>c. c \<noteq> CHR 0x0A" src] by (intro less.hyps) (auto simp: skipLine_def)
    have str: "scanDelimiter src (Suc nxt) d (CHR ''{'') (CHR ''}'') = scanBrace src (Suc nxt) d False False"
      if "skipStringFrom src (Suc i) False = Some nxt" for nxt
      using True skipStringFrom_bounds [OF that] by (intro less.hyps) auto
    show ?thesis
      using True next1 line
      by (subst scanDelimiter.simps, subst scanBrace.simps)
         (auto simp: scanBrace_string skipTextString_eq skipString_def str split: option.splits)
  next
    case False
    then show ?thesis by (subst scanDelimiter.simps, subst scanBrace.simps) simp
  qed
qed

lemma findMatchingDelimiter_eq: "findMatchingDelimiter src i (CHR ''{'') (CHR ''}'') = findMatchingBrace src i"
  by (simp add: findMatchingDelimiter_def findMatchingBrace_def scanDelimiter_eq)

section \<open>Blocks and fields\<close>

definition extractBraceBlock :: "string \<Rightarrow> nat \<Rightarrow> string option" where
  "extractBraceBlock src braceIdx =
     (if braceIdx \<ge> length src \<or> src ! braceIdx \<noteq> CHR ''{'' then None
      else map_option (\<lambda>end. goSlice src braceIdx (end + 1))
        (findMatchingDelimiter src braceIdx (CHR ''{'') (CHR ''}'')))"

definition extractNamedBlock :: "string \<Rightarrow> string \<Rightarrow> string option" where
  "extractNamedBlock src name = (case findAssignmentInText src name 0 of None \<Rightarrow> None
     | Some valueStart \<Rightarrow>
         let br = skipTextSpace src valueStart in
         if br \<ge> length src \<or> src ! br \<noteq> CHR ''{'' then None else extractBraceBlock src br)"

text \<open>The code ignores whether a nested block is found; a missing one is the empty string.\<close>

definition extractNestedBlock :: "string \<Rightarrow> string \<Rightarrow> string" where
  "extractNestedBlock src name = (case extractNamedBlock src name of None \<Rightarrow> [] | Some b \<Rightarrow> b)"

definition extractParenSectionAfter :: "string \<Rightarrow> string \<Rightarrow> string option" where
  "extractParenSectionAfter src anchor = (case findAssignmentInText src anchor 0 of None \<Rightarrow> None
     | Some valueStart \<Rightarrow>
         let p = skipTextSpace src valueStart in
         if p \<ge> length src \<or> src ! p \<noteq> CHR ''('' then None
         else map_option (\<lambda>end. goSlice src p (end + 1))
           (findMatchingDelimiter src p (CHR ''('') (CHR '')'')))"

function topLevelObjects :: "string \<Rightarrow> nat \<Rightarrow> string list" where
  "topLevelObjects section i =
     (if i < length section then
        if isTextLineCommentStart section i then topLevelObjects section (skipTextLine section i + 1)
        else if section ! i = CHR 0x22 then
          (case skipTextString section i of None \<Rightarrow> [] | Some nxt \<Rightarrow> topLevelObjects section (nxt + 1))
        else if section ! i \<noteq> CHR ''{'' then topLevelObjects section (i + 1)
        else (case findMatchingDelimiter section i (CHR ''{'') (CHR ''}'') of None \<Rightarrow> []
          | Some end \<Rightarrow> goSlice section i (end + 1) # topLevelObjects section (end + 1))
      else [])"
  by pat_completeness auto
termination
proof (relation "measure (\<lambda>(section, i). length section - i)", goal_cases)
  case (2 sec i)
  then show ?case using skipWhile_ge [of i _ sec]
    by (auto simp: skipLine_def diff_less_mono2 less_Suc_eq_le)
next
  case (3 sec i nxt)
  then show ?case using skipTextString_bounds [of sec i nxt] by auto
next
  case (5 sec i n)
  then show ?case using findMatchingBrace_bounds [of sec i n] by (auto simp: findMatchingDelimiter_eq)
qed auto

declare topLevelObjects.simps [simp del]

definition extractTopLevelBraceObjects :: "string \<Rightarrow> string list" where
  "extractTopLevelBraceObjects section = topLevelObjects section 0"

definition findStringInBlock :: "string \<Rightarrow> string \<Rightarrow> string option" where
  "findStringInBlock block key = (case findAssignmentInText block key 0 of None \<Rightarrow> None
     | Some valueStart \<Rightarrow> map_option (\<lambda>valueEnd. unquoteScalar (goSlice block valueStart valueEnd))
         (findTextScalarValueEnd block valueStart))"

text \<open>What \<^verbatim>\<open>ParseInt(s, 10, 32)\<close> and \<^verbatim>\<open>ParseFloat(s, 64)\<close> return beside an error: the nearest
  representable value on a range error, zero on a syntax error.\<close>

definition looseInt32 :: "string \<Rightarrow> int32" where
  "looseInt32 s = (case s of [] \<Rightarrow> 0
     | c # cs \<Rightarrow>
         (case parseNat (if c = CHR ''-'' \<or> c = CHR ''+'' then cs else s) of
            None \<Rightarrow> 0
          | Some n \<Rightarrow> word_of_int (if c = CHR ''-'' then - min (int n) 2147483648
                                  else min (int n) 2147483647)))"

definition looseFloat :: "string \<Rightarrow> float64" where
  "looseFloat s = (case parseFloat s of Some x \<Rightarrow> x
     | None \<Rightarrow> (case s of [] \<Rightarrow> Fin 0
         | c # cs \<Rightarrow>
             (case parseUnsignedDecimal (if c = CHR ''-'' \<or> c = CHR ''+'' then cs else s) of
                None \<Rightarrow> Fin 0
              | Some _ \<Rightarrow> if c = CHR ''-'' then NegInf else PosInf)))"

definition findInt32InBlock :: "string \<Rightarrow> string \<Rightarrow> int32 \<times> bool" where
  "findInt32InBlock block key = (case findStringInBlock block key of None \<Rightarrow> (0, False)
     | Some s \<Rightarrow> (looseInt32 s, parseInt32 s \<noteq> None))"

definition findFloat64InBlock :: "string \<Rightarrow> string \<Rightarrow> float64 \<times> bool" where
  "findFloat64InBlock block key = (case findStringInBlock block key of None \<Rightarrow> (Fin 0, False)
     | Some s \<Rightarrow> (looseFloat s, parseFloat s \<noteq> None))"

section \<open>sib.conf and rb.conf\<close>

record SIBConfig =
  s_QRxLevMin :: int32
  s_CellBarred :: string
  s_NumRAPreambles :: int32
  s_PreambleInitRxTargetPwr :: int32
  s_PwrRampingStep :: int32
  s_DefaultPagingCycle :: int32
  s_P0NominalPUSCH :: int32
  s_P0NominalPUCCH :: int32
  s_Alpha :: float64
  s_ReferenceSignalPower :: int32
  s_T300 :: int32
  s_T301 :: int32
  s_T310 :: int32
  s_N310 :: int32
  s_T311 :: int32

definition ParseSIB :: "string \<Rightarrow> bytes result \<Rightarrow> SIBConfig result" where
  "ParseSIB path file = bindE file (\<lambda>src.
     case extractNamedBlock src ''sib1'' of
       None \<Rightarrow> Inl (Errorf (''sib1 block is not found in '' @ path))
     | Some sib1 \<Rightarrow>
       (case extractNamedBlock src ''sib2'' of
          None \<Rightarrow> Inl (Errorf (''sib2 block is not found in '' @ path))
        | Some sib2 \<Rightarrow>
          let rach = extractNestedBlock sib2 ''rach_cnfg'';
              pcch = extractNestedBlock sib2 ''pcch_cnfg'';
              ulPwr = extractNestedBlock sib2 ''ul_pwr_ctrl'';
              pdsch = extractNestedBlock sib2 ''pdsch_cnfg'';
              timers = extractNestedBlock sib2 ''ue_timers_and_constants'';
              out = \<lparr>s_QRxLevMin = fst (findInt32InBlock sib1 ''q_rx_lev_min''),
                s_CellBarred = (case findStringInBlock sib1 ''cell_barred'' of None \<Rightarrow> [] | Some b \<Rightarrow> b),
                s_NumRAPreambles = fst (findInt32InBlock rach ''num_ra_preambles''),
                s_PreambleInitRxTargetPwr = fst (findInt32InBlock rach ''preamble_init_rx_target_pwr''),
                s_PwrRampingStep = fst (findInt32InBlock rach ''pwr_ramping_step''),
                s_DefaultPagingCycle = fst (findInt32InBlock pcch ''default_paging_cycle''),
                s_P0NominalPUSCH = fst (findInt32InBlock ulPwr ''p0_nominal_pusch''),
                s_P0NominalPUCCH = fst (findInt32InBlock ulPwr ''p0_nominal_pucch''),
                s_Alpha = fst (findFloat64InBlock ulPwr ''alpha''),
                s_ReferenceSignalPower = fst (findInt32InBlock pdsch ''rs_power''),
                s_T300 = fst (findInt32InBlock timers ''t300''),
                s_T301 = fst (findInt32InBlock timers ''t301''),
                s_T310 = fst (findInt32InBlock timers ''t310''),
                s_N310 = fst (findInt32InBlock timers ''n310''),
                s_T311 = fst (findInt32InBlock timers ''t311'')\<rparr>
          in if s_DefaultPagingCycle out = 0
             then Inl (Errorf (''default_paging_cycle is not found in '' @ path))
             else Inr out))"

record RBProfile =
  q_QCI :: int32
  q_DiscardTimer :: int32
  q_PDCPSNSize :: int32
  q_TPollRetx :: int32
  q_MaxRetxThresh :: int32
  q_TReordering :: int32
  q_Priority :: int32

definition parseProfile :: "string \<Rightarrow> RBProfile" where
  "parseProfile obj = \<lparr>q_QCI = fst (findInt32InBlock obj ''qci''),
     q_DiscardTimer = fst (findInt32InBlock obj ''discard_timer''),
     q_PDCPSNSize = fst (findInt32InBlock obj ''pdcp_sn_size''),
     q_TPollRetx = fst (findInt32InBlock obj ''t_poll_retx''),
     q_MaxRetxThresh = fst (findInt32InBlock obj ''max_retx_thresh''),
     q_TReordering = fst (findInt32InBlock obj ''t_reordering''),
     q_Priority = fst (findInt32InBlock obj ''priority'')\<rparr>"

definition ParseRB :: "string \<Rightarrow> bytes result \<Rightarrow> RBProfile list result" where
  "ParseRB path file = bindE file (\<lambda>src.
     case extractParenSectionAfter src ''qci_config'' of
       None \<Rightarrow> Inl (Errorf (''qci_config is not found in '' @ path))
     | Some section \<Rightarrow>
         let objs = extractTopLevelBraceObjects section in
         if objs = [] then Inl (Errorf (''qci_config has no entries in '' @ path))
         else let profiles = filter (\<lambda>p. q_QCI p \<noteq> 0) (map parseProfile objs) in
           if profiles = [] then Inl (Errorf (''no qci entries parsed in '' @ path))
           else Inr profiles)"

text \<open>On a number that fits, the ignored error makes no difference.\<close>

lemma looseInt32_ok: "parseInt32 s = Some i \<Longrightarrow> looseInt32 s = i"
  by (auto simp: parseInt32_def parseInt_def parseUint_def looseInt32_def Let_def min_def
      split: list.splits option.splits if_splits)

lemma looseInt32_format [simp]: "looseInt32 (formatInt32 i) = i"
  by (rule looseInt32_ok) simp

lemma looseFloat_ok: "parseFloat s = Some x \<Longrightarrow> looseFloat s = x"
  by (simp add: looseFloat_def)

lemma ParseRB_nonzero: "ParseRB path file = Inr ps \<Longrightarrow> p \<in> set ps \<Longrightarrow> q_QCI p \<noteq> 0"
  by (auto simp: ParseRB_def Let_def split: option.splits if_splits)

end
