(* ===== verification/ConfigStore.thy ===== *)
theory ConfigStore
  imports SibRbConf FileSys
begin

text \<open>
  The configuration store (\<^verbatim>\<open>internal/ems/configuration/store.go\<close>): the running and the
  candidate configuration, the record of what the candidate changes, and the commit that writes
  the changed files.

  The code treats enb.conf, rr.conf, sib.conf and rb.conf one after the other in the same way;
  here they are the values of \<open>confFile\<close>, and each such sequence is a loop over
  \<open>confFiles\<close>. The four dirty flags are the set of files that are dirty, and the nil map of
  dirty keys is the empty list. The argument of an edit is a Go map, whose iteration order is
  arbitrary: it is a list of changes in any order. Copies made by \<^verbatim>\<open>cloneEditableConfig\<close> are
  values and need no model. The mutex makes each operation one step.
\<close>

section \<open>State\<close>

datatype confFile = ENB | RR | SIB | RB

definition confFiles :: "confFile list" where
  "confFiles = [ENB, RR, SIB, RB]"

record Store =
  running :: EditableConfig
  cand :: EditableConfig
  path :: "confFile \<Rightarrow> string"
  dirty :: "confFile set"
  dirtyKeys :: "string list"

record FileBackup =
  saved :: "confFile \<Rightarrow> bytes option"
  bDirty :: bool

section \<open>Loading\<close>

definition firstNonEmpty :: "string list \<Rightarrow> string" where
  "firstNonEmpty values = (case find (\<lambda>v. trimSpace v \<noteq> []) values of
     Some v \<Rightarrow> trimSpace v | None \<Rightarrow> [])"

definition convertQCIProfiles :: "RBProfile list \<Rightarrow> QCIProfile list" where
  "convertQCIProfiles ps = map (\<lambda>p. \<lparr>QCI = q_QCI p, DiscardTimer = q_DiscardTimer p,
     PDCPSNSize = q_PDCPSNSize p, TPollRetx = q_TPollRetx p, MaxRetxThresh = q_MaxRetxThresh p,
     TReordering = q_TReordering p, Priority = q_Priority p\<rparr>) ps"

definition loadConfig ::
    "string \<Rightarrow> string \<Rightarrow> string \<Rightarrow> ENBConfig \<Rightarrow> RRConfig \<Rightarrow> SIBConfig \<Rightarrow> RBProfile list \<Rightarrow> EditableConfig" where
  "loadConfig rrPath sibPath rbPath enb rr sib rb = \<lparr>
       ENBSerial = trimSpace (e_Serial enb),
       SIBConfigFile = firstNonEmpty [trimSpace (e_SIBConfigFile enb), goBase sibPath],
       RRConfigFile = firstNonEmpty [trimSpace (e_RRConfigFile enb), goBase rrPath],
       RBConfigFile = firstNonEmpty [trimSpace (e_RBConfigFile enb), goBase rbPath],
       ReportJSONUDSEnable = e_ReportJSONUDS enb,
       ReportJSONUDSPath = trimSpace (e_ReportJSONUDSPath enb),
       AlarmsLogEnable = e_AlarmsLogEnable enb,
       AlarmsFilename = trimSpace (e_AlarmsFilename enb),
       ENBID = trimSpace (e_ENBID enb),
       MCC = trimSpace (e_MCC enb),
       MNC = trimSpace (e_MNC enb),
       MMEAddr = trimSpace (e_MMEAddr enb),
       GTPBindAddr = trimSpace (e_GTPBindAddr enb),
       S1CBindAddr = trimSpace (e_S1CBindAddr enb),
       S1CBindPort = e_S1CBindPort enb,
       NPRB = e_NPRB enb,
       TM = e_TM enb,
       DeviceName = trimSpace (e_DeviceName enb),
       DeviceArgs = trimSpace (e_DeviceArgs enb),
       TXGain = e_TXGain enb,
       RXGain = e_RXGain enb,
       TimeAdvNSamples = trimSpace (e_TimeAdvNSamples enb),
       SchedPolicy = trimSpace (e_SchedPolicy enb),
       PDSCHMaxMCS = e_PDSCHMaxMCS enb,
       PUSCHMaxMCS = e_PUSCHMaxMCS enb,
       TargetBLER = e_TargetBLER enb,
       MinCtrlSymbols = e_MinNofCtrlSymbols enb,
       MaxCtrlSymbols = e_MaxNofCtrlSymbols enb,
       CellID = trimSpace (r_CellID rr),
       TAC = trimSpace (r_TAC rr),
       DLEARFCN = r_DLEARFCN rr,
       PCI = r_PCI rr,
       HOActive = (r_HOActive rr = Some True),
       A3Offset = r_A3Offset rr,
       TimeToTrigger = r_TimeToTrigger rr,
       Hysteresis = r_Hysteresis rr,
       QRxLevMin = s_QRxLevMin sib,
       CellBarred = trimSpace (s_CellBarred sib),
       NumRAPreambles = s_NumRAPreambles sib,
       PreambleInitRxTargetPwr = s_PreambleInitRxTargetPwr sib,
       PwrRampingStep = s_PwrRampingStep sib,
       ReferenceSignalPower = s_ReferenceSignalPower sib,
       P0NominalPUSCH = s_P0NominalPUSCH sib,
       P0NominalPUCCH = s_P0NominalPUCCH sib,
       Alpha = s_Alpha sib,
       DefaultPagingCycle = s_DefaultPagingCycle sib,
       T300 = s_T300 sib,
       T301 = s_T301 sib,
       T310 = s_T310 sib,
       N310 = s_N310 sib,
       T311 = s_T311 sib,
       QCIProfiles = convertQCIProfiles rb,
       PUSCHMaxIts = e_PUSCHMaxIts enb,
       NRPUSCHMaxIts = e_NRPUSCHMaxIts enb,
       PUSCH8bitDecoder = e_PUSCH8bitDecoder enb,
       NofPHYThreads = e_NofPHYThreads enb,
       MetricsPeriodSecs = e_MetricsPeriodSecs enb,
       TXAmplitude = e_TXAmplitude enb,
       RRCInactivityTimer = e_RRCInactivityTimer enb,
       RLFReleaseTimerMs = e_RLFReleaseTimerMs enb,
       EEAPrefList = trimSpace (e_EEAPrefList enb),
       EIAPrefList = trimSpace (e_EIAPrefList enb),
       GTPUTunnelTimeout = e_GTPUTunnelTimeout enb,
       S1SetupMaxRetries = e_S1SetupMaxRetries enb,
       S1ConnectTimer = e_S1ConnectTimer enb,
       RXGainOffset = e_RXGainOffset enb,
       UseCedronFEstAlg = e_UseCedronFEstAlg enb,
       RLFMinULSNREstim = e_RLFMinULSNREstim enb,
       MaxMacDLKOs = e_MaxMacDLKOs enb,
       MaxMacULKOs = e_MaxMacULKOs enb\<rparr>"

definition liftIO :: "'a result \<Rightarrow> 'a io" where
  "liftIO r s = (r, s)"

definition NewStore :: "string \<Rightarrow> string \<Rightarrow> string \<Rightarrow> string \<Rightarrow> Store io" where
  "NewStore enbPath rrPath sibPath rbPath =
     bindIO (\<lambda>s. case osReadFile enbPath s of (f, s) \<Rightarrow> (ParseENB enbPath f, s)) (\<lambda>enb.
     bindIO (\<lambda>s. case osReadFile rrPath s of (f, s) \<Rightarrow> (ParseRR rrPath f, s)) (\<lambda>rr.
     bindIO (\<lambda>s. case osReadFile sibPath s of (f, s) \<Rightarrow> (ParseSIB sibPath f, s)) (\<lambda>sib.
     bindIO (\<lambda>s. case osReadFile rbPath s of (f, s) \<Rightarrow> (ParseRB rbPath f, s)) (\<lambda>rb.
       let cfg = loadConfig rrPath sibPath rbPath enb rr sib rb in
       bindIO (liftIO (validate cfg)) (\<lambda>_. liftIO (Inr
         \<lparr>running = cfg, cand = cfg,
          path = (\<lambda>f. case f of ENB \<Rightarrow> enbPath | RR \<Rightarrow> rrPath | SIB \<Rightarrow> sibPath | RB \<Rightarrow> rbPath),
          dirty = {}, dirtyKeys = []\<rparr>))))))"

section \<open>Reading and editing\<close>

definition Running :: "Store \<Rightarrow> EditableConfig" where
  "Running s = running s"

definition Candidate :: "Store \<Rightarrow> EditableConfig" where
  "Candidate s = cand s"

definition HasPendingChanges :: "Store \<Rightarrow> bool" where
  "HasPendingChanges s \<longleftrightarrow> ENB \<in> dirty s \<or> RR \<in> dirty s \<or> SIB \<in> dirty s \<or> RB \<in> dirty s"

definition enbDirtyKeys :: "string list" where
  "enbDirtyKeys = [
    ''enb_serial'', ''enb_id'', ''mcc'', ''mnc'', ''mme_addr'', ''gtp_bind_addr'',
    ''s1c_bind_addr'', ''s1c_bind_port'', ''n_prb'', ''tm'', ''tx_gain'', ''rx_gain'',
    ''time_adv_nsamples'', ''device_name'', ''device_args'', ''sched_policy'', ''pdsch_max_mcs'',
    ''pusch_max_mcs'', ''target_bler'', ''min_nof_ctrl_symbols'', ''max_nof_ctrl_symbols'',
    ''pusch_max_its'', ''nr_pusch_max_its'', ''pusch_8bit_decoder'', ''nof_phy_threads'',
    ''metrics_period_secs'', ''tx_amplitude'', ''rrc_inactivity_timer'',
    ''rlf_release_timer_ms'', ''eea_pref_list'', ''eia_pref_list'', ''gtpu_tunnel_timeout'',
    ''s1_setup_max_retries'', ''s1_connect_timer'', ''rx_gain_offset'', ''use_cedron_f_est_alg'',
    ''rlf_min_ul_snr_estim'', ''max_mac_dl_kos'', ''max_mac_ul_kos'']"

definition rrDirtyKeys :: "string list" where
  "rrDirtyKeys = [
    ''cell_id'', ''tac'', ''dl_earfcn'', ''pci'', ''ho_active'', ''a3_offset'',
    ''time_to_trigger'', ''hysteresis'']"

definition sibDirtyKeys :: "string list" where
  "sibDirtyKeys = [
    ''q_rx_lev_min'', ''cell_barred'', ''num_ra_preambles'', ''preamble_init_rx_target_pwr'',
    ''pwr_ramping_step'', ''reference_signal_power'', ''p0_nominal_pusch'', ''p0_nominal_pucch'',
    ''alpha'', ''default_paging_cycle'', ''t300'', ''t301'', ''t310'', ''n310'', ''t311'']"

definition markDirtyLocked :: "string \<Rightarrow> confFile set \<Rightarrow> confFile set" where
  "markDirtyLocked key d =
     (if hasPrefix key ''qci_profiles['' then insert RB d
      else if key \<in> set enbDirtyKeys then insert ENB d
      else if key \<in> set rrDirtyKeys then insert RR d
      else if key \<in> set sibDirtyKeys then insert SIB d
      else d)"

text \<open>The loop of \<^verbatim>\<open>editLocked\<close>; keys are marked dirty as they are applied.\<close>

fun editLoop :: "Store \<Rightarrow> EditableConfig \<Rightarrow> (string \<times> goany) list \<Rightarrow> EditableConfig result \<times> Store" where
  "editLoop s nxt [] = (Inr nxt, s)"
| "editLoop s nxt ((k, v) # changes) =
     (let key = trimSpace k in
      case applyChange nxt key v of
        Inl e \<Rightarrow> (Inl e, s)
      | Inr nxt' \<Rightarrow>
          editLoop (s\<lparr>dirty := markDirtyLocked key (dirty s), dirtyKeys := List.insert key (dirtyKeys s)\<rparr>)
            nxt' changes)"

definition editLocked :: "Store \<Rightarrow> (string \<times> goany) list \<Rightarrow> EditableConfig result \<times> Store" where
  "editLocked s changes = (case editLoop s (cand s) changes of
       (Inl e, s') \<Rightarrow> (Inl e, s')
     | (Inr nxt, s') \<Rightarrow> (case validate nxt of
           Inl e \<Rightarrow> (Inl e, s')
         | Inr _ \<Rightarrow> (Inr nxt, s'\<lparr>cand := nxt\<rparr>)))"

definition Edit :: "Store \<Rightarrow> (string \<times> goany) list \<Rightarrow> EditableConfig result \<times> Store" where
  "Edit s changes = editLocked s changes"

fun previewLoop :: "EditableConfig \<Rightarrow> (string \<times> goany) list \<Rightarrow> EditableConfig result" where
  "previewLoop nxt [] = Inr nxt"
| "previewLoop nxt ((k, v) # changes) =
     bindE (applyChange nxt (trimSpace k) v) (\<lambda>nxt'. previewLoop nxt' changes)"

definition PreviewEdit :: "Store \<Rightarrow> (string \<times> goany) list \<Rightarrow> EditableConfig result" where
  "PreviewEdit s changes = bindE (previewLoop (cand s) changes) (\<lambda>nxt.
     bindE (validate nxt) (\<lambda>_. Inr nxt))"

definition ValidateConfig :: "EditableConfig \<Rightarrow> unit result" where
  "ValidateConfig cfg = validate cfg"

definition ResetCandidate :: "Store \<Rightarrow> Store" where
  "ResetCandidate s = s\<lparr>cand := running s, dirty := {}, dirtyKeys := []\<rparr>"

definition FinalizeCommit :: "Store \<Rightarrow> unit result \<times> Store" where
  "FinalizeCommit s = (case validate (cand s) of
       Inl e \<Rightarrow> (Inl e, s)
     | Inr _ \<Rightarrow> (Inr (), s\<lparr>running := cand s, dirty := {}, dirtyKeys := []\<rparr>))"

section \<open>Writing the files\<close>

fun backupFiles :: "Store \<Rightarrow> confFile list \<Rightarrow> FileBackup \<Rightarrow> FileBackup io" where
  "backupFiles st [] b s = (Inr b, s)"
| "backupFiles st (f # rest) b s =
     (if f \<notin> dirty st then backupFiles st rest b s
      else bindIO (osReadFile (path st f)) (\<lambda>data.
        backupFiles st rest \<lparr>saved = (saved b)(f \<mapsto> data), bDirty = True\<rparr>) s)"

definition backupDirtyFilesLocked :: "Store \<Rightarrow> FileBackup io" where
  "backupDirtyFilesLocked st = backupFiles st confFiles \<lparr>saved = (\<lambda>_. None), bDirty = False\<rparr>"

fun renderConfig :: "confFile \<Rightarrow> bytes result \<Rightarrow> EditableConfig \<Rightarrow> string list \<Rightarrow> bytes result" where
  "renderConfig ENB = renderENBConfig"
| "renderConfig RR = renderRRConfig"
| "renderConfig SIB = renderSIBConfig"
| "renderConfig RB = renderRBConfig"

definition stageFile :: "Store \<Rightarrow> confFile \<Rightarrow> stagedFile list \<Rightarrow> stagedFile list io" where
  "stageFile st f staged = onError
     (bindIO (\<lambda>s. case osReadFile (path st f) s of (r, s) \<Rightarrow>
                (renderConfig f r (cand st) (dirtyKeys st), s)) (\<lambda>data.
      bindIO (writeTempSibling (path st f) data) (\<lambda>t.
      liftIO (Inr (staged @ [\<lparr>final = path st f, tmp = t\<rparr>])))))
     (\<lambda>s. snd (cleanupStagedFiles staged s))"

fun stageFiles :: "Store \<Rightarrow> confFile list \<Rightarrow> stagedFile list \<Rightarrow> stagedFile list io" where
  "stageFiles st [] staged s = (Inr staged, s)"
| "stageFiles st (f # rest) staged s =
     (if f \<notin> dirty st then stageFiles st rest staged s
      else bindIO (stageFile st f staged) (stageFiles st rest) s)"

definition stageDirtyFilesLocked :: "Store \<Rightarrow> stagedFile list io" where
  "stageDirtyFilesLocked st = stageFiles st confFiles []"

fun restoreFiles :: "Store \<Rightarrow> confFile list \<Rightarrow> FileBackup \<Rightarrow> unit io" where
  "restoreFiles st [] b s = (Inr (), s)"
| "restoreFiles st (f # rest) b s =
     (case saved b f of
        Some data \<Rightarrow>
          if f \<in> dirty st
          then bindIO (atomicWrite (path st f) data) (\<lambda>_. restoreFiles st rest b) s
          else restoreFiles st rest b s
      | None \<Rightarrow> restoreFiles st rest b s)"

definition restoreDirtyFilesLocked :: "Store \<Rightarrow> FileBackup \<Rightarrow> unit io" where
  "restoreDirtyFilesLocked st b = restoreFiles st confFiles b"

definition PersistCandidate :: "Store \<Rightarrow> (FileBackup \<times> EditableConfig) io" where
  "PersistCandidate st s =
     (case validate (cand st) of Inl e \<Rightarrow> (Inl e, s)
      | Inr _ \<Rightarrow>
     (case backupDirtyFilesLocked st s of (Inl e, s) \<Rightarrow> (Inl e, s)
      | (Inr backup, s) \<Rightarrow>
     (case stageDirtyFilesLocked st s of
        (Inl e, s) \<Rightarrow> (Inl e, snd (restoreDirtyFilesLocked st backup s))
      | (Inr staged, s) \<Rightarrow>
     (case commitStagedFiles staged s of
        (Inl e, s) \<Rightarrow>
          (Inl e, snd (restoreDirtyFilesLocked st backup (snd (cleanupStagedFiles staged s))))
      | (Inr _, s) \<Rightarrow> (Inr (backup, cand st), s)))))"

definition RollbackPersist :: "Store \<Rightarrow> FileBackup option \<Rightarrow> unit io" where
  "RollbackPersist st backup s = (case backup of None \<Rightarrow> (Inr (), s)
     | Some b \<Rightarrow> restoreDirtyFilesLocked st b s)"

definition Commit :: "Store \<Rightarrow> fs \<Rightarrow> EditableConfig result \<times> Store \<times> fs" where
  "Commit st s = (case PersistCandidate st s of
       (Inl e, s) \<Rightarrow> (Inl e, st, s)
     | (Inr (backup, nxt), s) \<Rightarrow> (case FinalizeCommit st of
           (Inl e, st') \<Rightarrow> (Inl e, st', snd (RollbackPersist st' (Some backup) s))
         | (Inr _, st') \<Rightarrow> (Inr nxt, st', s)))"

section \<open>Which file a key belongs to\<close>

definition keyFile :: "string \<Rightarrow> confFile option" where
  "keyFile key =
     (if hasPrefix key ''qci_profiles['' then Some RB
      else if key \<in> set enbDirtyKeys then Some ENB
      else if key \<in> set rrDirtyKeys then Some RR
      else if key \<in> set sibDirtyKeys then Some SIB
      else None)"

lemma markDirty_keyFile: "markDirtyLocked key d = (case keyFile key of None \<Rightarrow> d | Some f \<Rightarrow> insert f d)"
  by (simp add: markDirtyLocked_def keyFile_def)

text \<open>Whether the renderer of a file has a patch for a key.\<close>

fun hasPatch :: "confFile \<Rightarrow> string \<Rightarrow> bool" where
  "hasPatch ENB key \<longleftrightarrow> map_of enbPatchTable key \<noteq> None"
| "hasPatch RR key \<longleftrightarrow> map_of rrPatchTable key \<noteq> None"
| "hasPatch SIB key \<longleftrightarrow> map_of sibPatchTable key \<noteq> None"
| "hasPatch RB key \<longleftrightarrow> hasPrefix key ''qci_profiles[''"

definition enbPatchKeys :: "string list" where "enbPatchKeys = map fst enbPatchTable"
definition rrPatchKeys :: "string list" where "rrPatchKeys = map fst rrPatchTable"
definition sibPatchKeys :: "string list" where "sibPatchKeys = map fst sibPatchTable"

lemmas patchKeys_list [code] =
  enbPatchKeys_def [unfolded enbPatchTable_def list.map fst_conv]
  rrPatchKeys_def [unfolded rrPatchTable_def list.map fst_conv]
  sibPatchKeys_def [unfolded sibPatchTable_def list.map fst_conv]

lemma patchKeys_dirty:
  "set enbPatchKeys = set enbDirtyKeys" "rrPatchKeys = rrDirtyKeys" "sibPatchKeys = sibDirtyKeys"
proof -
  show "set enbPatchKeys = set enbDirtyKeys"
  proof
    show "set enbPatchKeys \<subseteq> set enbDirtyKeys" by code_simp
    show "set enbDirtyKeys \<subseteq> set enbPatchKeys" by code_simp
  qed
  show "rrPatchKeys = rrDirtyKeys" "sibPatchKeys = sibDirtyKeys" by code_simp+
qed

lemma dirtyKeys_partition:
  "distinct (enbDirtyKeys @ rrDirtyKeys @ sibDirtyKeys)"
  "set leafKeys \<subseteq> set (enbDirtyKeys @ rrDirtyKeys @ sibDirtyKeys)"
  "list_all (\<lambda>k. \<not> hasPrefix k ''qci_profiles['') leafKeys"
  "list_all (\<lambda>k. \<not> hasPrefix k ''qci_profiles['') (enbDirtyKeys @ rrDirtyKeys @ sibDirtyKeys)"
  by code_simp+

lemma keySlot_prefix: "keySlot k = Some (QField q f) \<Longrightarrow> hasPrefix k ''qci_profiles[''"
  by (auto simp: keySlot_def not_leafKey_hasPrefix split: if_splits option.splits)

lemma keySlot_keyFile: "keySlot k = Some l \<Longrightarrow> \<exists>f. keyFile k = Some f"
  using dirtyKeys_partition(2) keySlot_prefix [of k]
  by (cases l) (auto simp: keyFile_def keySlot_def split: if_splits option.splits)

lemma keyFile_hasPatch: "keyFile k = Some f \<Longrightarrow> hasPatch g k \<longleftrightarrow> g = f"
proof -
  have "hasPatch ENB k \<longleftrightarrow> k \<in> set enbDirtyKeys" "hasPatch RR k \<longleftrightarrow> k \<in> set rrDirtyKeys"
    "hasPatch SIB k \<longleftrightarrow> k \<in> set sibDirtyKeys"
    using patchKeys_dirty(1) arg_cong [OF patchKeys_dirty(2), of set] arg_cong [OF patchKeys_dirty(3), of set]
    by (auto simp: enbPatchKeys_def rrPatchKeys_def sibPatchKeys_def map_of_eq_None_iff simp flip: not_None_eq)
  moreover assume "keyFile k = Some f"
  ultimately show ?thesis
    using dirtyKeys_partition(1,4)
    by (cases g) (auto simp: keyFile_def list_all_iff split: if_splits)
qed

section \<open>Editing\<close>

lemma editLoop_preview: "fst (editLoop s nxt cs) = previewLoop nxt cs"
  by (induction s nxt cs rule: editLoop.induct) (auto simp: Let_def split: sum.split)

lemma editLoop_frame:
  "running (snd (editLoop s nxt cs)) = running s" "cand (snd (editLoop s nxt cs)) = cand s"
  "path (snd (editLoop s nxt cs)) = path s"
  by (induction s nxt cs rule: editLoop.induct) (auto simp: Let_def split: sum.split)

lemma Edit_cases:
  obtains (reject) e s1 where "Edit s cs = (Inl e, s1)" "PreviewEdit s cs = Inl e" "editLoop s (cand s) cs = (previewLoop (cand s) cs, s1)"
  | (accept) nxt s1 where "Edit s cs = (Inr nxt, s1\<lparr>cand := nxt\<rparr>)" "PreviewEdit s cs = Inr nxt"
      "previewLoop (cand s) cs = Inr nxt" "editLoop s (cand s) cs = (Inr nxt, s1)" "valid nxt"
proof -
  obtain s1 where e: "editLoop s (cand s) cs = (previewLoop (cand s) cs, s1)"
    using editLoop_preview [of s "cand s" cs] by (metis prod.collapse)
  show ?thesis
  proof (cases "previewLoop (cand s) cs")
    case (Inl er)
    then show ?thesis using e that(1) by (simp add: Edit_def editLocked_def PreviewEdit_def)
  next
    case (Inr nxt)
    then show ?thesis
      using e that by (cases "validate nxt") (auto simp: Edit_def editLocked_def PreviewEdit_def)
  qed
qed

lemma Edit_preview: "fst (Edit s cs) = PreviewEdit s cs"
  by (rule Edit_cases [of s cs]) auto

lemma Edit_cand:
  "cand (snd (Edit s cs)) = (case PreviewEdit s cs of Inl e \<Rightarrow> cand s | Inr nxt \<Rightarrow> nxt)"
  "running (snd (Edit s cs)) = running s" "path (snd (Edit s cs)) = path s"
proof -
  have "cand (snd (Edit s cs)) = (case PreviewEdit s cs of Inl e \<Rightarrow> cand s | Inr nxt \<Rightarrow> nxt)
      \<and> running (snd (Edit s cs)) = running s \<and> path (snd (Edit s cs)) = path s"
    using editLoop_frame [of s "cand s" cs] by (cases rule: Edit_cases [of s cs]) auto
  then show "cand (snd (Edit s cs)) = (case PreviewEdit s cs of Inl e \<Rightarrow> cand s | Inr nxt \<Rightarrow> nxt)"
    "running (snd (Edit s cs)) = running s" "path (snd (Edit s cs)) = path s" by auto
qed

text \<open>The loop over the changes is the sequence of assignments of the slot interface.\<close>

definition trimKeys :: "(string \<times> goany) list \<Rightarrow> (string \<times> goany) list" where
  "trimKeys cs = map (\<lambda>(k, v). (trimSpace k, v)) cs"

lemma previewLoop_putAll: "previewLoop c cs = cfg.putAll c (trimKeys cs)"
  by (induction c cs rule: previewLoop.induct) (auto simp: trimKeys_def intro: bindE_cong)

lemma trimKeys_slots: "map (keySlot \<circ> fst) (trimKeys cs) = map (\<lambda>(k, v). keySlot (trimSpace k)) cs"
  by (induction cs) (auto simp: trimKeys_def)

lemma previewLoop_unmanaged: "previewLoop c cs = Inr c' \<Longrightarrow> unmanaged c' = unmanaged c"
  by (induction c cs rule: previewLoop.induct) (auto dest: applyChange_unmanaged)

lemma previewLoop_QCIs:
  "previewLoop c cs = Inr c' \<Longrightarrow>
    QCI ` set (QCIProfiles c') = QCI ` set (QCIProfiles c) \<union> (\<Union>(k, v) \<in> set cs. keyQCI (trimSpace k))"
proof (induction c cs rule: previewLoop.induct)
  case (2 c k v cs)
  then obtain c1 where c1: "applyChange c (trimSpace k) v = Inr c1" "previewLoop c1 cs = Inr c'" by auto
  show ?case using "2.IH" [OF c1] applyChange_QCIs [OF c1(1)] by (simp add: Un_assoc)
qed simp

text \<open>Go iterates over the map of changes in any order. As long as no two keys name the same
  place, the order makes no difference to what an edit accepts or to any value after it.\<close>

lemma PreviewEdit_order:
  assumes "mset cs = mset cs'" "distinct (map (\<lambda>(k, v). keySlot (trimSpace k)) cs)" "PreviewEdit s cs = Inr c1"
  shows "\<exists>c2. PreviewEdit s cs' = Inr c2 \<and> slotValue c2 = slotValue c1"
proof -
  have p1: "previewLoop (cand s) cs = Inr c1" "valid c1" using assms(3) by (auto simp: PreviewEdit_def)
  have "mset (trimKeys cs) = mset (trimKeys cs')" using assms(1) by (simp add: trimKeys_def)
  moreover have "distinct (map (keySlot \<circ> fst) (trimKeys cs))"
    using assms(2) by (simp only: trimKeys_slots)
  ultimately obtain c2 where c2: "previewLoop (cand s) cs' = Inr c2" "slotValue c2 = slotValue c1"
    using cfg.putAll_order p1(1) unfolding previewLoop_putAll by blast
  have "set cs' = set cs" using assms(1) mset_eq_setD by metis
  then have "QCI ` set (QCIProfiles c2) = QCI ` set (QCIProfiles c1)"
    using previewLoop_QCIs [OF p1(1)] previewLoop_QCIs [OF c2(1)] by simp
  moreover have "leafValue c2 = leafValue c1" using c2(2) by (metis slotValue.simps(1) ext)
  ultimately have "valid c2" using validate_cong p1(2) by metis
  then show ?thesis using c2 by (simp add: PreviewEdit_def)
qed

text \<open>What an edit marks: each applied key, and the file it belongs to. A failed edit marks the
  keys it had applied.\<close>

definition marksOK :: "Store \<Rightarrow> bool" where
  "marksOK s \<longleftrightarrow> (\<forall>k \<in> set (dirtyKeys s). keySlot k \<noteq> None \<and> trimSpace k = k
     \<and> (\<forall>f. keyFile k = Some f \<longrightarrow> f \<in> dirty s))"

lemma editLoop_mono:
  "editLoop s nxt cs = (r, s') \<Longrightarrow> set (dirtyKeys s) \<subseteq> set (dirtyKeys s') \<and> dirty s \<subseteq> dirty s'"
proof (induction s nxt cs rule: editLoop.induct)
  case (2 s nxt k v cs)
  then show ?case
    by (cases "applyChange nxt (trimSpace k) v")
       (fastforce simp: Let_def markDirty_keyFile split: option.splits)+
qed simp

lemma editLoop_all:
  "editLoop s nxt cs = (Inr c', s') \<Longrightarrow> (k, v) \<in> set cs \<Longrightarrow> trimSpace k \<in> set (dirtyKeys s')"
proof (induction s nxt cs rule: editLoop.induct)
  case (2 s nxt k0 v0 cs)
  then obtain nxt' where nxt': "applyChange nxt (trimSpace k0) v0 = Inr nxt'"
    by (cases "applyChange nxt (trimSpace k0) v0") (auto simp: Let_def)
  note e = "2.prems"(1) [simplified editLoop.simps Let_def nxt' sum.case]
  show ?case
  proof (cases "(k, v) \<in> set cs")
    case True
    then show ?thesis using "2.IH" [OF refl nxt' _ True] e by simp
  next
    case False
    then have "k = k0" using "2.prems"(2) by simp
    then show ?thesis using editLoop_mono [OF e] by auto
  qed
qed simp

lemma editLoop_marksOK: "editLoop s nxt cs = (r, s') \<Longrightarrow> marksOK s \<Longrightarrow> marksOK s'"
proof (induction s nxt cs rule: editLoop.induct)
  case (2 s nxt k v cs)
  show ?case
  proof (cases "applyChange nxt (trimSpace k) v")
    case (Inr nxt')
    then have "keySlot (trimSpace k) \<noteq> None" by (auto elim: cfg.put_Inr_iff)
    then have "marksOK (s\<lparr>dirty := markDirtyLocked (trimSpace k) (dirty s),
        dirtyKeys := List.insert (trimSpace k) (dirtyKeys s)\<rparr>)"
      using "2.prems"(2) by (auto simp: marksOK_def markDirty_keyFile split: option.split)
    then show ?thesis using "2.IH" [OF refl Inr] "2.prems"(1) Inr by (simp add: Let_def)
  qed (use 2 in \<open>auto simp: Let_def\<close>)
qed simp

section \<open>The invariant of the store\<close>

text \<open>Both configurations are valid; whatever differs between them is among the dirty keys, and
  the file of every dirty key is marked.\<close>

definition storeInv :: "Store \<Rightarrow> bool" where
  "storeInv s \<longleftrightarrow> valid (running s) \<and> valid (cand s) \<and> marksOK s
     \<and> unmanaged (cand s) = unmanaged (running s)
     \<and> (\<forall>l. slotValue (cand s) l \<noteq> slotValue (running s) l \<longrightarrow> (\<exists>k \<in> set (dirtyKeys s). keySlot k = Some l))"

lemma ResetCandidate_inv: "storeInv s \<Longrightarrow> storeInv (ResetCandidate s)"
  by (simp add: storeInv_def ResetCandidate_def marksOK_def)

lemma FinalizeCommit_inv: "storeInv s \<Longrightarrow> storeInv (snd (FinalizeCommit s))"
  by (auto simp: storeInv_def FinalizeCommit_def marksOK_def split: sum.split)

lemma Edit_inv:
  assumes "storeInv s" shows "storeInv (snd (Edit s cs))"
proof (cases rule: Edit_cases [of s cs])
  case (reject e s1)
  note m = editLoop_mono [OF reject(3)] editLoop_marksOK [OF reject(3)] editLoop_frame [of s "cand s" cs]
  then show ?thesis using assms reject by (simp add: storeInv_def) blast
next
  case (accept nxt s1)
  note m = editLoop_mono [OF accept(4)] editLoop_marksOK [OF accept(4)] editLoop_frame [of s "cand s" cs]
  have "\<exists>k \<in> set (dirtyKeys s1). keySlot k = Some l" if diff: "slotValue nxt l \<noteq> slotValue (running s) l" for l
  proof (cases "slotValue (cand s) l = slotValue (running s) l")
    case True
    then obtain k v where "(k, v) \<in> set (trimKeys cs)" "keySlot k = Some l"
      using cfg.putAll_other [OF accept(3) [unfolded previewLoop_putAll], of l] diff by metis
    then show ?thesis using editLoop_all [OF accept(4)] by (auto simp: trimKeys_def)
  next
    case False
    then show ?thesis using assms m(1) unfolding storeInv_def by blast
  qed
  moreover have "unmanaged nxt = unmanaged (cand s)" using accept(3) by (rule previewLoop_unmanaged)
  moreover have "marksOK (s1\<lparr>cand := nxt\<rparr>)" using m(2) assms by (simp add: storeInv_def marksOK_def)
  ultimately show ?thesis using assms accept m by (auto simp: storeInv_def)
qed

text \<open>With no file marked, the candidate says what the running configuration says.\<close>

lemma not_pending:
  assumes "storeInv s" "\<not> HasPendingChanges s" shows "slotValue (cand s) = slotValue (running s)"
proof
  fix l show "slotValue (cand s) l = slotValue (running s) l"
  proof (rule ccontr)
    assume "slotValue (cand s) l \<noteq> slotValue (running s) l"
    then obtain k where k: "k \<in> set (dirtyKeys s)" "keySlot k = Some l" using assms by (auto simp: storeInv_def)
    then obtain f where "keyFile k = Some f" using keySlot_keyFile by blast
    then have "f \<in> dirty s" using assms k by (auto simp: storeInv_def marksOK_def)
    then show False using assms(2) by (cases f) (auto simp: HasPendingChanges_def)
  qed
qed

text \<open>The operations as a transition system.\<close>

inductive storeStep :: "Store \<Rightarrow> Store \<Rightarrow> bool" where
  edit: "storeStep s (snd (Edit s cs))"
| reset: "storeStep s (ResetCandidate s)"
| finalize: "storeStep s (snd (FinalizeCommit s))"

inductive storeReachable :: "Store \<Rightarrow> bool" where
  init: "valid cfg \<Longrightarrow> storeReachable \<lparr>running = cfg, cand = cfg, path = p, dirty = {}, dirtyKeys = []\<rparr>"
| step: "storeReachable s \<Longrightarrow> storeStep s s' \<Longrightarrow> storeReachable s'"

lemma NewStore_reachable: "NewStore p1 p2 p3 p4 fs = (Inr s, fs') \<Longrightarrow> storeReachable s"
  by (auto simp: NewStore_def liftIO_def Let_def intro: storeReachable.init)

inductive_cases storeStepE: "storeStep s s'"

lemma storeReachable_inv: "storeReachable s \<Longrightarrow> storeInv s"
proof (induction rule: storeReachable.induct)
  case (init cfg p) then show ?case by (simp add: storeInv_def marksOK_def)
next
  case (step s s') then show ?case
    by (auto elim!: storeStepE intro: Edit_inv ResetCandidate_inv FinalizeCommit_inv)
qed

section \<open>Writing the files\<close>

text \<open>The files of the store exist at four different paths.\<close>

definition pathsOK :: "Store \<Rightarrow> fs \<Rightarrow> bool" where
  "pathsOK st s \<longleftrightarrow> inj (path st) \<and> (\<forall>f. files s (path st f) \<noteq> None)"

definition contentOf :: "Store \<Rightarrow> fs \<Rightarrow> confFile \<Rightarrow> bytes" where
  "contentOf st s f = content (the (files s (path st f)))"

definition rendered :: "Store \<Rightarrow> fs \<Rightarrow> confFile \<Rightarrow> bytes result" where
  "rendered st s f = renderConfig f (Inr (contentOf st s f)) (cand st) (dirtyKeys st)"

lemma set_confFiles [simp]: "set confFiles = UNIV"
  by (auto simp: confFiles_def) (metis confFile.exhaust)

lemma distinct_confFiles [simp]: "distinct confFiles"
  by (simp add: confFiles_def)

lemma osReadFile_spec:
  "osReadFile p s = (r, s') \<Longrightarrow> touches {} s s' \<and> (\<forall>d. r = Inr d \<longrightarrow> (\<exists>n. files s p = Some n \<and> content n = d))"
  using touches_osReadFile [of "{}" s p]
  by (auto simp: osReadFile_def syscall_def tick_def split: option.splits)

lemma backupFiles_spec:
  "backupFiles st fl b s = (r, s') \<Longrightarrow> touches {} s s' \<and> (\<forall>b'. r = Inr b' \<longrightarrow>
     (\<forall>f. saved b' f = (if f \<in> set fl \<and> f \<in> dirty st then Some (contentOf st s f) else saved b f)))"
proof (induction st fl b s rule: backupFiles.induct)
  case (2 st f rest b s)
  show ?case
  proof (cases "f \<in> dirty st")
    case False
    then show ?thesis using 2 by auto
  next
    case True
    obtain r1 s1 where r1: "osReadFile (path st f) s = (r1, s1)" by (cases "osReadFile (path st f) s")
    note sp = osReadFile_spec [OF r1]
    show ?thesis
    proof (cases r1)
      case (Inl e)
      then show ?thesis using "2.prems" True r1 sp by (auto simp: bindIO_def)
    next
      case (Inr d)
      then have "backupFiles st rest \<lparr>saved = (saved b)(f \<mapsto> d), bDirty = True\<rparr> s1 = (r, s')"
        using "2.prems" True r1 by (simp add: bindIO_def)
      note ih = "2.IH"(2) [OF _ this]
      have "contentOf st s1 g = contentOf st s g" for g using sp by (simp add: contentOf_def touches_def)
      moreover have "d = contentOf st s f" using sp Inr by (auto simp: contentOf_def)
      ultimately show ?thesis using ih True sp touches_trans_same by auto
    qed
  qed
qed auto

lemma touches_cleanup: "(\<And>x. x \<in> set fs \<Longrightarrow> tmp x \<in> A) \<Longrightarrow> touches A s (snd (cleanupStagedFiles fs s))"
proof (induction fs arbitrary: s)
  case (Cons f fs)
  obtain r s1 where r: "osRemove (tmp f) s = (r, s1)" by (cases "osRemove (tmp f) s")
  have "touches A s s1" using touches_osRemove [of "tmp f" A s] Cons.prems r by simp
  moreover have "touches A s1 (snd (cleanupStagedFiles fs s1))" using Cons by simp
  ultimately show ?case using r by (auto split: prod.split sum.split intro: touches_trans_same)
qed simp

text \<open>What staging has achieved: every staged file is new, and holds the rendered content.\<close>

definition stagedOK :: "Store \<Rightarrow> fs \<Rightarrow> fs \<Rightarrow> stagedFile list \<Rightarrow> bool" where
  "stagedOK st s0 s staged \<longleftrightarrow> distinct (map tmp staged) \<and> (\<forall>x \<in> set staged. files s0 (tmp x) = None
     \<and> (\<exists>f \<in> dirty st. final x = path st f
          \<and> (\<exists>n. files s (tmp x) = Some n \<and> rendered st s0 f = Inr (content n))))"

lemma stageFile_spec:
  assumes "stageFile st f staged s = (r, s')" "f \<in> dirty st" "pathsOK st s0"
    and "keeps {} s0 s" "stagedOK st s0 s staged"
  shows "keeps {} s0 s'"
    "r = Inr staged' \<Longrightarrow> stagedOK st s0 s' staged' \<and> map final staged' = map final staged @ [path st f]"
proof -
  obtain r1 s1 where r1: "osReadFile (path st f) s = (r1, s1)" by (cases "osReadFile (path st f) s")
  note sp = osReadFile_spec [OF r1]
  have k1: "keeps {} s0 s1" using assms(4) sp touches_keeps [of "{}" s s1] keeps_trans by blast
  have fresh: "files s0 t = None" if "files s t = None" for t
    using that assms(4) by (auto simp: keeps_def)
  have cleanup: "keeps {} s0 (snd (cleanupStagedFiles staged s2))" if "keeps {} s0 s2" for s2
  proof -
    have t: "touches (tmp ` set staged) s2 (snd (cleanupStagedFiles staged s2))"
      by (rule touches_cleanup) simp
    show ?thesis
      using that t assms(5) unfolding keeps_def touches_def stagedOK_def
      by (metis (no_types, lifting) dual_order.trans imageE)
  qed
  have goal: "keeps {} s0 s' \<and> (r = Inr staged' \<longrightarrow> stagedOK st s0 s' staged'
      \<and> map final staged' = map final staged @ [path st f])"
  proof (cases "renderConfig f r1 (cand st) (dirtyKeys st)")
    case (Inl e)
    then have "r = Inl e" "s' = snd (cleanupStagedFiles staged s1)"
      using assms(1) r1 by (auto simp: stageFile_def onError_def bindIO_def)
    then show ?thesis using cleanup [OF k1] by simp
  next
    case (Inr data)
    then obtain d where d: "r1 = Inr d" by (cases r1; cases f)
        (auto simp: renderENBConfig_def renderRRConfig_def renderSIBConfig_def renderRBConfig_def)
    have "d = contentOf st s f" using sp d by (auto simp: contentOf_def)
    also have "\<dots> = contentOf st s0 f" using assms(3,4) by (simp add: contentOf_def pathsOK_def keeps_def)
    finally have data: "rendered st s0 f = Inr data" using Inr d by (simp add: rendered_def)
    obtain r2 s2 where w: "writeTempSibling (path st f) data s1 = (r2, s2)"
      by (cases "writeTempSibling (path st f) data s1")
    have k2: "keeps {} s0 s2" using k1 writeTempSibling_keeps [OF w] keeps_trans by blast
    show ?thesis
    proof (cases r2)
      case (Inl e)
      then have "r = Inl e" "s' = snd (cleanupStagedFiles staged s2)"
        using assms(1) r1 Inr w by (auto simp: stageFile_def onError_def bindIO_def)
      then show ?thesis using cleanup [OF k2] by simp
    next
      case t: (Inr t)
      then have rs: "r = Inr (staged @ [\<lparr>final = path st f, tmp = t\<rparr>])" "s' = s2"
        using assms(1) r1 Inr w by (auto simp: stageFile_def onError_def bindIO_def liftIO_def)
      note ok = writeTempSibling_ok [OF w [unfolded t]]
      have st1: "files s1 = files s" using sp by (auto simp: touches_def)
      have new: "files s0 t = None" using ok(1) st1 fresh by simp
      have "tmp x \<noteq> t" if "x \<in> set staged" for x
        using that assms(5) ok(1) st1 by (auto simp: stagedOK_def)
      moreover from this have "files s2 (tmp x) = files s (tmp x)" if "x \<in> set staged" for x
        using that ok(2) st1 by (auto simp: touches_def)
      ultimately have "stagedOK st s0 s2 (staged @ [\<lparr>final = path st f, tmp = t\<rparr>])"
        using assms(2,5) new ok(3) data unfolding stagedOK_def by auto
      then show ?thesis using rs k2 by auto
    qed
  qed
  show "keeps {} s0 s'" using goal by blast
  show "r = Inr staged' \<Longrightarrow> stagedOK st s0 s' staged' \<and> map final staged' = map final staged @ [path st f]"
    using goal by blast
qed

lemma stageFiles_spec:
  "stageFiles st fl staged s = (r, s') \<Longrightarrow> pathsOK st s0 \<Longrightarrow> keeps {} s0 s \<Longrightarrow> stagedOK st s0 s staged \<Longrightarrow>
    keeps {} s0 s' \<and> (\<forall>staged'. r = Inr staged' \<longrightarrow> stagedOK st s0 s' staged'
      \<and> map final staged' = map final staged @ map (path st) (filter (\<lambda>f. f \<in> dirty st) fl))"
proof (induction st fl staged s rule: stageFiles.induct)
  case (2 st f rest staged s)
  show ?case
  proof (cases "f \<in> dirty st")
    case True
    obtain r1 s1 where r1: "stageFile st f staged s = (r1, s1)" by (cases "stageFile st f staged s")
    note sp = stageFile_spec [OF r1 True "2.prems"(2,3,4)]
    show ?thesis
    proof (cases r1)
      case (Inl e)
      then show ?thesis using "2.prems"(1) True r1 sp by (auto simp: bindIO_def)
    next
      case (Inr st1)
      then have "stageFiles st rest st1 s1 = (r, s')" using "2.prems"(1) True r1 by (simp add: bindIO_def)
      then show ?thesis using "2.IH"(2) [OF _ _ "2.prems"(2) sp(1)] sp(2) [OF Inr] True by auto
    qed
  qed (use 2 in auto)
qed auto

text \<open>The renames of a commit. Each file of the list ends up as it was or as staged; nothing else
  changes; if all renames succeed, all are staged; one that fails does so by a fault.\<close>

lemma commitLoop_spec:
  assumes "commitLoop applied staged s = (r, s')"
    and "distinct (map tmp staged)" "distinct (map final staged)" "tmp ` set staged \<inter> final ` set staged = {}"
    and "\<And>x. x \<in> set staged \<Longrightarrow> files s (tmp x) \<noteq> None"
    and "tmp ` set applied \<inter> (tmp ` set staged \<union> final ` set staged) = {}"
  shows "touches (tmp ` set applied \<union> tmp ` set staged \<union> final ` set staged) s s'
    \<and> (\<forall>x \<in> set staged. files s' (final x) = files s (final x) \<or> files s' (final x) = files s (tmp x))
    \<and> (r = Inr () \<longrightarrow> (\<forall>x \<in> set staged. files s' (final x) = files s (tmp x)))
    \<and> (\<forall>e. r = Inl e \<longrightarrow> faulted s s')"
  using assms
proof (induction applied staged s rule: commitLoop.induct)
  case (2 applied x xs s)
  obtain r1 s1 where rn: "renameAtomic (tmp x) (final x) s = (r1, s1)"
    by (cases "renameAtomic (tmp x) (final x) s")
  have len: "files s (tmp x) \<noteq> None" using "2.prems"(5) by simp
  show ?case
  proof (cases r1)
    case (Inl e)
    note err = renameAtomic_err [OF rn [unfolded Inl]]
    define s2 where "s2 = fold (\<lambda>a s. snd (osRemove (tmp a) s)) applied s1"
    have res: "r = Inl e" "s' = s2" using "2.prems"(1) rn Inl by (auto simp: s2_def)
    have t: "touches (tmp ` set applied) s1 s2"
      unfolding s2_def
    proof (induction applied arbitrary: s1)
      case (Cons a as)
      have "touches (tmp ` set (a # as)) s1 (snd (osRemove (tmp a) s1))" by (rule touches_osRemove) simp
      moreover have "touches (tmp ` set (a # as)) (snd (osRemove (tmp a) s1))
          (fold (\<lambda>a s. snd (osRemove (tmp a) s)) as (snd (osRemove (tmp a) s1)))"
        using Cons.IH by (rule touches_mono) auto
      ultimately show ?case using touches_trans_same by simp
    qed simp
    have tt: "touches (tmp ` set applied) s s2"
      using touches_mono [OF err(4)] t touches_trans_same by blast
    moreover have "faulted s s2" using err(3) [OF len] t by (auto simp: faulted_def touches_def)
    moreover have "files s2 (final y) = files s (final y)" if "y \<in> set (x # xs)" for y
    proof -
      have "final y \<notin> tmp ` set applied" using that "2.prems"(6) by blast
      then show ?thesis using tt by (simp add: touches_def)
    qed
    moreover have "touches (tmp ` set applied \<union> tmp ` set (x # xs) \<union> final ` set (x # xs)) s s2"
      using tt by (rule touches_mono) auto
    ultimately show ?thesis using res by auto
  next
    case (Inr u)
    obtain n where n: "files s (tmp x) = Some n" "files s1 = (files s)(tmp x := None, final x \<mapsto> n)"
      using renameAtomic_ok [OF rn [unfolded Inr]] by blast
    have t1: "touches {tmp x, final x} s s1" using touches_renameAtomic [of "tmp x" "{tmp x, final x}" "final x" s] rn by simp
    have rec: "commitLoop (x # applied) xs s1 = (r, s')" using "2.prems"(1) rn Inr by simp
    have other: "files s1 (tmp y) = files s (tmp y)" "files s1 (final y) = files s (final y)"
      "final y \<noteq> tmp x" "final y \<noteq> final x" "tmp y \<noteq> tmp x" if "y \<in> set xs" for y
      using that "2.prems"(2,3,4) n(2) by (auto simp: rev_image_eqI)
    have ih: "touches (tmp ` set (x # applied) \<union> tmp ` set xs \<union> final ` set xs) s1 s'
      \<and> (\<forall>x \<in> set xs. files s' (final x) = files s1 (final x) \<or> files s' (final x) = files s1 (tmp x))
      \<and> (r = Inr () \<longrightarrow> (\<forall>x \<in> set xs. files s' (final x) = files s1 (tmp x)))
      \<and> (\<forall>e. r = Inl e \<longrightarrow> faulted s1 s')"
    proof (rule "2.IH" [OF rn [symmetric] Inr rec])
      show "distinct (map tmp xs)" "distinct (map final xs)" "tmp ` set xs \<inter> final ` set xs = {}"
        using "2.prems"(2,3,4) by auto
      show "files s1 (tmp y) \<noteq> None" if "y \<in> set xs" for y using other(1) [OF that] "2.prems"(5) that by simp
      show "tmp ` set (x # applied) \<inter> (tmp ` set xs \<union> final ` set xs) = {}"
        using "2.prems"(2,4,6) by auto
    qed
    have fx: "files s' (final x) = files s (tmp x)"
    proof -
      have "final x \<notin> tmp ` set (x # applied) \<union> tmp ` set xs \<union> final ` set xs"
        using "2.prems"(3,4,6) by auto
      then show ?thesis using ih n by (auto simp: touches_def)
    qed
    have cl: "clock s \<le> clock s1" "faults s1 = faults s" using t1 by (auto simp: touches_def)
    have "touches (tmp ` set applied \<union> tmp ` set (x # xs) \<union> final ` set (x # xs)) s s'"
      using touches_trans [OF t1 conjunct1 [OF ih]] by (rule touches_mono) auto
    moreover have "\<forall>e. r = Inl e \<longrightarrow> faulted s s'"
      using ih cl unfolding faulted_def by (metis le_trans)
    ultimately show ?thesis using ih fx other by auto
  qed
qed auto

text \<open>Restoring: every file keeps its content or gets the saved one; without faults, all get the
  saved one.\<close>

lemma restoreFiles_spec:
  assumes "restoreFiles st fl b s = (r, s')" "pathsOK st s"
  shows "keeps (path st ` (dirty st \<inter> dom (saved b))) s s' \<and> pathsOK st s'
    \<and> (\<forall>f. contentOf st s' f = contentOf st s f \<or> f \<in> dirty st \<and> saved b f = Some (contentOf st s' f))"
  using assms
proof (induction st fl b s rule: restoreFiles.induct)
  case (2 st f rest b s)
  show ?case
  proof (cases "saved b f \<noteq> None \<and> f \<in> dirty st")
    case True
    then obtain d where d: "saved b f = Some d" and f: "f \<in> dirty st" by auto
    obtain r1 s1 where w: "atomicWrite (path st f) d s = (r1, s1)" by (cases "atomicWrite (path st f) d s")
    have ex: "files s (path st f) \<noteq> None" using "2.prems"(2) by (simp add: pathsOK_def)
    note sp = atomicWrite_spec [OF w ex]
    have ok1: "pathsOK st s1"
      unfolding pathsOK_def
    proof (intro conjI allI)
      show "inj (path st)" using "2.prems"(2) by (simp add: pathsOK_def)
      fix g show "files s1 (path st g) \<noteq> None"
        using sp ex "2.prems"(2) by (cases "path st g = path st f"; cases r1) (auto simp: keeps_def pathsOK_def)
    qed
    have c1: "contentOf st s1 g = contentOf st s g \<or> g \<in> dirty st \<and> saved b g = Some (contentOf st s1 g)" for g
    proof (cases "g = f")
      case True
      then show ?thesis using sp(2) d f by (cases r1) (auto simp: contentOf_def)
    next
      case False
      then have "path st g \<noteq> path st f" using "2.prems"(2) by (auto simp: pathsOK_def inj_def)
      then show ?thesis using sp(1) "2.prems"(2) by (auto simp: contentOf_def keeps_def pathsOK_def)
    qed
    have k1: "keeps (path st ` (dirty st \<inter> dom (saved b))) s s1" using sp(1) f d by (auto intro: keeps_mono)
    show ?thesis
    proof (cases r1)
      case (Inl e)
      then show ?thesis using "2.prems"(1) d f w k1 ok1 c1 by (auto simp: bindIO_def)
    next
      case (Inr u)
      then have "restoreFiles st rest b s1 = (r, s')" using "2.prems"(1) d f w by (simp add: bindIO_def)
      note ih = "2.IH"(2) [OF d f this ok1]
      then show ?thesis using k1 c1 keeps_trans by metis
    qed
  next
    case False
    then show ?thesis using 2 by (auto split: option.splits)
  qed
qed auto

lemma restoreFiles_spent:
  assumes "spent s" "tempNames s" "pathsOK st s" "distinct fl"
  shows "\<exists>s'. restoreFiles st fl b s = (Inr (), s') \<and> pathsOK st s'
    \<and> (\<forall>f. contentOf st s' f = (case saved b f of Some d \<Rightarrow> if f \<in> set fl \<and> f \<in> dirty st then d else contentOf st s f
         | None \<Rightarrow> contentOf st s f))"
  using assms
proof (induction fl arbitrary: s)
  case (Cons f rest)
  show ?case
  proof (cases "saved b f \<noteq> None \<and> f \<in> dirty st")
    case True
    then obtain d where d: "saved b f = Some d" and f: "f \<in> dirty st" by auto
    have ex: "files s (path st f) \<noteq> None" using Cons.prems(3) by (simp add: pathsOK_def)
    obtain s1 where w: "atomicWrite (path st f) d s = (Inr (), s1)" "spent s1" "tempNames s1"
      using atomicWrite_spent [OF Cons.prems(1,2) ex] by blast
    note sp = atomicWrite_spec [OF w(1) ex]
    have neq: "path st g \<noteq> path st f" if "g \<noteq> f" for g using that Cons.prems(3) by (auto simp: pathsOK_def inj_def)
    have same: "files s1 (path st g) = files s (path st g)" if "g \<noteq> f" for g
      using sp(1) neq [OF that] Cons.prems(3) by (simp add: keeps_def pathsOK_def)
    have ok1: "pathsOK st s1"
      using Cons.prems(3) sp(2) same by (auto simp: pathsOK_def) (metis option.distinct(1))
    have c1: "contentOf st s1 g = (if g = f then d else contentOf st s g)" for g
      using sp(2) same by (auto simp: contentOf_def)
    obtain s' where s': "restoreFiles st rest b s1 = (Inr (), s')" "pathsOK st s'"
      "\<And>g. contentOf st s' g = (case saved b g of Some d \<Rightarrow> if g \<in> set rest \<and> g \<in> dirty st then d else contentOf st s1 g
         | None \<Rightarrow> contentOf st s1 g)"
      using Cons.IH [OF w(2,3) ok1] Cons.prems(4) by auto
    have "restoreFiles st (f # rest) b s = (Inr (), s')" using d f w s' by (simp add: bindIO_def)
    then show ?thesis using s'(2,3) c1 d f by (auto split: option.split)
  next
    case False
    then obtain s' where "restoreFiles st rest b s = (Inr (), s')" "pathsOK st s'"
      "\<And>g. contentOf st s' g = (case saved b g of Some d \<Rightarrow> if g \<in> set rest \<and> g \<in> dirty st then d else contentOf st s g
         | None \<Rightarrow> contentOf st s g)"
      using Cons by auto
    moreover have "restoreFiles st (f # rest) b s = restoreFiles st rest b s" using False by (auto split: option.split)
    ultimately show ?thesis using False by (auto split: option.split)
  qed
qed (auto split: option.split)

text \<open>Every operation keeps the supply of temporary names.\<close>

lemma tempNames_osRemove: "tempNames s \<Longrightarrow> tempNames (snd (osRemove p s))"
  by (auto simp: tempNames_def osRemove_def syscall_def tick_def split: option.split)

lemma tempNames_cleanup: "tempNames s \<Longrightarrow> tempNames (snd (cleanupStagedFiles fs s))"
proof (induction fs arbitrary: s)
  case (Cons f fs)
  obtain r s1 where r: "osRemove (tmp f) s = (r, s1)" by (cases "osRemove (tmp f) s")
  have "tempNames s1" using tempNames_osRemove [OF Cons.prems, of "tmp f"] r by simp
  then have "tempNames (snd (cleanupStagedFiles fs s1))" by (rule Cons.IH)
  then show ?case using r by (auto split: prod.split sum.split)
qed simp

lemma tempNames_same: "tempNames s \<Longrightarrow> touches {} s s' \<Longrightarrow> tempNames s'"
  by (erule (1) tempNames_touches) simp

lemma tempNames_writeTemp: "writeTempSibling p d s = (r, s') \<Longrightarrow> tempNames s \<Longrightarrow> tempNames s'"
proof (cases r)
  case (Inl e)
  assume w: "writeTempSibling p d s = (r, s')" and t: "tempNames s"
  obtain A where A: "touches A s s'" "\<And>p. p \<in> A \<Longrightarrow> \<exists>d. \<exists>n < drawn s'. p = tempName d (rnd s n)"
    using writeTempSibling_err [OF w [unfolded Inl]] by blast
  show ?thesis using A(2) by (intro tempNames_touches [OF t A(1)]) auto
next
  case (Inr t)
  assume w: "writeTempSibling p d s = (r, s')" and tn: "tempNames s"
  note ok = writeTempSibling_ok [OF w [unfolded Inr]]
  show ?thesis using ok(4) by (intro tempNames_touches [OF tn ok(2)]) auto
qed

lemma tempNames_stageFile: "stageFile st f staged s = (r, s') \<Longrightarrow> tempNames s \<Longrightarrow> tempNames s'"
proof -
  assume a: "stageFile st f staged s = (r, s')" and t: "tempNames s"
  obtain r1 s1 where r1: "osReadFile (path st f) s = (r1, s1)" by (cases "osReadFile (path st f) s")
  have t1: "tempNames s1" using osReadFile_spec [OF r1] t tempNames_same by blast
  show ?thesis
  proof (cases "renderConfig f r1 (cand st) (dirtyKeys st)")
    case (Inl e)
    then show ?thesis using a r1 tempNames_cleanup [OF t1] by (auto simp: stageFile_def onError_def bindIO_def)
  next
    case (Inr data)
    obtain r2 s2 where w: "writeTempSibling (path st f) data s1 = (r2, s2)"
      by (cases "writeTempSibling (path st f) data s1")
    have "tempNames s2" using tempNames_writeTemp [OF w t1] .
    then show ?thesis
      using a r1 Inr w tempNames_cleanup
      by (cases r2) (auto simp: stageFile_def onError_def bindIO_def liftIO_def)
  qed
qed

lemma tempNames_stageFiles: "stageFiles st fl staged s = (r, s') \<Longrightarrow> tempNames s \<Longrightarrow> tempNames s'"
proof (induction st fl staged s rule: stageFiles.induct)
  case (2 st f rest staged s)
  show ?case
  proof (cases "f \<in> dirty st")
    case True
    obtain r1 s1 where r1: "stageFile st f staged s = (r1, s1)" by (cases "stageFile st f staged s")
    have "tempNames s1" using tempNames_stageFile [OF r1 "2.prems"(2)] .
    then show ?thesis using "2.IH"(2) [OF _ _ ] "2.prems"(1) True r1 by (cases r1) (auto simp: bindIO_def)
  qed (use 2 in auto)
qed simp

lemma tempNames_commitLoop:
  "commitLoop applied staged s = (r, s') \<Longrightarrow> tempNames s \<Longrightarrow> (\<And>x. x \<in> set staged \<Longrightarrow> files s (final x) \<noteq> None)
    \<Longrightarrow> tmp ` set staged \<inter> final ` set staged = {} \<Longrightarrow> tempNames s'"
proof (induction applied staged s rule: commitLoop.induct)
  case (2 applied x xs s)
  obtain r1 s1 where rn: "renameAtomic (tmp x) (final x) s = (r1, s1)"
    by (cases "renameAtomic (tmp x) (final x) s")
  show ?case
  proof (cases r1)
    case (Inl e)
    have "tempNames s1" using renameAtomic_err(4) [OF rn [unfolded Inl]] "2.prems"(2) tempNames_same by blast
    then have "tempNames (fold (\<lambda>a s. snd (osRemove (tmp a) s)) applied s1)"
      by (induction applied arbitrary: s1) (auto intro: tempNames_osRemove)
    then show ?thesis using "2.prems"(1) rn Inl by auto
  next
    case (Inr u)
    have t1: "touches {tmp x, final x} s s1" using touches_renameAtomic [of "tmp x" "{tmp x, final x}" "final x" s] rn by simp
    obtain n where n: "files s (tmp x) = Some n" "files s1 = (files s)(tmp x := None, final x \<mapsto> n)"
      using renameAtomic_ok [OF rn [unfolded Inr]] by blast
    have "tempNames s1" using n(1) "2.prems"(3) [of x] by (intro tempNames_touches [OF "2.prems"(2) t1]) auto
    moreover have "files s1 (final y) \<noteq> None" if "y \<in> set xs" for y
    proof -
      have "final y \<in> final ` set (x # xs)" "tmp x \<in> tmp ` set (x # xs)" using that by auto
      then have "final y \<noteq> tmp x" using "2.prems"(4) by (metis IntI emptyE)
      then show ?thesis using "2.prems"(3) [of y] that n(2) by auto
    qed
    ultimately show ?thesis
      using "2.IH" [OF rn [symmetric] Inr] "2.prems"(1,4) rn Inr by auto
  qed
qed simp

section \<open>The commit\<close>

definition singleFault :: "fs \<Rightarrow> bool" where
  "singleFault s \<longleftrightarrow> (\<forall>j k. faults s j \<noteq> None \<longrightarrow> faults s k \<noteq> None \<longrightarrow> j = k)"

lemma single_spent: "singleFault s \<Longrightarrow> faulted s s' \<Longrightarrow> faults s' = faults s \<Longrightarrow> spent s'"
  unfolding singleFault_def faulted_def spent_def by (metis not_le)

lemma persist_cases:
  assumes "PersistCandidate st s = (r, s')"
  obtains (invalid) e where "r = Inl e" "s' = s"
  | (backup) e where "backupDirtyFilesLocked st s = (Inl e, s')" "r = Inl e"
  | (stage) b s1 e s2 where "backupDirtyFilesLocked st s = (Inr b, s1)" "stageDirtyFilesLocked st s1 = (Inl e, s2)"
      "r = Inl e" "s' = snd (restoreDirtyFilesLocked st b s2)"
  | (rename) b s1 staged s2 e s3 where "backupDirtyFilesLocked st s = (Inr b, s1)"
      "stageDirtyFilesLocked st s1 = (Inr staged, s2)" "commitStagedFiles staged s2 = (Inl e, s3)"
      "r = Inl e" "s' = snd (restoreDirtyFilesLocked st b (snd (cleanupStagedFiles staged s3)))"
  | (success) b s1 staged s2 where "valid (cand st)" "backupDirtyFilesLocked st s = (Inr b, s1)"
      "stageDirtyFilesLocked st s1 = (Inr staged, s2)" "commitStagedFiles staged s2 = (Inr (), s')"
      "r = Inr (b, cand st)"
proof -
  obtain r1 s1 where 1: "backupDirtyFilesLocked st s = (r1, s1)" by fastforce
  obtain r2 s2 where 2: "stageDirtyFilesLocked st s1 = (r2, s2)" by fastforce
  show ?thesis
  proof (cases "validate (cand st)")
    case (Inl e)
    then show ?thesis using assms invalid by (auto simp: PersistCandidate_def)
  next
    case v: (Inr u)
    show ?thesis
    proof (cases r1)
      case (Inl e)
      then show ?thesis using assms v 1 backup by (simp add: PersistCandidate_def)
    next
      case b: (Inr b)
      show ?thesis
      proof (cases r2)
        case (Inl e)
        then show ?thesis using assms v 1 b 2 stage by (simp add: PersistCandidate_def)
      next
        case st: (Inr staged)
        obtain r3 s3 where "commitStagedFiles staged s2 = (r3, s3)" by fastforce
        then show ?thesis
          using assms v 1 b 2 st rename success by (cases r3) (simp_all add: PersistCandidate_def)
      qed
    qed
  qed
qed

lemma stagedOK_Nil [simp]: "stagedOK st s0 s []"
  by (simp add: stagedOK_def)

text \<open>What the staged files are before the renames.\<close>

lemma staged_ready:
  assumes "pathsOK st s" "backupDirtyFilesLocked st s = (Inr b, s1)"
    and "stageDirtyFilesLocked st s1 = (Inr staged, s2)"
  shows "keeps {} s s2" "stagedOK st s s2 staged" "distinct (map final staged)"
    "final ` set staged = path st ` dirty st" "tmp ` set staged \<inter> final ` set staged = {}"
    "tmp ` set staged \<inter> range (path st) = {}"
proof -
  have t: "touches {} s s1" using backupFiles_spec [OF assms(2) [unfolded backupDirtyFilesLocked_def]] by simp
  have k: "keeps {} s s1" using t by (rule touches_keeps) simp
  note sp = stageFiles_spec [OF assms(3) [unfolded stageDirtyFilesLocked_def] assms(1) k]
  then show "keeps {} s s2" "stagedOK st s s2 staged" by auto
  have fin: "map final staged = map (path st) (filter (\<lambda>f. f \<in> dirty st) confFiles)" using sp by auto
  have inj: "inj (path st)" using assms(1) by (simp add: pathsOK_def)
  show "distinct (map final staged)"
    unfolding fin using inj by (simp add: distinct_map inj_on_subset [OF inj subset_UNIV])
  have "set (map final staged) = path st ` dirty st" unfolding fin by auto
  then show eq: "final ` set staged = path st ` dirty st" by simp
  show tr: "tmp ` set staged \<inter> range (path st) = {}"
  proof (rule ccontr)
    assume "tmp ` set staged \<inter> range (path st) \<noteq> {}"
    then obtain x f where "x \<in> set staged" "tmp x = path st f" by auto
    moreover have "files s (tmp x) = None" using \<open>stagedOK st s s2 staged\<close> \<open>x \<in> set staged\<close> by (simp add: stagedOK_def)
    ultimately show False using assms(1) unfolding pathsOK_def by metis
  qed
  show "tmp ` set staged \<inter> final ` set staged = {}" using tr eq by auto
qed

lemma pathsOK_keeps: "pathsOK st s \<Longrightarrow> keeps {} s s' \<Longrightarrow> pathsOK st s'"
  by (auto simp: pathsOK_def keeps_def)

lemma contentOf_keeps: "pathsOK st s \<Longrightarrow> keeps P s s' \<Longrightarrow> path st f \<notin> P \<Longrightarrow> contentOf st s' f = contentOf st s f"
  by (auto simp: pathsOK_def keeps_def contentOf_def)

text \<open>The state after the renames, whether they succeeded or not.\<close>

lemma renamed_spec:
  assumes "pathsOK st s" "backupDirtyFilesLocked st s = (Inr b, s1)"
    and "stageDirtyFilesLocked st s1 = (Inr staged, s2)" "commitStagedFiles staged s2 = (r, s3)"
  shows "keeps (path st ` dirty st) s s3" "pathsOK st s3"
    "contentOf st s3 f = contentOf st s f \<or> f \<in> dirty st \<and> rendered st s f = Inr (contentOf st s3 f)"
    "r = Inr () \<Longrightarrow> f \<in> dirty st \<Longrightarrow> rendered st s f = Inr (contentOf st s3 f)"
    "r = Inl e \<Longrightarrow> faulted s s3"
proof -
  note rd = staged_ready [OF assms(1-3)]
  have ex: "files s2 (tmp x) \<noteq> None" if "x \<in> set staged" for x using rd(2) that by (auto simp: stagedOK_def)
  have c: "touches (tmp ` set staged \<union> final ` set staged) s2 s3
      \<and> (\<forall>x \<in> set staged. files s3 (final x) = files s2 (final x) \<or> files s3 (final x) = files s2 (tmp x))
      \<and> (r = Inr () \<longrightarrow> (\<forall>x \<in> set staged. files s3 (final x) = files s2 (tmp x)))
      \<and> (\<forall>e. r = Inl e \<longrightarrow> faulted s2 s3)"
    using commitLoop_spec [OF assms(4) [unfolded commitStagedFiles_def] _ rd(3,5) ex] rd(2)
    by (auto simp: stagedOK_def)
  have t: "touches (tmp ` set staged \<union> path st ` dirty st) s2 s3" using c rd(4) by simp
  show k: "keeps (path st ` dirty st) s s3"
    using rd(1,2) t unfolding keeps_def touches_def stagedOK_def
    by (metis (no_types, lifting) UnE dual_order.trans empty_iff imageE)
  have node: "files s3 (path st f) = files s (path st f)
      \<or> f \<in> dirty st \<and> (\<exists>n. files s3 (path st f) = Some n \<and> rendered st s f = Inr (content n))" for f
  proof (cases "f \<in> dirty st")
    case True
    then obtain x where x: "x \<in> set staged" "final x = path st f" using rd(4) by (metis imageE imageI)
    then obtain g n where g: "path st g = path st f" "files s2 (tmp x) = Some n" "rendered st s g = Inr (content n)"
      using rd(2) by (auto simp: stagedOK_def)
    then have "g = f" using assms(1) by (auto simp: pathsOK_def inj_def)
    moreover have "files s2 (path st f) = files s (path st f)"
      using rd(1) assms(1) by (auto simp: keeps_def pathsOK_def)
    ultimately show ?thesis using c x g True by auto
  next
    case False
    then have "path st f \<notin> path st ` dirty st" using assms(1) by (auto simp: pathsOK_def inj_def)
    then show ?thesis using k assms(1) by (auto simp: keeps_def pathsOK_def)
  qed
  then show "pathsOK st s3" using assms(1) unfolding pathsOK_def by (metis option.distinct(1))
  show "contentOf st s3 f = contentOf st s f \<or> f \<in> dirty st \<and> rendered st s f = Inr (contentOf st s3 f)"
    using node [of f] by (auto simp: contentOf_def)
  show "rendered st s f = Inr (contentOf st s3 f)" if r: "r = Inr ()" "f \<in> dirty st"
  proof -
    obtain x where x: "x \<in> set staged" "final x = path st f" using rd(4) r(2) by (metis imageE imageI)
    then obtain g n where g: "path st g = path st f" "files s2 (tmp x) = Some n" "rendered st s g = Inr (content n)"
      using rd(2) by (auto simp: stagedOK_def)
    then have "g = f" using assms(1) by (auto simp: pathsOK_def inj_def)
    moreover have "files s3 (path st f) = Some n" using c r(1) x g by auto
    ultimately show ?thesis using g by (simp add: contentOf_def)
  qed
  show "faulted s s3" if "r = Inl e"
  proof -
    have "faulted s2 s3" using c that by blast
    then show ?thesis using rd(1) unfolding faulted_def keeps_def by (metis le_trans)
  qed
qed

lemma backup_spec:
  assumes "backupDirtyFilesLocked st s = (Inr b, s1)"
  shows "touches {} s s1" "saved b f = (if f \<in> dirty st then Some (contentOf st s f) else None)"
  using backupFiles_spec [OF assms [unfolded backupDirtyFilesLocked_def]] by auto

lemma cleanup_keeps:
  assumes "stagedOK st s s2 staged" "keeps P s s3"
  shows "keeps P s (snd (cleanupStagedFiles staged s3))"
proof -
  have t: "touches (tmp ` set staged) s3 (snd (cleanupStagedFiles staged s3))" by (rule touches_cleanup) simp
  show ?thesis
    using assms t unfolding keeps_def touches_def stagedOK_def
    by (metis (no_types, lifting) dual_order.trans imageE)
qed

lemma restore_after:
  assumes "pathsOK st s" "backupDirtyFilesLocked st s = (Inr b, s1)" "pathsOK st s4" "keeps (path st ` dirty st) s s4"
    and "\<And>f. contentOf st s4 f = contentOf st s f \<or> f \<in> dirty st \<and> rendered st s f = Inr (contentOf st s4 f)"
  defines "s' \<equiv> snd (restoreDirtyFilesLocked st b s4)"
  shows "keeps (path st ` dirty st) s s'"
    "contentOf st s' f = contentOf st s f \<or> f \<in> dirty st \<and> rendered st s f = Inr (contentOf st s' f)"
    "(\<And>f. contentOf st s4 f = contentOf st s f) \<Longrightarrow> contentOf st s' f = contentOf st s f"
    "spent s4 \<Longrightarrow> tempNames s4 \<Longrightarrow> contentOf st s' f = contentOf st s f"
proof -
  obtain r where r: "restoreFiles st confFiles b s4 = (r, s')"
    unfolding s'_def restoreDirtyFilesLocked_def by (metis prod.collapse)
  note sp = restoreFiles_spec [OF r assms(3)] and bk = backup_spec(2) [OF assms(2)]
  have "keeps (path st ` dirty st) s4 s'" using sp by (auto intro: keeps_mono)
  then show "keeps (path st ` dirty st) s s'" using assms(4) keeps_trans by blast
  show "contentOf st s' f = contentOf st s f \<or> f \<in> dirty st \<and> rendered st s f = Inr (contentOf st s' f)"
    using sp bk [of f] assms(5) [of f] by (metis option.inject)
  show "contentOf st s' f = contentOf st s f" if "\<And>f. contentOf st s4 f = contentOf st s f"
    using sp bk [of f] that [of f] by (metis option.inject)
  show "contentOf st s' f = contentOf st s f" if "spent s4" "tempNames s4"
    using restoreFiles_spent [OF that assms(3) distinct_confFiles, of b] r bk [of f] assms(5) [of f]
    by (auto split: if_splits)
qed

text \<open>The outcome of \<^verbatim>\<open>PersistCandidate\<close> for the files.\<close>

lemma persist_contents:
  assumes "PersistCandidate st s = (r, s')" "pathsOK st s"
  shows "keeps (path st ` dirty st) s s'"
    "contentOf st s' f = contentOf st s f \<or> f \<in> dirty st \<and> rendered st s f = Inr (contentOf st s' f)"
    "r = Inl e \<Longrightarrow> singleFault s \<Longrightarrow> tempNames s \<Longrightarrow> contentOf st s' f = contentOf st s f"
proof -
  have "keeps (path st ` dirty st) s s'
    \<and> (contentOf st s' f = contentOf st s f \<or> f \<in> dirty st \<and> rendered st s f = Inr (contentOf st s' f))
    \<and> (r = Inl e \<longrightarrow> singleFault s \<longrightarrow> tempNames s \<longrightarrow> contentOf st s' f = contentOf st s f)"
    using assms(1)
  proof (cases rule: persist_cases)
    case (backup e')
    have "touches {} s s'"
      using backupFiles_spec [OF backup(1) [unfolded backupDirtyFilesLocked_def]] by simp
    then show ?thesis by (auto simp: contentOf_def touches_def keeps_def)
  next
    case (stage b s1 e' s2)
    have k1: "keeps {} s s1" using backup_spec(1) [OF stage(1)] by (rule touches_keeps) simp
    have k2: "keeps {} s s2"
      using stageFiles_spec [OF stage(2) [unfolded stageDirtyFilesLocked_def] assms(2) k1] by simp
    have c: "contentOf st s2 g = contentOf st s g" for g using contentOf_keeps [OF assms(2) k2] by simp
    note ra = restore_after [OF assms(2) stage(1) pathsOK_keeps [OF assms(2) k2] keeps_mono [OF k2]]
    show ?thesis using ra(1,3) c stage(4) by simp
  next
    case (rename b s1 staged s2 e' s3)
    note rs = renamed_spec [OF assms(2) rename(1-3)] and rd = staged_ready [OF assms(2) rename(1,2)]
    define s4 where "s4 = snd (cleanupStagedFiles staged s3)"
    have k4: "keeps (path st ` dirty st) s s4" using cleanup_keeps [OF rd(2) rs(1)] by (simp add: s4_def)
    have t4: "touches (tmp ` set staged) s3 s4" unfolding s4_def by (rule touches_cleanup) simp
    have same: "files s4 (path st g) = files s3 (path st g)" for g
      using t4 rd(6) unfolding touches_def by (metis disjoint_iff rangeI)
    have ok4: "pathsOK st s4" using rs(2) same by (simp add: pathsOK_def)
    have c4: "contentOf st s4 g = contentOf st s3 g" for g using same by (simp add: contentOf_def)
    have "spent s4" if "singleFault s"
    proof -
      have "spent s3" using single_spent [OF that rs(5) [OF refl]] rs(1) by (simp add: keeps_def)
      then show ?thesis using t4 by (auto simp: spent_def touches_def)
    qed
    moreover have "tempNames s4" if "tempNames s"
    proof -
      have "tempNames s1" using that backup_spec(1) [OF rename(1)] by (rule tempNames_same)
      then have "tempNames s2" using tempNames_stageFiles [OF rename(2) [unfolded stageDirtyFilesLocked_def]] by blast
      moreover have "files s2 (final x) \<noteq> None" if "x \<in> set staged" for x
      proof -
        have "final x \<in> path st ` dirty st" using rd(4) imageI [OF that, of final] by simp
        then obtain g where "final x = path st g" by auto
        then show ?thesis using pathsOK_keeps [OF assms(2) rd(1)] by (simp add: pathsOK_def)
      qed
      ultimately have "tempNames s3"
        using tempNames_commitLoop [OF rename(3) [unfolded commitStagedFiles_def] _ _ rd(5)] by blast
      then show ?thesis unfolding s4_def by (rule tempNames_cleanup)
    qed
    moreover note ra = restore_after [OF assms(2) rename(1) ok4 k4, unfolded c4, OF rs(3), folded c4]
    ultimately show ?thesis using rename(5) by (simp add: s4_def)
  next
    case (success b s1 staged s2)
    show ?thesis using renamed_spec [OF assms(2) success(2-4)] success(5) by simp
  qed (auto simp: assms)
  then show "keeps (path st ` dirty st) s s'"
    "contentOf st s' f = contentOf st s f \<or> f \<in> dirty st \<and> rendered st s f = Inr (contentOf st s' f)"
    "r = Inl e \<Longrightarrow> singleFault s \<Longrightarrow> tempNames s \<Longrightarrow> contentOf st s' f = contentOf st s f"
    by auto
qed

lemma persist_success:
  assumes "PersistCandidate st s = (Inr (b, c), s')" "pathsOK st s"
  shows "c = cand st" "pathsOK st s'" "f \<in> dirty st \<Longrightarrow> rendered st s f = Inr (contentOf st s' f)"
    "saved b f = (if f \<in> dirty st then Some (contentOf st s f) else None)" "valid c"
  using assms(1)
  by (cases rule: persist_cases;
      use renamed_spec [OF assms(2)] backup_spec(2) in \<open>(auto; fail)?\<close>)+

text \<open>Without faults and with a renderable candidate, every phase succeeds.\<close>

lemma backupFiles_spent:
  "spent s \<Longrightarrow> pathsOK st s \<Longrightarrow> \<exists>b'. \<exists>s'. backupFiles st fl b s = (Inr b', s')"
proof (induction fl arbitrary: b s)
  case (Cons f fl)
  obtain n where n: "files s (path st f) = Some n" using Cons.prems(2) by (auto simp: pathsOK_def)
  have r: "osReadFile (path st f) s = (Inr (content n), tick s)"
    using Cons.prems(1) n by (simp add: osReadFile_def syscall_spent) (simp add: tick_def)
  have "spent (tick s)" "pathsOK st (tick s)" using Cons.prems by (auto simp: pathsOK_def tick_def spent_def)
  then show ?case using Cons r by (simp add: bindIO_def)
qed simp

lemma stageFile_spent:
  assumes "spent s" "tempNames s" "pathsOK st s0" "keeps {} s0 s" "rendered st s0 f = Inr data"
  shows "\<exists>staged' s'. stageFile st f staged s = (Inr staged', s') \<and> spent s' \<and> tempNames s'"
proof -
  obtain n where n: "files s (path st f) = Some n" "content n = contentOf st s0 f"
    using assms(3,4) by (auto simp: pathsOK_def keeps_def contentOf_def)
  have r: "osReadFile (path st f) s = (Inr (content n), tick s)"
    using assms(1) n by (simp add: osReadFile_def syscall_spent) (simp add: tick_def)
  have t: "tempNames (tick s)" using assms(2) by (auto simp: tempNames_def tick_def)
  obtain t s1 where "writeTempSibling (path st f) data (tick s) = (Inr t, s1)" "spent s1" "tempNames s1"
    using writeTempSibling_spent [OF spent_tick [OF assms(1)] t] by blast
  then show ?thesis
    using r n(2) assms(5) by (simp add: stageFile_def onError_def bindIO_def liftIO_def rendered_def)
qed

lemma stageFiles_spent:
  "spent s \<Longrightarrow> tempNames s \<Longrightarrow> pathsOK st s0 \<Longrightarrow> keeps {} s0 s \<Longrightarrow> stagedOK st s0 s staged \<Longrightarrow>
    (\<And>f. f \<in> dirty st \<Longrightarrow> \<exists>d. rendered st s0 f = Inr d) \<Longrightarrow>
    \<exists>staged' s'. stageFiles st fl staged s = (Inr staged', s') \<and> spent s' \<and> tempNames s'"
proof (induction fl arbitrary: s staged)
  case (Cons f fl)
  show ?case
  proof (cases "f \<in> dirty st")
    case True
    then obtain staged1 s1 where s1: "stageFile st f staged s = (Inr staged1, s1)" "spent s1" "tempNames s1"
      using stageFile_spent [OF Cons.prems(1-4)] Cons.prems(6) by blast
    note sp = stageFile_spec [OF s1(1) True Cons.prems(3-5)]
    then show ?thesis using Cons.IH [OF s1(2,3) Cons.prems(3) sp(1) _ Cons.prems(6)] True s1(1) by (simp add: bindIO_def)
  qed (use Cons in auto)
qed simp

lemma commitLoop_spent:
  "spent s \<Longrightarrow> commitLoop applied staged s = (r, s') \<Longrightarrow>
    distinct (map tmp staged) \<Longrightarrow> distinct (map final staged) \<Longrightarrow> tmp ` set staged \<inter> final ` set staged = {} \<Longrightarrow>
    (\<And>x. x \<in> set staged \<Longrightarrow> files s (tmp x) \<noteq> None) \<Longrightarrow>
    tmp ` set applied \<inter> (tmp ` set staged \<union> final ` set staged) = {} \<Longrightarrow> r = Inr ()"
proof (rule ccontr)
  assume a: "spent s" "commitLoop applied staged s = (r, s')" "distinct (map tmp staged)"
    "distinct (map final staged)" "tmp ` set staged \<inter> final ` set staged = {}"
    "\<And>x. x \<in> set staged \<Longrightarrow> files s (tmp x) \<noteq> None" "tmp ` set applied \<inter> (tmp ` set staged \<union> final ` set staged) = {}"
    and r: "r \<noteq> Inr ()"
  obtain e where "r = Inl e" using r by (cases r) auto
  then have "faulted s s'" using commitLoop_spec [OF a(2-7)] by simp
  then show False using a(1) by (auto simp: faulted_def spent_def)
qed

lemma persist_succeeds:
  assumes "valid (cand st)" "pathsOK st s" "spent s" "tempNames s"
    and "\<And>f. f \<in> dirty st \<Longrightarrow> \<exists>d. rendered st s f = Inr d"
  shows "\<exists>b s'. PersistCandidate st s = (Inr (b, cand st), s') \<and> spent s' \<and> tempNames s'"
proof -
  obtain b s1 where b: "backupDirtyFilesLocked st s = (Inr b, s1)"
    using backupFiles_spent [OF assms(3,2)] unfolding backupDirtyFilesLocked_def by blast
  have t1: "touches {} s s1" using backup_spec(1) [OF b] .
  have k1: "keeps {} s s1" using t1 by (rule touches_keeps) simp
  have "spent s1" "tempNames s1" using spent_keeps [OF assms(3) k1] tempNames_same [OF assms(4) t1] by auto
  then obtain staged s2 where st: "stageDirtyFilesLocked st s1 = (Inr staged, s2)" "spent s2" "tempNames s2"
    using stageFiles_spent [OF _ _ assms(2) k1 stagedOK_Nil assms(5)] unfolding stageDirtyFilesLocked_def by blast
  note rd = staged_ready [OF assms(2) b st(1)]
  obtain r s3 where c: "commitStagedFiles staged s2 = (r, s3)" by fastforce
  have ex: "files s2 (tmp x) \<noteq> None" if "x \<in> set staged" for x using rd(2) that by (auto simp: stagedOK_def)
  have dt: "distinct (map tmp staged)" using rd(2) by (simp add: stagedOK_def)
  have r: "r = Inr ()"
    using commitLoop_spent [OF st(2) c [unfolded commitStagedFiles_def] dt rd(3,5) ex] by simp
  have "files s2 (final x) \<noteq> None" if "x \<in> set staged" for x
  proof -
    have "final x \<in> path st ` dirty st" using rd(4) imageI [OF that, of final] by simp
    then show ?thesis using pathsOK_keeps [OF assms(2) rd(1)] by (auto simp: pathsOK_def)
  qed
  then have "tempNames s3" using tempNames_commitLoop [OF c [unfolded commitStagedFiles_def] st(3) _ rd(5)] by blast
  moreover have "spent s3" using spent_keeps [OF assms(3) renamed_spec(1) [OF assms(2) b st(1) c]] .
  ultimately show ?thesis using assms(1) b st(1) c r by (simp add: PersistCandidate_def)
qed

lemma persist_then_rollback:
  assumes "valid (Candidate st)" and "pathsOK st s" and "spent s" and "tempNames s"
    and "\<And>f. f \<in> dirty st \<Longrightarrow> \<exists>d. rendered st s f = Inr d"
  shows "\<exists>backup s' s''. PersistCandidate st s = (Inr (backup, Candidate st), s')
    \<and> (\<forall>f \<in> dirty st. rendered st s f = Inr (contentOf st s' f))
    \<and> RollbackPersist st (Some backup) s' = (Inr (), s'') \<and> (\<forall>f. contentOf st s'' f = contentOf st s f)"
proof -
  obtain b s' where p: "PersistCandidate st s = (Inr (b, cand st), s')" "spent s'" "tempNames s'"
    using persist_succeeds [of st s] assms unfolding Candidate_def by blast
  note sc = persist_success [OF p(1) assms(2)]
  obtain s'' where r: "restoreFiles st confFiles b s' = (Inr (), s'')"
    "\<And>f. contentOf st s'' f = (case saved b f of Some d \<Rightarrow> if f \<in> set confFiles \<and> f \<in> dirty st then d
       else contentOf st s' f | None \<Rightarrow> contentOf st s' f)"
    using restoreFiles_spent [OF p(2,3) sc(2) distinct_confFiles, of b] by blast
  have "contentOf st s'' f = contentOf st s f" for f
    using r(2) [of f] sc(4) [of f] persist_contents(2) [OF p(1) assms(2), of f] by (auto split: if_splits)
  then show ?thesis using p(1) r(1) sc(3) by (auto simp: RollbackPersist_def restoreDirtyFilesLocked_def Candidate_def)
qed

text \<open>The backup says whether a file was dirty.\<close>

lemma backupFiles_dirty:
  "backupFiles st fl b s = (Inr b', s') \<Longrightarrow> bDirty b' \<longleftrightarrow> bDirty b \<or> (\<exists>f \<in> set fl. f \<in> dirty st)"
  by (induction st fl b s rule: backupFiles.induct) (auto split: if_splits)

lemma persist_dirty: "PersistCandidate st s = (Inr (b, c), s') \<Longrightarrow> bDirty b \<longleftrightarrow> dirty st \<noteq> {}"
  by (auto simp: PersistCandidate_def backupDirtyFilesLocked_def dest!: backupFiles_dirty
      split: sum.splits prod.splits)

section \<open>A sample store\<close>

definition zeroSIB :: SIBConfig where
  "zeroSIB = \<lparr>s_QRxLevMin = 0, s_CellBarred = [], s_NumRAPreambles = 0, s_PreambleInitRxTargetPwr = 0,
      s_PwrRampingStep = 0, s_DefaultPagingCycle = 128, s_P0NominalPUSCH = 0, s_P0NominalPUCCH = 0,
      s_Alpha = Fin 0, s_ReferenceSignalPower = 0, s_T300 = 0, s_T301 = 0, s_T310 = 0, s_N310 = 0,
      s_T311 = 0\<rparr>"

definition sampleConfig :: EditableConfig where
  "sampleConfig = (loadConfig ''rr'' ''sib'' ''rb'' emptyENB emptyRR zeroSIB [])
     \<lparr>ENBSerial := ''enb-1'', ENBID := ''0x19B'', MCC := ''001'', MNC := ''01'',
     MMEAddr := ''127.0.1.100'', GTPBindAddr := ''127.0.1.1'', S1CBindAddr := ''127.0.1.1'', NPRB := 50,
     CellID := ''0x01'', TAC := ''0x0007'', PCI := 1, DLEARFCN := 3350\<rparr>"

definition sampleStore :: Store where
  "sampleStore = \<lparr>running = sampleConfig, cand = sampleConfig,
     path = (\<lambda>f. case f of ENB \<Rightarrow> ''enb'' | RR \<Rightarrow> ''rr'' | SIB \<Rightarrow> ''sib'' | RB \<Rightarrow> ''rb''),
     dirty = {}, dirtyKeys = []\<rparr>"

definition sampleChange :: "(string \<times> goany) list" where
  "sampleChange = [('' pci'', VUint32 7), (''tm'', VUint32 4)]"

definition editedStore :: Store where
  "editedStore = sampleStore\<lparr>cand := sampleConfig\<lparr>PCI := 7, TM := 4\<rparr>, dirty := {RR, ENB},
     dirtyKeys := [''tm'', ''pci'']\<rparr>"

lemma sampleConfig_valid: "valid sampleConfig"
  by code_simp

lemma sampleStore_reachable: "storeReachable sampleStore"
  unfolding sampleStore_def using sampleConfig_valid by (rule storeReachable.init)

lemma sample_preview: "PreviewEdit sampleStore sampleChange = Inr (sampleConfig\<lparr>PCI := 7, TM := 4\<rparr>)"
  by code_simp

definition rrStore :: Store where
  "rrStore = sampleStore\<lparr>cand := sampleConfig\<lparr>PCI := 7\<rparr>, dirty := {RR}, dirtyKeys := [''pci'']\<rparr>"

definition sampleNode :: "bytes \<Rightarrow> inode" where
  "sampleNode c = \<lparr>content = c, perm = 416, uid = 1000, gid = 1000\<rparr>"

definition sampleFS :: "(nat \<Rightarrow> oserr option) \<Rightarrow> fs" where
  "sampleFS sched = \<lparr>files = [''enb'' \<mapsto> sampleNode ''[enb]'', ''rr'' \<mapsto> sampleNode ''tac = 7; pci = 1;'',
     ''sib'' \<mapsto> sampleNode [], ''rb'' \<mapsto> sampleNode []], faults = sched, clock = 0, rnd = formatNat, drawn = 0\<rparr>"

lemma sample_paths: "path rrStore = path sampleStore"
  by (simp add: rrStore_def)

lemma samplePathsOK: "pathsOK rrStore (sampleFS sched)"
  unfolding pathsOK_def sample_paths
proof (intro conjI allI)
  show "inj (path sampleStore)" by (rule injI) (auto simp: sampleStore_def split: confFile.splits)
  fix f show "files (sampleFS sched) (path sampleStore f) \<noteq> None"
    by (cases f) (simp_all add: sampleStore_def sampleFS_def)
qed

lemma sampleTempNames: "tempNames (sampleFS sched)"
proof -
  have inj: "inj formatNat" by (rule injI) (metis option.inject parseNat_formatNat)
  have nodash: "CHR ''-'' \<notin> set (formatNat n)" for n
    using formatNat_digits [of n] by (auto simp: list_all_iff isDigit_def)
  have len: "6 < length (tempName d (formatNat n))" for d n
    using formatNat_digits [of n] by (cases "formatNat n") (auto simp: tempName_def)
  have "files (sampleFS sched) (tempName d (formatNat n)) = None" for d n
    using len [of d n] by (auto simp: sampleFS_def)
  then show ?thesis using inj nodash by (simp add: tempNames_def sampleFS_def)
qed

lemma sampleRendered: "f \<in> dirty rrStore \<Longrightarrow> rendered rrStore (sampleFS sched) f = Inr ''tac = 7; pci = 7;''"
proof -
  have "renderRRConfig (Inr ''tac = 7; pci = 1;'') (sampleConfig\<lparr>PCI := 7\<rparr>) [''pci''] = Inr ''tac = 7; pci = 7;''"
    by code_simp
  then show "f \<in> dirty rrStore \<Longrightarrow> rendered rrStore (sampleFS sched) f = Inr ''tac = 7; pci = 7;''"
    by (simp add: rendered_def contentOf_def rrStore_def sampleStore_def sampleFS_def sampleNode_def)
qed

lemma rrStore_valid: "valid (cand rrStore)"
  by code_simp

section \<open>Properties\<close>

text \<open>C8: in every state the store can reach, both configurations pass validation, and every
  place where the candidate differs from the running configuration is named by a dirty key whose
  file is marked and whose renderer has a patch for it: no accepted edit can be left out of a
  commit.\<close>

theorem no_edit_is_lost:
  assumes "storeReachable s"
  shows "valid (Running s) \<and> valid (Candidate s)
    \<and> (\<forall>l. slotValue (Candidate s) l \<noteq> slotValue (Running s) l \<longrightarrow>
         (\<exists>k \<in> set (dirtyKeys s). \<exists>f \<in> dirty s. keySlot k = Some l \<and> hasPatch f k))"
proof -
  note inv = storeReachable_inv [OF assms]
  have "\<exists>k \<in> set (dirtyKeys s). \<exists>f \<in> dirty s. keySlot k = Some l \<and> hasPatch f k"
    if diff: "slotValue (cand s) l \<noteq> slotValue (running s) l" for l
  proof -
    obtain k where k: "k \<in> set (dirtyKeys s)" "keySlot k = Some l"
      using inv diff by (auto simp: storeInv_def)
    obtain f where "keyFile k = Some f" using keySlot_keyFile [OF k(2)] by blast
    then show ?thesis using k inv keyFile_hasPatch [of k f f] by (auto simp: storeInv_def marksOK_def)
  qed
  then show ?thesis using inv by (simp add: storeInv_def Running_def Candidate_def)
qed

lemma sample_edited:
  "Candidate (snd (Edit sampleStore sampleChange)) = sampleConfig\<lparr>PCI := 7, TM := 4\<rparr>"
  "Running (snd (Edit sampleStore sampleChange)) = sampleConfig"
  using Edit_cand [of sampleStore sampleChange] sample_preview
  by (auto simp: Edit_preview Candidate_def Running_def sampleStore_def)

theorem no_edit_is_lost_witness:
  "valid (Running (snd (Edit sampleStore sampleChange))) \<and> valid (Candidate (snd (Edit sampleStore sampleChange)))
    \<and> slotValue (Candidate (snd (Edit sampleStore sampleChange))) (Leaf ''pci'')
          \<noteq> slotValue (Running (snd (Edit sampleStore sampleChange))) (Leaf ''pci'')
    \<and> (\<exists>k \<in> set (dirtyKeys (snd (Edit sampleStore sampleChange))).
          \<exists>f \<in> dirty (snd (Edit sampleStore sampleChange)). keySlot k = Some (Leaf ''pci'') \<and> hasPatch f k)"
proof -
  have diff: "slotValue (sampleConfig\<lparr>PCI := 7, TM := 4\<rparr>) (Leaf ''pci'') \<noteq> slotValue sampleConfig (Leaf ''pci'')"
    by code_simp
  have "storeReachable (snd (Edit sampleStore sampleChange))"
    by (rule storeReachable.step [OF sampleStore_reachable storeStep.edit])
  from no_edit_is_lost [OF this] diff show ?thesis
    unfolding sample_edited by blast
qed

text \<open>\<^verbatim>\<open>PreviewEdit\<close> predicts \<^verbatim>\<open>Edit\<close> exactly. An edit returns what the preview returns; it
  installs that configuration as the candidate if it is accepted, leaves the candidate alone if
  not, and never touches the running configuration.\<close>

lemma preview_predicts_edit:
  "fst (Edit s changes) = PreviewEdit s changes
   \<and> Candidate (snd (Edit s changes)) = (case PreviewEdit s changes of Inl e \<Rightarrow> Candidate s | Inr c \<Rightarrow> c)
   \<and> Running (snd (Edit s changes)) = Running s"
  by (auto simp: Edit_preview Edit_cand Candidate_def Running_def split: sum.split)


lemma sampleChange_slots: "distinct (map (\<lambda>(k, v). keySlot (trimSpace k)) sampleChange)"
  by code_simp


text \<open>the result of an edit does not depend on the order in which Go iterates over the map of
  changes, provided no two keys name the same place: every order accepts, with the same values.\<close>

theorem edit_order_is_irrelevant:
  assumes "mset changes = mset changes'"
    and "distinct (map (\<lambda>(k, v). keySlot (trimSpace k)) changes)"
    and "PreviewEdit s changes = Inr c1"
  shows "\<exists>c2. PreviewEdit s changes' = Inr c2 \<and> slotValue c2 = slotValue c1"
  using assms by (rule PreviewEdit_order)

theorem edit_order_is_irrelevant_witness:
  "\<exists>c2. PreviewEdit sampleStore (rev sampleChange) = Inr c2
     \<and> slotValue c2 = slotValue (sampleConfig\<lparr>PCI := 7, TM := 4\<rparr>)"
  by (rule edit_order_is_irrelevant [OF _ sampleChange_slots sample_preview]) simp

text \<open>Every key that an edit accepts belongs to exactly one file: marking it dirty marks one
  file, and the renderer of that file, and of no other, has a patch for it.\<close>

lemma key_belongs_to_one_file:
  assumes "applyChange cfg key val = Inr cfg'"
  shows "\<exists>f. (\<forall>d. markDirtyLocked key d = insert f d) \<and> (\<forall>g. hasPatch g key \<longleftrightarrow> g = f)"
proof -
  obtain l w w' where "keySlot key = Some l" using assms by (rule cfg.put_Inr_iff)
  then obtain f where "keyFile key = Some f" using keySlot_keyFile by blast
  then show ?thesis using keyFile_hasPatch by (auto simp: markDirty_keyFile)
qed

text \<open>C5: no configuration file is ever torn. Whatever faults occur and however the attempt ends,
  after \<^verbatim>\<open>PersistCandidate\<close> each configuration file holds either its old content or, if it was
  dirty, the complete rendered one; every other existing file is untouched.\<close>

theorem commit_never_tears_a_file:
  assumes "PersistCandidate st s = (r, s')" and "pathsOK st s"
  shows "(\<forall>f. contentOf st s' f = contentOf st s f
            \<or> f \<in> dirty st \<and> rendered st s f = Inr (contentOf st s' f))
       \<and> (\<forall>p. files s p \<noteq> None \<and> p \<notin> path st ` dirty st \<longrightarrow> files s' p = files s p)"
  using persist_contents(1,2) [OF assms] unfolding keeps_def by blast

theorem commit_never_tears_a_file_witness:
  "(\<forall>f. contentOf rrStore (snd (PersistCandidate rrStore (sampleFS (\<lambda>k. Some EIO)))) f
        = contentOf rrStore (sampleFS (\<lambda>k. Some EIO)) f
      \<or> f \<in> dirty rrStore \<and> rendered rrStore (sampleFS (\<lambda>k. Some EIO)) f
          = Inr (contentOf rrStore (snd (PersistCandidate rrStore (sampleFS (\<lambda>k. Some EIO)))) f))
   \<and> files (snd (PersistCandidate rrStore (sampleFS (\<lambda>k. Some EIO)))) ''enb'' = files (sampleFS (\<lambda>k. Some EIO)) ''enb''"
proof -
  have "files (sampleFS (\<lambda>k. Some EIO)) ''enb'' \<noteq> None \<and> ''enb'' \<notin> path rrStore ` dirty rrStore"
    by (simp add: sampleFS_def rrStore_def sampleStore_def)
  with commit_never_tears_a_file [OF prod.collapse [symmetric] samplePathsOK [of "\<lambda>k. Some EIO"]] show ?thesis
    by blast
qed

text \<open>C2: a commit is atomic under a single fault. If at most one system call fails and
  \<^verbatim>\<open>PersistCandidate\<close> reports an error, every file has its old content; if it reports success,
  every dirty file has its rendered content and the others are as they were.\<close>

theorem commit_is_atomic_under_one_fault:
  assumes "PersistCandidate st s = (r, s')" and "pathsOK st s" and "singleFault s" and "tempNames s"
  shows "case r of
      Inl e \<Rightarrow> \<forall>f. contentOf st s' f = contentOf st s f
    | Inr (backup, cfg) \<Rightarrow> cfg = Candidate st
        \<and> (\<forall>f. if f \<in> dirty st then rendered st s f = Inr (contentOf st s' f) \<and> saved backup f = Some (contentOf st s f)
               else contentOf st s' f = contentOf st s f)"
proof (cases r)
  case (Inl e)
  then show ?thesis using persist_contents(3) [OF assms(1,2) Inl assms(3,4)] by simp
next
  case (Inr bc)
  then obtain b c where bc: "r = Inr (b, c)" by (cases bc) auto
  note sc = persist_success [OF assms(1) [unfolded bc] assms(2)]
  then show ?thesis using persist_contents(2) [OF assms(1,2)] bc by (auto simp: Candidate_def)
qed

theorem commit_is_atomic_under_one_fault_witness:
  "case fst (PersistCandidate rrStore (sampleFS ((\<lambda>k. None)(9 := Some EBUSY)))) of
      Inl e \<Rightarrow> \<forall>f. contentOf rrStore (snd (PersistCandidate rrStore (sampleFS ((\<lambda>k. None)(9 := Some EBUSY))))) f
          = contentOf rrStore (sampleFS ((\<lambda>k. None)(9 := Some EBUSY))) f
    | Inr (backup, cfg) \<Rightarrow> cfg = Candidate rrStore
        \<and> (\<forall>f. if f \<in> dirty rrStore
               then rendered rrStore (sampleFS ((\<lambda>k. None)(9 := Some EBUSY))) f
                   = Inr (contentOf rrStore (snd (PersistCandidate rrStore (sampleFS ((\<lambda>k. None)(9 := Some EBUSY))))) f)
                 \<and> saved backup f = Some (contentOf rrStore (sampleFS ((\<lambda>k. None)(9 := Some EBUSY))) f)
               else contentOf rrStore (snd (PersistCandidate rrStore (sampleFS ((\<lambda>k. None)(9 := Some EBUSY))))) f
                   = contentOf rrStore (sampleFS ((\<lambda>k. None)(9 := Some EBUSY))) f)"
  by (rule commit_is_atomic_under_one_fault [OF prod.collapse [symmetric] samplePathsOK _ sampleTempNames])
     (simp add: singleFault_def sampleFS_def)

text \<open>C6: a commit succeeds when nothing fails: with a valid candidate whose dirty files render,
  and no failing system call, \<^verbatim>\<open>PersistCandidate\<close> returns a backup and the candidate, and rolling
  back that backup afterwards returns every file to its old content.\<close>

theorem commit_succeeds_and_rolls_back:
  assumes "valid (Candidate st)" and "pathsOK st s" and "spent s" and "tempNames s"
    and "\<And>f. f \<in> dirty st \<Longrightarrow> \<exists>d. rendered st s f = Inr d"
  shows "\<exists>backup s' s''. PersistCandidate st s = (Inr (backup, Candidate st), s')
    \<and> (\<forall>f \<in> dirty st. rendered st s f = Inr (contentOf st s' f))
    \<and> RollbackPersist st (Some backup) s' = (Inr (), s'') \<and> (\<forall>f. contentOf st s'' f = contentOf st s f)"
  using assms by (rule persist_then_rollback)

theorem commit_succeeds_and_rolls_back_witness:
  "\<exists>backup s' s''. PersistCandidate rrStore (sampleFS (\<lambda>k. None)) = (Inr (backup, Candidate rrStore), s')
    \<and> (\<forall>f \<in> dirty rrStore. rendered rrStore (sampleFS (\<lambda>k. None)) f = Inr (contentOf rrStore s' f))
    \<and> RollbackPersist rrStore (Some backup) s' = (Inr (), s'')
    \<and> (\<forall>f. contentOf rrStore s'' f = contentOf rrStore (sampleFS (\<lambda>k. None)) f)"
  by (rule commit_succeeds_and_rolls_back [OF _ samplePathsOK _ sampleTempNames])
     (use rrStore_valid sampleRendered in \<open>auto simp: Candidate_def spent_def sampleFS_def\<close>)

end
