(* ===== verification/GoJson.thy ===== *)
theory GoJson
  imports GoFloat
begin

text \<open>
  The values that are handed to the JSON encoder. A Go value of type \<^verbatim>\<open>map[string]any\<close> is a
  \<open>JObject\<close>, whose entries the encoder sorts; \<open>JDecimal\<close> is the string with the shortest decimal
  representation of a number.
\<close>

datatype json = JString string | JInt int | JBool bool | JDecimal float64
  | JObject "(string \<times> json) list" | JArray "json list" | JNull

end
