(* ===== verification/Bindings.thy ===== *)
theory Bindings
  imports ConfigStore GoJson "HOL-Library.AList"
begin

text \<open>
  The registry that binds YANG leaves to configuration keys
  (\<^verbatim>\<open>internal/ems/netconfcm/bindings.go\<close>): from the path and the text of a leaf in an
  edit-config payload to a key and a typed value for the store, and from a configuration to the
  tree that is published to NETCONF clients.

  The two regular expressions of the source are written out as the functions that decide them.
  The registry's Go map is the list of its bindings. A floating-point leaf is rendered as a string
  holding its shortest decimal representation, which is the node \<open>JDecimal\<close>.
\<close>

section \<open>Bindings\<close>

datatype valueKind = kindString | kindInt32 | kindUint32 | kindFloat64 | kindBool

record leafBinding =
  bPath :: string
  bKey :: string
  bKind :: valueKind
  bGet :: "EditableConfig \<Rightarrow> goany"
  bInclude :: "EditableConfig \<Rightarrow> bool"

abbreviation leaf :: "string \<Rightarrow> string \<Rightarrow> valueKind \<Rightarrow> (EditableConfig \<Rightarrow> goany) \<Rightarrow>
    (EditableConfig \<Rightarrow> bool) \<Rightarrow> leafBinding" where
  "leaf p k ki g i \<equiv> \<lparr>bPath = p, bKey = k, bKind = ki, bGet = g, bInclude = i\<rparr>"

definition alwaysInclude :: "EditableConfig \<Rightarrow> bool" where
  "alwaysInclude cfg = True"

definition nonEmptyString :: "(EditableConfig \<Rightarrow> string) \<Rightarrow> EditableConfig \<Rightarrow> bool" where
  "nonEmptyString fn cfg \<longleftrightarrow> trimSpace (fn cfg) \<noteq> []"

definition nonZeroInt32 :: "(EditableConfig \<Rightarrow> int32) \<Rightarrow> EditableConfig \<Rightarrow> bool" where
  "nonZeroInt32 fn cfg \<longleftrightarrow> fn cfg \<noteq> 0"

definition nonZeroUint32 :: "(EditableConfig \<Rightarrow> uint32) \<Rightarrow> EditableConfig \<Rightarrow> bool" where
  "nonZeroUint32 fn cfg \<longleftrightarrow> fn cfg \<noteq> 0"

definition nonZeroFloat64 :: "(EditableConfig \<Rightarrow> float64) \<Rightarrow> EditableConfig \<Rightarrow> bool" where
  "nonZeroFloat64 fn cfg \<longleftrightarrow> \<not> f64_eq (fn cfg) (Fin 0)"

definition baseSubNetworkPath :: string where
  "baseSubNetworkPath = ''/_3gpp-common-managed-element:SubNetwork''"
definition baseManagedElement :: string where
  "baseManagedElement = baseSubNetworkPath @ ''/_3gpp-common-managed-element:ManagedElement''"
definition baseENBFunction :: string where
  "baseENBFunction = baseManagedElement @ ''/_3gpp-common-managed-element:ENBFunction''"
definition baseEUtranCell :: string where
  "baseEUtranCell = baseENBFunction @ ''/_3gpp-common-managed-element:EUtranCell''"
definition baseScheduler :: string where
  "baseScheduler = baseENBFunction @ ''/srsran-vendor-ext:scheduler''"
definition baseSIB :: string where
  "baseSIB = baseENBFunction @ ''/srsran-vendor-ext:sib''"
definition baseTimers :: string where
  "baseTimers = baseSIB @ ''/srsran-vendor-ext:ue_timers_and_constants''"
definition baseExpert :: string where
  "baseExpert = baseENBFunction @ ''/srsran-vendor-ext:expert''"

definition enbBindings :: "leafBinding list" where
  "enbBindings = [
     leaf (baseENBFunction @ ''/_3gpp-common-managed-element:enb_id'') ''enb_id'' kindString (\<lambda>c. VString (ENBID c)) (nonEmptyString ENBID),
     leaf (baseENBFunction @ ''/_3gpp-common-managed-element:mcc'') ''mcc'' kindString (\<lambda>c. VString (MCC c)) (nonEmptyString MCC),
     leaf (baseENBFunction @ ''/_3gpp-common-managed-element:mnc'') ''mnc'' kindString (\<lambda>c. VString (MNC c)) (nonEmptyString MNC),
     leaf (baseENBFunction @ ''/_3gpp-common-managed-element:mme_addr'') ''mme_addr'' kindString (\<lambda>c. VString (MMEAddr c)) (nonEmptyString MMEAddr),
     leaf (baseENBFunction @ ''/_3gpp-common-managed-element:gtp_bind_addr'') ''gtp_bind_addr'' kindString (\<lambda>c. VString (GTPBindAddr c)) (nonEmptyString GTPBindAddr),
     leaf (baseENBFunction @ ''/_3gpp-common-managed-element:s1c_bind_addr'') ''s1c_bind_addr'' kindString (\<lambda>c. VString (S1CBindAddr c)) (nonEmptyString S1CBindAddr),
     leaf (baseENBFunction @ ''/_3gpp-common-managed-element:s1c_bind_port'') ''s1c_bind_port'' kindUint32 (\<lambda>c. VUint32 (S1CBindPort c)) (nonZeroUint32 S1CBindPort),
     leaf (baseENBFunction @ ''/_3gpp-common-managed-element:n_prb'') ''n_prb'' kindUint32 (\<lambda>c. VUint32 (NPRB c)) (nonZeroUint32 NPRB),
     leaf (baseENBFunction @ ''/_3gpp-common-managed-element:tm'') ''tm'' kindUint32 (\<lambda>c. VUint32 (TM c)) (nonZeroUint32 TM)]"

definition cellBindings :: "leafBinding list" where
  "cellBindings = [
     leaf (baseEUtranCell @ ''/_3gpp-common-managed-element:id'') ''cell_id'' kindString (\<lambda>c. VString (CellID c)) (nonEmptyString CellID),
     leaf (baseEUtranCell @ ''/_3gpp-common-managed-element:tac'') ''tac'' kindString (\<lambda>c. VString (TAC c)) (nonEmptyString TAC),
     leaf (baseEUtranCell @ ''/_3gpp-common-managed-element:dl_earfcn'') ''dl_earfcn'' kindUint32 (\<lambda>c. VUint32 (DLEARFCN c)) (nonZeroUint32 DLEARFCN),
     leaf (baseEUtranCell @ ''/_3gpp-common-managed-element:pci'') ''pci'' kindUint32 (\<lambda>c. VUint32 (PCI c)) alwaysInclude,
     leaf (baseEUtranCell @ ''/_3gpp-common-managed-element:ho_active'') ''ho_active'' kindBool (\<lambda>c. VBool (HOActive c)) alwaysInclude,
     leaf (baseEUtranCell @ ''/_3gpp-common-managed-element:a3_offset'') ''a3_offset'' kindInt32 (\<lambda>c. VInt32 (A3Offset c)) (nonZeroInt32 A3Offset),
     leaf (baseEUtranCell @ ''/_3gpp-common-managed-element:time_to_trigger'') ''time_to_trigger'' kindInt32 (\<lambda>c. VInt32 (TimeToTrigger c)) (nonZeroInt32 TimeToTrigger),
     leaf (baseEUtranCell @ ''/_3gpp-common-managed-element:hysteresis'') ''hysteresis'' kindInt32 (\<lambda>c. VInt32 (Hysteresis c)) (nonZeroInt32 Hysteresis)]"

definition vendorBindings :: "leafBinding list" where
  "vendorBindings = [
     leaf (baseENBFunction @ ''/srsran-vendor-ext:enb_serial'') ''enb_serial'' kindString (\<lambda>c. VString (ENBSerial c)) (nonEmptyString ENBSerial),
     leaf (baseENBFunction @ ''/srsran-vendor-ext:tx_gain'') ''tx_gain'' kindFloat64 (\<lambda>c. VFloat64 (TXGain c)) alwaysInclude,
     leaf (baseENBFunction @ ''/srsran-vendor-ext:rx_gain'') ''rx_gain'' kindFloat64 (\<lambda>c. VFloat64 (RXGain c)) alwaysInclude,
     leaf (baseENBFunction @ ''/srsran-vendor-ext:time_adv_nsamples'') ''time_adv_nsamples'' kindString (\<lambda>c. VString (TimeAdvNSamples c)) (nonEmptyString TimeAdvNSamples),
     leaf (baseENBFunction @ ''/srsran-vendor-ext:device_name'') ''device_name'' kindString (\<lambda>c. VString (DeviceName c)) (nonEmptyString DeviceName),
     leaf (baseENBFunction @ ''/srsran-vendor-ext:device_args'') ''device_args'' kindString (\<lambda>c. VString (DeviceArgs c)) (nonEmptyString DeviceArgs)]"

definition schedulerBindings :: "leafBinding list" where
  "schedulerBindings = [
     leaf (baseScheduler @ ''/srsran-vendor-ext:sched_policy'') ''sched_policy'' kindString (\<lambda>c. VString (SchedPolicy c)) (nonEmptyString SchedPolicy),
     leaf (baseScheduler @ ''/srsran-vendor-ext:pdsch_max_mcs'') ''pdsch_max_mcs'' kindInt32 (\<lambda>c. VInt32 (PDSCHMaxMCS c)) (nonZeroInt32 PDSCHMaxMCS),
     leaf (baseScheduler @ ''/srsran-vendor-ext:pusch_max_mcs'') ''pusch_max_mcs'' kindInt32 (\<lambda>c. VInt32 (PUSCHMaxMCS c)) (nonZeroInt32 PUSCHMaxMCS),
     leaf (baseScheduler @ ''/srsran-vendor-ext:target_bler'') ''target_bler'' kindFloat64 (\<lambda>c. VFloat64 (TargetBLER c)) (nonZeroFloat64 TargetBLER),
     leaf (baseScheduler @ ''/srsran-vendor-ext:min_nof_ctrl_symbols'') ''min_nof_ctrl_symbols'' kindInt32 (\<lambda>c. VInt32 (MinCtrlSymbols c)) (nonZeroInt32 MinCtrlSymbols),
     leaf (baseScheduler @ ''/srsran-vendor-ext:max_nof_ctrl_symbols'') ''max_nof_ctrl_symbols'' kindInt32 (\<lambda>c. VInt32 (MaxCtrlSymbols c)) (nonZeroInt32 MaxCtrlSymbols)]"

definition sibBindings :: "leafBinding list" where
  "sibBindings = [
     leaf (baseSIB @ ''/srsran-vendor-ext:q_rx_lev_min'') ''q_rx_lev_min'' kindInt32 (\<lambda>c. VInt32 (QRxLevMin c)) (nonZeroInt32 QRxLevMin),
     leaf (baseSIB @ ''/srsran-vendor-ext:cell_barred'') ''cell_barred'' kindString (\<lambda>c. VString (CellBarred c)) (nonEmptyString CellBarred),
     leaf (baseSIB @ ''/srsran-vendor-ext:num_ra_preambles'') ''num_ra_preambles'' kindInt32 (\<lambda>c. VInt32 (NumRAPreambles c)) (nonZeroInt32 NumRAPreambles),
     leaf (baseSIB @ ''/srsran-vendor-ext:preamble_init_rx_target_pwr'') ''preamble_init_rx_target_pwr'' kindInt32 (\<lambda>c. VInt32 (PreambleInitRxTargetPwr c)) (nonZeroInt32 PreambleInitRxTargetPwr),
     leaf (baseSIB @ ''/srsran-vendor-ext:pwr_ramping_step'') ''pwr_ramping_step'' kindInt32 (\<lambda>c. VInt32 (PwrRampingStep c)) (nonZeroInt32 PwrRampingStep),
     leaf (baseSIB @ ''/srsran-vendor-ext:reference_signal_power'') ''reference_signal_power'' kindInt32 (\<lambda>c. VInt32 (ReferenceSignalPower c)) (nonZeroInt32 ReferenceSignalPower),
     leaf (baseSIB @ ''/srsran-vendor-ext:p0_nominal_pusch'') ''p0_nominal_pusch'' kindInt32 (\<lambda>c. VInt32 (P0NominalPUSCH c)) (nonZeroInt32 P0NominalPUSCH),
     leaf (baseSIB @ ''/srsran-vendor-ext:p0_nominal_pucch'') ''p0_nominal_pucch'' kindInt32 (\<lambda>c. VInt32 (P0NominalPUCCH c)) (nonZeroInt32 P0NominalPUCCH),
     leaf (baseSIB @ ''/srsran-vendor-ext:alpha'') ''alpha'' kindFloat64 (\<lambda>c. VFloat64 (Alpha c)) (nonZeroFloat64 Alpha),
     leaf (baseSIB @ ''/srsran-vendor-ext:default_paging_cycle'') ''default_paging_cycle'' kindInt32 (\<lambda>c. VInt32 (DefaultPagingCycle c)) (nonZeroInt32 DefaultPagingCycle)]"

definition timerBindings :: "leafBinding list" where
  "timerBindings = [
     leaf (baseTimers @ ''/srsran-vendor-ext:t300'') ''t300'' kindInt32 (\<lambda>c. VInt32 (T300 c)) (nonZeroInt32 T300),
     leaf (baseTimers @ ''/srsran-vendor-ext:t301'') ''t301'' kindInt32 (\<lambda>c. VInt32 (T301 c)) (nonZeroInt32 T301),
     leaf (baseTimers @ ''/srsran-vendor-ext:t310'') ''t310'' kindInt32 (\<lambda>c. VInt32 (T310 c)) (nonZeroInt32 T310),
     leaf (baseTimers @ ''/srsran-vendor-ext:n310'') ''n310'' kindInt32 (\<lambda>c. VInt32 (N310 c)) (nonZeroInt32 N310),
     leaf (baseTimers @ ''/srsran-vendor-ext:t311'') ''t311'' kindInt32 (\<lambda>c. VInt32 (T311 c)) (nonZeroInt32 T311)]"

definition expertBindings :: "leafBinding list" where
  "expertBindings = [
     leaf (baseExpert @ ''/srsran-vendor-ext:pusch_max_its'') ''pusch_max_its'' kindInt32 (\<lambda>c. VInt32 (PUSCHMaxIts c)) (nonZeroInt32 PUSCHMaxIts),
     leaf (baseExpert @ ''/srsran-vendor-ext:nr_pusch_max_its'') ''nr_pusch_max_its'' kindInt32 (\<lambda>c. VInt32 (NRPUSCHMaxIts c)) (nonZeroInt32 NRPUSCHMaxIts),
     leaf (baseExpert @ ''/srsran-vendor-ext:pusch_8bit_decoder'') ''pusch_8bit_decoder'' kindBool (\<lambda>c. VBool (PUSCH8bitDecoder c)) alwaysInclude,
     leaf (baseExpert @ ''/srsran-vendor-ext:nof_phy_threads'') ''nof_phy_threads'' kindInt32 (\<lambda>c. VInt32 (NofPHYThreads c)) (nonZeroInt32 NofPHYThreads),
     leaf (baseExpert @ ''/srsran-vendor-ext:metrics_period_secs'') ''metrics_period_secs'' kindInt32 (\<lambda>c. VInt32 (MetricsPeriodSecs c)) (nonZeroInt32 MetricsPeriodSecs),
     leaf (baseExpert @ ''/srsran-vendor-ext:tx_amplitude'') ''tx_amplitude'' kindFloat64 (\<lambda>c. VFloat64 (TXAmplitude c)) (nonZeroFloat64 TXAmplitude),
     leaf (baseExpert @ ''/srsran-vendor-ext:rrc_inactivity_timer'') ''rrc_inactivity_timer'' kindInt32 (\<lambda>c. VInt32 (RRCInactivityTimer c)) (nonZeroInt32 RRCInactivityTimer),
     leaf (baseExpert @ ''/srsran-vendor-ext:rlf_release_timer_ms'') ''rlf_release_timer_ms'' kindInt32 (\<lambda>c. VInt32 (RLFReleaseTimerMs c)) (nonZeroInt32 RLFReleaseTimerMs),
     leaf (baseExpert @ ''/srsran-vendor-ext:eea_pref_list'') ''eea_pref_list'' kindString (\<lambda>c. VString (EEAPrefList c)) (nonEmptyString EEAPrefList),
     leaf (baseExpert @ ''/srsran-vendor-ext:eia_pref_list'') ''eia_pref_list'' kindString (\<lambda>c. VString (EIAPrefList c)) (nonEmptyString EIAPrefList),
     leaf (baseExpert @ ''/srsran-vendor-ext:gtpu_tunnel_timeout'') ''gtpu_tunnel_timeout'' kindInt32 (\<lambda>c. VInt32 (GTPUTunnelTimeout c)) (nonZeroInt32 GTPUTunnelTimeout),
     leaf (baseExpert @ ''/srsran-vendor-ext:s1_setup_max_retries'') ''s1_setup_max_retries'' kindInt32 (\<lambda>c. VInt32 (S1SetupMaxRetries c)) (nonZeroInt32 S1SetupMaxRetries),
     leaf (baseExpert @ ''/srsran-vendor-ext:s1_connect_timer'') ''s1_connect_timer'' kindInt32 (\<lambda>c. VInt32 (S1ConnectTimer c)) (nonZeroInt32 S1ConnectTimer),
     leaf (baseExpert @ ''/srsran-vendor-ext:rx_gain_offset'') ''rx_gain_offset'' kindFloat64 (\<lambda>c. VFloat64 (RXGainOffset c)) (nonZeroFloat64 RXGainOffset),
     leaf (baseExpert @ ''/srsran-vendor-ext:use_cedron_f_est_alg'') ''use_cedron_f_est_alg'' kindBool (\<lambda>c. VBool (UseCedronFEstAlg c)) alwaysInclude,
     leaf (baseExpert @ ''/srsran-vendor-ext:rlf_min_ul_snr_estim'') ''rlf_min_ul_snr_estim'' kindFloat64 (\<lambda>c. VFloat64 (RLFMinULSNREstim c)) (nonZeroFloat64 RLFMinULSNREstim),
     leaf (baseExpert @ ''/srsran-vendor-ext:max_mac_dl_kos'') ''max_mac_dl_kos'' kindInt32 (\<lambda>c. VInt32 (MaxMacDLKOs c)) (nonZeroInt32 MaxMacDLKOs),
     leaf (baseExpert @ ''/srsran-vendor-ext:max_mac_ul_kos'') ''max_mac_ul_kos'' kindInt32 (\<lambda>c. VInt32 (MaxMacULKOs c)) (nonZeroInt32 MaxMacULKOs)]"

definition newRegistry :: "leafBinding list" where
  "newRegistry = enbBindings @ cellBindings @ vendorBindings @ schedulerBindings @ sibBindings
     @ timerBindings @ expertBindings"

section \<open>Resolving a leaf\<close>

text \<open>The removal of every match of \<^verbatim>\<open>\[[^\]]+\]\<close>.\<close>

function removePredicates :: "string \<Rightarrow> string" where
  "removePredicates [] = []"
| "removePredicates (c # cs) =
     (if c = CHR ''['' then
        (case indexByte cs (CHR '']'') of
           Some j \<Rightarrow> if 0 < j then removePredicates (drop (Suc j) cs) else c # removePredicates cs
         | None \<Rightarrow> c # removePredicates cs)
      else c # removePredicates cs)"
  by pat_completeness auto
termination by (relation "measure length") auto

fun joinOn :: "char \<Rightarrow> string list \<Rightarrow> string" where
  "joinOn d [] = []"
| "joinOn d [p] = p"
| "joinOn d (p # ps) = p @ d # joinOn d ps"

definition stripModulePrefix :: "string \<Rightarrow> string" where
  "stripModulePrefix name = (case indexByte name (CHR '':'') of
     Some i \<Rightarrow> drop (i + 1) name | None \<Rightarrow> name)"

definition normalizePath :: "string \<Rightarrow> string" where
  "normalizePath p = joinOn (CHR ''/'')
     (map stripModulePrefix (splitOn (CHR ''/'') (removePredicates p)))"

text \<open>The expression \<^verbatim>\<open>qci_profiles\[[^\]]*qci='([^']+)'\]/(?:srsran-vendor-ext:)?([A-Za-z0-9_]+)$\<close>:
  \<open>qciEntry\<close> matches from \<^verbatim>\<open>qci='\<close> on, \<open>qciGreedy\<close> gives \<^verbatim>\<open>[^\]]*\<close> as many bytes as it can,
  and \<open>qciPath\<close> looks for the leftmost match.\<close>

definition isWordChar :: "char \<Rightarrow> bool" where
  "isWordChar c \<longleftrightarrow> isIdent c"

definition qciEntry :: "string \<Rightarrow> (string \<times> string) option" where
  "qciEntry s = (if \<not> hasPrefix s ''qci='' \<or> drop 4 s = [] \<or> s ! 4 \<noteq> CHR 0x27 then None
     else let body = drop 5 s in
       case indexByte body (CHR 0x27) of
         None \<Rightarrow> None
       | Some i \<Rightarrow>
           let tail = drop (i + 1) body in
           if i = 0 \<or> \<not> hasPrefix tail '']/'' then None
           else let field = trimPrefix (drop 2 tail) ''srsran-vendor-ext:'' in
             if field = [] \<or> \<not> list_all isWordChar field then None
             else Some (take i body, field))"

fun qciGreedy :: "string \<Rightarrow> (string \<times> string) option" where
  "qciGreedy [] = qciEntry []"
| "qciGreedy (c # cs) =
     (if c = CHR '']'' then qciEntry (c # cs)
      else case qciGreedy cs of Some r \<Rightarrow> Some r | None \<Rightarrow> qciEntry (c # cs))"

fun qciPath :: "string \<Rightarrow> (string \<times> string) option" where
  "qciPath [] = None"
| "qciPath (c # cs) =
     (if hasPrefix (c # cs) ''qci_profiles['' then
        (case qciGreedy (drop 13 (c # cs)) of Some r \<Rightarrow> Some r | None \<Rightarrow> qciPath cs)
      else qciPath cs)"

definition qciFieldKind :: "string \<Rightarrow> valueKind" where
  "qciFieldKind field =
     (if field \<in> {''discard_timer'', ''pdcp_sn_size'', ''t_poll_retx'', ''max_retx_thresh'', ''t_reordering'', ''priority''}
      then kindInt32 else kindString)"

text \<open>\<^verbatim>\<open>strconv.ParseBool\<close>.\<close>

definition parseBool :: "string \<Rightarrow> bool option" where
  "parseBool s =
     (if s \<in> {''1'', ''t'', ''T'', ''TRUE'', ''true'', ''True''} then Some True
      else if s \<in> {''0'', ''f'', ''F'', ''FALSE'', ''false'', ''False''} then Some False
      else None)"

definition parseValue :: "valueKind \<Rightarrow> string \<Rightarrow> goany result" where
  "parseValue kind value = (case kind of
       kindString \<Rightarrow> Inr (VString value)
     | kindInt32 \<Rightarrow> (case parseInt32 (trimSpace value) of
           Some x \<Rightarrow> Inr (VInt32 x) | None \<Rightarrow> Inl (Errorf (''expected int32, got '' @ goQuote value)))
     | kindUint32 \<Rightarrow> (case parseUint32 (trimSpace value) of
           Some x \<Rightarrow> Inr (VUint32 x) | None \<Rightarrow> Inl (Errorf (''expected uint32, got '' @ goQuote value)))
     | kindFloat64 \<Rightarrow> (case parseFloat (trimSpace value) of
           Some x \<Rightarrow> Inr (VFloat64 x) | None \<Rightarrow> Inl (Errorf (''expected number, got '' @ goQuote value)))
     | kindBool \<Rightarrow> (case parseBool (trimSpace value) of
           Some x \<Rightarrow> Inr (VBool x) | None \<Rightarrow> Inl (Errorf (''expected boolean, got '' @ goQuote value))))"

definition isStructuralKeyPath :: "string \<Rightarrow> bool \<Rightarrow> bool" where
  "isStructuralKeyPath p isKey = isKey"

text \<open>The result is \<open>None\<close> for a structural leaf, which names a list entry and sets nothing.\<close>

definition resolve :: "leafBinding list \<Rightarrow> string \<Rightarrow> bool \<Rightarrow> string \<Rightarrow> (string \<times> goany) option result" where
  "resolve r p isKey value = (let normalized = normalizePath p in
     if isStructuralKeyPath normalized isKey then Inr None
     else case qciPath p of
       Some (k, f) \<Rightarrow>
         (let key = trimSpace k; field = trimSpace f in
          if field = ''qci'' then Inr None
          else bindE (parseValue (qciFieldKind field) value) (\<lambda>parsed.
            Inr (Some (''qci_profiles['' @ key @ ''].'' @ field, parsed))))
     | None \<Rightarrow>
         (let direct = find (\<lambda>b. bPath b = normalized) r;
              binding = (case direct of Some b \<Rightarrow> Some b
                         | None \<Rightarrow> find (\<lambda>b. normalizePath (bPath b) = normalized) r)
          in case binding of
            None \<Rightarrow> Inl (Errorf (''unsupported editable path: '' @ p))
          | Some b \<Rightarrow>
              (case parseValue (bKind b) value of
                 Inl e \<Rightarrow> Inl (WrapErr (bKey b) e)
               | Inr parsed \<Rightarrow> Inr (Some (bKey b, parsed)))))"

section \<open>The value of a key\<close>

definition currentQCIFieldValue :: "EditableConfig \<Rightarrow> string \<Rightarrow> goany option" where
  "currentQCIFieldValue cfg key =
     (if \<not> hasPrefix key ''qci_profiles['' then None
      else let rest = trimPrefix key ''qci_profiles['' in
        case indexByte rest (CHR '']'') of
          None \<Rightarrow> None
        | Some close \<Rightarrow>
            (let num = take close rest; field = drop (close + 2) rest in
             if num = [] \<or> \<not> list_all isDigit num \<or> \<not> hasPrefix (drop close rest) ''].''
                 \<or> field = [] \<or> \<not> list_all isWordChar field then None
             else case parseInt32 num of
                None \<Rightarrow> None
              | Some qci \<Rightarrow>
                  (case find (\<lambda>p. QCI p = qci) (QCIProfiles cfg) of
                     None \<Rightarrow> None
                   | Some p \<Rightarrow>
                       if field = ''discard_timer'' then Some (VInt32 (DiscardTimer p))
                       else if field = ''pdcp_sn_size'' then Some (VInt32 (PDCPSNSize p))
                       else if field = ''t_poll_retx'' then Some (VInt32 (TPollRetx p))
                       else if field = ''max_retx_thresh'' then Some (VInt32 (MaxRetxThresh p))
                       else if field = ''t_reordering'' then Some (VInt32 (TReordering p))
                       else if field = ''priority'' then Some (VInt32 (Priority p))
                       else None)))"

definition currentValue :: "leafBinding list \<Rightarrow> EditableConfig \<Rightarrow> string \<Rightarrow> goany option" where
  "currentValue r cfg key =
     (if hasPrefix key ''qci_profiles['' then currentQCIFieldValue cfg key
      else map_option (\<lambda>b. bGet b cfg) (find (\<lambda>b. bKey b = key) r))"

section \<open>Rendering\<close>

fun jsonOf :: "goany \<Rightarrow> json" where
  "jsonOf (VString s) = JString s"
| "jsonOf (VBool b) = JBool b"
| "jsonOf (VInt32 w) = JInt (sint w)"
| "jsonOf (VUint32 w) = JInt (uint w)"
| "jsonOf (VFloat64 x) = JDecimal x"
| "jsonOf _ = JNull"

definition renderValue :: "leafBinding \<Rightarrow> EditableConfig \<Rightarrow> json" where
  "renderValue b cfg = jsonOf (bGet b cfg)"

definition lastPathSegment :: "string \<Rightarrow> string" where
  "lastPathSegment p = rev (takeWhile (\<lambda>c. c \<noteq> CHR ''/'') (rev p))"

definition modulePrefix :: "string \<Rightarrow> string" where
  "modulePrefix p = (let name = lastPathSegment p in
     case indexByte name (CHR '':'') of Some i \<Rightarrow> take i name | None \<Rightarrow> [])"

definition renderedChildName :: "string \<Rightarrow> string \<Rightarrow> string" where
  "renderedChildName parentPath childPath = (let child = lastPathSegment childPath in
     if modulePrefix parentPath \<noteq> modulePrefix childPath then child else stripModulePrefix child)"

definition childBindings :: "leafBinding list \<Rightarrow> EditableConfig \<Rightarrow> string \<Rightarrow> leafBinding list" where
  "childBindings r cfg pre = filter (\<lambda>b. hasPrefix (bPath b) (pre @ ''/'')
     \<and> CHR ''/'' \<notin> set (trimPrefix (bPath b) (pre @ ''/'')) \<and> bInclude b cfg) r"

text \<open>The bindings are visited in the order of their paths; \<open>insertBinding\<close> is the insertion
  sort that stands for \<^verbatim>\<open>sort.Strings\<close>.\<close>

fun insertBinding :: "leafBinding \<Rightarrow> leafBinding list \<Rightarrow> leafBinding list" where
  "insertBinding b [] = [b]"
| "insertBinding b (x # xs) = (if bytesLess (bPath x) (bPath b) then x # insertBinding b xs else b # x # xs)"

definition setRenderedLeaves ::
    "(string \<times> json) list \<Rightarrow> EditableConfig \<Rightarrow> leafBinding list \<Rightarrow> string \<Rightarrow> (string \<times> json) list" where
  "setRenderedLeaves dst cfg r pre =
     fold (\<lambda>b d. AList.update (renderedChildName pre (bPath b)) (renderValue b cfg) d)
       (foldr insertBinding (childBindings r cfg pre) []) dst"

fun insertProfile :: "QCIProfile \<Rightarrow> QCIProfile list \<Rightarrow> QCIProfile list" where
  "insertProfile p [] = [p]"
| "insertProfile p (x # xs) = (if sint (QCI p) \<le> sint (QCI x) then p # x # xs else x # insertProfile p xs)"

definition renderQCIProfiles :: "QCIProfile list \<Rightarrow> json list" where
  "renderQCIProfiles profiles = map (\<lambda>p. JObject
     [(''qci'', JInt (sint (QCI p))), (''discard_timer'', JInt (sint (DiscardTimer p))),
      (''pdcp_sn_size'', JInt (sint (PDCPSNSize p))), (''t_poll_retx'', JInt (sint (TPollRetx p))),
      (''max_retx_thresh'', JInt (sint (MaxRetxThresh p))), (''t_reordering'', JInt (sint (TReordering p))),
      (''priority'', JInt (sint (Priority p)))]) (foldr insertProfile profiles [])"

record IDs =
  SubNetwork :: string
  ManagedElement :: string
  ENBFunctionID :: string

definition render :: "leafBinding list \<Rightarrow> IDs \<Rightarrow> EditableConfig \<Rightarrow> json" where
  "render r ids cfg =
     (let enb0 = setRenderedLeaves [(''id'', JString (ENBFunctionID ids))] cfg r baseENBFunction;
          cell = setRenderedLeaves [] cfg r baseEUtranCell;
          enb1 = (if cell \<noteq> [] then AList.update ''EUtranCell'' (JArray [JObject cell]) enb0 else enb0);
          scheduler = setRenderedLeaves [] cfg r baseScheduler;
          enb2 = (if scheduler \<noteq> [] then AList.update ''srsran-vendor-ext:scheduler'' (JObject scheduler) enb1 else enb1);
          sib0 = setRenderedLeaves [] cfg r baseSIB;
          timers = setRenderedLeaves [] cfg r baseTimers;
          sib = (if timers \<noteq> [] then AList.update ''ue_timers_and_constants'' (JObject timers) sib0 else sib0);
          enb3 = (if sib \<noteq> [] then AList.update ''srsran-vendor-ext:sib'' (JObject sib) enb2 else enb2);
          profiles = renderQCIProfiles (QCIProfiles cfg);
          enb4 = (if profiles \<noteq> [] then AList.update ''srsran-vendor-ext:qci_profiles'' (JArray profiles) enb3 else enb3);
          expert = setRenderedLeaves [] cfg r baseExpert;
          enb5 = (if expert \<noteq> [] then AList.update ''srsran-vendor-ext:expert'' (JObject expert) enb4 else enb4)
      in JObject [(''_3gpp-common-managed-element:SubNetwork'', JArray [JObject
           [(''id'', JString (SubNetwork ids)),
            (''ManagedElement'', JArray [JObject
               [(''id'', JString (ManagedElement ids)), (''ENBFunction'', JArray [JObject enb5])]])]])])"

section \<open>The registry and the store\<close>

fun kindOf :: "goany \<Rightarrow> valueKind option" where
  "kindOf (VString _) = Some kindString"
| "kindOf (VInt32 _) = Some kindInt32"
| "kindOf (VUint32 _) = Some kindUint32"
| "kindOf (VFloat64 _) = Some kindFloat64"
| "kindOf (VBool _) = Some kindBool"
| "kindOf _ = None"

text \<open>A binding reads the leaf of its key, with a value of its kind.\<close>

definition bindingOK :: "leafBinding \<Rightarrow> bool" where
  "bindingOK b \<longleftrightarrow> (\<forall>c. leafValue c (bKey b) = Some (bGet b c) \<and> kindOf (bGet b c) = Some (bKind b))"

lemmas registry_list = newRegistry_def enbBindings_def cellBindings_def vendorBindings_def schedulerBindings_def
  sibBindings_def timerBindings_def expertBindings_def

lemma registry_getters: "map (\<lambda>b. (bKey b, bGet b)) newRegistry = leafGetters"
  by (simp add: registry_list leafGetters_def)

lemma registry_kinds: "list_all (\<lambda>b. \<forall>c. kindOf (bGet b c) = Some (bKind b)) newRegistry"
  by (simp add: registry_list)

lemma registry_OK: "b \<in> set newRegistry \<Longrightarrow> bindingOK b"
proof -
  assume b: "b \<in> set newRegistry"
  then have "(bKey b, bGet b) \<in> set leafGetters" unfolding registry_getters [symmetric] by auto
  then have "map_of leafGetters (bKey b) = Some (bGet b)"
    using distinct_getterKeys by (intro map_of_is_SomeI) (simp_all add: getterKeys_def)
  then show ?thesis using registry_kinds b by (simp add: bindingOK_def leafValue_def list_all_iff)
qed

definition registryKeys :: "string list" where
  "registryKeys = map bKey newRegistry"

definition registryPaths :: "string list" where
  "registryPaths = map bPath newRegistry"

lemmas registryKeys_list [code] =
  registryKeys_def [unfolded registry_list append.simps list.map leafBinding.simps]
lemmas registryPaths_list [code] =
  registryPaths_def [unfolded registry_list append_Cons append_Nil list.map leafBinding.simps]

lemma registryKeys_complete: "set registryKeys = set leafKeys" "distinct registryKeys"
  by code_simp+

text \<open>A leaf is identified by the name at the end of its path.\<close>

definition leafName :: "string \<Rightarrow> string" where
  "leafName p = stripModulePrefix (lastPathSegment p)"

lemma leafName_distinct: "distinct (map leafName registryPaths)"
  by code_simp

lemma registryPaths_plain: "list_all (\<lambda>p. CHR ''['' \<notin> set p \<and> CHR '':'' \<in> set (lastPathSegment p)
    \<and> CHR '':'' \<notin> set (leafName p)) registryPaths"
  by code_simp

lemma removePredicates_id: "CHR ''['' \<notin> set p \<Longrightarrow> removePredicates p = p"
  by (induction p rule: removePredicates.induct) auto

lemma lastPathSegment_slash: "lastPathSegment (p @ CHR ''/'' # q) = lastPathSegment q"
  by (simp add: lastPathSegment_def takeWhile_tail)

lemma lastPathSegment_id: "CHR ''/'' \<notin> set p \<Longrightarrow> lastPathSegment p = p"
proof -
  assume "CHR ''/'' \<notin> set p"
  then have "takeWhile (\<lambda>c. c \<noteq> CHR ''/'') (rev p) = rev p" by (auto simp: takeWhile_eq_all_conv)
  then show ?thesis by (simp only: lastPathSegment_def rev_rev_ident)
qed

lemma last_splitOn: "last (splitOn (CHR ''/'') p) = lastPathSegment p"
proof (induction "length p" arbitrary: p rule: less_induct)
  case less
  show ?case
  proof (cases "CHR ''/'' \<in> set p")
    case True
    then obtain a q where p: "p = a @ CHR ''/'' # q" "CHR ''/'' \<notin> set a" by (auto dest: split_list_first)
    then have "last (splitOn (CHR ''/'') q) = lastPathSegment q" by (intro less) simp
    with p show ?thesis by (simp add: splitOn_append splitOn_not_Nil lastPathSegment_slash)
  qed (simp add: splitOn_single lastPathSegment_id)
qed

lemma lastPathSegment_join:
  "ps \<noteq> [] \<Longrightarrow> \<forall>q \<in> set ps. CHR ''/'' \<notin> set q \<Longrightarrow> lastPathSegment (joinOn (CHR ''/'') ps) = last ps"
proof (induction ps)
  case (Cons p ps)
  then show ?case by (cases ps) (simp_all add: lastPathSegment_id lastPathSegment_slash)
qed simp

lemma stripModulePrefix_subset: "set (stripModulePrefix q) \<subseteq> set q"
  by (auto simp: stripModulePrefix_def dest: in_set_dropD split: option.splits)

lemma normalizePath_name: "CHR ''['' \<notin> set p \<Longrightarrow> lastPathSegment (normalizePath p) = leafName p"
proof -
  assume plain: "CHR ''['' \<notin> set p"
  let ?ps = "splitOn (CHR ''/'') p"
  have "lastPathSegment (joinOn (CHR ''/'') (map stripModulePrefix ?ps)) = last (map stripModulePrefix ?ps)"
    using splitOn_not_Nil splitOn_parts stripModulePrefix_subset
    by (intro lastPathSegment_join) (auto, blast)
  also have "\<dots> = leafName p"
    by (simp add: last_map splitOn_not_Nil last_splitOn leafName_def)
  finally show ?thesis using plain by (simp add: normalizePath_def removePredicates_id)
qed

lemma registry_plain:
  "b \<in> set newRegistry \<Longrightarrow> CHR ''['' \<notin> set (bPath b) \<and> CHR '':'' \<in> set (lastPathSegment (bPath b))
     \<and> CHR '':'' \<notin> set (leafName (bPath b))"
  using registryPaths_plain by (simp add: list_all_iff registryPaths_def)

lemma registry_unique:
  assumes "b \<in> set newRegistry" "b' \<in> set newRegistry" "normalizePath (bPath b') = normalizePath (bPath b)"
  shows "b' = b"
proof -
  have "leafName (bPath b') = leafName (bPath b)"
    using normalizePath_name [of "bPath b"] normalizePath_name [of "bPath b'"] assms(3)
      registry_plain [OF assms(1)] registry_plain [OF assms(2)] by simp
  moreover have "inj_on (\<lambda>b. leafName (bPath b)) (set newRegistry)"
    using leafName_distinct by (simp add: registryPaths_def distinct_map comp_def)
  ultimately show ?thesis using assms(1,2) by (auto dest: inj_onD)
qed

lemma findD: "find P xs = Some x \<Longrightarrow> x \<in> set xs \<and> P x"
  by (auto simp: find_Some_iff)

lemma find_unique:
  assumes "x \<in> set xs" "P x" "\<And>y. y \<in> set xs \<Longrightarrow> P y \<Longrightarrow> y = x"
  shows "find P xs = Some x"
proof (cases "find P xs")
  case None then show ?thesis using assms(1,2) by (auto simp: find_None_iff)
next
  case (Some y) then show ?thesis using findD [OF Some] assms(3) by simp
qed

lemma registry_find:
  assumes "b \<in> set newRegistry"
  shows "find (\<lambda>b'. bPath b' = normalizePath (bPath b)) newRegistry = None"
    and "find (\<lambda>b'. normalizePath (bPath b') = normalizePath (bPath b)) newRegistry = Some b"
proof -
  have "bPath b' \<noteq> normalizePath (bPath b)" if "b' \<in> set newRegistry" for b'
  proof
    assume "bPath b' = normalizePath (bPath b)"
    then have "lastPathSegment (bPath b') = leafName (bPath b)"
      using registry_plain [OF assms] normalizePath_name [of "bPath b"] by simp
    then show False using registry_plain [OF assms] registry_plain [OF that] by simp
  qed
  then show "find (\<lambda>b'. bPath b' = normalizePath (bPath b)) newRegistry = None"
    by (auto simp: find_None_iff)
  show "find (\<lambda>b'. normalizePath (bPath b') = normalizePath (bPath b)) newRegistry = Some b"
    using assms registry_unique by (intro find_unique) auto
qed

text \<open>A leaf whose path has the module prefixes and list keys of an instance resolves to the
  binding with the same normalised path.\<close>

lemma resolve_binding:
  assumes "b \<in> set newRegistry" "normalizePath p = normalizePath (bPath b)" "qciPath p = None"
  shows "resolve newRegistry p False v = (case parseValue (bKind b) v of
     Inl e \<Rightarrow> Inl (WrapErr (bKey b) e) | Inr parsed \<Rightarrow> Inr (Some (bKey b, parsed)))"
  using registry_find [OF assms(1)] assms(2,3)
  by (simp add: resolve_def isStructuralKeyPath_def Let_def split: sum.split)

lemma resolve_cases:
  assumes "resolve newRegistry p k v = Inr (Some (key, val))" "qciPath p = None"
  obtains b where "b \<in> set newRegistry" "key = bKey b" "parseValue (bKind b) v = Inr val"
  using assms
  by (auto simp: resolve_def isStructuralKeyPath_def Let_def dest: findD
      split: if_splits option.splits sum.splits)

lemma parseValue_kind: "parseValue kind v = Inr val \<Longrightarrow> kindOf val = Some kind"
  by (auto simp: parseValue_def split: valueKind.splits option.splits)

text \<open>The store refuses infinities and NaN, which the text of a number can denote.\<close>

definition finiteValue :: "goany \<Rightarrow> bool" where
  "finiteValue val \<longleftrightarrow> (case val of VFloat64 x \<Rightarrow> f64_finite x | _ \<Rightarrow> True)"

lemma coerce_same_kind:
  "kindOf old = Some k \<Longrightarrow> kindOf val = Some k \<Longrightarrow> finiteValue val \<Longrightarrow> \<exists>new. coerceLike old val = Some new \<and> kindOf new = Some k"
  by (cases old; cases val)
     (auto simp: finiteValue_def coerceLike_def asString_def asUint32_def asInt32_def asFloat64_def)

lemma currentValue_leaf:
  assumes "\<not> hasPrefix key ''qci_profiles[''" shows "currentValue newRegistry cfg key = leafValue cfg key"
proof (cases "find (\<lambda>b. bKey b = key) newRegistry")
  case None
  then have "key \<notin> set registryKeys" by (auto simp: find_None_iff registryKeys_def)
  then have "leafValue cfg key = None" by (simp add: leafValue_None_iff registryKeys_complete(1))
  then show ?thesis using None assms by (simp add: currentValue_def)
next
  case (Some b)
  then have "b \<in> set newRegistry" "bKey b = key" by (auto simp: find_Some_iff)
  then show ?thesis using Some assms registry_OK [of b] by (auto simp: currentValue_def bindingOK_def)
qed

text \<open>The text of a value in a payload.\<close>

fun leafText :: "goany \<Rightarrow> string" where
  "leafText (VString s) = s"
| "leafText (VInt32 w) = formatInt32 w"
| "leafText (VUint32 w) = formatUint32 w"
| "leafText (VBool b) = (if b then ''true'' else ''false'')"
| "leafText _ = []"

lemma formatNat_printable: "printable (hd (formatNat n)) \<and> printable (last (formatNat n))"
  using formatNat_digits [of n] isDigit_printable by (auto simp: list_all_iff)

lemma trimSpace_formatInt: "trimSpace (formatInt i) = formatInt i"
proof (rule trimSpace_printable)
  show "formatInt i = [] \<or> printable (hd (formatInt i)) \<and> printable (last (formatInt i))"
    using formatNat_printable formatNat_digits by (auto simp: formatInt_def printable_def)
qed

lemma trimSpace_format32: "trimSpace (formatInt32 w) = formatInt32 w" "trimSpace (formatUint32 u) = formatUint32 u"
  by (simp_all add: formatInt32_def formatUint32_def trimSpace_formatInt)

lemma parseValue_leafText:
  "kindOf val = Some k \<Longrightarrow> k \<noteq> kindFloat64 \<Longrightarrow> parseValue k (leafText val) = Inr val"
  by (cases val) (auto simp: parseValue_def trimSpace_format32 parseBool_def trimSpace_printable printable_def)

section \<open>A sample leaf\<close>

definition mccBinding :: leafBinding where
  "mccBinding = leaf (baseENBFunction @ ''/_3gpp-common-managed-element:mcc'') ''mcc'' kindString
     (\<lambda>c. VString (MCC c)) (nonEmptyString MCC)"

definition mccPath :: string where
  "mccPath = ''/_3gpp-common-managed-element:SubNetwork[id=1]/ManagedElement[id=2]/ENBFunction[id=3]/mcc''"

lemma mccBinding_in: "mccBinding \<in> set newRegistry"
  by (simp add: newRegistry_def enbBindings_def mccBinding_def)

lemma mccPath_binding: "normalizePath mccPath = normalizePath (bPath mccBinding)"
proof -
  have "normalizePath mccPath = normalizePath (baseENBFunction @ ''/_3gpp-common-managed-element:mcc'')"
    by code_simp
  then show ?thesis by (simp add: mccBinding_def)
qed

lemma mccPath_plain: "qciPath mccPath = None"
  by code_simp

section \<open>Properties\<close>


text \<open>C21: a scalar leaf that resolves is never refused by the store for its type: whatever text
  the client sent, if the registry turns it into a key and a finite value, the store assigns it, and the
  leaf then holds the converted value.\<close>

theorem resolved_leaf_is_accepted:
  assumes "resolve newRegistry p isKey v = Inr (Some (key, val))" and "qciPath p = None" and "finiteValue val"
  shows "\<exists>cfg' new. applyChange cfg key val = Inr cfg' \<and> leafValue cfg' = (leafValue cfg)(key \<mapsto> new)
    \<and> kindOf new = kindOf val"
proof -
  obtain b where b: "b \<in> set newRegistry" "key = bKey b" "parseValue (bKind b) v = Inr val"
    using assms(1,2) by (rule resolve_cases)
  have ok: "leafValue cfg key = Some (bGet b cfg)" "kindOf (bGet b cfg) = Some (bKind b)"
    using registry_OK [OF b(1)] b(2) by (auto simp: bindingOK_def)
  obtain new where new: "coerceLike (bGet b cfg) val = Some new" "kindOf new = Some (bKind b)"
    using coerce_same_kind [OF ok(2) parseValue_kind [OF b(3)] assms(3)] by blast
  have "key \<in> set leafKeys" using b registryKeys_complete by (auto simp: registryKeys_def)
  from applyChange_leaf [OF this ok(1), of val] new show ?thesis
    using parseValue_kind [OF b(3)] by auto
qed

theorem resolved_leaf_is_accepted_witness:
  "\<exists>cfg' new. applyChange sampleConfig ''mcc'' (VString ''999'') = Inr cfg'
    \<and> leafValue cfg' = (leafValue sampleConfig)(''mcc'' \<mapsto> new) \<and> kindOf new = kindOf (VString ''999'')"
proof (rule resolved_leaf_is_accepted [OF _ mccPath_plain])
  show "resolve newRegistry mccPath False ''999'' = Inr (Some (''mcc'', VString ''999''))"
    using resolve_binding [OF mccBinding_in mccPath_binding mccPath_plain]
    by (simp add: mccBinding_def parseValue_def)
qed (simp add: finiteValue_def)



end
