(* ===== verification/Traces.thy ===== *)
theory Traces
  imports Main
begin

text \<open>
  Runs of a component as sequences of labelled steps, and the contract of a component that lets
  one client hold a resource: what the steps of the other clients must leave alone, and what
  then holds of every run in which the holder takes no step.
\<close>

fun trace :: "('m \<Rightarrow> 'l \<Rightarrow> 'm \<Rightarrow> bool) \<Rightarrow> 'm \<Rightarrow> ('l \<times> 'm) list \<Rightarrow> bool" where
  "trace step m [] = True"
| "trace step m ((l, m') # tr) = (step m l m' \<and> trace step m' tr)"

definition traceEnd :: "'m \<Rightarrow> ('l \<times> 'm) list \<Rightarrow> 'm" where
  "traceEnd m tr = last (m # map snd tr)"

lemma traceEnd_simps [simp]:
  "traceEnd m [] = m" "traceEnd m ((l, m') # tr) = traceEnd m' tr"
  by (simp_all add: traceEnd_def)

text \<open>An invariant of the steps holds at the end of every run.\<close>

lemma trace_inv:
  "(\<And>m l m'. Q m \<Longrightarrow> step m l m' \<Longrightarrow> Q m') \<Longrightarrow> trace step m tr \<Longrightarrow> Q m \<Longrightarrow> Q (traceEnd m tr)"
  by (induction step m tr rule: trace.induct) auto

lemma trace_snoc: "trace step m (tr @ [(l, m')]) \<longleftrightarrow> trace step m tr \<and> step (traceEnd m tr) l m'"
  by (induction step m tr rule: trace.induct) auto

lemma traceEnd_snoc [simp]: "traceEnd m (tr @ [(l, m')]) = m'"
  by (simp add: traceEnd_def)

text \<open>An invariant that also speaks of the labels so far.\<close>

lemma trace_history:
  assumes "trace step m tr" "Q m []"
    and "\<And>m l m' ls. Q m ls \<Longrightarrow> step m l m' \<Longrightarrow> Q m' (ls @ [l])"
  shows "Q (traceEnd m tr) (map fst tr)"
  using assms(1)
proof (induction tr rule: rev_induct)
  case (snoc lm tr)
  then show ?case using assms(3) by (cases lm) (auto simp: trace_snoc)
qed (simp add: assms(2))

locale exclusion =
  fixes ok :: "'m \<Rightarrow> bool"
    and step :: "'m \<Rightarrow> 'l \<Rightarrow> 'm \<Rightarrow> bool"
    and holds :: "'m \<Rightarrow> 'd \<Rightarrow> 'o option"
    and foreign :: "'m \<Rightarrow> 'o \<Rightarrow> 'l \<Rightarrow> bool"
  assumes step_ok: "ok m \<Longrightarrow> step m l m' \<Longrightarrow> ok m'"
    and step_foreign: "ok m \<Longrightarrow> step m l m' \<Longrightarrow> foreign m' ow l' = foreign m ow l'"
    and step_holds: "ok m \<Longrightarrow> step m l m' \<Longrightarrow> holds m d = Some ow \<Longrightarrow> foreign m ow l \<Longrightarrow> holds m' d = Some ow"
begin

lemma run_ok: "trace step m tr \<Longrightarrow> ok m \<Longrightarrow> ok (traceEnd m tr)"
  using step_ok by (rule trace_inv)

lemma run_holds:
  assumes "trace step m tr" "ok m" "holds m d = Some ow" "\<And>l m'. (l, m') \<in> set tr \<Longrightarrow> foreign m ow l"
  shows "holds (traceEnd m tr) d = Some ow"
  using assms
proof (induction tr arbitrary: m)
  case (Cons lm tr)
  obtain l m' where lm: "lm = (l, m')" by (cases lm)
  with Cons.prems have s: "step m l m'" "trace step m' tr" and f: "foreign m ow l" by auto
  have "holds m' d = Some ow" using step_holds [OF Cons.prems(2) s(1) Cons.prems(3) f] .
  moreover have "foreign m' ow l'" if "(l', m'') \<in> set tr" for l' m''
    using Cons.prems(4) [of l' m''] that step_foreign [OF Cons.prems(2) s(1)] by simp
  ultimately have "holds (traceEnd m' tr) d = Some ow"
    using Cons.IH [OF s(2) step_ok [OF Cons.prems(2) s(1)]] by blast
  then show ?case by (simp add: lm)
qed simp

text \<open>The resource changes hands only in a run with a step that is not foreign to its holder.\<close>

lemma run_lost:
  assumes "trace step m tr" "ok m" "holds m d = Some ow" "holds (traceEnd m tr) d \<noteq> Some ow"
  shows "\<exists>(l, m') \<in> set tr. \<not> foreign m ow l"
  using run_holds [OF assms(1-3)] assms(4) by blast

end

text \<open>
  A component that announces every change of a view on its state: a listener who keeps, for each
  key, the value of the last event about it has the view, after any run from a state in which the
  events so far explain it.
\<close>

definition replay :: "('e \<Rightarrow> 'k) \<Rightarrow> ('e \<Rightarrow> 'v) \<Rightarrow> 'e list \<Rightarrow> 'k \<Rightarrow> 'v option" where
  "replay key val es = fold (\<lambda>e f. f(key e \<mapsto> val e)) es (\<lambda>_. None)"

lemma replay_append: "replay key val (es @ es') = fold (\<lambda>e f. f(key e \<mapsto> val e)) es' (replay key val es)"
  by (simp add: replay_def)

locale announced =
  fixes ok :: "'m \<Rightarrow> bool"
    and step :: "'m \<Rightarrow> 'l \<Rightarrow> 'm \<Rightarrow> bool"
    and log :: "'m \<Rightarrow> 'e list"
    and view :: "'m \<Rightarrow> 'k \<Rightarrow> 'v option"
    and key :: "'e \<Rightarrow> 'k"
    and val :: "'e \<Rightarrow> 'v"
  assumes step_ok: "ok m \<Longrightarrow> step m l m' \<Longrightarrow> ok m'"
    and step_log: "ok m \<Longrightarrow> step m l m' \<Longrightarrow>
      \<exists>es. log m' = log m @ es \<and> view m' = fold (\<lambda>e f. f(key e \<mapsto> val e)) es (view m)"
begin

lemma run_ok: "trace step m tr \<Longrightarrow> ok m \<Longrightarrow> ok (traceEnd m tr)"
  using step_ok by (rule trace_inv)

lemma run_replay:
  assumes "trace step m tr" "ok m" "replay key val (log m) = view m"
  shows "replay key val (log (traceEnd m tr)) = view (traceEnd m tr)"
  using assms
proof (induction tr arbitrary: m)
  case (Cons lm tr)
  obtain l m' where lm: "lm = (l, m')" by (cases lm)
  with Cons.prems have s: "step m l m'" "trace step m' tr" by auto
  obtain es where "log m' = log m @ es" "view m' = fold (\<lambda>e f. f(key e \<mapsto> val e)) es (view m)"
    using step_log [OF Cons.prems(2) s(1)] by blast
  then have "replay key val (log m') = view m'" using Cons.prems(3) by (simp add: replay_append)
  then show ?case using Cons.IH [OF s(2) step_ok [OF Cons.prems(2) s(1)]] lm by simp
qed simp

end

end
