(* ===== verification/Locks.thy ===== *)
theory Locks
  imports Renderer GoTime Traces GoMaps
begin

text \<open>
  The lock manager of the NETCONF front end
  (\<^verbatim>\<open>internal/ems/netconfcm/locks.go\<close>) and its error values
  (\<^verbatim>\<open>internal/ems/netconfcm/rpc_error.go\<close>).

  A Go map is an association list with distinct keys; its order is the order in which a
  \<^verbatim>\<open>range\<close> loop visits the entries. An instant is its distance in nanoseconds from Go's
  zero time, and a call takes the readings of \<^verbatim>\<open>time.Now\<close> that it makes as arguments, in
  their order. The mutex makes each call one step.
\<close>

section \<open>Error values\<close>

record RPCError =
  Tag :: string
  Type :: string
  AppTag :: string
  Message :: string
  OwnerSessionID :: uint64

definition ErrorTagInUse :: string where "ErrorTagInUse = ''in-use''"
definition ErrorTagInvalidValue :: string where "ErrorTagInvalidValue = ''invalid-value''"
definition ErrorTagLockDenied :: string where "ErrorTagLockDenied = ''lock-denied''"
definition ErrorTagOperationFailed :: string where "ErrorTagOperationFailed = ''operation-failed''"

definition NewRPCError :: "string \<Rightarrow> string \<Rightarrow> RPCError" where
  "NewRPCError tag message =
     \<lparr>Tag = (if tag = [] then ErrorTagOperationFailed else tag), Type = ''application'', AppTag = [],
      Message = message, OwnerSessionID = 0\<rparr>"

definition NewLockDenied :: "string \<Rightarrow> uint64 \<Rightarrow> RPCError" where
  "NewLockDenied message owner =
     \<lparr>Tag = ErrorTagLockDenied, Type = ''protocol'', AppTag = [], Message = message, OwnerSessionID = owner\<rparr>"

definition NewInUse :: "string \<Rightarrow> uint64 \<Rightarrow> RPCError" where
  "NewInUse message owner =
     \<lparr>Tag = ErrorTagInUse, Type = ''protocol'', AppTag = [], Message = message, OwnerSessionID = owner\<rparr>"

definition RPCErrorText :: "RPCError \<Rightarrow> string" where
  "RPCErrorText e =
     (if OwnerSessionID e \<noteq> 0
      then Message e @ '' (session '' @ formatInt (uint (OwnerSessionID e)) @ '')''
      else Message e)"

text \<open>The method \<^verbatim>\<open>Error\<close> of the error values; of an error of the operating system the
  text of its code, without the operation and the path that \<^verbatim>\<open>PathError\<close> puts before it.\<close>

fun errText :: "err \<Rightarrow> string" where
  "errText (Errorf s) = s"
| "errText (OSErr ENOENT) = ''no such file or directory''"
| "errText (OSErr EEXIST) = ''file exists''"
| "errText (OSErr EPERM) = ''operation not permitted''"
| "errText (OSErr EBUSY) = ''device or resource busy''"
| "errText (OSErr EXDEV) = ''invalid cross-device link''"
| "errText (OSErr EIO) = ''input/output error''"
| "errText (WrapErr s e) = s @ '': '' @ errText e"

section \<open>State\<close>

definition DefaultLockTTL :: int where "DefaultLockTTL = 30 * 1000000000"

record lockOwner =
  SessionID :: uint64
  Username :: string
  LastSeen :: time

record lockManager =
  locks :: "(string \<times> lockOwner) list"
  sessions :: "(uint64 \<times> lockOwner) list"
  ttl :: int

record SessionMeta =
  sid :: uint64
  user :: string

definition newLockManager :: lockManager where
  "newLockManager = \<lparr>locks = [], sessions = [], ttl = DefaultLockTTL\<rparr>"

definition normalizeDatastore :: "string \<Rightarrow> string result" where
  "normalizeDatastore ds0 = (let ds = trimSpace ds0 in
     if ds = ''candidate'' \<or> ds = ''running'' then Inr ds
     else Inl (Errorf (''unsupported datastore '' @ goQuote ds)))"

section \<open>Operations\<close>

text \<open>The entries that \<^verbatim>\<open>expireLocked\<close> deletes.\<close>

definition lockDead :: "int \<Rightarrow> time \<Rightarrow> lockOwner \<Rightarrow> bool" where
  "lockDead limit now owner \<longleftrightarrow>
     \<not> (SessionID owner = 0 \<or> isZero (LastSeen owner)) \<and> \<not> timeSub now (LastSeen owner) \<le> limit"

definition sessionDead :: "int \<Rightarrow> time \<Rightarrow> lockOwner \<Rightarrow> bool" where
  "sessionDead limit now owner \<longleftrightarrow> \<not> isZero (LastSeen owner) \<and> timeSub now (LastSeen owner) > limit"

definition expireLocked :: "lockManager \<Rightarrow> time \<Rightarrow> (uint64 list \<times> bool) \<times> lockManager" where
  "expireLocked m now =
     (if ttl m \<le> 0 then (([], False), m)
      else
        let deadLocks = filter (\<lambda>(ds, owner). lockDead (ttl m) now owner) (locks m);
            deadSessions = filter (\<lambda>(i, owner). sessionDead (ttl m) now owner) (sessions m)
        in ((remdups (map (\<lambda>(ds, owner). SessionID owner) deadLocks @ map fst deadSessions),
             ''candidate'' \<in> set (map fst deadLocks)),
            m\<lparr>locks := filter (\<lambda>(ds, owner). \<not> lockDead (ttl m) now owner) (locks m),
              sessions := filter (\<lambda>(i, owner). \<not> sessionDead (ttl m) now owner) (sessions m)\<rparr>))"

definition touchLocked :: "lockManager \<Rightarrow> SessionMeta \<Rightarrow> time \<Rightarrow> lockManager" where
  "touchLocked m meta now =
     (if sid meta = 0 then m
      else
        let name = trimSpace (user meta);
            name' = (case map_of (sessions m) (sid meta) of
                       Some existing \<Rightarrow> if name = [] then Username existing else name
                     | None \<Rightarrow> name)
        in m\<lparr>sessions := AList.update (sid meta)
               \<lparr>SessionID = sid meta, Username = name', LastSeen = now\<rparr> (sessions m)\<rparr>)"

definition lock :: "lockManager \<Rightarrow> string \<Rightarrow> SessionMeta \<Rightarrow> time \<Rightarrow> RPCError option \<times> lockManager" where
  "lock m ds0 meta now = (case normalizeDatastore ds0 of
       Inl e \<Rightarrow> (Some (NewRPCError ErrorTagInvalidValue (errText e)), m)
     | Inr ds \<Rightarrow>
         let m = touchLocked (snd (expireLocked m now)) meta now in
         (case map_of (locks m) ds of
            Some owner \<Rightarrow>
              if SessionID owner = sid meta
              then (Some (NewLockDenied (ds @ '' datastore is already locked by this session'') (SessionID owner)),
                    m\<lparr>locks := AList.update ds (owner\<lparr>LastSeen := now\<rparr>) (locks m)\<rparr>)
              else (Some (NewLockDenied (ds @ '' datastore is locked by another session'') (SessionID owner)), m)
          | None \<Rightarrow>
              (None, m\<lparr>locks := AList.update ds
                 \<lparr>SessionID = sid meta, Username = trimSpace (user meta), LastSeen = now\<rparr> (locks m)\<rparr>)))"

definition unlock ::
    "lockManager \<Rightarrow> string \<Rightarrow> SessionMeta \<Rightarrow> time \<Rightarrow> time \<Rightarrow> RPCError option \<times> lockManager" where
  "unlock m ds0 meta t1 t2 = (case normalizeDatastore ds0 of
       Inl e \<Rightarrow> (Some (NewRPCError ErrorTagInvalidValue (errText e)), m)
     | Inr ds \<Rightarrow>
         let m = touchLocked (snd (expireLocked m t1)) meta t2 in
         (case map_of (locks m) ds of
            None \<Rightarrow> (None, m)
          | Some owner \<Rightarrow>
              if SessionID owner \<noteq> sid meta
              then (Some \<lparr>Tag = ErrorTagOperationFailed, Type = ''protocol'', AppTag = [],
                      Message = ds @ '' datastore is locked by another session'',
                      OwnerSessionID = SessionID owner\<rparr>, m)
              else (None, m\<lparr>locks := AList.delete ds (locks m)\<rparr>)))"

definition ensure ::
    "lockManager \<Rightarrow> string \<Rightarrow> SessionMeta \<Rightarrow> string \<Rightarrow> time \<Rightarrow> time \<Rightarrow> RPCError option \<times> lockManager" where
  "ensure m ds0 meta conflictTag t1 t2 = (case normalizeDatastore ds0 of
       Inl e \<Rightarrow> (Some (NewRPCError ErrorTagInvalidValue (errText e)), m)
     | Inr ds \<Rightarrow>
         let m = touchLocked (snd (expireLocked m t1)) meta t2 in
         (case map_of (locks m) ds of
            Some owner \<Rightarrow>
              if SessionID owner \<noteq> sid meta
              then let msg = ds @ '' datastore is locked by another session'' in
                   (Some (if conflictTag = ErrorTagInUse then NewInUse msg (SessionID owner)
                          else NewLockDenied msg (SessionID owner)), m)
              else (None, m)
          | None \<Rightarrow> (None, m)))"

definition releaseSession :: "lockManager \<Rightarrow> uint64 \<Rightarrow> bool \<times> lockManager" where
  "releaseSession m i =
     (if i = 0 then (False, m)
      else
        (''candidate'' \<in> set (map fst (filter (\<lambda>(ds, owner). SessionID owner = i) (locks m))),
         m\<lparr>sessions := AList.delete i (sessions m),
           locks := filter (\<lambda>(ds, owner). SessionID owner \<noteq> i) (locks m)\<rparr>))"

definition resetAll :: "lockManager \<Rightarrow> bool \<times> lockManager" where
  "resetAll m = (''candidate'' \<in> set (map fst (locks m)), m\<lparr>locks := [], sessions := []\<rparr>)"

text \<open>One iteration of the loop of \<^verbatim>\<open>keepAlive\<close>.\<close>

definition keepAliveOne :: "time \<Rightarrow> SessionMeta \<Rightarrow> lockManager \<Rightarrow> lockManager" where
  "keepAliveOne now meta m =
     (if sid meta = 0 then m
      else
        let name = trimSpace (user meta) in
        m\<lparr>sessions := AList.update (sid meta)
            \<lparr>SessionID = sid meta, Username = name, LastSeen = now\<rparr> (sessions m),
          locks := map (\<lambda>(ds, current).
            if SessionID current = sid meta
            then (ds, current\<lparr>LastSeen := now, Username := (if name \<noteq> [] then name else Username current)\<rparr>)
            else (ds, current)) (locks m)\<rparr>)"

definition keepAlive :: "lockManager \<Rightarrow> SessionMeta list \<Rightarrow> time \<Rightarrow> time \<Rightarrow> lockManager" where
  "keepAlive m metas now0 clk = (let now = (if isZero now0 then clk else now0) in
     fold (keepAliveOne now) metas m)"

definition sweep :: "lockManager \<Rightarrow> time \<Rightarrow> time \<Rightarrow> (uint64 list \<times> bool) \<times> lockManager" where
  "sweep m now0 clk = expireLocked m (if isZero now0 then clk else now0)"

section \<open>Well-formed states\<close>

definition holder :: "lockManager \<Rightarrow> string \<Rightarrow> lockOwner option" where
  "holder m ds = map_of (locks m) ds"

definition sessionsOK :: "(uint64 \<times> lockOwner) list \<Rightarrow> bool" where
  "sessionsOK xs \<longleftrightarrow> distinct (map fst xs) \<and> (\<forall>(i, owner) \<in> set xs. i \<noteq> 0 \<and> SessionID owner = i)"

definition lockWF :: "lockManager \<Rightarrow> bool" where
  "lockWF m \<longleftrightarrow> distinct (map fst (locks m)) \<and> sessionsOK (sessions m)
     \<and> set (map fst (locks m)) \<subseteq> {''candidate'', ''running''}
     \<and> 0 < ttl m \<and> ttl m < 2 ^ 63 - 1"

lemma map_of_filter_value:
  "distinct (map fst xs) \<Longrightarrow> map_of (filter (\<lambda>(k, v). P v) xs) k =
     (case map_of xs k of Some v \<Rightarrow> if P v then Some v else None | None \<Rightarrow> None)"
proof (induction xs)
  case (Cons x xs)
  then have "map_of xs (fst x) = None" by (auto simp: map_of_eq_None_iff)
  with Cons show ?case by (cases x) (auto split: option.splits)
qed simp

lemma distinct_filter_keys: "distinct (map fst xs) \<Longrightarrow> distinct (map fst (filter P xs))"
  by (induction xs) (auto simp: image_iff)

lemma filter_keys_subset: "set (map fst (filter P xs)) \<subseteq> set (map fst xs)"
  by auto

lemma normalizeDatastore_Inr:
  "normalizeDatastore ds0 = Inr ds \<Longrightarrow> ds = trimSpace ds0 \<and> ds \<in> {''candidate'', ''running''}"
  by (auto simp: normalizeDatastore_def Let_def split: if_splits)

lemma trimSpace_datastore [simp]:
  "trimSpace ''candidate'' = ''candidate''" "trimSpace ''running'' = ''running''"
  by (rule trimSpace_printable; simp add: printable_def)+

lemma normalizeDatastore_known [simp]:
  "ds \<in> {''candidate'', ''running''} \<Longrightarrow> normalizeDatastore ds = Inr ds"
  by (auto simp: normalizeDatastore_def)

lemma sessionsOK_update:
  "sessionsOK xs \<Longrightarrow> i \<noteq> 0 \<Longrightarrow> SessionID owner = i \<Longrightarrow> sessionsOK (AList.update i owner xs)"
  using set_update_subset [of i owner xs] by (fastforce simp: sessionsOK_def distinct_update)

lemma sessionsOK_filter: "sessionsOK xs \<Longrightarrow> sessionsOK (filter P xs)"
  by (auto simp: sessionsOK_def distinct_filter_keys)

lemma sessionsOK_delete: "sessionsOK xs \<Longrightarrow> sessionsOK (AList.delete i xs)"
  by (simp add: AList.delete_eq sessionsOK_filter)

named_theorems lock_frame \<open>what the operations leave of the lock table\<close>

lemma touch_frame [lock_frame, simp]:
  "locks (touchLocked m meta t) = locks m" "ttl (touchLocked m meta t) = ttl m"
  by (simp_all add: touchLocked_def Let_def)

lemma expire_ttl [lock_frame, simp]: "ttl (snd (expireLocked m t)) = ttl m"
  by (simp add: expireLocked_def Let_def)

lemma expire_holder [lock_frame]:
  "lockWF m \<Longrightarrow> holder (snd (expireLocked m t)) ds =
     (case holder m ds of Some owner \<Rightarrow> if lockDead (ttl m) t owner then None else Some owner | None \<Rightarrow> None)"
  by (simp add: holder_def expireLocked_def Let_def lockWF_def map_of_filter_value split: option.split)

lemma expire_WF: "lockWF m \<Longrightarrow> lockWF (snd (expireLocked m t))"
  by (auto simp: lockWF_def expireLocked_def Let_def distinct_filter_keys sessionsOK_filter)

lemma touch_WF: "lockWF m \<Longrightarrow> lockWF (touchLocked m meta t)"
  by (simp add: lockWF_def touchLocked_def Let_def sessionsOK_update)

lemma update_WF:
  "lockWF m \<Longrightarrow> ds \<in> {''candidate'', ''running''} \<Longrightarrow> lockWF (m\<lparr>locks := AList.update ds owner (locks m)\<rparr>)"
  unfolding lockWF_def by (simp add: distinct_update keys_update del: set_map)

lemma lock_WF: "lockWF m \<Longrightarrow> lockWF (snd (lock m ds meta t))"
  using normalizeDatastore_Inr [of ds]
  by (auto simp: lock_def Let_def expire_WF touch_WF simp del: touch_frame
      intro!: update_WF split: sum.split option.split)

lemma ensure_state:
  "snd (ensure m ds meta tag t1 t2) = (if is_ok (normalizeDatastore ds)
     then touchLocked (snd (expireLocked m t1)) meta t2 else m)"
  by (auto simp: ensure_def Let_def split: sum.split option.split)

lemma ensure_WF: "lockWF m \<Longrightarrow> lockWF (snd (ensure m ds meta tag t1 t2))"
  by (simp add: ensure_state expire_WF touch_WF)

lemma delete_WF: "lockWF m \<Longrightarrow> lockWF (m\<lparr>locks := AList.delete ds (locks m)\<rparr>)"
  by (auto simp: lockWF_def AList.delete_eq distinct_filter_keys)

lemma unlock_WF: "lockWF m \<Longrightarrow> lockWF (snd (unlock m ds meta t1 t2))"
  by (auto simp: unlock_def Let_def expire_WF touch_WF simp del: touch_frame
      intro!: delete_WF split: sum.split option.split)

lemma releaseSession_WF: "lockWF m \<Longrightarrow> lockWF (snd (releaseSession m i))"
  by (auto simp: lockWF_def releaseSession_def distinct_filter_keys sessionsOK_delete)

lemma resetAll_WF: "lockWF m \<Longrightarrow> lockWF (snd (resetAll m))"
  by (simp add: lockWF_def resetAll_def sessionsOK_def)

text \<open>Renewing the entry of one session.\<close>

definition renew :: "time \<Rightarrow> SessionMeta \<Rightarrow> lockOwner \<Rightarrow> lockOwner" where
  "renew now meta current = (if SessionID current = sid meta
     then current\<lparr>LastSeen := now,
       Username := (if trimSpace (user meta) \<noteq> [] then trimSpace (user meta) else Username current)\<rparr>
     else current)"

lemma renew_simps [simp]:
  "SessionID (renew now meta ow) = SessionID ow"
  "LastSeen (renew now meta ow) = (if SessionID ow = sid meta then now else LastSeen ow)"
  by (simp_all add: renew_def)

lemma keepAliveOne_locks:
  "locks (keepAliveOne now meta m) =
     (if sid meta = 0 then locks m else map (\<lambda>(ds, current). (ds, renew now meta current)) (locks m))"
  by (auto simp: keepAliveOne_def Let_def renew_def)

lemma keepAliveOne_holder:
  "holder (keepAliveOne now meta m) ds =
     (if sid meta = 0 then holder m ds else map_option (renew now meta) (holder m ds))"
  by (simp add: holder_def keepAliveOne_locks map_of_map)

lemma keepAliveOne_ttl [simp]: "ttl (keepAliveOne now meta m) = ttl m"
  by (simp add: keepAliveOne_def Let_def)

lemma keepAliveOne_WF: "lockWF m \<Longrightarrow> lockWF (keepAliveOne now meta m)"
proof -
  assume wf: "lockWF m"
  have "map fst (locks (keepAliveOne now meta m)) = map fst (locks m)"
    by (simp add: keepAliveOne_locks case_prod_beta comp_def)
  moreover have "sessionsOK (sessions (keepAliveOne now meta m))"
    using wf by (simp add: keepAliveOne_def Let_def lockWF_def sessionsOK_update)
  ultimately show ?thesis using wf by (simp only: lockWF_def keepAliveOne_ttl)
qed

lemma fold_keepAlive_WF: "lockWF m \<Longrightarrow> lockWF (fold (keepAliveOne now) metas m)"
  by (induction metas arbitrary: m) (auto intro: keepAliveOne_WF)

lemma fold_keepAlive_ttl [simp]: "ttl (fold (keepAliveOne now) metas m) = ttl m"
  by (induction metas arbitrary: m) auto

section \<open>The calls as steps\<close>

text \<open>A step is labelled by the sessions in whose name it acts and by the latest clock reading
  it makes. A reset acts for every session.\<close>

inductive lockStep :: "lockManager \<Rightarrow> uint64 set \<times> time \<Rightarrow> lockManager \<Rightarrow> bool" where
  lock: "lockStep m ({sid meta}, t) (snd (lock m ds meta t))"
| unlock: "t1 \<le> t2 \<Longrightarrow> lockStep m ({sid meta}, t2) (snd (unlock m ds meta t1 t2))"
| ensure: "t1 \<le> t2 \<Longrightarrow> lockStep m ({sid meta}, t2) (snd (ensure m ds meta tag t1 t2))"
| releaseSession: "lockStep m ({i}, t) (snd (releaseSession m i))"
| resetAll: "lockStep m (UNIV, t) (snd (resetAll m))"
| keepAlive: "t = (if isZero now then clk else now) \<Longrightarrow> lockStep m (sid ` set metas, t) (keepAlive m metas now clk)"
| sweep: "t = (if isZero now then clk else now) \<Longrightarrow> lockStep m ({}, t) (snd (sweep m now clk))"

inductive_cases lockStepE: "lockStep m l m'"

lemmas lock_WFs = lock_WF unlock_WF ensure_WF releaseSession_WF resetAll_WF expire_WF

lemma lockStep_WF: "lockStep m l m' \<Longrightarrow> lockWF m \<Longrightarrow> lockWF m'"
  by (erule lockStepE) (auto simp: keepAlive_def sweep_def Let_def lock_WFs fold_keepAlive_WF)

lemma newLockManager_WF: "lockWF newLockManager"
  by (simp add: lockWF_def sessionsOK_def newLockManager_def DefaultLockTTL_def)

lemma lockStep_ttl: "lockStep m l m' \<Longrightarrow> ttl m' = ttl m"
  by (erule lockStepE) (auto simp: lock_def unlock_def ensure_state releaseSession_def resetAll_def
      keepAlive_def sweep_def Let_def split: sum.split option.split)

section \<open>Exclusion\<close>

text \<open>A lock is alive up to the instant \<open>LastSeen + ttl\<close>.\<close>

lemma lockDead_iff:
  "lockWF m \<Longrightarrow> lockDead (ttl m) t owner \<longleftrightarrow>
     SessionID owner \<noteq> 0 \<and> LastSeen owner \<noteq> 0 \<and> LastSeen owner + ttl m < t"
  using timeSub_le [of "ttl m" t "LastSeen owner"] by (auto simp: lockDead_def lockWF_def)

lemma expire_alive:
  "lockWF m \<Longrightarrow> holder m ds = Some owner \<Longrightarrow> t \<le> LastSeen owner + ttl m \<Longrightarrow>
     holder (snd (expireLocked m t)) ds = Some owner"
  by (simp add: expire_holder lockDead_iff)

lemma touch_holder [simp]: "holder (touchLocked m meta t) ds = holder m ds"
  by (simp add: holder_def)

lemma set_holder [simp]: "holder (m\<lparr>locks := xs\<rparr>) ds = map_of xs ds"
  by (simp add: holder_def)

lemma release_holder:
  "lockWF m \<Longrightarrow> holder (snd (releaseSession m i)) ds =
     (case holder m ds of Some owner \<Rightarrow> if i \<noteq> 0 \<and> SessionID owner = i then None else Some owner | None \<Rightarrow> None)"
  by (simp add: holder_def releaseSession_def lockWF_def map_of_filter_value split: option.split)

lemma release_flag:
  assumes "lockWF m"
  shows "fst (releaseSession m i) \<longleftrightarrow> i \<noteq> 0 \<and> (\<exists>ow. holder m ''candidate'' = Some ow \<and> SessionID ow = i)"
proof -
  have d: "distinct (map fst (locks m))" using assms by (simp add: lockWF_def)
  show ?thesis using map_of_eq_Some_iff [OF d] by (force simp: releaseSession_def holder_def)
qed

lemma fold_keepAlive_other:
  "holder m ds = Some ow \<Longrightarrow> SessionID ow \<notin> sid ` set metas \<Longrightarrow>
     holder (fold (keepAliveOne now) metas m) ds = Some ow"
  by (induction metas arbitrary: m) (auto simp: keepAliveOne_holder renew_def)

definition foreignTo :: "lockManager \<Rightarrow> lockOwner \<Rightarrow> uint64 set \<times> time \<Rightarrow> bool" where
  "foreignTo m owner l \<longleftrightarrow> SessionID owner \<notin> fst l \<and> snd l \<le> LastSeen owner + ttl m"

lemma lockStep_holder:
  assumes "lockStep m l m'" "lockWF m" "holder m ds = Some ow" "foreignTo m ow l"
  shows "holder m' ds = Some ow"
proof -
  have alive: "holder (snd (expireLocked m t)) ds = Some ow" if "t \<le> snd l" for t
    using assms that by (intro expire_alive) (auto simp: foreignTo_def)
  have alive': "map_of (locks (snd (expireLocked m t))) ds = Some ow" if "t \<le> snd l" for t
    using alive [OF that] by (simp add: holder_def)
  show ?thesis using assms(1)
  proof (cases rule: lockStep.cases)
    case (lock meta t d)
    then show ?thesis using assms alive [of t] alive' [of t]
      by (auto simp: foreignTo_def lock_def Let_def update_conv' split: sum.split option.split)
  next
    case (unlock t1 t2 meta d)
    then show ?thesis using assms alive [of t1] alive' [of t1]
      by (auto simp: foreignTo_def unlock_def Let_def delete_conv' split: sum.split option.split)
  qed (use assms alive in \<open>auto simp: foreignTo_def ensure_state keepAlive_def sweep_def Let_def
      release_holder fold_keepAlive_other\<close>)
qed

interpretation lk: exclusion lockWF lockStep holder foreignTo
  by unfold_locales (auto simp: foreignTo_def lockStep_WF lockStep_ttl lockStep_holder)

text \<open>What a session other than the holder gets.\<close>

lemma holder_known: "lockWF m \<Longrightarrow> holder m ds = Some ow \<Longrightarrow> ds \<in> {''candidate'', ''running''}"
  by (auto simp: lockWF_def holder_def dest!: map_of_SomeD)

lemma refused:
  assumes "lockWF m" "holder m ds = Some ow" "t1 \<le> LastSeen ow + ttl m" "sid meta \<noteq> SessionID ow"
  shows "\<exists>e. fst (lock m ds meta t1) = Some e \<and> OwnerSessionID e = SessionID ow"
    and "\<exists>e. fst (unlock m ds meta t1 t2) = Some e \<and> OwnerSessionID e = SessionID ow"
    and "\<exists>e. fst (ensure m ds meta tag t1 t2) = Some e \<and> OwnerSessionID e = SessionID ow"
proof -
  have "map_of (locks (snd (expireLocked m t1))) ds = Some ow"
    using expire_alive [OF assms(1-3)] by (simp add: holder_def)
  moreover have "normalizeDatastore ds = Inr ds"
    using holder_known [OF assms(1,2)] by simp
  ultimately show "\<exists>e. fst (lock m ds meta t1) = Some e \<and> OwnerSessionID e = SessionID ow"
      "\<exists>e. fst (unlock m ds meta t1 t2) = Some e \<and> OwnerSessionID e = SessionID ow"
      "\<exists>e. fst (ensure m ds meta tag t1 t2) = Some e \<and> OwnerSessionID e = SessionID ow"
    using assms(4) by (auto simp: lock_def unlock_def ensure_def Let_def NewLockDenied_def NewInUse_def)
qed

section \<open>Locks and sessions\<close>

text \<open>States reached with a clock that does not run backwards, with the latest reading.\<close>

inductive lockReachable :: "time \<Rightarrow> lockManager \<Rightarrow> bool" where
  init: "0 < t \<Longrightarrow> lockReachable t newLockManager"
| step: "lockReachable t m \<Longrightarrow> lockStep m (A, t') m' \<Longrightarrow> t \<le> t' \<Longrightarrow> lockReachable t' m'"

text \<open>When a session was last seen, and that the entry of a lock has a session at least as recent.\<close>

definition seen :: "lockManager \<Rightarrow> uint64 \<Rightarrow> time option" where
  "seen m i = map_option LastSeen (map_of (sessions m) i)"

definition backed :: "lockManager \<Rightarrow> lockOwner \<Rightarrow> bool" where
  "backed m ow \<longleftrightarrow> SessionID ow = 0 \<or> (\<exists>t. seen m (SessionID ow) = Some t \<and> LastSeen ow \<le> t)"

definition lockSync :: "time \<Rightarrow> lockManager \<Rightarrow> bool" where
  "lockSync T m \<longleftrightarrow> 0 < T \<and> (\<forall>ds ow. holder m ds = Some ow \<longrightarrow> 0 < LastSeen ow \<and> LastSeen ow \<le> T \<and> backed m ow)"

lemma lockSyncD:
  "lockSync T m \<Longrightarrow> holder m ds = Some ow \<Longrightarrow> 0 < LastSeen ow \<and> LastSeen ow \<le> T \<and> backed m ow"
  unfolding lockSync_def by blast

lemma lockSync_mono: "lockSync T m \<Longrightarrow> T \<le> T' \<Longrightarrow> lockSync T' m"
  unfolding lockSync_def by force

lemma expire_sessions:
  "lockWF m \<Longrightarrow> map_of (sessions (snd (expireLocked m t))) i =
     (case map_of (sessions m) i of Some s \<Rightarrow> if sessionDead (ttl m) t s then None else Some s | None \<Rightarrow> None)"
  using map_of_filter_value [of "sessions m" "\<lambda>s. \<not> sessionDead (ttl m) t s" i]
  by (auto simp: expireLocked_def Let_def lockWF_def sessionsOK_def split: option.split)

lemma expire_sync:
  assumes "lockSync T m" "lockWF m" shows "lockSync T (snd (expireLocked m t))"
proof -
  have "backed (snd (expireLocked m t)) ow"
    if h: "holder m ds = Some ow" and alive: "\<not> lockDead (ttl m) t ow" for ds ow
  proof (cases "SessionID ow = 0")
    case False
    note o = lockSyncD [OF assms(1) h]
    then obtain s where s: "map_of (sessions m) (SessionID ow) = Some s" "LastSeen ow \<le> LastSeen s"
      using False by (auto simp: backed_def seen_def)
    have "t \<le> LastSeen ow + ttl m" using alive o False by (auto simp: lockDead_iff [OF assms(2)])
    with s(2) have "\<not> sessionDead (ttl m) t s"
      using timeSub_le [of "ttl m" t "LastSeen s"] assms(2) by (auto simp: sessionDead_def lockWF_def)
    then show ?thesis using s by (simp add: backed_def seen_def expire_sessions [OF assms(2)])
  qed (simp add: backed_def)
  then show ?thesis using assms(1)
    by (auto simp: lockSync_def expire_holder [OF assms(2)] split: option.splits if_splits)
qed

lemma touch_seen:
  "seen (touchLocked m meta t) i = (if i = sid meta \<and> i \<noteq> 0 then Some t else seen m i)"
  by (simp add: seen_def touchLocked_def Let_def update_conv')

lemma touch_backed: "backed m ow \<Longrightarrow> LastSeen ow \<le> t \<Longrightarrow> backed (touchLocked m meta t) ow"
  by (auto simp: backed_def touch_seen)

lemma touch_sync: "lockSync T m \<Longrightarrow> T \<le> t \<Longrightarrow> lockSync t (touchLocked m meta t)"
  unfolding lockSync_def using touch_backed by fastforce

lemma set_backed [simp]: "backed (m\<lparr>locks := xs\<rparr>) = backed m"
  by (simp add: backed_def seen_def fun_eq_iff)

lemma touched_backed: "SessionID ow = sid meta \<Longrightarrow> LastSeen ow \<le> t \<Longrightarrow> backed (touchLocked m meta t) ow"
  by (auto simp: backed_def touch_seen)

lemma keepAliveOne_seen:
  "seen (keepAliveOne now meta m) i = (if i = sid meta \<and> i \<noteq> 0 then Some now else seen m i)"
  by (simp add: seen_def keepAliveOne_def Let_def update_conv')

lemma keepAliveOne_sync:
  "lockSync T m \<Longrightarrow> T = now \<Longrightarrow> lockSync now (keepAliveOne now meta m)"
  unfolding lockSync_def by (fastforce simp: keepAliveOne_holder backed_def keepAliveOne_seen split: if_splits)

lemma fold_keepAlive_sync: "lockSync now m \<Longrightarrow> lockSync now (fold (keepAliveOne now) metas m)"
  by (induction metas arbitrary: m) (auto intro: keepAliveOne_sync)

lemma release_seen: "j \<noteq> i \<or> i = 0 \<Longrightarrow> seen (snd (releaseSession m i)) j = seen m j"
  by (auto simp: seen_def releaseSession_def delete_conv')

lemma release_sync: "lockSync T m \<Longrightarrow> lockWF m \<Longrightarrow> lockSync T (snd (releaseSession m i))"
  unfolding lockSync_def
  by (auto simp: release_holder backed_def release_seen split: option.splits if_splits)

lemma settled_sync:
  "lockSync T m \<Longrightarrow> lockWF m \<Longrightarrow> T \<le> t \<Longrightarrow> lockSync t (touchLocked (snd (expireLocked m t1)) meta t)"
  by (intro touch_sync [of T] expire_sync)

lemma lockStep_sync:
  assumes "lockStep m (A, t) m'" "lockSync T m" "lockWF m" "T \<le> t"
  shows "lockSync t m'"
  using assms(1)
proof (cases rule: lockStep.cases)
  case (lock meta ds)
  let ?m = "touchLocked (snd (expireLocked m t)) meta t"
  note c = settled_sync [OF assms(2,3,4), of t meta]
  have "lockSync t (?m\<lparr>locks := AList.update d ow (locks ?m)\<rparr>)"
    if "SessionID ow = sid meta" "LastSeen ow = t" for d ow
    using c that touched_backed [of ow meta t] unfolding lockSync_def
    by (auto simp: update_conv' simp flip: holder_def split: if_splits)
  then show ?thesis using c lock assms lockSync_mono [OF assms(2,4)]
    by (auto simp: lock_def Let_def simp del: touch_frame split: sum.split option.split)
next
  case (unlock t1 meta ds)
  let ?m = "touchLocked (snd (expireLocked m t1)) meta t"
  note c = settled_sync [OF assms(2,3,4), of t1 meta]
  have "lockSync t (?m\<lparr>locks := AList.delete d (locks ?m)\<rparr>)" for d
    using c unfolding lockSync_def by (auto simp: delete_conv' simp flip: holder_def split: if_splits)
  then show ?thesis using c unlock lockSync_mono [OF assms(2,4)]
    by (auto simp: unlock_def Let_def simp del: touch_frame split: sum.split option.split)
next
  case (resetAll)
  then show ?thesis using assms by (simp add: resetAll_def lockSync_def holder_def)
qed (use assms lockSync_mono [OF assms(2,4)] in \<open>auto simp: ensure_state keepAlive_def sweep_def Let_def
      intro: settled_sync release_sync expire_sync fold_keepAlive_sync\<close>)

lemma expire_backed:
  assumes "lockWF m" "backed m ow" "t \<le> LastSeen ow + ttl m"
  shows "backed (snd (expireLocked m t)) ow"
proof (cases "SessionID ow = 0")
  case False
  then obtain s where s: "map_of (sessions m) (SessionID ow) = Some s" "LastSeen ow \<le> LastSeen s"
    using assms(2) by (auto simp: backed_def seen_def)
  then have "\<not> sessionDead (ttl m) t s"
    using timeSub_le [of "ttl m" t "LastSeen s"] assms(1,3) by (auto simp: sessionDead_def lockWF_def)
  then show ?thesis using s by (simp add: backed_def seen_def expire_sessions [OF assms(1)])
qed (simp add: backed_def)

lemma touch_backed_other: "sid meta \<noteq> SessionID ow \<Longrightarrow> backed (touchLocked m meta t) ow = backed m ow"
  by (auto simp: backed_def touch_seen)

lemma fold_keepAlive_backed:
  "SessionID ow \<notin> sid ` set metas \<Longrightarrow> backed (fold (keepAliveOne now) metas m) ow = backed m ow"
  by (induction metas arbitrary: m) (auto simp: backed_def keepAliveOne_seen)

text \<open>The calls of other sessions leave the session of a lock alone.\<close>

lemma lockStep_backed:
  assumes "lockStep m l m'" "lockWF m" "backed m ow" "foreignTo m ow l"
  shows "backed m' ow"
  using assms(1)
proof (cases rule: lockStep.cases)
  case (lock meta t d)
  then show ?thesis using assms expire_backed [of m ow t]
    by (auto simp: foreignTo_def lock_def Let_def touch_backed_other split: sum.split option.split)
next
  case (unlock t1 t2 meta d)
  then show ?thesis using assms expire_backed [of m ow t1]
    by (auto simp: foreignTo_def unlock_def Let_def touch_backed_other split: sum.split option.split)
next
  case (releaseSession i t)
  then show ?thesis using assms by (auto simp: foreignTo_def backed_def release_seen)
qed (use assms expire_backed [of m ow] in \<open>auto simp: foreignTo_def ensure_state keepAlive_def sweep_def Let_def
      touch_backed_other fold_keepAlive_backed\<close>)

text \<open>An entry that is not in the name of an acting session was there before.\<close>

lemma fold_keepAlive_origin:
  "holder (fold (keepAliveOne now) metas m) ds = Some ow \<Longrightarrow> SessionID ow \<notin> sid ` set metas \<Longrightarrow> holder m ds = Some ow"
proof (induction metas arbitrary: m)
  case (Cons meta metas)
  then have "holder (keepAliveOne now meta m) ds = Some ow" by simp
  then show ?case using Cons.prems(2) by (auto simp: keepAliveOne_holder renew_def split: if_splits)
qed simp

lemma expire_origin: "lockWF m \<Longrightarrow> map_of (locks (snd (expireLocked m t))) ds = Some ow \<Longrightarrow> holder m ds = Some ow"
  using expire_holder [of m t ds] by (auto simp: holder_def split: option.splits if_splits)

lemma lockStep_origin:
  assumes "lockStep m (A, t) m'" "lockWF m" "holder m' ds = Some ow" "SessionID ow \<notin> A"
  shows "holder m ds = Some ow"
  using assms(1)
proof (cases rule: lockStep.cases)
  case (lock meta d)
  then show ?thesis using assms expire_origin [OF assms(2), of t ds ow]
    by (auto simp: lock_def Let_def update_conv' holder_def split: sum.splits option.splits if_splits)
next
  case (unlock t1 meta d)
  then show ?thesis using assms expire_origin [OF assms(2), of t1 ds ow]
    by (auto simp: unlock_def Let_def delete_conv' holder_def split: sum.splits option.splits if_splits)
next
  case (resetAll)
  then show ?thesis using assms by (simp add: resetAll_def holder_def)
next
  case (releaseSession i)
  then show ?thesis using assms by (auto simp: release_holder split: option.splits if_splits)
qed (use assms expire_origin [OF assms(2)] in \<open>auto simp: ensure_state keepAlive_def sweep_def Let_def holder_def
      split: option.splits if_splits dest: fold_keepAlive_origin [unfolded holder_def]\<close>)

text \<open>Why a session is reported as expired.\<close>

lemma expired_why:
  assumes "lockWF m" "i \<in> set (fst (fst (expireLocked m t)))"
  shows "(\<exists>ds ow. holder m ds = Some ow \<and> SessionID ow = i \<and> lockDead (ttl m) t ow)
    \<or> (\<exists>s. map_of (sessions m) i = Some s \<and> sessionDead (ttl m) t s)"
proof -
  have d: "distinct (map fst (locks m))" "distinct (map fst (sessions m))"
    using assms(1) by (auto simp: lockWF_def sessionsOK_def)
  have "(\<exists>(ds, ow) \<in> set (locks m). SessionID ow = i \<and> lockDead (ttl m) t ow)
      \<or> (\<exists>(j, s) \<in> set (sessions m). j = i \<and> sessionDead (ttl m) t s)"
    using assms(2) by (auto simp: expireLocked_def Let_def split: if_splits)
  then show ?thesis using map_of_is_SomeI [OF d(1)] map_of_is_SomeI [OF d(2)] unfolding holder_def by blast
qed

lemma expired_candidate:
  assumes "lockWF m" "snd (fst (expireLocked m t))"
  shows "\<exists>ow. holder m ''candidate'' = Some ow \<and> lockDead (ttl m) t ow"
proof -
  have "distinct (map fst (locks m))" using assms(1) by (simp add: lockWF_def)
  then show ?thesis using assms(2) map_of_is_SomeI [of "locks m" "''candidate''"]
    by (auto simp: expireLocked_def Let_def holder_def split: if_splits)
qed

lemma lockReachable_inv: "lockReachable t m \<Longrightarrow> lockWF m \<and> lockSync t m"
proof (induction rule: lockReachable.induct)
  case (init t) then show ?case
    using newLockManager_WF by (simp add: lockSync_def holder_def) (simp add: newLockManager_def)
next
  case (step t m A t' m') then show ?case using lockStep_WF lockStep_sync by blast
qed

lemma expire_dead:
  "lockWF m \<Longrightarrow> holder m ds = Some ow \<Longrightarrow> SessionID ow \<noteq> 0 \<Longrightarrow> LastSeen ow \<noteq> 0 \<Longrightarrow>
     LastSeen ow + ttl m < t \<Longrightarrow> map_of (locks (snd (expireLocked m t))) ds = None"
  using expire_holder [of m t ds] by (simp add: lockDead_iff holder_def)

section \<open>A sample run\<close>

definition alice :: SessionMeta where "alice = \<lparr>sid = 1, user = ''alice''\<rparr>"
definition bob :: SessionMeta where "bob = \<lparr>sid = 2, user = ''bob''\<rparr>"

definition aliceOwner :: lockOwner where
  "aliceOwner = \<lparr>SessionID = 1, Username = ''alice'', LastSeen = 5\<rparr>"

definition aliceLocked :: lockManager where
  "aliceLocked = snd (lock newLockManager ''candidate'' alice 5)"

lemma aliceLocked_eq: "aliceLocked = \<lparr>locks = [(''candidate'', aliceOwner)],
    sessions = [(1, \<lparr>SessionID = 1, Username = ''alice'', LastSeen = 5\<rparr>)], ttl = DefaultLockTTL\<rparr>"
  by code_simp

lemma aliceLocked_holder: "holder aliceLocked ''candidate'' = Some aliceOwner"
  by (simp add: aliceLocked_eq holder_def)

lemma aliceLocked_WF: "lockWF aliceLocked"
  unfolding aliceLocked_def by (rule lock_WF [OF newLockManager_WF])

section \<open>Properties\<close>

text \<open>C14: a datastore lock is never stolen. Whatever the other sessions do, in any number of
  calls and in any order, up to the instant \<open>LastSeen + ttl\<close> the holder keeps the lock, and each
  attempt of another session to lock the datastore, to unlock it or to use it is refused with the
  identity of the holder.\<close>

theorem lock_is_never_stolen:
  assumes "lockWF m" and "trace lockStep m tr" and "holder m ds = Some ow"
    and "\<forall>((acting, t), m') \<in> set tr. SessionID ow \<notin> acting \<and> t \<le> LastSeen ow + ttl m"
    and "sid meta \<noteq> SessionID ow" and "t1 \<le> LastSeen ow + ttl m"
  shows "holder (traceEnd m tr) ds = Some ow
    \<and> (\<exists>e. fst (lock (traceEnd m tr) ds meta t1) = Some e \<and> OwnerSessionID e = SessionID ow)
    \<and> (\<exists>e. fst (unlock (traceEnd m tr) ds meta t1 t2) = Some e \<and> OwnerSessionID e = SessionID ow)
    \<and> (\<exists>e. fst (ensure (traceEnd m tr) ds meta tag t1 t2) = Some e \<and> OwnerSessionID e = SessionID ow)"
proof -
  have h: "holder (traceEnd m tr) ds = Some ow"
    using assms(4) by (intro lk.run_holds [OF assms(2,1,3)]) (auto simp: foreignTo_def)
  have "lockWF (traceEnd m tr) \<and> ttl (traceEnd m tr) = ttl m"
    using assms(1,2) by (intro trace_inv [of "\<lambda>m'. lockWF m' \<and> ttl m' = ttl m"])
      (auto simp: lockStep_WF lockStep_ttl)
  then show ?thesis using h refused [of "traceEnd m tr" ds ow t1 meta] assms(5,6) by simp
qed

theorem lock_is_never_stolen_witness:
  "holder (snd (unlock aliceLocked ''candidate'' bob 6 7)) ''candidate'' = Some aliceOwner
    \<and> (\<exists>e. fst (lock (snd (unlock aliceLocked ''candidate'' bob 6 7)) ''candidate'' bob 8) = Some e \<and> OwnerSessionID e = 1)"
proof -
  let ?m = "snd (unlock aliceLocked ''candidate'' bob 6 7)"
  let ?tr = "[(({2}, 7), ?m)]"
  have "lockStep aliceLocked ({sid bob}, 7) ?m" by (rule lockStep.unlock) simp
  then have tr: "trace lockStep aliceLocked ?tr" by (simp add: bob_def)
  have only: "\<forall>((acting, t), m') \<in> set ?tr. SessionID aliceOwner \<notin> acting \<and> t \<le> LastSeen aliceOwner + ttl aliceLocked"
    by (simp add: aliceLocked_eq aliceOwner_def DefaultLockTTL_def)
  from lock_is_never_stolen [OF aliceLocked_WF tr aliceLocked_holder only, of bob 8]
  show ?thesis by (simp add: bob_def aliceOwner_def aliceLocked_eq DefaultLockTTL_def)
qed

text \<open>C15: a lock whose session has gone silent does not block the datastore for ever: once
  more than \<open>ttl\<close> has passed since the entry was last renewed, the next session that asks for the
  lock gets it.\<close>

theorem silent_lock_is_freed:
  assumes "lockWF m" and "holder m ds = Some ow" and "SessionID ow \<noteq> 0" and "LastSeen ow \<noteq> 0"
    and "LastSeen ow + ttl m < t"
  shows "fst (lock m ds meta t) = None
    \<and> holder (snd (lock m ds meta t)) ds
        = Some \<lparr>SessionID = sid meta, Username = trimSpace (user meta), LastSeen = t\<rparr>"
  using holder_known [OF assms(1,2)] expire_dead [OF assms]
  by (simp add: lock_def Let_def update_conv')

theorem silent_lock_is_freed_witness:
  "fst (lock aliceLocked ''candidate'' bob 30000000006) = None
    \<and> holder (snd (lock aliceLocked ''candidate'' bob 30000000006)) ''candidate''
        = Some \<lparr>SessionID = sid bob, Username = trimSpace (user bob), LastSeen = 30000000006\<rparr>"
  by (rule silent_lock_is_freed [OF aliceLocked_WF aliceLocked_holder])
     (simp_all add: aliceOwner_def aliceLocked_eq DefaultLockTTL_def)

text \<open>C16: in every state that the lock manager can reach with a clock that does not run
  backwards, every lock of a numbered session has a registered session seen at least as recently
  as the lock was renewed: no lock outlives its session.\<close>

theorem lock_has_a_session:
  assumes "lockReachable T m" and "holder m ds = Some ow" and "SessionID ow \<noteq> 0"
  shows "\<exists>s. map_of (sessions m) (SessionID ow) = Some s \<and> SessionID s = SessionID ow
    \<and> LastSeen ow \<le> LastSeen s \<and> LastSeen ow \<le> T"
proof -
  have wf: "lockWF m" and sync: "lockSync T m" using lockReachable_inv [OF assms(1)] by auto
  obtain s where s: "map_of (sessions m) (SessionID ow) = Some s" "LastSeen ow \<le> LastSeen s"
    using lockSyncD [OF sync assms(2)] assms(3) by (auto simp: backed_def seen_def)
  moreover have "SessionID s = SessionID ow"
    using wf map_of_SomeD [OF s(1)] by (auto simp: lockWF_def sessionsOK_def)
  ultimately show ?thesis using lockSyncD [OF sync assms(2)] by blast
qed

theorem lock_has_a_session_witness:
  "\<exists>s. map_of (sessions aliceLocked) (SessionID aliceOwner) = Some s \<and> SessionID s = SessionID aliceOwner
    \<and> LastSeen aliceOwner \<le> LastSeen s \<and> LastSeen aliceOwner \<le> 5"
proof (rule lock_has_a_session)
  show "lockReachable 5 aliceLocked"
    unfolding aliceLocked_def by (rule lockReachable.step [OF lockReachable.init [of 5] lockStep.lock]) simp_all
  show "holder aliceLocked ''candidate'' = Some aliceOwner" by (rule aliceLocked_holder)
qed (simp add: aliceOwner_def)

end
