(* ===== verification/Manager.thy ===== *)
theory Manager
  imports Bindings Locks
begin

text \<open>
  The NETCONF configuration manager (\<^verbatim>\<open>internal/ems/netconfcm/manager.go\<close>): the operations
  edit-config, validate, lock, unlock, discard-changes, commit and the session events, composed
  from the configuration store, the lock manager and the leaf registry.

  The manager's state is the store, the locks, the last session that edited the candidate and the
  file system. What the manager calls and is not Go code of this repository, or is an interface it
  is given, is the record \<open>ManagerEnv\<close>: libyang behind the C bridge (\<open>yangValidate\<close>,
  \<open>yangLeaves\<close>), the JSON encoder on the rendered tree (\<open>marshal\<close>), the function that
  finds the restart target of a serial number and the lifecycle supervisor, each absent when it is
  nil. An error is an RPC error or a plain Go error.

  The calls are made one at a time. An operation takes the clock readings it makes as arguments.
\<close>

section \<open>State\<close>

record extractedLeaf =
  lPath :: string
  lValue :: string
  lIsKey :: bool

record ManagerEnv =
  yangValidate :: "bytes \<Rightarrow> unit result"
  yangLeaves :: "bytes \<Rightarrow> extractedLeaf list result"
  marshal :: "json \<Rightarrow> bytes result"
  ids :: IDs
  artRunning :: string
  artCandidate :: string
  targetOf :: "(string \<Rightarrow> string option) option"
  triggerRestart :: "(string \<Rightarrow> unit result) option"

record Manager =
  mstore :: Store
  mlocks :: lockManager
  lastEditSession :: uint64
  mfs :: fs

datatype mErr = RPC RPCError | Plain err

record EditRequest =
  eMeta :: SessionMeta
  eTarget :: string
  DefaultOperation :: string
  TestOption :: string
  ErrorOption :: string
  ePayload :: string

record ValidateRequest =
  vMeta :: SessionMeta
  vSource :: string
  vPayload :: string

record LockRequest =
  rMeta :: SessionMeta
  rTarget :: string

abbreviation invalidValue :: "string \<Rightarrow> mErr" where
  "invalidValue msg \<equiv> RPC (NewRPCError ErrorTagInvalidValue msg)"

section \<open>Artifacts\<close>

text \<open>\<^verbatim>\<open>os.MkdirAll\<close> does not change a file; \<^verbatim>\<open>os.WriteFile\<close> opens with truncation, writes and
  closes.\<close>

definition osWriteFile :: "string \<Rightarrow> bytes \<Rightarrow> unit io" where
  "osWriteFile p data = bindIO
     (syscall (\<lambda>s. (Inr (), s\<lparr>files := (files s)(p \<mapsto> (case files s p of
        Some f \<Rightarrow> f\<lparr>content := []\<rparr> | None \<Rightarrow> \<lparr>content = [], perm = 420, uid = 0, gid = 0\<rparr>))\<rparr>)))
     (\<lambda>_. bindIO (osUpdate p (\<lambda>f. f\<lparr>content := data\<rparr>)) (\<lambda>_. osNop))"

definition WriteSnapshotFile :: "string \<Rightarrow> bytes \<Rightarrow> unit io" where
  "WriteSnapshotFile p data =
     (if p = [] then (\<lambda>s. (Inr (), s))
      else bindIO osNop (\<lambda>_.
        let tmp = p @ ''.tmp'' in
        bindIO (osWriteFile tmp data) (\<lambda>_. osRename tmp p)))"

definition writeArtifact :: "ManagerEnv \<Rightarrow> string \<Rightarrow> EditableConfig \<Rightarrow> unit io" where
  "writeArtifact env p cfg =
     (if trimSpace p = [] then (\<lambda>s. (Inr (), s))
      else bindIO (liftIO (marshal env (render newRegistry (ids env) cfg))) (\<lambda>raw.
        case yangValidate env raw of
          Inl e \<Rightarrow> liftIO (Inl (WrapErr (''artifact '' @ p @ '' failed YANG validation'') e))
        | Inr _ \<Rightarrow> WriteSnapshotFile p raw))"

definition RefreshArtifacts :: "ManagerEnv \<Rightarrow> Manager \<Rightarrow> unit result \<times> Manager" where
  "RefreshArtifacts env m =
     (case bindIO (writeArtifact env (artRunning env) (Running (mstore m)))
        (\<lambda>_. writeArtifact env (artCandidate env) (Candidate (mstore m))) (mfs m)
      of (r, s) \<Rightarrow> (r, m\<lparr>mfs := s\<rparr>))"

definition NewManager :: "ManagerEnv \<Rightarrow> Store option \<Rightarrow> fs \<Rightarrow> Manager result" where
  "NewManager env store s = (case store of
       None \<Rightarrow> Inl (Errorf ''configuration store is not configured'')
     | Some st \<Rightarrow>
         (case RefreshArtifacts env \<lparr>mstore = st, mlocks = newLockManager, lastEditSession = 0, mfs = s\<rparr> of
            (Inl e, m) \<Rightarrow> Inl e
          | (Inr _, m) \<Rightarrow> Inr m))"

section \<open>Who edited the candidate\<close>

definition noteCandidateEdit :: "Manager \<Rightarrow> uint64 \<Rightarrow> Manager" where
  "noteCandidateEdit m i = (if i = 0 then m else m\<lparr>lastEditSession := i\<rparr>)"

definition clearCandidateEditOwner :: "Manager \<Rightarrow> Manager" where
  "clearCandidateEditOwner m = m\<lparr>lastEditSession := 0\<rparr>"

definition consumeCandidateEditOwner :: "Manager \<Rightarrow> uint64 \<Rightarrow> bool \<times> Manager" where
  "consumeCandidateEditOwner m i =
     (if i = 0 then (False, m)
      else if lastEditSession m \<noteq> i then (False, m)
      else (True, m\<lparr>lastEditSession := 0\<rparr>))"

definition expiredCandidateEditOwner :: "Manager \<Rightarrow> uint64 list \<Rightarrow> bool \<times> Manager" where
  "expiredCandidateEditOwner m expired =
     (if \<exists>i \<in> set expired. i \<noteq> 0 \<and> i = lastEditSession m then (True, m\<lparr>lastEditSession := 0\<rparr>)
      else (False, m))"

section \<open>Requests\<close>

definition validateEditOptions :: "string \<Rightarrow> string \<Rightarrow> string \<Rightarrow> unit result" where
  "validateEditOptions defaultOperation testOption errorOption =
     (if trimSpace defaultOperation \<notin> {[], ''merge'', ''replace'', ''none''}
      then Inl (Errorf (''unsupported default-operation '' @ goQuote defaultOperation))
      else if trimSpace testOption \<notin> {[], ''set'', ''test-then-set'', ''test-only''}
      then Inl (Errorf (''unsupported test-option '' @ goQuote testOption))
      else if trimSpace errorOption \<notin> {[], ''stop-on-error'', ''rollback-on-error''}
      then Inl (Errorf (''unsupported error-option '' @ goQuote errorOption))
      else Inr ())"

definition valuesEqual :: "goany \<Rightarrow> goany \<Rightarrow> bool" where
  "valuesEqual a b = (case a of
       VString av \<Rightarrow> (case b of VString bv \<Rightarrow> av = bv | _ \<Rightarrow> False)
     | VInt32 av \<Rightarrow> (case b of VInt32 bv \<Rightarrow> av = bv | _ \<Rightarrow> False)
     | VUint32 av \<Rightarrow> (case b of VUint32 bv \<Rightarrow> av = bv | _ \<Rightarrow> False)
     | VFloat64 av \<Rightarrow> (case b of VFloat64 bv \<Rightarrow> f64_eq av bv | _ \<Rightarrow> False)
     | VBool av \<Rightarrow> (case b of VBool bv \<Rightarrow> av = bv | _ \<Rightarrow> False)
     | _ \<Rightarrow> False)"

text \<open>The loop over the leaves: the changes so far and the number of editable leaves.\<close>

fun collectChanges ::
    "EditableConfig \<Rightarrow> extractedLeaf list \<Rightarrow> (string \<times> goany) list \<Rightarrow> nat \<Rightarrow> mErr + (string \<times> goany) list \<times> nat" where
  "collectChanges candidate [] changes n = Inr (changes, n)"
| "collectChanges candidate (l # leaves) changes n =
     (case resolve newRegistry (lPath l) (lIsKey l) (lValue l) of
        Inl e \<Rightarrow> Inl (invalidValue (errText e))
      | Inr None \<Rightarrow> collectChanges candidate leaves changes n
      | Inr (Some (key, val)) \<Rightarrow>
          if key = [] then collectChanges candidate leaves changes n
          else (case currentValue newRegistry candidate key of
                  Some current \<Rightarrow>
                    if valuesEqual current val then collectChanges candidate leaves changes (Suc n)
                    else collectChanges candidate leaves (AList.update key val changes) (Suc n)
                | None \<Rightarrow> collectChanges candidate leaves (AList.update key val changes) (Suc n)))"

definition extractChanges :: "ManagerEnv \<Rightarrow> Store \<Rightarrow> string \<Rightarrow> mErr + (string \<times> goany) list \<times> nat" where
  "extractChanges env st payload0 = (let payload = trimSpace payload0 in
     if payload = [] then Inl (invalidValue ''payload is empty'')
     else case yangValidate env payload of
       Inl e \<Rightarrow> Inl (invalidValue (errText e))
     | Inr _ \<Rightarrow>
         (case yangLeaves env payload of
            Inl e \<Rightarrow> Inl (invalidValue (errText e))
          | Inr leaves \<Rightarrow> collectChanges (Candidate st) leaves [] 0))"

text \<open>Resetting the candidate, as the operations that discard edits do.\<close>

definition discard :: "ManagerEnv \<Rightarrow> Manager \<Rightarrow> unit result \<times> Manager" where
  "discard env m = RefreshArtifacts env
     (clearCandidateEditOwner (m\<lparr>mstore := ResetCandidate (mstore m)\<rparr>))"

definition EditFlat :: "ManagerEnv \<Rightarrow> Manager \<Rightarrow> (string \<times> goany) list \<Rightarrow> (mErr + EditableConfig) \<times> Manager" where
  "EditFlat env m changes = (case Edit (mstore m) changes of
       (Inl e, st) \<Rightarrow> (Inl (Plain e), m\<lparr>mstore := st\<rparr>)
     | (Inr cfg, st) \<Rightarrow>
         (case RefreshArtifacts env (m\<lparr>mstore := st\<rparr>) of
            (Inl e, m) \<Rightarrow> (Inl (Plain e), m)
          | (Inr _, m) \<Rightarrow> (Inr cfg, m)))"

text \<open>The end of \<^verbatim>\<open>EditConfig\<close>: the edit itself.\<close>

definition editCandidate ::
    "ManagerEnv \<Rightarrow> Manager \<Rightarrow> uint64 \<Rightarrow> (string \<times> goany) list \<Rightarrow> (mErr + EditableConfig) \<times> Manager" where
  "editCandidate env m i changes = (case Edit (mstore m) changes of
       (Inl e, st) \<Rightarrow> (Inl (invalidValue (errText e)), m\<lparr>mstore := st\<rparr>)
     | (Inr cfg, st) \<Rightarrow>
         (case RefreshArtifacts env (noteCandidateEdit (m\<lparr>mstore := st\<rparr>) i) of
            (Inl e, m) \<Rightarrow> (Inl (Plain e), m)
          | (Inr _, m) \<Rightarrow> (Inr cfg, m)))"

definition EditConfig ::
    "ManagerEnv \<Rightarrow> Manager \<Rightarrow> EditRequest \<Rightarrow> time \<Rightarrow> time \<Rightarrow> (mErr + EditableConfig) \<times> Manager" where
  "EditConfig env m req t1 t2 = (case ensure (mlocks m) ''candidate'' (eMeta req) ErrorTagInUse t1 t2 of
       (Some e, l) \<Rightarrow> (Inl (RPC e), m\<lparr>mlocks := l\<rparr>)
     | (None, l) \<Rightarrow>
         let m = m\<lparr>mlocks := l\<rparr> in
         if trimSpace (eTarget req) \<noteq> ''candidate''
         then (Inl (invalidValue ''only target candidate is supported''), m)
         else case validateEditOptions (DefaultOperation req) (TestOption req) (ErrorOption req) of
           Inl e \<Rightarrow> (Inl (invalidValue (errText e)), m)
         | Inr _ \<Rightarrow>
             (case extractChanges env (mstore m) (ePayload req) of
                Inl e \<Rightarrow> (Inl e, m)
              | Inr (changes, leafCount) \<Rightarrow>
                  if leafCount = 0
                  then (Inl (invalidValue ''no editable config true leaves found in edit-config payload''), m)
                  else if changes = [] then (Inr (Candidate (mstore m)), m)
                  else if trimSpace (TestOption req) = ''test-only''
                  then (case PreviewEdit (mstore m) changes of
                          Inl e \<Rightarrow> (Inl (invalidValue (errText e)), m)
                        | Inr cfg \<Rightarrow> (Inr cfg, m))
                  else editCandidate env m (sid (eMeta req)) changes))"

definition Validate :: "ManagerEnv \<Rightarrow> Manager \<Rightarrow> ValidateRequest \<Rightarrow> mErr option" where
  "Validate env m req =
     (if vPayload req \<noteq> [] then
        (case extractChanges env (mstore m) (vPayload req) of
           Inl e \<Rightarrow> Some e
         | Inr (changes, leafCount) \<Rightarrow>
             if leafCount = 0 then Some (invalidValue ''no editable config true leaves found in validate payload'')
             else if changes = [] then None
             else (case PreviewEdit (mstore m) changes of
                     Inl e \<Rightarrow> Some (invalidValue (errText e)) | Inr _ \<Rightarrow> None))
      else
        (let source = (if trimSpace (vSource req) = [] then ''candidate'' else trimSpace (vSource req)) in
         if source = ''candidate'' then
           (case ValidateConfig (Candidate (mstore m)) of
              Inl e \<Rightarrow> Some (invalidValue (errText e)) | Inr _ \<Rightarrow> None)
         else if source = ''running'' then
           (case ValidateConfig (Running (mstore m)) of
              Inl e \<Rightarrow> Some (invalidValue (errText e)) | Inr _ \<Rightarrow> None)
         else Some (invalidValue (''unsupported validate source '' @ goQuote source))))"

definition Lock :: "Manager \<Rightarrow> LockRequest \<Rightarrow> time \<Rightarrow> RPCError option \<times> Manager" where
  "Lock m req t = (case lock (mlocks m) (rTarget req) (rMeta req) t of (e, l) \<Rightarrow> (e, m\<lparr>mlocks := l\<rparr>))"

definition Unlock :: "ManagerEnv \<Rightarrow> Manager \<Rightarrow> LockRequest \<Rightarrow> time \<Rightarrow> time \<Rightarrow> mErr option \<times> Manager" where
  "Unlock env m req t1 t2 = (case unlock (mlocks m) (rTarget req) (rMeta req) t1 t2 of
       (Some e, l) \<Rightarrow> (Some (RPC e), m\<lparr>mlocks := l\<rparr>)
     | (None, l) \<Rightarrow>
         (case discard env (m\<lparr>mlocks := l\<rparr>) of
            (Inl e, m) \<Rightarrow> (Some (Plain e), m) | (Inr _, m) \<Rightarrow> (None, m)))"

definition DiscardChanges ::
    "ManagerEnv \<Rightarrow> Manager \<Rightarrow> SessionMeta \<Rightarrow> time \<Rightarrow> time \<Rightarrow> (mErr + EditableConfig) \<times> Manager" where
  "DiscardChanges env m meta t1 t2 = (case ensure (mlocks m) ''candidate'' meta ErrorTagInUse t1 t2 of
       (Some e, l) \<Rightarrow> (Inl (RPC e), m\<lparr>mlocks := l\<rparr>)
     | (None, l) \<Rightarrow>
         (case discard env (m\<lparr>mlocks := l\<rparr>) of
            (Inl e, m) \<Rightarrow> (Inl (Plain e), m) | (Inr _, m) \<Rightarrow> (Inr (Candidate (mstore m)), m)))"

text \<open>The restart that a commit with changed files triggers; \<open>Inr\<close> when none is due.\<close>

definition restartFor :: "ManagerEnv \<Rightarrow> bool \<Rightarrow> string \<Rightarrow> unit result" where
  "restartFor env needsRestart serial =
     (case targetOf env of None \<Rightarrow> Inr ()
      | Some f \<Rightarrow> (case f serial of None \<Rightarrow> Inr ()
          | Some target \<Rightarrow>
              (case triggerRestart env of None \<Rightarrow> Inr ()
               | Some restart \<Rightarrow> if needsRestart \<and> trimSpace target \<noteq> [] then restart target else Inr ())))"

text \<open>Undoing a commit whose files are written: errors on the way are ignored.\<close>

definition undoCommit :: "ManagerEnv \<Rightarrow> FileBackup \<Rightarrow> Manager \<Rightarrow> Manager" where
  "undoCommit env backup m = snd (discard env
     (m\<lparr>mfs := snd (RollbackPersist (mstore m) (Some backup) (mfs m))\<rparr>))"

text \<open>The end of \<^verbatim>\<open>Commit\<close>, once the files are written.\<close>

definition finishCommit ::
    "ManagerEnv \<Rightarrow> Manager \<Rightarrow> FileBackup \<Rightarrow> EditableConfig \<Rightarrow> (mErr + EditableConfig) \<times> Manager" where
  "finishCommit env m backup nxt = (case restartFor env (bDirty backup) (trimSpace (ENBSerial nxt)) of
       Inl e \<Rightarrow> (Inl (Plain e), undoCommit env backup m)
     | Inr _ \<Rightarrow>
     (case FinalizeCommit (mstore m) of
       (Inl e, st) \<Rightarrow> (Inl (Plain e), undoCommit env backup (m\<lparr>mstore := st\<rparr>))
     | (Inr _, st) \<Rightarrow>
     (case discard env (m\<lparr>mstore := st\<rparr>) of
       (Inl e, m) \<Rightarrow> (Inl (Plain e), m)
     | (Inr _, m) \<Rightarrow> (Inr (Running (mstore m)), m))))"

definition ManagerCommit ::
    "ManagerEnv \<Rightarrow> Manager \<Rightarrow> SessionMeta \<Rightarrow> time \<Rightarrow> time \<Rightarrow> time \<Rightarrow> time \<Rightarrow> (mErr + EditableConfig) \<times> Manager" where
  "ManagerCommit env m meta t1 t2 t3 t4 = (case ensure (mlocks m) ''candidate'' meta ErrorTagInUse t1 t2 of
       (Some e, l) \<Rightarrow> (Inl (RPC e), m\<lparr>mlocks := l\<rparr>)
     | (None, l) \<Rightarrow>
     (case ensure l ''running'' meta ErrorTagLockDenied t3 t4 of
       (Some e, l) \<Rightarrow> (Inl (RPC e), m\<lparr>mlocks := l\<rparr>)
     | (None, l) \<Rightarrow>
     let m = m\<lparr>mlocks := l\<rparr> in
     (case ValidateConfig (Candidate (mstore m)) of
       Inl e \<Rightarrow> (Inl (invalidValue (errText e)), m)
     | Inr _ \<Rightarrow>
     (case PersistCandidate (mstore m) (mfs m) of
       (Inl e, s) \<Rightarrow> (Inl (RPC (NewRPCError ErrorTagOperationFailed (errText e))), m\<lparr>mfs := s\<rparr>)
     | (Inr (backup, nxt), s) \<Rightarrow>
     finishCommit env (m\<lparr>mfs := s\<rparr>) backup nxt))))"

section \<open>Session events\<close>

text \<open>The condition is a short-circuit disjunction: the editing session is only looked at when
  no candidate lock was released.\<close>

definition SessionClose :: "ManagerEnv \<Rightarrow> Manager \<Rightarrow> uint64 \<Rightarrow> Manager" where
  "SessionClose env m i = (case releaseSession (mlocks m) i of (released, l) \<Rightarrow>
     let m = m\<lparr>mlocks := l\<rparr>;
         (reset, m) = (if released then (True, m) else consumeCandidateEditOwner m i)
     in if reset then snd (RefreshArtifacts env (m\<lparr>mstore := ResetCandidate (mstore m)\<rparr>)) else m)"

definition ResetSessions :: "ManagerEnv \<Rightarrow> Manager \<Rightarrow> Manager" where
  "ResetSessions env m = snd (discard env (m\<lparr>mlocks := snd (resetAll (mlocks m))\<rparr>))"

definition KeepAlive :: "Manager \<Rightarrow> SessionMeta list \<Rightarrow> time \<Rightarrow> Manager" where
  "KeepAlive m metas now = m\<lparr>mlocks := keepAlive (mlocks m) metas now now\<rparr>"

definition SweepExpiredSessions :: "ManagerEnv \<Rightarrow> Manager \<Rightarrow> time \<Rightarrow> time \<Rightarrow> uint64 list \<times> Manager" where
  "SweepExpiredSessions env m now clk = (case sweep (mlocks m) now clk of ((expired, candidateExpired), l) \<Rightarrow>
     let m = m\<lparr>mlocks := l\<rparr>;
         (reset, m) = (if candidateExpired then (True, m) else expiredCandidateEditOwner m expired)
     in (expired, if reset then snd (RefreshArtifacts env (m\<lparr>mstore := ResetCandidate (mstore m)\<rparr>)) else m))"

section \<open>What the operations leave alone\<close>

lemma Refresh_frame [simp]:
  "mstore (snd (RefreshArtifacts env m)) = mstore m"
  "mlocks (snd (RefreshArtifacts env m)) = mlocks m"
  "lastEditSession (snd (RefreshArtifacts env m)) = lastEditSession m"
  by (simp_all add: RefreshArtifacts_def split: prod.split)

lemma discard_frame [simp]:
  "mstore (snd (discard env m)) = ResetCandidate (mstore m)"
  "mlocks (snd (discard env m)) = mlocks m"
  "lastEditSession (snd (discard env m)) = 0"
  by (simp_all add: discard_def clearCandidateEditOwner_def)

lemma note_frame [simp]:
  "mstore (noteCandidateEdit m i) = mstore m" "mlocks (noteCandidateEdit m i) = mlocks m"
  by (simp_all add: noteCandidateEdit_def)

lemma RefreshE: "RefreshArtifacts env m = (r, m') \<Longrightarrow> mstore m' = mstore m \<and> mlocks m' = mlocks m \<and> lastEditSession m' = lastEditSession m"
  using Refresh_frame [of env m] by simp

lemma discardE: "discard env m = (r, m') \<Longrightarrow> mstore m' = ResetCandidate (mstore m) \<and> mlocks m' = mlocks m \<and> lastEditSession m' = 0"
  using discard_frame [of env m] by simp

lemma editCandidate_frame [simp]:
  "mstore (snd (editCandidate env m i cs)) = snd (Edit (mstore m) cs)"
  "mlocks (snd (editCandidate env m i cs)) = mlocks m"
  by (auto simp: editCandidate_def dest!: RefreshE split: prod.split sum.split)

text \<open>Every operation takes the locks by one or two steps of the lock manager.\<close>

lemma EditConfig_locks: "mlocks (snd (EditConfig env m req t1 t2)) = snd (ensure (mlocks m) ''candidate'' (eMeta req) ErrorTagInUse t1 t2)"
  by (simp add: EditConfig_def Let_def split: prod.split option.split sum.split)

lemma Unlock_locks: "mlocks (snd (Unlock env m req t1 t2)) = snd (unlock (mlocks m) (rTarget req) (rMeta req) t1 t2)"
  by (auto simp: Unlock_def dest!: discardE split: prod.split option.split sum.split)

lemma DiscardChanges_locks: "mlocks (snd (DiscardChanges env m meta t1 t2)) = snd (ensure (mlocks m) ''candidate'' meta ErrorTagInUse t1 t2)"
  by (auto simp: DiscardChanges_def dest!: discardE split: prod.split option.split sum.split)

lemma undo_frame [simp]:
  "mstore (undoCommit env b m) = ResetCandidate (mstore m)" "mlocks (undoCommit env b m) = mlocks m"
  "lastEditSession (undoCommit env b m) = 0"
  by (simp_all add: undoCommit_def)

text \<open>The stores that an operation other than an edit can leave.\<close>

definition storeMoves :: "Store \<Rightarrow> Store set" where
  "storeMoves st = {st, ResetCandidate st, ResetCandidate (snd (FinalizeCommit st))}"

lemma finishCommit_frame:
  "mlocks (snd (finishCommit env m b nxt)) = mlocks m" (is ?locks)
  "mstore (snd (finishCommit env m b nxt)) \<in> storeMoves (mstore m)" (is ?store)
proof -
  obtain r st where f: "FinalizeCommit (mstore m) = (r, st)" by (cases "FinalizeCommit (mstore m)")
  have rej: "r = Inl e \<Longrightarrow> st = mstore m" for e
    using f by (auto simp: FinalizeCommit_def split: sum.splits)
  obtain q m' where d: "discard env (m\<lparr>mstore := st\<rparr>) = (q, m')" by (cases "discard env (m\<lparr>mstore := st\<rparr>)")
  show ?locks ?store using f d discardE [OF d] rej
    by (auto simp: finishCommit_def storeMoves_def split: sum.split)
qed

lemma Commit_locks: "mlocks (snd (ManagerCommit env m meta t1 t2 t3 t4)) =
    (case ensure (mlocks m) ''candidate'' meta ErrorTagInUse t1 t2 of
       (Some e, l) \<Rightarrow> l | (None, l) \<Rightarrow> snd (ensure l ''running'' meta ErrorTagLockDenied t3 t4))"
  by (simp add: ManagerCommit_def Let_def finishCommit_frame split: prod.split option.split sum.split)

lemma SessionClose_locks: "mlocks (SessionClose env m i) = snd (releaseSession (mlocks m) i)"
  by (auto simp: SessionClose_def Let_def consumeCandidateEditOwner_def split: prod.split)

lemma Sweep_locks: "mlocks (snd (SweepExpiredSessions env m now clk)) = snd (sweep (mlocks m) now clk)"
  by (auto simp: SweepExpiredSessions_def Let_def expiredCandidateEditOwner_def split: prod.split)

section \<open>The calls as steps\<close>

text \<open>A step is labelled by the sessions in whose name it acts and by its latest clock reading.
  Three calls act on the candidate whoever has locked it, and so for every session:
  \<^verbatim>\<open>EditFlat\<close> and \<^verbatim>\<open>ResetSessions\<close>, which know no session, and the unlocking of a datastore
  other than the candidate, which resets the candidate all the same.\<close>

inductive mgrStep :: "ManagerEnv \<Rightarrow> Manager \<Rightarrow> uint64 set \<times> time \<Rightarrow> Manager \<Rightarrow> bool" for env where
  editConfig: "t1 \<le> t2 \<Longrightarrow> mgrStep env m ({sid (eMeta req)}, t2) (snd (EditConfig env m req t1 t2))"
| editFlat: "mgrStep env m (UNIV, t) (snd (EditFlat env m changes))"
| lock: "mgrStep env m ({sid (rMeta req)}, t) (snd (Lock m req t))"
| unlock: "t1 \<le> t2 \<Longrightarrow> mgrStep env m (if trimSpace (rTarget req) = ''candidate'' then {sid (rMeta req)} else UNIV, t2)
     (snd (Unlock env m req t1 t2))"
| discardChanges: "t1 \<le> t2 \<Longrightarrow> mgrStep env m ({sid meta}, t2) (snd (DiscardChanges env m meta t1 t2))"
| commit: "t1 \<le> t2 \<Longrightarrow> t2 \<le> t3 \<Longrightarrow> t3 \<le> t4 \<Longrightarrow>
     mgrStep env m ({sid meta}, t4) (snd (ManagerCommit env m meta t1 t2 t3 t4))"
| sessionClose: "mgrStep env m ({i}, t) (SessionClose env m i)"
| resetSessions: "mgrStep env m (UNIV, t) (ResetSessions env m)"
| keepAlive: "mgrStep env m (sid ` set metas, t) (KeepAlive m metas t)"
| sweep: "t = (if isZero now then clk else now) \<Longrightarrow> mgrStep env m ({}, t) (snd (SweepExpiredSessions env m now clk))"

inductive_cases mgrStepE: "mgrStep env m l m'"

text \<open>What an operation can do to the store.\<close>

definition storeEdits :: "Store \<Rightarrow> Store set" where
  "storeEdits st = insert st (range (\<lambda>cs. snd (Edit st cs)))"

lemma stays [simp]: "st \<in> storeEdits st" "st \<in> storeMoves st"
  by (simp_all add: storeEdits_def storeMoves_def)

lemma editCandidate_store [simp]: "mstore m = st \<Longrightarrow> mstore (snd (editCandidate env m i cs)) \<in> storeEdits st"
  by (auto simp: storeEdits_def)

lemma finishCommit_store [simp]: "mstore m = st \<Longrightarrow> mstore (snd (finishCommit env m b nxt)) \<in> storeMoves st"
  using finishCommit_frame(2) by blast

lemma EditConfig_store: "mstore (snd (EditConfig env m req t1 t2)) \<in> storeEdits (mstore m)"
  by (simp add: EditConfig_def Let_def del: editCandidate_frame(1) split: prod.split option.split sum.split)

lemma EditFlat_store: "mstore (snd (EditFlat env m cs)) = snd (Edit (mstore m) cs)"
  by (auto simp: EditFlat_def dest!: RefreshE split: prod.split sum.split)

lemma Commit_store: "mstore (snd (ManagerCommit env m meta t1 t2 t3 t4)) \<in> storeMoves (mstore m)"
  by (simp add: ManagerCommit_def Let_def split: prod.split option.split sum.split)

lemma Unlock_store: "mstore (snd (Unlock env m req t1 t2)) \<in> storeMoves (mstore m)"
  by (auto simp: storeMoves_def Unlock_def dest!: discardE split: prod.split option.split sum.split)

lemma DiscardChanges_store: "mstore (snd (DiscardChanges env m meta t1 t2)) \<in> storeMoves (mstore m)"
  by (auto simp: storeMoves_def DiscardChanges_def dest!: discardE split: prod.split option.split sum.split)

lemma SessionClose_store: "mstore (SessionClose env m i) \<in> storeMoves (mstore m)"
  by (auto simp: storeMoves_def SessionClose_def Let_def consumeCandidateEditOwner_def split: prod.split)

lemma Sweep_store: "mstore (snd (SweepExpiredSessions env m now clk)) \<in> storeMoves (mstore m)"
  by (auto simp: storeMoves_def SweepExpiredSessions_def Let_def expiredCandidateEditOwner_def split: prod.split)

lemma other_frame [simp]:
  "mstore (snd (Lock m req t)) = mstore m" "mstore (KeepAlive m metas t) = mstore m"
  "mstore (ResetSessions env m) = ResetCandidate (mstore m)"
  "mlocks (snd (Lock m req t)) = snd (lock (mlocks m) (rTarget req) (rMeta req) t)"
  "mlocks (KeepAlive m metas t) = keepAlive (mlocks m) metas t t"
  "mlocks (ResetSessions env m) = snd (resetAll (mlocks m))"
  "lastEditSession (snd (Lock m req t)) = lastEditSession m"
  "lastEditSession (KeepAlive m metas t) = lastEditSession m"
  by (simp_all add: Lock_def KeepAlive_def ResetSessions_def split: prod.split)

text \<open>The manager drives the store and the lock manager only through their own steps: their
  invariants hold in every state it reaches.\<close>

definition mgrInv :: "Manager \<Rightarrow> bool" where
  "mgrInv m \<longleftrightarrow> storeInv (mstore m) \<and> lockWF (mlocks m)"

lemma storeMoves_inv: "st' \<in> storeMoves st \<Longrightarrow> storeInv st \<Longrightarrow> storeInv st'"
  using ResetCandidate_inv FinalizeCommit_inv by (auto simp: storeMoves_def)

lemmas store_moves = Commit_store Unlock_store DiscardChanges_store SessionClose_store Sweep_store

lemma commit_locks_WF:
  "lockWF (mlocks m) \<Longrightarrow> lockWF (mlocks (snd (ManagerCommit env m meta t1 t2 t3 t4)))"
  using ensure_WF [of "mlocks m" "''candidate''" meta ErrorTagInUse t1 t2]
  by (auto simp: Commit_locks intro: ensure_WF split: prod.split option.split)

lemma mgrStep_store: "mgrStep env m l m' \<Longrightarrow> storeInv (mstore m) \<Longrightarrow> storeInv (mstore m')"
proof (erule mgrStepE)
  fix t1 t2 req assume inv: "storeInv (mstore m)" and m': "m' = snd (EditConfig env m req t1 t2)"
  show "storeInv (mstore m')"
    using EditConfig_store [of env m req t1 t2] m' Edit_inv [OF inv] inv by (auto simp: storeEdits_def)
qed (auto simp: EditFlat_store Edit_inv ResetCandidate_inv intro: store_moves [THEN storeMoves_inv])

lemma mgrStep_locks: "mgrStep env m l m' \<Longrightarrow> lockWF (mlocks m) \<Longrightarrow> lockWF (mlocks m')"
  by (erule mgrStepE) (auto simp: EditConfig_locks Unlock_locks DiscardChanges_locks commit_locks_WF SessionClose_locks
      Sweep_locks lock_WFs keepAlive_def sweep_def Let_def fold_keepAlive_WF EditFlat_def
      dest!: RefreshE split: prod.split sum.split)

lemma mgrStep_inv: "mgrInv m \<Longrightarrow> mgrStep env m l m' \<Longrightarrow> mgrInv m'"
  by (auto simp: mgrInv_def mgrStep_store mgrStep_locks)

section \<open>The candidate under a lock\<close>

text \<open>A session guards the candidate when it holds the lock on it, is registered as recently as
  its locks say, and nobody else's edit is pending: then the store is in its hands.\<close>

definition guards :: "Manager \<Rightarrow> lockOwner \<Rightarrow> bool" where
  "guards m ow \<longleftrightarrow> holder (mlocks m) ''candidate'' = Some ow \<and> SessionID ow \<noteq> 0 \<and> backed (mlocks m) ow
     \<and> lastEditSession m \<in> {0, SessionID ow}
     \<and> (\<forall>ds ow'. holder (mlocks m) ds = Some ow' \<and> SessionID ow' = SessionID ow \<longrightarrow> LastSeen ow \<le> LastSeen ow')"

definition guardedStore :: "Manager \<Rightarrow> lockOwner \<Rightarrow> Store option" where
  "guardedStore m ow = (if guards m ow then Some (mstore m) else None)"

lemma lockStep_guards:
  assumes "lockStep (mlocks m) (A, t) (mlocks m')" "lockWF (mlocks m)" "guards m ow"
    "foreignTo (mlocks m) ow (A, t)" "lastEditSession m' = lastEditSession m"
  shows "guards m' ow"
proof -
  have "holder (mlocks m') ''candidate'' = Some ow" "backed (mlocks m') ow"
    using assms lockStep_holder lockStep_backed by (auto simp: guards_def)
  moreover have "LastSeen ow \<le> LastSeen ow'" if "holder (mlocks m') ds = Some ow'" "SessionID ow' = SessionID ow" for ds ow'
    using lockStep_origin [OF assms(1,2) that(1)] that(2) assms(3,4) by (auto simp: guards_def foreignTo_def)
  ultimately show ?thesis using assms(3,5) by (auto simp: guards_def)
qed

lemma guards_refused:
  assumes "guards m ow" "lockWF (mlocks m)" "sid meta \<noteq> SessionID ow" "t1 \<le> LastSeen ow + ttl (mlocks m)"
  shows "\<exists>e. fst (ensure (mlocks m) ''candidate'' meta tag t1 t2) = Some e \<and> OwnerSessionID e = SessionID ow"
proof -
  have "holder (mlocks m) ''candidate'' = Some ow" using assms(1) by (simp add: guards_def)
  from refused(3) [OF assms(2) this assms(4,3)] show ?thesis .
qed

lemma guards_not_expired:
  assumes "guards m ow" "lockWF (mlocks m)" "t \<le> LastSeen ow + ttl (mlocks m)"
  shows "\<not> snd (fst (expireLocked (mlocks m) t))" "SessionID ow \<notin> set (fst (fst (expireLocked (mlocks m) t)))"
proof -
  have alive: "\<not> lockDead (ttl (mlocks m)) t ow'" if "LastSeen ow \<le> LastSeen ow'" for ow'
    using that assms(3) lockDead_iff [OF assms(2)] by auto
  show "\<not> snd (fst (expireLocked (mlocks m) t))"
    using expired_candidate [OF assms(2), of t] alive assms(1) by (auto simp: guards_def)
  obtain s where s: "map_of (sessions (mlocks m)) (SessionID ow) = Some s" "LastSeen ow \<le> LastSeen s"
    using assms(1) by (auto simp: guards_def backed_def seen_def)
  then have "\<not> sessionDead (ttl (mlocks m)) t s"
    using timeSub_le [of "ttl (mlocks m)" t "LastSeen s"] assms(2,3) by (auto simp: sessionDead_def lockWF_def)
  then show "SessionID ow \<notin> set (fst (fst (expireLocked (mlocks m) t)))"
    using expired_why [OF assms(2), of "SessionID ow" t] s alive assms(1) by (auto simp: guards_def)
qed

lemma refused_frame:
  assumes "fst (ensure (mlocks m) ''candidate'' meta ErrorTagInUse t1 t2) = Some e"
  shows "eMeta req = meta \<Longrightarrow> EditConfig env m req t1 t2 = (Inl (RPC e), m\<lparr>mlocks := snd (ensure (mlocks m) ''candidate'' meta ErrorTagInUse t1 t2)\<rparr>)"
    and "DiscardChanges env m meta t1 t2 = (Inl (RPC e), m\<lparr>mlocks := snd (ensure (mlocks m) ''candidate'' meta ErrorTagInUse t1 t2)\<rparr>)"
    and "ManagerCommit env m meta t1 t2 t3 t4 = (Inl (RPC e), m\<lparr>mlocks := snd (ensure (mlocks m) ''candidate'' meta ErrorTagInUse t1 t2)\<rparr>)"
  using assms by (cases "ensure (mlocks m) ''candidate'' meta ErrorTagInUse t1 t2";
      simp add: EditConfig_def DiscardChanges_def ManagerCommit_def)+

lemma ensure_guards:
  assumes "guards m ow" "lockWF (mlocks m)" "sid meta \<noteq> SessionID ow" "t2 \<le> LastSeen ow + ttl (mlocks m)" "t1 \<le> t2"
  shows "guards (m\<lparr>mlocks := snd (ensure (mlocks m) ''candidate'' meta tag t1 t2)\<rparr>) ow"
proof (rule lockStep_guards [OF _ assms(2,1)])
  show "lockStep (mlocks m) ({sid meta}, t2) (mlocks (m\<lparr>mlocks := snd (ensure (mlocks m) ''candidate'' meta tag t1 t2)\<rparr>))"
    using lockStep.ensure [OF assms(5)] by simp
qed (use assms in \<open>auto simp: foreignTo_def\<close>)

text \<open>A call of another session leaves a guarded store alone.\<close>

lemma foreign_step:
  assumes step: "mgrStep env m l m'" and wf: "lockWF (mlocks m)" and g: "guards m ow" and f: "foreignTo (mlocks m) ow l"
  shows "mstore m' = mstore m \<and> guards m' ow"
  using step
proof (cases rule: mgrStep.cases)
  case (editConfig t1 t2 req)
  then have other: "sid (eMeta req) \<noteq> SessionID ow" "t1 \<le> LastSeen ow + ttl (mlocks m)" "t2 \<le> LastSeen ow + ttl (mlocks m)"
    using f by (auto simp: foreignTo_def)
  obtain e where e: "fst (ensure (mlocks m) ''candidate'' (eMeta req) ErrorTagInUse t1 t2) = Some e"
    using guards_refused [OF g wf other(1,2)] by blast
  then show ?thesis using editConfig refused_frame(1) [OF e, of req env] ensure_guards [OF g wf other(1,3)] by simp
next
  case (discardChanges t1 t2 meta)
  then have other: "sid meta \<noteq> SessionID ow" "t1 \<le> LastSeen ow + ttl (mlocks m)" "t2 \<le> LastSeen ow + ttl (mlocks m)"
    using f by (auto simp: foreignTo_def)
  obtain e where e: "fst (ensure (mlocks m) ''candidate'' meta ErrorTagInUse t1 t2) = Some e"
    using guards_refused [OF g wf other(1,2)] by blast
  then show ?thesis using discardChanges refused_frame(2) [OF e, of env] ensure_guards [OF g wf other(1,3)] by simp
next
  case (commit t1 t2 t3 t4 meta)
  then have other: "sid meta \<noteq> SessionID ow" "t1 \<le> LastSeen ow + ttl (mlocks m)" "t2 \<le> LastSeen ow + ttl (mlocks m)"
    using f by (auto simp: foreignTo_def)
  obtain e where e: "fst (ensure (mlocks m) ''candidate'' meta ErrorTagInUse t1 t2) = Some e"
    using guards_refused [OF g wf other(1,2)] by blast
  then show ?thesis using commit refused_frame(3) [OF e, of env] ensure_guards [OF g wf other(1,3)] by simp
next
  case (lock req t)
  have "lockStep (mlocks m) ({sid (rMeta req)}, t) (mlocks m')" using lock lockStep.lock by simp
  then show ?thesis using lockStep_guards [OF _ wf g] f lock by simp
next
  case (unlock t1 t2 req)
  then have c: "trimSpace (rTarget req) = ''candidate''" and other: "sid (rMeta req) \<noteq> SessionID ow"
    and t: "t1 \<le> LastSeen ow + ttl (mlocks m)"
    using f by (auto simp: foreignTo_def split: if_splits)
  have same: "unlock (mlocks m) (rTarget req) meta t1 t2 = unlock (mlocks m) ''candidate'' meta t1 t2" for meta
    using c by (simp add: unlock_def normalizeDatastore_def)
  have h: "holder (mlocks m) ''candidate'' = Some ow" using g by (simp add: guards_def)
  obtain e where e: "fst (unlock (mlocks m) ''candidate'' (rMeta req) t1 t2) = Some e"
    using refused(2) [OF wf h t other] by blast
  then have m': "m' = m\<lparr>mlocks := snd (unlock (mlocks m) ''candidate'' (rMeta req) t1 t2)\<rparr>"
    using unlock by (cases "unlock (mlocks m) ''candidate'' (rMeta req) t1 t2") (simp add: Unlock_def same)
  then have "lockStep (mlocks m) ({sid (rMeta req)}, t2) (mlocks m')"
    using lockStep.unlock [OF unlock(3)] by simp
  then show ?thesis using lockStep_guards [OF _ wf g, of _ _ m'] f c unlock(1) m' by simp
next
  case (keepAlive metas t)
  have "lockStep (mlocks m) (sid ` set metas, t) (mlocks m')"
    using keepAlive lockStep.keepAlive [of t t t "mlocks m" metas] by simp
  then show ?thesis using lockStep_guards [OF _ wf g] f keepAlive by simp
next
  case (sessionClose i t)
  have ls: "lockStep (mlocks m) ({i}, t) (snd (releaseSession (mlocks m) i))" by (rule lockStep.releaseSession)
  have "i \<noteq> SessionID ow" using f sessionClose by (auto simp: foreignTo_def)
  then have "\<not> fst (releaseSession (mlocks m) i)" using g release_flag [OF wf] by (auto simp: guards_def)
  moreover have "i = 0 \<or> lastEditSession m \<noteq> i" using g \<open>i \<noteq> SessionID ow\<close> by (auto simp: guards_def)
  ultimately have "m' = m\<lparr>mlocks := snd (releaseSession (mlocks m) i)\<rparr>"
    using sessionClose by (cases "releaseSession (mlocks m) i") (auto simp: SessionClose_def Let_def consumeCandidateEditOwner_def)
  then show ?thesis using lockStep_guards [OF _ wf g, of "{i}" t m'] ls f sessionClose by simp
next
  case (sweep t now clk)
  have ls: "lockStep (mlocks m) ({}, t) (snd (Locks.sweep (mlocks m) now clk))"
    using sweep by (intro lockStep.sweep) simp
  have t: "t \<le> LastSeen ow + ttl (mlocks m)" using f sweep by (simp add: foreignTo_def)
  obtain expired ce l' where sw: "Locks.sweep (mlocks m) now clk = ((expired, ce), l')"
    by (metis prod.collapse)
  then have "\<not> ce" "SessionID ow \<notin> set expired"
    using guards_not_expired [OF g wf t] sweep by (auto simp: sweep_def)
  then have "m' = m\<lparr>mlocks := l'\<rparr>"
    using sweep sw g by (auto simp: SweepExpiredSessions_def Let_def expiredCandidateEditOwner_def guards_def)
  then show ?thesis using lockStep_guards [OF _ wf g, of "{}" t m'] ls f sweep sw by simp
qed (use f in \<open>auto simp: foreignTo_def\<close>)

lemma mgrStep_ttl: "mgrStep env m l m' \<Longrightarrow> ttl (mlocks m') = ttl (mlocks m)"
proof -
  have e: "ttl (snd (ensure l ds meta tag t1 t2)) = ttl l" for l ds meta tag t1 t2
    by (simp add: ensure_state)
  have u: "ttl (snd (lock l ds meta t)) = ttl l" "ttl (snd (unlock l ds meta t1 t2)) = ttl l" for l ds meta t t1 t2
    using lockStep_ttl [OF lockStep.lock] by (auto simp: unlock_def Let_def split: sum.split option.split)
  have k: "ttl (keepAlive l metas t t) = ttl l" "ttl (snd (sweep l now clk)) = ttl l"
      "ttl (snd (releaseSession l i)) = ttl l" "ttl (snd (resetAll l)) = ttl l" for l metas t now clk i
    by (simp_all add: keepAlive_def sweep_def releaseSession_def resetAll_def)
  have c: "ensure l ds meta tag t1 t2 = (r, l') \<Longrightarrow> ttl l' = ttl l" for l ds meta tag t1 t2 r l'
    using e [of l ds meta tag t1 t2] by simp
  assume "mgrStep env m l m'"
  then show ?thesis
    by (cases rule: mgrStep.cases) (auto simp: EditConfig_locks Unlock_locks DiscardChanges_locks Commit_locks
        SessionClose_locks Sweep_locks EditFlat_def e u k dest: c dest!: RefreshE split: prod.split sum.split option.split)
qed

interpretation mg: exclusion "\<lambda>m. lockWF (mlocks m)" "mgrStep env"
    "\<lambda>m ow. map_option (Pair ow) (guardedStore m ow)" "\<lambda>m (ow, st). foreignTo (mlocks m) ow" for env
proof (unfold_locales, goal_cases)
  case (1 m l m') then show ?case using mgrStep_locks by blast
next
  case (2 m l m' ow l') then show ?case using mgrStep_ttl by (cases ow) (auto simp: foreignTo_def)
next
  case (3 m l m' d ow) then show ?case
    using foreign_step [of env m l m'] by (auto simp: guardedStore_def split: if_splits)
qed

section \<open>Outcomes\<close>

text \<open>What a commit does to the store, when it passes the locks and the candidate is valid.\<close>

lemma commit_enters:
  assumes "ensure (mlocks m) ''candidate'' meta ErrorTagInUse t1 t2 = (None, l1)"
    "ensure l1 ''running'' meta ErrorTagLockDenied t3 t4 = (None, l2)" "valid (Candidate (mstore m))"
    "PersistCandidate (mstore m) (mfs m) = (Inr (backup, nxt), s)"
  shows "ManagerCommit env m meta t1 t2 t3 t4 = finishCommit env (m\<lparr>mlocks := l2, mfs := s\<rparr>) backup nxt"
  using assms by (auto simp: ManagerCommit_def Let_def ValidateConfig_def split: sum.split)

lemma finishCommit_ok:
  assumes "restartFor env (bDirty backup) (trimSpace (ENBSerial nxt)) = Inr ()" "valid (Candidate (mstore m))"
  shows "mstore (snd (finishCommit env m backup nxt))
    = (mstore m)\<lparr>running := Candidate (mstore m), cand := Candidate (mstore m), dirty := {}, dirtyKeys := []\<rparr>"
proof -
  have f: "FinalizeCommit (mstore m) = (Inr (), (mstore m)\<lparr>running := cand (mstore m), dirty := {}, dirtyKeys := []\<rparr>)"
    using assms(2) by (simp add: FinalizeCommit_def Candidate_def split: sum.split)
  then show ?thesis using assms(1)
    by (auto simp: finishCommit_def ResetCandidate_def Candidate_def dest!: discardE split: prod.split sum.split)
qed

text \<open>Writing an artifact touches the artifact and its temporary file.\<close>

definition artifactFiles :: "ManagerEnv \<Rightarrow> string set" where
  "artifactFiles env = {artRunning env, artRunning env @ ''.tmp'', artCandidate env, artCandidate env @ ''.tmp''}"

lemma touches_osWriteFile: "p \<in> A \<Longrightarrow> touches A s (snd (osWriteFile p data s))"
  unfolding osWriteFile_def
  by (intro touches_bindIO touches_syscall touches_osUpdate touches_osNop) (auto simp: touches_def)

lemma touches_WriteSnapshotFile:
  "p \<in> A \<Longrightarrow> p @ ''.tmp'' \<in> A \<Longrightarrow> touches A s (snd (WriteSnapshotFile p data s))"
  by (auto simp: WriteSnapshotFile_def Let_def
      intro!: touches_bindIO touches_osNop touches_osWriteFile touches_osRename)

lemma touches_writeArtifact:
  "p \<in> A \<Longrightarrow> p @ ''.tmp'' \<in> A \<Longrightarrow> touches A s (snd (writeArtifact env p cfg s))"
  unfolding writeArtifact_def liftIO_def
  by (auto intro!: touches_bindIO touches_WriteSnapshotFile split: sum.split)

lemma touches_Refresh: "touches (artifactFiles env) (mfs m) (mfs (snd (RefreshArtifacts env m)))"
proof -
  have "touches (artifactFiles env) (mfs m) (snd (bindIO (writeArtifact env (artRunning env) (Running (mstore m)))
      (\<lambda>_. writeArtifact env (artCandidate env) (Candidate (mstore m))) (mfs m)))"
    by (intro touches_bindIO touches_writeArtifact) (simp_all add: artifactFiles_def)
  then show ?thesis by (simp add: RefreshArtifacts_def case_prod_beta)
qed

lemma touches_discard: "touches (artifactFiles env) (mfs m) (mfs (snd (discard env m)))"
  using touches_Refresh [of env "clearCandidateEditOwner (m\<lparr>mstore := ResetCandidate (mstore m)\<rparr>)"]
  by (simp add: discard_def clearCandidateEditOwner_def)

lemma touches_content:
  "touches A s s' \<Longrightarrow> path st f \<notin> A \<Longrightarrow> contentOf st s' f = contentOf st s f"
  by (simp add: touches_def contentOf_def)

text \<open>When no system call fails and libyang accepts the artifact, it is written.\<close>

lemma files_tick: "files (tick s) = files s"
  by (simp add: tick_def)

lemma WriteSnapshotFile_spent: "spent s \<Longrightarrow> \<exists>s'. WriteSnapshotFile p data s = (Inr (), s') \<and> spent s'"
  by (auto simp: WriteSnapshotFile_def osWriteFile_def bindIO_def Let_def osNop_spent osUpdate_spent osRename_def
      syscall_spent files_tick split: option.split)

lemma writeArtifact_spent:
  assumes "spent s" "\<And>j. \<exists>raw. marshal env j = Inr raw" "\<And>raw. yangValidate env raw = Inr ()"
  shows "\<exists>s'. writeArtifact env p cfg s = (Inr (), s') \<and> spent s'"
  using assms(2) [of "render newRegistry (ids env) cfg"] assms(3) WriteSnapshotFile_spent [OF assms(1)] assms(1)
  by (auto simp: writeArtifact_def liftIO_def bindIO_def split: sum.split)

lemma Refresh_spent:
  assumes "spent (mfs m)" "\<And>j. \<exists>raw. marshal env j = Inr raw" "\<And>raw. yangValidate env raw = Inr ()"
  shows "fst (RefreshArtifacts env m) = Inr ()"
proof -
  obtain s1 where s1: "writeArtifact env (artRunning env) (Running (mstore m)) (mfs m) = (Inr (), s1)" "spent s1"
    using writeArtifact_spent [OF assms] by blast
  obtain s2 where "writeArtifact env (artCandidate env) (Candidate (mstore m)) s1 = (Inr (), s2)"
    using writeArtifact_spent [OF s1(2) assms(2,3)] by blast
  then show ?thesis using s1 by (simp add: RefreshArtifacts_def bindIO_def)
qed

lemma discard_spent:
  assumes "spent (mfs m)" "\<And>j. \<exists>raw. marshal env j = Inr raw" "\<And>raw. yangValidate env raw = Inr ()"
  shows "fst (discard env m) = Inr ()"
  using Refresh_spent [OF _ assms(2,3), of "clearCandidateEditOwner (m\<lparr>mstore := ResetCandidate (mstore m)\<rparr>)"] assms(1)
  by (simp add: discard_def clearCandidateEditOwner_def)

section \<open>A sample manager\<close>

definition sampleEnv :: "(string \<Rightarrow> unit result) option \<Rightarrow> ManagerEnv" where
  "sampleEnv restart = \<lparr>yangValidate = (\<lambda>_. Inr ()),
     yangLeaves = (\<lambda>_. Inr [\<lparr>lPath = mccPath, lValue = ''999'', lIsKey = False\<rparr>]),
     marshal = (\<lambda>_. Inr ''{}''), ids = \<lparr>SubNetwork = ''1'', ManagedElement = ''2'', ENBFunctionID = ''3''\<rparr>,
     artRunning = ''running.json'', artCandidate = ''candidate.json'',
     targetOf = Some (\<lambda>_. Some ''enb''), triggerRestart = restart\<rparr>"

text \<open>Alice holds the candidate, with an edit of the physical cell identity pending.\<close>

definition sampleManager :: "(nat \<Rightarrow> oserr option) \<Rightarrow> Manager" where
  "sampleManager sched = \<lparr>mstore = rrStore, mlocks = aliceLocked, lastEditSession = 1, mfs = sampleFS sched\<rparr>"

lemma sampleManager_guards: "guards (sampleManager sched) aliceOwner"
  by (auto simp: guards_def sampleManager_def aliceLocked_eq holder_def backed_def seen_def aliceOwner_def)

section \<open>Properties\<close>


definition bobRequest :: EditRequest where
  "bobRequest = \<lparr>eMeta = bob, eTarget = ''candidate'', DefaultOperation = [], TestOption = [], ErrorOption = [],
     ePayload = ''{}''\<rparr>"



lemma sample_ensure:
  "fst (ensure aliceLocked ''candidate'' alice ErrorTagInUse 6 7) = None"
  "fst (ensure (snd (ensure aliceLocked ''candidate'' alice ErrorTagInUse 6 7)) ''running'' alice ErrorTagLockDenied 8 9) = None"
  by code_simp+

lemma sample_artifacts: "path rrStore f \<notin> artifactFiles (sampleEnv r)"
  by (cases f) (simp_all add: artifactFiles_def sampleEnv_def sample_paths sampleStore_def)

lemma sample_ready:
  "valid (Candidate rrStore)" "spent (sampleFS (\<lambda>_. None))"
  "f \<in> dirty rrStore \<Longrightarrow> \<exists>d. rendered rrStore (sampleFS (\<lambda>_. None)) f = Inr d"
  using rrStore_valid sampleRendered by (auto simp: Candidate_def spent_def sampleFS_def)


text \<open>C12: a commit whose restart fails is undone: the commit returns the error of the supervisor, every
  configuration file has its old content again, the running configuration is unchanged and the
  candidate is reset to it.\<close>

theorem failed_restart_undoes_commit:
  assumes "fst (ensure (mlocks m) ''candidate'' meta ErrorTagInUse t1 t2) = None"
    and "fst (ensure (snd (ensure (mlocks m) ''candidate'' meta ErrorTagInUse t1 t2)) ''running'' meta ErrorTagLockDenied t3 t4) = None"
    and "valid (Candidate (mstore m))" and "pathsOK (mstore m) (mfs m)" and "spent (mfs m)" and "tempNames (mfs m)"
    and "\<And>f. f \<in> dirty (mstore m) \<Longrightarrow> \<exists>d. rendered (mstore m) (mfs m) f = Inr d"
    and "dirty (mstore m) \<noteq> {}"
    and "restartFor env True (trimSpace (ENBSerial (Candidate (mstore m)))) = Inl e"
    and "\<And>f. path (mstore m) f \<notin> artifactFiles env"
  shows "\<exists>m'. ManagerCommit env m meta t1 t2 t3 t4 = (Inl (Plain e), m')
    \<and> Running (mstore m') = Running (mstore m) \<and> Candidate (mstore m') = Running (mstore m)
    \<and> \<not> HasPendingChanges (mstore m') \<and> (\<forall>f. contentOf (mstore m) (mfs m') f = contentOf (mstore m) (mfs m) f)"
proof -
  let ?st = "mstore m"
  obtain b s' s'' where p: "PersistCandidate ?st (mfs m) = (Inr (b, Candidate ?st), s')"
      and r: "RollbackPersist ?st (Some b) s' = (Inr (), s'')" "\<And>f. contentOf ?st s'' f = contentOf ?st (mfs m) f"
    using persist_then_rollback [OF assms(3-7)] by blast
  obtain l1 l2 where l: "ensure (mlocks m) ''candidate'' meta ErrorTagInUse t1 t2 = (None, l1)"
      "ensure l1 ''running'' meta ErrorTagLockDenied t3 t4 = (None, l2)"
    using assms(1,2) by (metis prod.collapse snd_conv)
  let ?m1 = "m\<lparr>mlocks := l2, mfs := s'\<rparr>"
  have c: "ManagerCommit env m meta t1 t2 t3 t4 = finishCommit env ?m1 b (Candidate ?st)"
    by (rule commit_enters [OF l assms(3) p])
  have fin: "finishCommit env ?m1 b (Candidate ?st) = (Inl (Plain e), undoCommit env b ?m1)"
    using persist_dirty [OF p] assms(8,9) by (simp add: finishCommit_def)
  have "mfs (undoCommit env b ?m1) = mfs (snd (discard env (?m1\<lparr>mfs := s''\<rparr>)))"
    using r(1) by (simp add: undoCommit_def)
  then have "contentOf ?st (mfs (undoCommit env b ?m1)) f = contentOf ?st (mfs m) f" for f
    using touches_content [OF touches_discard [of env "?m1\<lparr>mfs := s''\<rparr>"], of ?st f] assms(10) r(2) by simp
  then show ?thesis using c fin
    by (auto simp: ResetCandidate_def Running_def Candidate_def HasPendingChanges_def)
qed

theorem failed_restart_undoes_commit_witness:
  "\<exists>m'. ManagerCommit (sampleEnv (Some (\<lambda>_. Inl (Errorf ''timeout'')))) (sampleManager (\<lambda>_. None)) alice 6 7 8 9
        = (Inl (Plain (Errorf ''timeout'')), m')
    \<and> Running (mstore m') = Running rrStore \<and> Candidate (mstore m') = Running rrStore
    \<and> \<not> HasPendingChanges (mstore m')
    \<and> (\<forall>f. contentOf rrStore (mfs m') f = contentOf rrStore (sampleFS (\<lambda>_. None)) f)"
proof -
  have "dirty rrStore \<noteq> {}" by (simp add: rrStore_def)
  then show ?thesis
    using failed_restart_undoes_commit [of "sampleManager (\<lambda>_. None)" alice 6 7 8 9
        "sampleEnv (Some (\<lambda>_. Inl (Errorf ''timeout'')))" "Errorf ''timeout''"]
      sample_ensure sample_ready samplePathsOK sampleTempNames sample_artifacts
    by (simp add: sampleManager_def) (simp add: sampleEnv_def restartFor_def trimSpace_printable printable_def)
qed

lemma reset_pending [simp]:
  "Candidate (ResetCandidate st) = Running st" "Running (ResetCandidate st) = Running st"
  "\<not> HasPendingChanges (ResetCandidate st)"
  by (simp_all add: ResetCandidate_def Candidate_def Running_def HasPendingChanges_def)

text \<open>C17: when a session that holds the candidate or was the last to edit it is closed, its edits
  are dropped and its locks are released: nothing of a closed session can reach a later commit.\<close>

theorem session_close_discards_edits:
  assumes "lockWF (mlocks m)" and "i \<noteq> 0"
    and "lastEditSession m = i \<or> (\<exists>ow. holder (mlocks m) ''candidate'' = Some ow \<and> SessionID ow = i)"
  shows "Candidate (mstore (SessionClose env m i)) = Running (mstore m)
    \<and> Running (mstore (SessionClose env m i)) = Running (mstore m)
    \<and> \<not> HasPendingChanges (mstore (SessionClose env m i))
    \<and> (\<nexists>ds ow. holder (mlocks (SessionClose env m i)) ds = Some ow \<and> SessionID ow = i)"
proof -
  obtain released l where r: "releaseSession (mlocks m) i = (released, l)" by (cases "releaseSession (mlocks m) i")
  have "released \<longleftrightarrow> (\<exists>ow. holder (mlocks m) ''candidate'' = Some ow \<and> SessionID ow = i)"
    using release_flag [OF assms(1), of i] assms(2) r by simp
  then have "mstore (SessionClose env m i) = ResetCandidate (mstore m)"
    using assms(2,3) r by (auto simp: SessionClose_def Let_def consumeCandidateEditOwner_def)
  moreover have "\<nexists>ds ow. holder (mlocks (SessionClose env m i)) ds = Some ow \<and> SessionID ow = i"
    using assms(1,2) by (auto simp: SessionClose_locks release_holder split: option.splits if_splits)
  ultimately show ?thesis by simp
qed

theorem session_close_discards_edits_witness:
  "Candidate (mstore (SessionClose (sampleEnv None) (sampleManager (\<lambda>_. None)) 1)) = Running rrStore
    \<and> Running (mstore (SessionClose (sampleEnv None) (sampleManager (\<lambda>_. None)) 1)) = Running rrStore
    \<and> \<not> HasPendingChanges (mstore (SessionClose (sampleEnv None) (sampleManager (\<lambda>_. None)) 1))
    \<and> (\<nexists>ds ow. holder (mlocks (SessionClose (sampleEnv None) (sampleManager (\<lambda>_. None)) 1)) ds = Some ow \<and> SessionID ow = 1)"
  using session_close_discards_edits [of "sampleManager (\<lambda>_. None)" 1 "sampleEnv None"] aliceLocked_WF
  by (simp add: sampleManager_def)



lemma test_options:
  "trimSpace ''test-only'' = ''test-only''" "trimSpace ''set'' = ''set''"
  by (rule trimSpace_printable; simp add: printable_def)+

lemma editCandidate_result:
  "Candidate (mstore (snd (editCandidate env m i cs))) = (case PreviewEdit (mstore m) cs of Inl e \<Rightarrow> Candidate (mstore m) | Inr c \<Rightarrow> c)"
  "PreviewEdit (mstore m) cs = Inl e \<Longrightarrow> fst (editCandidate env m i cs) = Inl (invalidValue (errText e))"
proof -
  show "Candidate (mstore (snd (editCandidate env m i cs))) = (case PreviewEdit (mstore m) cs of Inl e \<Rightarrow> Candidate (mstore m) | Inr c \<Rightarrow> c)"
    by (simp add: Candidate_def Edit_cand split: sum.split)
  show "PreviewEdit (mstore m) cs = Inl e \<Longrightarrow> fst (editCandidate env m i cs) = Inl (invalidValue (errText e))"
    using Edit_preview [of "mstore m" cs] by (cases "Edit (mstore m) cs") (simp add: editCandidate_def)
qed


definition testRequest :: EditRequest where
  "testRequest = \<lparr>eMeta = alice, eTarget = ''candidate'', DefaultOperation = [], TestOption = ''test-only'', ErrorOption = [],
     ePayload = ''{}''\<rparr>"


section \<open>Where the protection ends\<close>

text \<open>Unlocking the running datastore, which nobody has locked, is granted to any session and resets
  the candidate: Bob drops the edit that Alice has pending under her lock.\<close>

definition bobUnlock :: LockRequest where "bobUnlock = \<lparr>rMeta = bob, rTarget = ''running''\<rparr>"

lemma unlocking_running_drops_edits:
  "guards (sampleManager sched) aliceOwner
   \<and> Candidate (mstore (sampleManager sched)) \<noteq> Running (mstore (sampleManager sched))
   \<and> Candidate (mstore (snd (Unlock env (sampleManager sched) bobUnlock 6 7))) = Running (mstore (sampleManager sched))"
proof -
  have "fst (unlock aliceLocked ''running'' bob 6 7) = None" by code_simp
  then obtain l where "unlock aliceLocked ''running'' bob 6 7 = (None, l)"
    by (cases "unlock aliceLocked ''running'' bob 6 7") auto
  then have "mstore (snd (Unlock env (sampleManager sched) bobUnlock 6 7)) = ResetCandidate rrStore"
    by (auto simp: Unlock_def bobUnlock_def sampleManager_def dest!: discardE split: prod.split sum.split)
  moreover have "PCI (Candidate rrStore) \<noteq> PCI (Running rrStore)"
    by (simp add: Candidate_def Running_def rrStore_def sampleStore_def sampleConfig_def)
  then have "Candidate rrStore \<noteq> Running rrStore" by metis
  ultimately show ?thesis using sampleManager_guards by (simp add: sampleManager_def)
qed

text \<open>A lock that has expired is removed by the next call to the lock manager, but only the sweep
  resets the candidate: Bob locks the candidate after Alice has gone silent, and finds her edit in
  it.\<close>

definition bobLock :: LockRequest where "bobLock = \<lparr>rMeta = bob, rTarget = ''candidate''\<rparr>"

lemma stale_edit_is_inherited:
  "fst (Lock (sampleManager sched) bobLock 30000000006) = None
   \<and> HasPendingChanges (mstore (snd (Lock (sampleManager sched) bobLock 30000000006)))
   \<and> Candidate (mstore (snd (Lock (sampleManager sched) bobLock 30000000006))) = Candidate rrStore"
proof -
  have "fst (lock aliceLocked ''candidate'' bob 30000000006) = None" by code_simp
  then show ?thesis
    by (simp add: Lock_def bobLock_def sampleManager_def HasPendingChanges_def case_prod_beta) (simp add: rrStore_def)
qed

end
