(* ===== verification/AlarmStore.thy ===== *)
theory AlarmStore
  imports AlarmDictionary FileSys GoTime Traces "HOL-Library.AList"
begin

text \<open>
  The active alarm list and the alarm manager
  (\<^verbatim>\<open>internal/ems/fcaps/alarms/store.go\<close>, \<^verbatim>\<open>manager.go\<close>, \<^verbatim>\<open>types.go\<close>,
  \<^verbatim>\<open>events.go\<close>): raising, touching and clearing alarms, the events that changes emit, and the
  file that keeps the list across restarts.

  The map of records is an association list in iteration order. The store writes to the file system
  it carries; the JSON encoding of a list of records is the pair of functions \<open>AlarmCodec\<close>. The
  handler of persistence errors only observes and is not modelled; the handler of events is the list
  of the events it was called with, in order. The mutex makes each call one step.
\<close>

section \<open>State\<close>

record Key =
  Component :: string
  Code :: string

record Record =
  recKey :: Key
  recAlarmID :: string
  recManagedObjectInstance :: string
  recEventType :: string
  recProbableCause :: string
  recPerceivedSeverity :: string
  recSpecificProblem :: string
  recMessage :: string
  recSeverity :: string
  recStatus :: string
  recFirstSeen :: time
  recLastSeen :: time
  recCount :: uint64

record AlarmCodec =
  encodeRecords :: "Record list \<Rightarrow> bytes result"
  decodeRecords :: "bytes \<Rightarrow> Record list result"

record AlarmStore =
  records :: "(Key \<times> Record) list"
  persistence :: string
  lastPersistErr :: "err option"
  afs :: fs

definition NewStore :: "fs \<Rightarrow> AlarmStore" where
  "NewStore s = \<lparr>records = [], persistence = [], lastPersistErr = None, afs = s\<rparr>"

section \<open>Persistence\<close>

definition aalName :: "string \<Rightarrow> string \<Rightarrow> string" where
  "aalName dir r = dir @ ''/.aal-'' @ r"

fun drawAal :: "nat \<Rightarrow> string \<Rightarrow> string io" where
  "drawAal 0 dir s = (Inl (OSErr EEXIST), s)"
| "drawAal (Suc tries) dir s =
     (let name = aalName dir (rnd s (drawn s)); s = s\<lparr>drawn := Suc (drawn s)\<rparr> in
      if files s name \<noteq> None then drawAal tries dir s
      else (Inr name, s\<lparr>files := (files s)(name \<mapsto> \<lparr>content = [], perm = 384, uid = 0, gid = 0\<rparr>)\<rparr>))"

text \<open>The sync of the parent directory after the rename; its errors are ignored.\<close>

definition syncParent :: "unit io" where
  "syncParent s = (case osNop s of (Inl _, s) \<Rightarrow> (Inr (), s)
     | (Inr _, s) \<Rightarrow> (Inr (), snd (osNop (snd (osNop s)))))"

definition atomicWriteFile :: "string \<Rightarrow> bytes \<Rightarrow> unit io" where
  "atomicWriteFile p data =
     bindIO osNop (\<lambda>_.
     bindIO (syscall (drawAal 10000 (goDir p))) (\<lambda>name.
     bindIO (onError (osUpdate name (\<lambda>f. f\<lparr>content := data\<rparr>)) (closeRemove name)) (\<lambda>_.
     bindIO (onError osNop (\<lambda>s. snd (osRemove name s))) (\<lambda>_.
     bindIO (onError (osRename name p) (\<lambda>s. snd (osRemove name s))) (\<lambda>_. syncParent)))))"

definition persistLocked :: "AlarmCodec \<Rightarrow> AlarmStore \<Rightarrow> AlarmStore" where
  "persistLocked codec st =
     (if persistence st = [] then st
      else
        (case (case encodeRecords codec (map snd (records st)) of
                 Inl e \<Rightarrow> (Inl e, afs st)
               | Inr data \<Rightarrow> atomicWriteFile (persistence st) data (afs st)) of
           (Inl e, s) \<Rightarrow> st\<lparr>lastPersistErr := Some e, afs := s\<rparr>
         | (Inr _, s) \<Rightarrow> st\<lparr>lastPersistErr := None, afs := s\<rparr>))"

fun loadRecords :: "Record list \<Rightarrow> (Key \<times> Record) list \<Rightarrow> (Key \<times> Record) list" where
  "loadRecords [] m = m"
| "loadRecords (r # rs) m =
     (if Component (recKey r) = [] \<or> Code (recKey r) = [] then loadRecords rs m
      else loadRecords rs (AList.update (recKey r) r m))"

definition load :: "AlarmCodec \<Rightarrow> AlarmStore \<Rightarrow> unit result \<times> AlarmStore" where
  "load codec st = (case osReadFile (persistence st) (afs st) of
       (Inl e, s) \<Rightarrow> (if e = OSErr ENOENT then Inr () else Inl e, st\<lparr>afs := s\<rparr>)
     | (Inr data, s) \<Rightarrow>
         (case decodeRecords codec data of
            Inl e \<Rightarrow> (Inl e, st\<lparr>afs := s\<rparr>)
          | Inr rs \<Rightarrow> (Inr (), st\<lparr>afs := s, records := loadRecords rs (records st)\<rparr>)))"

definition NewPersistentStore :: "AlarmCodec \<Rightarrow> string \<Rightarrow> fs \<Rightarrow> AlarmStore result" where
  "NewPersistentStore codec p s =
     (if p = [] then Inr (NewStore s)
      else case load codec ((NewStore s)\<lparr>persistence := p\<rparr>) of
        (Inl e, _) \<Rightarrow> Inl e | (Inr _, st) \<Rightarrow> Inr st)"

section \<open>The alarm list\<close>

text \<open>One line of the table of updates in \<^verbatim>\<open>Upsert\<close>: the new value and whether it changed.\<close>

definition refresh :: "string \<Rightarrow> string \<Rightarrow> string" where
  "refresh dst src = (if src \<noteq> [] \<and> dst \<noteq> src then src else dst)"

definition refreshes :: "string \<Rightarrow> string \<Rightarrow> bool" where
  "refreshes dst src \<longleftrightarrow> src \<noteq> [] \<and> dst \<noteq> src"

definition newRecord :: "time \<Rightarrow> Key \<Rightarrow> Alarm \<Rightarrow> Record" where
  "newRecord now k alarm = \<lparr>recKey = k, recAlarmID = aAlarmID alarm,
     recManagedObjectInstance = aManagedObjectInstance alarm, recEventType = aEventType alarm,
     recProbableCause = aProbableCause alarm, recPerceivedSeverity = aPerceivedSeverity alarm,
     recSpecificProblem = aSpecificProblem alarm, recMessage = aMessage alarm, recSeverity = aSeverity alarm,
     recStatus = StatusActive, recFirstSeen = now, recLastSeen = now, recCount = 1\<rparr>"

definition updateRecord :: "time \<Rightarrow> Alarm \<Rightarrow> Record \<Rightarrow> Record" where
  "updateRecord now alarm rec = rec\<lparr>recStatus := StatusActive,
     recFirstSeen := (if recStatus rec \<noteq> StatusActive then now else recFirstSeen rec),
     recAlarmID := refresh (recAlarmID rec) (aAlarmID alarm),
     recManagedObjectInstance := refresh (recManagedObjectInstance rec) (aManagedObjectInstance alarm),
     recEventType := refresh (recEventType rec) (aEventType alarm),
     recProbableCause := refresh (recProbableCause rec) (aProbableCause alarm),
     recPerceivedSeverity := refresh (recPerceivedSeverity rec) (aPerceivedSeverity alarm),
     recSpecificProblem := refresh (recSpecificProblem rec) (aSpecificProblem alarm),
     recMessage := refresh (recMessage rec) (aMessage alarm),
     recSeverity := refresh (recSeverity rec) (aSeverity alarm),
     recLastSeen := now, recCount := recCount rec + 1\<rparr>"

definition recordChanges :: "Alarm \<Rightarrow> Record \<Rightarrow> bool" where
  "recordChanges alarm rec \<longleftrightarrow> recStatus rec \<noteq> StatusActive
     \<or> refreshes (recAlarmID rec) (aAlarmID alarm)
     \<or> refreshes (recManagedObjectInstance rec) (aManagedObjectInstance alarm)
     \<or> refreshes (recEventType rec) (aEventType alarm) \<or> refreshes (recProbableCause rec) (aProbableCause alarm)
     \<or> refreshes (recPerceivedSeverity rec) (aPerceivedSeverity alarm)
     \<or> refreshes (recSpecificProblem rec) (aSpecificProblem alarm)
     \<or> refreshes (recMessage rec) (aMessage alarm) \<or> refreshes (recSeverity rec) (aSeverity alarm)"

definition put :: "AlarmCodec \<Rightarrow> AlarmStore \<Rightarrow> Key \<Rightarrow> Record \<Rightarrow> AlarmStore" where
  "put codec st k rec = persistLocked codec (st\<lparr>records := AList.update k rec (records st)\<rparr>)"

definition Upsert :: "AlarmCodec \<Rightarrow> AlarmStore \<Rightarrow> time \<Rightarrow> string \<Rightarrow> Alarm \<Rightarrow> (Record \<times> bool) \<times> AlarmStore" where
  "Upsert codec st now component alarm =
     (let k = \<lparr>Component = component, Code = aCode alarm\<rparr> in
      case map_of (records st) k of
        None \<Rightarrow> (let rec = newRecord now k alarm in ((rec, True), put codec st k rec))
      | Some old \<Rightarrow>
          (let rec = updateRecord now alarm old in ((rec, recordChanges alarm old), put codec st k rec)))"

definition Touch :: "AlarmCodec \<Rightarrow> AlarmStore \<Rightarrow> time \<Rightarrow> string \<Rightarrow> string \<Rightarrow> AlarmStore" where
  "Touch codec st now component code =
     (let k = \<lparr>Component = component, Code = code\<rparr> in
      case map_of (records st) k of
        None \<Rightarrow> st
      | Some rec \<Rightarrow>
          if recStatus rec \<noteq> StatusActive then st
          else put codec st k (rec\<lparr>recLastSeen := now, recCount := recCount rec + 1\<rparr>))"

definition clearedRecord :: "time \<Rightarrow> Record \<Rightarrow> Record" where
  "clearedRecord now rec = rec\<lparr>recStatus := StatusCleared, recPerceivedSeverity := SeverityCleared, recLastSeen := now\<rparr>"

definition clearsFor :: "string \<Rightarrow> Key \<times> Record \<Rightarrow> bool" where
  "clearsFor component = (\<lambda>(k, rec). Component k = component \<and> recStatus rec \<noteq> StatusCleared)"

definition ClearComponent :: "AlarmCodec \<Rightarrow> AlarmStore \<Rightarrow> time \<Rightarrow> string \<Rightarrow> Record list \<times> AlarmStore" where
  "ClearComponent codec st now component =
     (let cleared = map (\<lambda>(k, rec). clearedRecord now rec) (filter (clearsFor component) (records st));
          st' = st\<lparr>records := map (\<lambda>kr. if clearsFor component kr then (fst kr, clearedRecord now (snd kr)) else kr) (records st)\<rparr>
      in (cleared, if cleared \<noteq> [] then persistLocked codec st' else st'))"

definition Clear :: "AlarmCodec \<Rightarrow> AlarmStore \<Rightarrow> time \<Rightarrow> string \<Rightarrow> string \<Rightarrow> Record option \<times> AlarmStore" where
  "Clear codec st now component code =
     (let k = \<lparr>Component = component, Code = code\<rparr> in
      case map_of (records st) k of
        None \<Rightarrow> (None, st)
      | Some old \<Rightarrow>
          if recStatus old = StatusCleared then (None, st)
          else let rec = (clearedRecord now old)\<lparr>recSeverity := ''cleared''\<rparr> in
            (Some rec, put codec st k rec))"

definition Snapshot :: "AlarmStore \<Rightarrow> Record list" where
  "Snapshot st = map snd (records st)"

definition LastPersistError :: "AlarmStore \<Rightarrow> err option" where
  "LastPersistError st = lastPersistErr st"

definition Active :: "AlarmStore \<Rightarrow> Record list" where
  "Active st = filter (\<lambda>rec. recStatus rec = StatusActive) (map snd (records st))"

section \<open>The manager\<close>

record Event =
  evAt :: time
  evComponent :: string
  evHealth :: string
  evAlarm :: Alarm
  evStatus :: string
  evCount :: uint64

record AlarmManager =
  astore :: AlarmStore
  emitted :: "Event list"

definition recordAlarm :: "Record \<Rightarrow> Alarm" where
  "recordAlarm rec = \<lparr>aCode = Code (recKey rec), aMessage = recMessage rec, aSeverity = recSeverity rec,
     aAlarmID = recAlarmID rec, aManagedObjectInstance = recManagedObjectInstance rec,
     aEventType = recEventType rec, aProbableCause = recProbableCause rec,
     aPerceivedSeverity = recPerceivedSeverity rec, aSpecificProblem = recSpecificProblem rec\<rparr>"

definition eventOf :: "time \<Rightarrow> string \<Rightarrow> string \<Rightarrow> Record \<Rightarrow> Event" where
  "eventOf now component health rec = \<lparr>evAt = now, evComponent = component, evHealth = health,
     evAlarm = recordAlarm rec, evStatus = recStatus rec, evCount = recCount rec\<rparr>"

definition Raise :: "AlarmCodec \<Rightarrow> AlarmManager \<Rightarrow> time \<Rightarrow> string \<Rightarrow> string \<Rightarrow> Alarm \<Rightarrow> (Event \<times> bool) \<times> AlarmManager" where
  "Raise codec m now component health alarm0 =
     (let alarm = Normalize component (aManagedObjectInstance alarm0) alarm0 in
      case Upsert codec (astore m) now component alarm of
        ((rec, changed), st) \<Rightarrow>
          (let evt = eventOf now component health rec in
           ((evt, changed), m\<lparr>astore := st, emitted := emitted m @ (if changed then [evt] else [])\<rparr>)))"

definition TouchAlarm :: "AlarmCodec \<Rightarrow> AlarmManager \<Rightarrow> time \<Rightarrow> string \<Rightarrow> string \<Rightarrow> AlarmManager" where
  "TouchAlarm codec m now component code = m\<lparr>astore := Touch codec (astore m) now component code\<rparr>"

definition ClearComponentAlarms :: "AlarmCodec \<Rightarrow> AlarmManager \<Rightarrow> time \<Rightarrow> string \<Rightarrow> string \<Rightarrow> Event list \<times> AlarmManager" where
  "ClearComponentAlarms codec m now component health =
     (case ClearComponent codec (astore m) now component of
        (cleared, st) \<Rightarrow>
          (let evts = map (eventOf now component health) cleared in
           (evts, m\<lparr>astore := st, emitted := emitted m @ evts\<rparr>)))"

definition ClearAlarm :: "AlarmCodec \<Rightarrow> AlarmManager \<Rightarrow> time \<Rightarrow> string \<Rightarrow> string \<Rightarrow> string \<Rightarrow> Event option \<times> AlarmManager" where
  "ClearAlarm codec m now component code health =
     (case Clear codec (astore m) now component code of
        (None, st) \<Rightarrow> (None, m\<lparr>astore := st\<rparr>)
      | (Some rec, st) \<Rightarrow>
          (let evt = eventOf now component health rec in
           (Some evt, m\<lparr>astore := st, emitted := emitted m @ [evt]\<rparr>)))"

section \<open>Laws of the list\<close>

lemma persist_frame [simp]:
  "records (persistLocked codec st) = records st" "persistence (persistLocked codec st) = persistence st"
  by (simp_all add: persistLocked_def split: sum.split prod.split)

lemma put_frame [simp]:
  "map_of (records (put codec st k rec)) = (map_of (records st))(k \<mapsto> rec)"
  "persistence (put codec st k rec) = persistence st"
  by (simp_all add: put_def update_conv')

text \<open>A record is stored under its own key, and a cleared one has the cleared severity.\<close>

definition recordOK :: "Key \<Rightarrow> Record \<Rightarrow> bool" where
  "recordOK k rec \<longleftrightarrow> recKey rec = k \<and> recStatus rec \<in> {StatusActive, StatusCleared}
     \<and> (recStatus rec = StatusCleared \<longrightarrow> recPerceivedSeverity rec = SeverityCleared)"

definition storeOK :: "AlarmStore \<Rightarrow> bool" where
  "storeOK st \<longleftrightarrow> distinct (map fst (records st)) \<and> (\<forall>k rec. map_of (records st) k = Some rec \<longrightarrow> recordOK k rec)"

lemma status_distinct [simp]: "StatusActive \<noteq> StatusCleared" "StatusCleared \<noteq> StatusActive"
  by (simp_all add: StatusActive_def StatusCleared_def)

lemma put_OK: "storeOK st \<Longrightarrow> recordOK k rec \<Longrightarrow> storeOK (put codec st k rec)"
  by (auto simp: storeOK_def) (simp add: put_def distinct_update)

lemma newRecord_OK: "recordOK k (newRecord now k alarm)"
  by (simp add: recordOK_def newRecord_def)

lemma updateRecord_OK: "recordOK k rec \<Longrightarrow> recordOK k (updateRecord now alarm rec)"
  by (simp add: recordOK_def updateRecord_def)

lemma clearedRecord_OK: "recordOK k rec \<Longrightarrow> recordOK k (clearedRecord now rec)"
  by (simp add: recordOK_def clearedRecord_def)

lemma NewStore_OK: "storeOK (NewStore s)"
  by (simp add: storeOK_def NewStore_def)

lemma Upsert_OK: "storeOK st \<Longrightarrow> storeOK (snd (Upsert codec st now c alarm))"
  by (auto simp: Upsert_def Let_def storeOK_def [of st] intro!: put_OK newRecord_OK updateRecord_OK split: option.split)

lemma Touch_OK: "storeOK st \<Longrightarrow> storeOK (Touch codec st now c code)"
  by (auto simp: Touch_def Let_def storeOK_def [of st] recordOK_def intro!: put_OK split: option.split)

lemma Clear_OK: "storeOK st \<Longrightarrow> storeOK (snd (Clear codec st now c code))"
  by (auto simp: Clear_def Let_def storeOK_def [of st] recordOK_def clearedRecord_def intro!: put_OK split: option.split)

lemma map_of_mapk: "map_of (map (\<lambda>kv. if P kv then (fst kv, f (snd kv)) else kv) xs) k =
    (case map_of xs k of None \<Rightarrow> None | Some v \<Rightarrow> Some (if P (k, v) then f v else v))"
  by (induction xs) auto

lemma ClearComponent_lookup:
  "map_of (records (snd (ClearComponent codec st now c))) k =
     (case map_of (records st) k of None \<Rightarrow> None
      | Some rec \<Rightarrow> Some (if Component k = c \<and> recStatus rec \<noteq> StatusCleared then clearedRecord now rec else rec))"
  by (simp add: ClearComponent_def Let_def map_of_mapk clearsFor_def split: option.split)

lemma ClearComponent_OK: "storeOK st \<Longrightarrow> storeOK (snd (ClearComponent codec st now c))"
proof -
  assume ok: "storeOK st"
  have "map fst (records (snd (ClearComponent codec st now c))) = map fst (records st)"
    by (simp add: ClearComponent_def Let_def)
  then show ?thesis using ok clearedRecord_OK
    by (auto simp: storeOK_def ClearComponent_lookup split: option.splits)
qed

text \<open>The calls as steps, and the status of each alarm as the view that events announce.\<close>

inductive alarmStep :: "AlarmCodec \<Rightarrow> AlarmManager \<Rightarrow> unit \<Rightarrow> AlarmManager \<Rightarrow> bool" for codec where
  raise: "alarmStep codec m () (snd (Raise codec m now c h alarm))"
| touch: "alarmStep codec m () (TouchAlarm codec m now c code)"
| clearComponent: "alarmStep codec m () (snd (ClearComponentAlarms codec m now c h))"
| clear: "alarmStep codec m () (snd (ClearAlarm codec m now c code h))"

inductive_cases alarmStepE: "alarmStep codec m l m'"

definition statusOf :: "AlarmManager \<Rightarrow> Key \<Rightarrow> string option" where
  "statusOf m k = map_option recStatus (map_of (records (astore m)) k)"

definition evKey :: "Event \<Rightarrow> Key" where
  "evKey e = \<lparr>Component = evComponent e, Code = aCode (evAlarm e)\<rparr>"

lemma evKey_eventOf: "Component (recKey rec) = c \<Longrightarrow> evKey (eventOf now c h rec) = recKey rec"
  by (cases "recKey rec") (auto simp: evKey_def eventOf_def recordAlarm_def)

lemma evStatus_eventOf [simp]: "evStatus (eventOf now c h rec) = recStatus rec"
  by (simp add: eventOf_def)

lemma Upsert_view:
  assumes "storeOK st" "Upsert codec st now c alarm = ((rec, changed), st')"
  shows "recKey rec = \<lparr>Component = c, Code = aCode alarm\<rparr>" "recStatus rec = StatusActive"
    "map_of (records st') = (map_of (records st))(recKey rec \<mapsto> rec)"
    "\<not> changed \<Longrightarrow> map_option recStatus (map_of (records st) (recKey rec)) = Some StatusActive"
proof -
  have k: "map_of (records st) \<lparr>Component = c, Code = aCode alarm\<rparr> = Some old \<Longrightarrow>
      recKey old = \<lparr>Component = c, Code = aCode alarm\<rparr>" for old
    using assms(1) by (auto simp: storeOK_def recordOK_def)
  show key: "recKey rec = \<lparr>Component = c, Code = aCode alarm\<rparr>"
    using assms(2) k by (auto simp: Upsert_def Let_def newRecord_def updateRecord_def split: option.splits)
  show "recStatus rec = StatusActive"
    using assms(2) by (auto simp: Upsert_def Let_def newRecord_def updateRecord_def split: option.splits)
  show "map_of (records st') = (map_of (records st))(recKey rec \<mapsto> rec)"
    using assms(2) unfolding key by (auto simp: Upsert_def Let_def split: option.splits)
  show "\<not> changed \<Longrightarrow> map_option recStatus (map_of (records st) (recKey rec)) = Some StatusActive"
    using assms(2) unfolding key by (auto simp: Upsert_def Let_def recordChanges_def split: option.splits)
qed

lemma map_option_update: "map_option f (((m(k \<mapsto> v)) k')) = ((\<lambda>k. map_option f (m k))(k \<mapsto> f v)) k'"
  by simp

lemma Raise_view:
  assumes "storeOK (astore m)" "Raise codec m now c h alarm = ((evt, changed), m')"
  shows "emitted m' = emitted m @ (if changed then [evt] else [])"
    "statusOf m' = (statusOf m)(evKey evt \<mapsto> StatusActive)" "evStatus evt = StatusActive"
    "\<not> changed \<Longrightarrow> statusOf m (evKey evt) = Some StatusActive"
proof -
  let ?a = "Normalize c (aManagedObjectInstance alarm) alarm"
  obtain rec ch st where u: "Upsert codec (astore m) now c ?a = ((rec, ch), st)" by (metis prod.collapse)
  then have r: "evt = eventOf now c h rec" "changed = ch"
      "m' = m\<lparr>astore := st, emitted := emitted m @ (if changed then [evt] else [])\<rparr>"
    using assms(2) by (auto simp: Raise_def Let_def)
  note v = Upsert_view [OF assms(1) u]
  have e: "evKey evt = recKey rec" using v(1) r(1) evKey_eventOf [of rec c now h] by simp
  show "emitted m' = emitted m @ (if changed then [evt] else [])" using r by simp
  show "statusOf m' = (statusOf m)(evKey evt \<mapsto> StatusActive)"
    using v(2,3) r e by (auto simp: statusOf_def fun_eq_iff)
  show "evStatus evt = StatusActive" using r v(2) by simp
  show "\<not> changed \<Longrightarrow> statusOf m (evKey evt) = Some StatusActive" using v(4) r e by (simp add: statusOf_def)
qed

lemma Touch_view: "statusOf (TouchAlarm codec m now c code) = statusOf m"
  by (auto simp: statusOf_def TouchAlarm_def Touch_def Let_def fun_eq_iff split: option.split)

lemma Clear_view:
  assumes "storeOK (astore m)" "ClearAlarm codec m now c code h = (r, m')"
  shows "emitted m' = emitted m @ (case r of Some e \<Rightarrow> [e] | None \<Rightarrow> [])"
    "statusOf m' = (case r of Some e \<Rightarrow> (statusOf m)(evKey e \<mapsto> evStatus e) | None \<Rightarrow> statusOf m)"
proof -
  have k: "map_of (records (astore m)) \<lparr>Component = c, Code = code\<rparr> = Some old \<Longrightarrow> recKey old = \<lparr>Component = c, Code = code\<rparr>" for old
    using assms(1) by (auto simp: storeOK_def recordOK_def)
  show "emitted m' = emitted m @ (case r of Some e \<Rightarrow> [e] | None \<Rightarrow> [])"
    using assms(2) by (auto simp: ClearAlarm_def Clear_def Let_def split: option.splits if_splits)
  show "statusOf m' = (case r of Some e \<Rightarrow> (statusOf m)(evKey e \<mapsto> evStatus e) | None \<Rightarrow> statusOf m)"
    using assms(2) k by (auto simp: ClearAlarm_def Clear_def Let_def statusOf_def fun_eq_iff evKey_def eventOf_def
        recordAlarm_def clearedRecord_def split: option.splits if_splits)
qed

text \<open>Replaying the events of a cleared component.\<close>

lemma fold_clear_events:
  assumes "\<And>r. r \<in> set rs \<Longrightarrow> Component (recKey r) = c \<and> recStatus r = StatusCleared"
  shows "fold (\<lambda>e f. f(evKey e \<mapsto> evStatus e)) (map (eventOf now c h) rs) v k =
    (if k \<in> recKey ` set rs then Some StatusCleared else v k)"
  using assms
proof (induction rs arbitrary: v)
  case (Cons r rs)
  then have "evKey (eventOf now c h r) = recKey r" by (simp add: evKey_eventOf)
  with Cons show ?case by simp
qed simp

lemma ClearComponent_view:
  assumes "storeOK (astore m)" "ClearComponentAlarms codec m now c h = (evs, m')"
  shows "emitted m' = emitted m @ evs" "statusOf m' = fold (\<lambda>e f. f(evKey e \<mapsto> evStatus e)) evs (statusOf m)"
proof -
  let ?cl = "map (\<lambda>(k, rec). clearedRecord now rec) (filter (clearsFor c) (records (astore m)))"
  have ev: "evs = map (eventOf now c h) ?cl" and m': "astore m' = snd (ClearComponent codec (astore m) now c)"
    using assms(2) by (auto simp: ClearComponentAlarms_def ClearComponent_def Let_def)
  show "emitted m' = emitted m @ evs"
    using assms(2) by (auto simp: ClearComponentAlarms_def Let_def split: prod.splits)
  have lookup: "(k, r) \<in> set (records (astore m)) \<longleftrightarrow> map_of (records (astore m)) k = Some r" for k r
    using assms(1) by (simp add: storeOK_def)
  have key: "(k, r) \<in> set (records (astore m)) \<Longrightarrow> recKey r = k" for k r
    using assms(1) lookup by (auto simp: storeOK_def recordOK_def)
  have cl: "Component (recKey r) = c \<and> recStatus r = StatusCleared" if "r \<in> set ?cl" for r
    using that key by (auto simp: clearsFor_def clearedRecord_def)
  have mem: "k \<in> recKey ` set ?cl \<longleftrightarrow> (\<exists>r. map_of (records (astore m)) k = Some r \<and> Component k = c \<and> recStatus r \<noteq> StatusCleared)" for k
    using key lookup by (force simp: clearsFor_def clearedRecord_def image_iff)
  show "statusOf m' = fold (\<lambda>e f. f(evKey e \<mapsto> evStatus e)) evs (statusOf m)"
  proof
    fix k
    have "fold (\<lambda>e f. f(evKey e \<mapsto> evStatus e)) evs (statusOf m) k
        = (if k \<in> recKey ` set ?cl then Some StatusCleared else statusOf m k)"
      unfolding ev by (rule fold_clear_events) (rule cl)
    then show "statusOf m' k = fold (\<lambda>e f. f(evKey e \<mapsto> evStatus e)) evs (statusOf m) k"
      unfolding mem by (auto simp: statusOf_def m' ClearComponent_lookup clearedRecord_def split: option.split)
  qed
qed

lemma alarmStep_OK: "storeOK (astore m) \<Longrightarrow> alarmStep codec m l m' \<Longrightarrow> storeOK (astore m')"
proof (erule alarmStepE)
  fix now c h alarm assume ok: "storeOK (astore m)" and m': "m' = snd (Raise codec m now c h alarm)"
  show "storeOK (astore m')"
    using Upsert_OK [OF ok, of codec now c "Normalize c (aManagedObjectInstance alarm) alarm"] m'
    by (auto simp: Raise_def Let_def split: prod.splits)
next
  fix now c h assume ok: "storeOK (astore m)" and m': "m' = snd (ClearComponentAlarms codec m now c h)"
  show "storeOK (astore m')"
    using ClearComponent_OK [OF ok, of codec now c] m' by (auto simp: ClearComponentAlarms_def Let_def split: prod.splits)
next
  fix now c code h assume ok: "storeOK (astore m)" and m': "m' = snd (ClearAlarm codec m now c code h)"
  show "storeOK (astore m')"
    using Clear_OK [OF ok, of codec now c code] m' by (auto simp: ClearAlarm_def Let_def split: prod.splits option.splits)
qed (auto simp: TouchAlarm_def Touch_OK)

lemma alarmStep_view:
  assumes "storeOK (astore m)" "alarmStep codec m l m'"
  shows "\<exists>es. emitted m' = emitted m @ es \<and> statusOf m' = fold (\<lambda>e f. f(evKey e \<mapsto> evStatus e)) es (statusOf m)"
  using assms(2)
proof (cases rule: alarmStep.cases)
  case (raise now c h alarm)
  obtain evt ch m1 where r: "Raise codec m now c h alarm = ((evt, ch), m1)" by (metis prod.collapse)
  note v = Raise_view [OF assms(1) r]
  have "\<not> ch \<Longrightarrow> (statusOf m)(evKey evt \<mapsto> StatusActive) = statusOf m" using v(4) by (simp add: fun_upd_idem)
  then show ?thesis using raise r v by (intro exI [of _ "if ch then [evt] else []"]) auto
next
  case (touch now c code)
  then show ?thesis by (intro exI [of _ "[]"]) (simp add: Touch_view, simp add: TouchAlarm_def)
next
  case (clearComponent now c h)
  then show ?thesis using ClearComponent_view [OF assms(1) prod.collapse [symmetric], of codec now c h] by blast
next
  case (clear now c code h)
  obtain r m1 where r: "ClearAlarm codec m now c code h = (r, m1)" by (cases "ClearAlarm codec m now c code h")
  then show ?thesis using clear Clear_view [OF assms(1) r]
    by (intro exI [of _ "case r of Some e \<Rightarrow> [e] | None \<Rightarrow> []"]) (auto split: option.split)
qed

interpretation al: announced "\<lambda>m. storeOK (astore m)" "alarmStep codec" emitted statusOf evKey evStatus for codec
  by unfold_locales (auto intro: alarmStep_OK alarmStep_view)

section \<open>Persistence laws\<close>

lemma drawAal_files: "drawAal n dir s = (Inr name, s') \<Longrightarrow> files s' name \<noteq> None"
  by (induction n dir s rule: drawAal.induct) (auto simp: Let_def split: if_splits)

lemma syncParent_files: "files (snd (syncParent s)) = files s"
  by (auto simp: syncParent_def osNop_def syscall_def tick_def split: option.split)

lemma atomicWriteFile_ok:
  assumes "atomicWriteFile p data s = (Inr x, s')"
  shows "\<exists>n. files s' p = Some n \<and> content n = data"
proof -
  obtain s1 where 1: "bindIO (syscall (drawAal 10000 (goDir p))) (\<lambda>name.
     bindIO (onError (osUpdate name (\<lambda>f. f\<lparr>content := data\<rparr>)) (closeRemove name)) (\<lambda>_.
     bindIO (onError osNop (\<lambda>s. snd (osRemove name s))) (\<lambda>_.
     bindIO (onError (osRename name p) (\<lambda>s. snd (osRemove name s))) (\<lambda>_. syncParent)))) s1 = (Inr x, s')"
    using assms unfolding atomicWriteFile_def bindIO_Inr by blast
  then obtain name s2 s3 s4 s5 where a: "syscall (drawAal 10000 (goDir p)) s1 = (Inr name, s2)"
        "osUpdate name (\<lambda>f. f\<lparr>content := data\<rparr>) s2 = (Inr (), s3)" "osNop s3 = (Inr (), s4)"
        "osRename name p s4 = (Inr (), s5)" and e: "syncParent s5 = (Inr x, s')"
    unfolding bindIO_Inr onError_Inr by (metis old.unit.exhaust)
  have "files s2 name \<noteq> None" using a(1) by (auto simp: syscall_def dest: drawAal_files split: option.splits)
  then obtain n where n: "files s3 name = Some n" "content n = data"
    using osUpdate_ok [OF a(2)] by auto
  then have "files s4 name = Some n" using osNop_ok [OF a(3)] by simp
  then have "files s5 p = Some n" using a(4) by (auto simp: osRename_def syscall_def tick_def split: option.splits)
  then show ?thesis using syncParent_files [of s5] e n(2) by simp
qed

lemma loadRecords_lookup:
  assumes "distinct (map fst xs)" "\<And>k r. (k, r) \<in> set xs \<Longrightarrow> recKey r = k \<and> Component k \<noteq> [] \<and> Code k \<noteq> []"
  shows "map_of (loadRecords (map snd xs) m) k = (case map_of xs k of Some r \<Rightarrow> Some r | None \<Rightarrow> map_of m k)"
  using assms
proof (induction xs arbitrary: m)
  case (Cons kr xs)
  obtain k' r where kr: "kr = (k', r)" by (cases kr)
  then have k': "recKey r = k'" "Component k' \<noteq> []" "Code k' \<noteq> []" using Cons.prems(2) [of k' r] by auto
  have "map_of xs k' = None" using Cons.prems(1) kr by (auto simp: map_of_eq_None_iff)
  moreover have "map_of (loadRecords (map snd xs) (AList.update k' r m)) k
      = (case map_of xs k of Some r \<Rightarrow> Some r | None \<Rightarrow> map_of (AList.update k' r m) k)"
    using Cons.prems by (intro Cons.IH) auto
  ultimately show ?case using kr k' by (auto simp: update_conv' split: option.split)
qed simp

lemma loadRecords_distinct: "distinct (map fst m) \<Longrightarrow> distinct (map fst (loadRecords rs m))"
  by (induction rs m rule: loadRecords.induct) (auto simp: distinct_update)

lemma persistLocked_written:
  assumes "persistence st \<noteq> []" "lastPersistErr (persistLocked codec st) = None"
  obtains data n where "encodeRecords codec (Snapshot st) = Inr data"
    "files (afs (persistLocked codec st)) (persistence st) = Some n" "content n = data"
proof -
  obtain data where d: "encodeRecords codec (Snapshot st) = Inr data"
    using assms by (cases "encodeRecords codec (Snapshot st)") (auto simp: persistLocked_def Snapshot_def)
  obtain r s' where w: "atomicWriteFile (persistence st) data (afs st) = (r, s')" by fastforce
  have "\<exists>x. r = Inr x" using assms d w by (cases r) (auto simp: persistLocked_def Snapshot_def)
  moreover from this have "afs (persistLocked codec st) = s'"
    using assms(1) d w by (auto simp: persistLocked_def Snapshot_def)
  ultimately show thesis using that d w atomicWriteFile_ok by metis
qed

text \<open>What a restart reads back of a store whose last write went through.\<close>

lemma reload_records:
  assumes "storeOK st" "persistence st \<noteq> []" "files s (persistence st) = Some n"
    and "decodeRecords codec (content n) = Inr (Snapshot st)" "faults s (clock s) = None"
    and "\<And>k r. map_of (records st) k = Some r \<Longrightarrow> Component k \<noteq> [] \<and> Code k \<noteq> []"
  shows "\<exists>st'. NewPersistentStore codec (persistence st) s = Inr st' \<and> map_of (records st') = map_of (records st)"
proof -
  have r: "osReadFile (persistence st) s = (Inr (content n), tick s)"
    using assms(3,5) by (simp add: osReadFile_def syscall_def tick_def)
  have key: "recKey r = k \<and> Component k \<noteq> [] \<and> Code k \<noteq> []" if "(k, r) \<in> set (records st)" for k r
    using that assms(1,6) by (auto simp: storeOK_def recordOK_def)
  have d: "distinct (map fst (records st))" using assms(1) by (simp add: storeOK_def)
  have l: "map_of (loadRecords (Snapshot st) []) k = map_of (records st) k" for k
    using loadRecords_lookup [OF d key, of "[]" k] by (simp add: Snapshot_def split: option.splits)
  then have "map_of (loadRecords (Snapshot st) []) = map_of (records st)" by blast
  then show ?thesis using r assms(2,4) by (simp add: NewPersistentStore_def load_def NewStore_def)
qed

section \<open>Repeated raises\<close>

lemma Normalize_code_of_raise:
  "Raise codec m now c h a = ((evt, ch), m') \<Longrightarrow> storeOK (astore m) \<Longrightarrow>
     evKey evt = \<lparr>Component = c, Code = aCode (Normalize c (aManagedObjectInstance a) a)\<rparr>"
  using Upsert_view(1) [of "astore m" codec now c "Normalize c (aManagedObjectInstance a) a"]
  by (auto simp: Raise_def Let_def evKey_eventOf split: prod.splits)

text \<open>A record that already says what an alarm says.\<close>

definition covers :: "Alarm \<Rightarrow> Record \<Rightarrow> bool" where
  "covers alarm rec \<longleftrightarrow> \<not> recordChanges alarm rec"

lemma covers_after: "covers alarm (newRecord now k alarm)" "covers alarm (updateRecord now alarm rec)"
  by (simp_all add: covers_def recordChanges_def refreshes_def refresh_def newRecord_def updateRecord_def)

lemma covers_update:
  "covers alarm rec \<Longrightarrow> updateRecord now alarm rec = rec\<lparr>recLastSeen := now, recCount := recCount rec + 1\<rparr>"
  by (cases rec) (auto simp: covers_def recordChanges_def refreshes_def refresh_def updateRecord_def)

lemma covers_touch: "covers alarm (rec\<lparr>recLastSeen := now, recCount := n\<rparr>) = covers alarm rec"
  by (simp add: covers_def recordChanges_def)

text \<open>The key and the stored record of an alarm raised by a component.\<close>

definition alarmKey :: "string \<Rightarrow> Alarm \<Rightarrow> Key" where
  "alarmKey c a = \<lparr>Component = c, Code = aCode (Normalize c (aManagedObjectInstance a) a)\<rparr>"

lemma Raise_stored:
  "\<exists>rec. map_of (records (astore (snd (Raise codec m now c h a)))) (alarmKey c a) = Some rec
     \<and> covers (Normalize c (aManagedObjectInstance a) a) rec"
  by (auto simp: Raise_def Upsert_def Let_def alarmKey_def covers_after split: option.split)

lemma Raise_again:
  assumes "map_of (records (astore m)) (alarmKey c a) = Some rec" "covers (Normalize c (aManagedObjectInstance a) a) rec"
  shows "\<not> snd (fst (Raise codec m now c h a))" "emitted (snd (Raise codec m now c h a)) = emitted m"
    "map_of (records (astore (snd (Raise codec m now c h a)))) =
       (map_of (records (astore m)))(alarmKey c a \<mapsto> rec\<lparr>recLastSeen := now, recCount := recCount rec + 1\<rparr>)"
  using assms covers_update [OF assms(2), of now]
  by (auto simp: Raise_def Upsert_def Let_def alarmKey_def covers_def)

lemma Raise_storm:
  assumes "map_of (records (astore m)) (alarmKey c a) = Some rec" "covers (Normalize c (aManagedObjectInstance a) a) rec"
  shows "emitted (fold (\<lambda>t m. snd (Raise codec m t c h a)) ts m) = emitted m
    \<and> map_of (records (astore (fold (\<lambda>t m. snd (Raise codec m t c h a)) ts m))) = (map_of (records (astore m)))
        (alarmKey c a \<mapsto> rec\<lparr>recLastSeen := last (recLastSeen rec # ts), recCount := recCount rec + of_nat (length ts)\<rparr>)"
  using assms
proof (induction ts arbitrary: m rec)
  case Nil
  then show ?case by (auto simp: fun_eq_iff)
next
  case (Cons t ts)
  define m1 where "m1 = snd (Raise codec m t c h a)"
  note r = Raise_again [OF Cons.prems, of codec t h, folded m1_def]
  have 1: "map_of (records (astore m1)) (alarmKey c a) = Some (rec\<lparr>recLastSeen := t, recCount := recCount rec + 1\<rparr>)"
    using r(3) by simp
  show ?case
    using Cons.IH [OF 1] Cons.prems(2) r(2,3) by (simp add: covers_touch m1_def [symmetric] add.assoc fun_eq_iff)
qed

section \<open>A list of one alarm\<close>

text \<open>Writes go through on a disk without faults whose next temporary name is free.\<close>

lemma atomicWriteFile_spent:
  assumes "spent s" "files s (aalName (goDir p) (rnd s (drawn s))) = None"
  shows "\<exists>s'. atomicWriteFile p data s = (Inr (), s') \<and> spent s'"
proof -
  define name where "name = aalName (goDir p) (rnd s (drawn s))"
  define s2 where "s2 = (tick (tick s))\<lparr>drawn := Suc (drawn s),
      files := (files s)(name \<mapsto> \<lparr>content = [], perm = 384, uid = 0, gid = 0\<rparr>)\<rparr>"
  have "drawAal 10000 (goDir p) (tick (tick s)) = drawAal (Suc 9999) (goDir p) (tick (tick s))" by simp
  also have "\<dots> = (Inr name, s2)"
    using assms(2) unfolding drawAal.simps s2_def name_def by (simp add: Let_def tick_def)
  finally have 1: "bindIO (syscall (drawAal 10000 (goDir p))) f (tick s) = f name s2" for f :: "string \<Rightarrow> unit io"
    using assms(1) by (simp add: bindIO_def syscall_spent)
  define s3 where "s3 = (tick s2)\<lparr>files := (files s2)(name \<mapsto> \<lparr>content = data, perm = 384, uid = 0, gid = 0\<rparr>)\<rparr>"
  have s2: "spent s2" using assms(1) by (simp add: s2_def)
  then have 2: "osUpdate name (\<lambda>f. f\<lparr>content := data\<rparr>) s2 = (Inr (), s3)"
    by (simp add: osUpdate_spent s3_def s2_def)
  have s3: "spent s3" "files s3 name \<noteq> None" using s2 by (simp_all add: s3_def)
  obtain s5 where 4: "osRename name p (tick s3) = (Inr (), s5)" "spent s5"
    using s3 by (auto simp: osRename_def syscall_spent tick_def spent_def)
  have "atomicWriteFile p data s = syncParent s5"
    using assms(1) s3(1) unfolding atomicWriteFile_def
    by (simp add: bindIO_def [of osNop] osNop_spent 1) (simp add: bindIO_def onError_def 2 osNop_spent 4)
  moreover have "\<exists>s'. syncParent s5 = (Inr (), s') \<and> spent s'"
    using 4(2) by (simp add: syncParent_def osNop_spent)
  ultimately show ?thesis by simp
qed

definition linkDown :: Alarm where
  "linkDown = \<lparr>aCode = ''Alarm_S1_Down'', aMessage = [], aSeverity = [], aAlarmID = [], aManagedObjectInstance = [],
     aEventType = [], aProbableCause = [], aPerceivedSeverity = [], aSpecificProblem = []\<rparr>"

definition storedLinkDown :: Record where
  "storedLinkDown = newRecord 5 (alarmKey ''enb'' linkDown) (Normalize ''enb'' [] linkDown)"

definition oneRecordCodec :: AlarmCodec where
  "oneRecordCodec = \<lparr>
     encodeRecords = (\<lambda>rs. if rs = [storedLinkDown] then Inr ''[1]'' else Inl (Errorf ''unsupported'')),
     decodeRecords = (\<lambda>data. if data = ''[1]'' then Inr [storedLinkDown] else Inl (Errorf ''unsupported''))\<rparr>"

definition emptyDisk :: fs where
  "emptyDisk = \<lparr>files = (\<lambda>_. None), faults = (\<lambda>_. None), clock = 0, rnd = (\<lambda>_. ''0''), drawn = 0\<rparr>"

definition alarmDisk :: AlarmManager where
  "alarmDisk = \<lparr>astore = (NewStore emptyDisk)\<lparr>persistence := ''/aal''\<rparr>, emitted = []\<rparr>"

lemma alarmDisk_OK: "storeOK (astore alarmDisk)"
  by (simp add: storeOK_def alarmDisk_def NewStore_def)

lemma linkDown_code: "aCode (Normalize ''enb'' (aManagedObjectInstance linkDown) linkDown) = ''Alarm_S1_Down''"
  by code_simp

lemma alarmDisk_raise:
  "astore (snd (Raise oneRecordCodec alarmDisk 5 ''enb'' ''up'' linkDown))
     = put oneRecordCodec (astore alarmDisk) (alarmKey ''enb'' linkDown) storedLinkDown"
  by (simp add: Raise_def Upsert_def Let_def alarmDisk_def NewStore_def alarmKey_def storedLinkDown_def linkDown_def)

lemma alarmDisk_records:
  "records (astore (snd (Raise oneRecordCodec alarmDisk 5 ''enb'' ''up'' linkDown))) = [(alarmKey ''enb'' linkDown, storedLinkDown)]"
  unfolding alarmDisk_raise by (simp add: put_def alarmDisk_def NewStore_def)

lemma alarmDisk_written:
  "LastPersistError (astore (snd (Raise oneRecordCodec alarmDisk 5 ''enb'' ''up'' linkDown))) = None
    \<and> spent (afs (astore (snd (Raise oneRecordCodec alarmDisk 5 ''enb'' ''up'' linkDown))))"
proof -
  obtain s' where "atomicWriteFile ''/aal'' ''[1]'' emptyDisk = (Inr (), s')" "spent s'"
    using atomicWriteFile_spent [of emptyDisk "''/aal''" "''[1]''"] by (auto simp: emptyDisk_def spent_def)
  then show ?thesis unfolding alarmDisk_raise
    by (simp add: put_def persistLocked_def alarmDisk_def NewStore_def LastPersistError_def oneRecordCodec_def)
qed

section \<open>Properties\<close>

text \<open>C24: A client that only listens to the alarm events knows the alarm list: after any sequence of raises, touches
  and clears on a manager that starts with an empty list (persistent or not), the last event about
  each alarm says whether it is active or cleared, and there is no event about an alarm that is not
  in the list. Touches and repeated raises, which emit nothing, change nothing a listener tracks,
  and errors in persisting the list never lose an event.
\<close>

theorem listener_knows_alarms:
  assumes "trace (alarmStep codec) \<lparr>astore = (NewStore s)\<lparr>persistence := p\<rparr>, emitted = []\<rparr> tr"
  shows "replay evKey evStatus (emitted (traceEnd \<lparr>astore = (NewStore s)\<lparr>persistence := p\<rparr>, emitted = []\<rparr> tr))
    = statusOf (traceEnd \<lparr>astore = (NewStore s)\<lparr>persistence := p\<rparr>, emitted = []\<rparr> tr)"
proof (rule al.run_replay [OF assms])
  show "storeOK (astore \<lparr>astore = NewStore s\<lparr>persistence := p\<rparr>, emitted = []\<rparr>)"
    by (simp add: storeOK_def NewStore_def)
  show "replay evKey evStatus (emitted \<lparr>astore = NewStore s\<lparr>persistence := p\<rparr>, emitted = []\<rparr>)
      = statusOf \<lparr>astore = NewStore s\<lparr>persistence := p\<rparr>, emitted = []\<rparr>"
    by (simp add: replay_def statusOf_def NewStore_def fun_eq_iff)
qed

theorem listener_knows_alarms_witness:
  "let m0 = \<lparr>astore = (NewStore emptyDisk)\<lparr>persistence := ''/aal''\<rparr>, emitted = []\<rparr>;
       m1 = snd (Raise oneRecordCodec m0 5 ''enb'' ''up'' linkDown); m2 = snd (ClearComponentAlarms oneRecordCodec m1 7 ''enb'' ''down'')
   in replay evKey evStatus (emitted m2) = statusOf m2 \<and> statusOf m2 (alarmKey ''enb'' linkDown) = Some StatusCleared"
proof -
  define m0 where "m0 = \<lparr>astore = (NewStore emptyDisk)\<lparr>persistence := ''/aal''\<rparr>, emitted = []\<rparr>"
  define m1 where "m1 = snd (Raise oneRecordCodec m0 5 ''enb'' ''up'' linkDown)"
  define m2 where "m2 = snd (ClearComponentAlarms oneRecordCodec m1 7 ''enb'' ''down'')"
  have "trace (alarmStep oneRecordCodec) m0 [((), m1), ((), m2)]"
    by (auto simp: m1_def m2_def intro: alarmStep.intros)
  from listener_knows_alarms [OF this [unfolded m0_def]] have "replay evKey evStatus (emitted m2) = statusOf m2" by simp
  moreover have "statusOf m1 (alarmKey ''enb'' linkDown) = Some StatusActive"
    using Raise_stored [of oneRecordCodec m0 5 "''enb''" "''up''" linkDown]
    by (auto simp: m1_def statusOf_def covers_def recordChanges_def)
  then have "statusOf m2 (alarmKey ''enb'' linkDown) = Some StatusCleared"
    by (auto simp: m2_def statusOf_def ClearComponentAlarms_def Let_def alarmKey_def clearedRecord_def
        ClearComponent_lookup split_def)
  ultimately show ?thesis unfolding Let_def m0_def [symmetric] m1_def [symmetric] m2_def [symmetric] by blast
qed

text \<open>Raising the same alarm again and again is one event: after the first raise, further raises
  of the same alarm by the same component emit nothing and leave every other record alone; the
  record of the alarm only counts them (at 64 bits, wrapping) and remembers the time of the last.
\<close>

theorem repeated_raise_is_counted_once_announced:
  "let m1 = snd (Raise codec m t c h a); m2 = fold (\<lambda>t m. snd (Raise codec m t c h' a)) ts m1 in
     \<exists>rec. map_of (records (astore m1)) (alarmKey c a) = Some rec \<and> recLastSeen rec = t \<and> recStatus rec = StatusActive
       \<and> emitted m2 = emitted m1
       \<and> map_of (records (astore m2)) = (map_of (records (astore m1)))
           (alarmKey c a \<mapsto> rec\<lparr>recLastSeen := last (t # ts), recCount := recCount rec + of_nat (length ts)\<rparr>)"
proof -
  define m1 where "m1 = snd (Raise codec m t c h a)"
  obtain rec where rec: "map_of (records (astore m1)) (alarmKey c a) = Some rec"
      "covers (Normalize c (aManagedObjectInstance a) a) rec"
    using Raise_stored [of codec m t c h a] m1_def by blast
  have "recLastSeen rec = t \<and> recStatus rec = StatusActive"
    using rec(1) by (auto simp: m1_def Raise_def Upsert_def Let_def alarmKey_def newRecord_def updateRecord_def split: option.splits)
  then show ?thesis using rec(1) Raise_storm [OF rec, of codec h' ts] unfolding Let_def m1_def [symmetric] by auto
qed

text \<open>Clearing a component clears exactly its alarms: every alarm of the component that was not
  cleared becomes cleared, no other alarm changes, there is one event for each alarm that changed
  and none for the others, and clearing again emits nothing and leaves the list as it is.
\<close>

theorem clear_component_clears_exactly_its_alarms:
  assumes "storeOK (astore m)" "ClearComponentAlarms codec m now c h = (evts, m')"
  shows "statusOf m' = (\<lambda>k. if Component k = c \<and> statusOf m k \<noteq> None then Some StatusCleared else statusOf m k)
    \<and> map_of (records (astore m')) |` {k. Component k \<noteq> c} = map_of (records (astore m)) |` {k. Component k \<noteq> c}
    \<and> map evKey evts = map fst (filter (clearsFor c) (records (astore m)))
    \<and> ClearComponentAlarms codec m' now' c h' = ([], m')"
proof -
  have m': "astore m' = snd (ClearComponent codec (astore m) now c)"
      "evts = map (eventOf now c h) (map (\<lambda>(k, rec). clearedRecord now rec) (filter (clearsFor c) (records (astore m))))"
    using assms(2) by (auto simp: ClearComponentAlarms_def ClearComponent_def Let_def)
  have "recKey r = k" if "(k, r) \<in> set (records (astore m))" for k r
    using that assms(1) by (auto simp: storeOK_def recordOK_def)
  then have "map evKey evts = map fst (filter (clearsFor c) (records (astore m)))"
    unfolding m'(2) by (auto simp: clearsFor_def clearedRecord_def evKey_eventOf)
  moreover have "statusOf m' = (\<lambda>k. if Component k = c \<and> statusOf m k \<noteq> None then Some StatusCleared else statusOf m k)"
    by (auto simp: statusOf_def m'(1) ClearComponent_lookup clearedRecord_def fun_eq_iff split: option.split)
  moreover have "map_of (records (astore m')) |` {k. Component k \<noteq> c} = map_of (records (astore m)) |` {k. Component k \<noteq> c}"
    by (auto simp: restrict_map_def m'(1) ClearComponent_lookup fun_eq_iff split: option.split)
  moreover have "filter (clearsFor c) (records (astore m')) = []"
    by (auto simp: m'(1) ClearComponent_def Let_def filter_empty_conv clearsFor_def clearedRecord_def)
  then have none: "filter (clearsFor c) (records (astore m')) = []"
      "map (\<lambda>kr. if clearsFor c kr then (fst kr, clearedRecord now' (snd kr)) else kr) (records (astore m')) = records (astore m')"
    by (auto simp: filter_empty_conv intro: map_idI)
  have "ClearComponentAlarms codec m' now' c h' = ([], m')"
    unfolding ClearComponentAlarms_def ClearComponent_def Let_def none by simp
  ultimately show ?thesis by blast
qed

theorem clear_component_clears_exactly_its_alarms_witness:
  "let m = snd (Raise oneRecordCodec alarmDisk 5 ''enb'' ''up'' linkDown);
       cleared = ClearComponentAlarms oneRecordCodec m 7 ''enb'' ''down''; m' = snd cleared
   in statusOf m' (alarmKey ''enb'' linkDown) = Some StatusCleared \<and> map evKey (fst cleared) = [alarmKey ''enb'' linkDown]
     \<and> ClearComponentAlarms oneRecordCodec m' 9 ''enb'' ''down'' = ([], m')"
proof -
  define m where "m = snd (Raise oneRecordCodec alarmDisk 5 ''enb'' ''up'' linkDown)"
  have r: "records (astore m) = [(alarmKey ''enb'' linkDown, storedLinkDown)]" unfolding m_def by (rule alarmDisk_records)
  have ok: "storeOK (astore m)" unfolding m_def by (rule alarmStep_OK [OF _ alarmStep.raise]) (rule alarmDisk_OK)
  have k: "clearsFor ''enb'' (alarmKey ''enb'' linkDown, storedLinkDown)"
    by (simp add: clearsFor_def alarmKey_def storedLinkDown_def newRecord_def)
  from clear_component_clears_exactly_its_alarms [OF ok prod.collapse [symmetric], of oneRecordCodec 7 "''enb''" "''down''" 9 "''down''"]
  show ?thesis unfolding Let_def m_def [symmetric] using k
    by (simp add: r statusOf_def storedLinkDown_def [symmetric] alarmKey_def)
qed



end
