(* ===== verification/GoMarshal.thy ===== *)
theory GoMarshal
  imports EMS_Prelude
begin

text \<open>
  \<^verbatim>\<open>encoding/json\<close> on strings and on objects whose members are strings, as Go writes them: the
  members sorted by key, the characters that JSON or HTML reserve escaped, line separators escaped, and
  bytes that are not UTF-8 replaced.
\<close>

section \<open>UTF-8\<close>

definition byteIn :: "nat \<Rightarrow> nat \<Rightarrow> char \<Rightarrow> bool" where
  "byteIn lo hi c \<longleftrightarrow> lo \<le> of_char c \<and> of_char c \<le> (hi :: nat)"

text \<open>The length of the UTF-8 sequence at the head of a string, 0 when there is no valid one.\<close>

fun runeLen :: "string \<Rightarrow> nat" where
  "runeLen [] = 0"
| "runeLen (a # s) =
     (if byteIn 0 0x7F a then 1
      else case s of
        [] \<Rightarrow> 0
      | b # s \<Rightarrow>
          if byteIn 0xC2 0xDF a \<and> byteIn 0x80 0xBF b then 2
          else case s of
            [] \<Rightarrow> 0
          | c # s \<Rightarrow>
              if byteIn 0x80 0xBF c \<and>
                 (byteIn 0xE0 0xE0 a \<and> byteIn 0xA0 0xBF b \<or> byteIn 0xE1 0xEC a \<and> byteIn 0x80 0xBF b
                  \<or> byteIn 0xED 0xED a \<and> byteIn 0x80 0x9F b \<or> byteIn 0xEE 0xEF a \<and> byteIn 0x80 0xBF b) then 3
              else case s of
                [] \<Rightarrow> 0
              | d # s \<Rightarrow>
                  if byteIn 0x80 0xBF c \<and> byteIn 0x80 0xBF d \<and>
                     (byteIn 0xF0 0xF0 a \<and> byteIn 0x90 0xBF b \<or> byteIn 0xF1 0xF3 a \<and> byteIn 0x80 0xBF b
                      \<or> byteIn 0xF4 0xF4 a \<and> byteIn 0x80 0x8F b) then 4
                  else 0)"

section \<open>Strings\<close>

definition hexLower :: "nat \<Rightarrow> char" where
  "hexLower n = (''0123456789abcdef'' ! n)"

definition htmlSafe :: "char \<Rightarrow> bool" where
  "htmlSafe c \<longleftrightarrow> byteIn 32 127 c \<and> c \<notin> set [CHR 0x22, CHR 0x26, CHR 0x3C, CHR 0x3E, CHR 0x5C]"

definition escapeByte :: "char \<Rightarrow> string" where
  "escapeByte c =
     (if htmlSafe c then [c]
      else if c = CHR 0x5C \<or> c = CHR 0x22 then [CHR 0x5C, c]
      else if c = CHR 0x08 then [CHR 0x5C, CHR ''b'']
      else if c = CHR 0x0C then [CHR 0x5C, CHR ''f'']
      else if c = CHR 0x0A then [CHR 0x5C, CHR ''n'']
      else if c = CHR 0x0D then [CHR 0x5C, CHR ''r'']
      else if c = CHR 0x09 then [CHR 0x5C, CHR ''t'']
      else [CHR 0x5C, CHR ''u'', CHR ''0'', CHR ''0'', hexLower (of_char c div 16), hexLower (of_char c mod 16)])"

function escapeString :: "string \<Rightarrow> string" where
  "escapeString s = (case s of [] \<Rightarrow> []
     | c # cs \<Rightarrow>
         if byteIn 0 0x7F c then escapeByte c @ escapeString cs
         else if runeLen s = 0 then CHR 0x5C # ''ufffd'' @ escapeString cs
         else if take 3 s = [CHR 0xE2, CHR 0x80, CHR 0xA8] then CHR 0x5C # ''u2028'' @ escapeString (drop 3 s)
         else if take 3 s = [CHR 0xE2, CHR 0x80, CHR 0xA9] then CHR 0x5C # ''u2029'' @ escapeString (drop 3 s)
         else take (runeLen s) s @ escapeString (drop (runeLen s) s))"
  by pat_completeness auto
termination
proof (relation "measure length")
  show "(drop (runeLen s) s, s) \<in> measure length" if "s = c # cs" "runeLen s \<noteq> 0" for s :: string and c cs
    using that by simp
qed auto

declare escapeString.simps [simp del]

definition quoteJSON :: "string \<Rightarrow> string" where
  "quoteJSON s = CHR 0x22 # escapeString s @ [CHR 0x22]"

section \<open>Objects of strings\<close>

definition marshalMember :: "string \<times> string \<Rightarrow> string" where
  "marshalMember = (\<lambda>(k, v). quoteJSON k @ '':'' @ v)"

fun joinComma :: "string list \<Rightarrow> string" where
  "joinComma [] = []"
| "joinComma [x] = x"
| "joinComma (x # xs) = x @ '','' @ joinComma xs"

text \<open>The members are given with their values already encoded, in the order of their keys.\<close>

definition marshalObject :: "(string \<times> string) list \<Rightarrow> string" where
  "marshalObject ms = ''{'' @ joinComma (map marshalMember ms) @ ''}''"

lemma marshalObject_nonempty [simp]: "marshalObject ms \<noteq> []"
  by (simp add: marshalObject_def)

text \<open>Printable text without reserved characters is written as it is.\<close>

lemma quoteJSON_plain: "list_all htmlSafe s \<Longrightarrow> quoteJSON s = CHR 0x22 # s @ [CHR 0x22]"
proof -
  have "list_all htmlSafe s \<Longrightarrow> escapeString s = s"
    by (induction s) (simp_all add: escapeString.simps [of "[]"] escapeString.simps [of "_ # _"] escapeByte_def htmlSafe_def byteIn_def)
  then show "list_all htmlSafe s \<Longrightarrow> quoteJSON s = CHR 0x22 # s @ [CHR 0x22]" by (simp add: quoteJSON_def)
qed

end
