(* ===== verification/Notifications.thy ===== *)
theory Notifications
  imports AlarmStore GoMarshal
begin

text \<open>
  The queue of NETCONF notifications (\<^verbatim>\<open>internal/ems/fcaps/alarms/notifications.go\<close>) and the
  service that fills it from the alarm events on the bus
  (\<^verbatim>\<open>internal/ems/services/netconf_notifications.go\<close>). The mutex makes each call one step. The
  queue is never nil here: the calls on a nil queue return at once.
\<close>

section \<open>The queue\<close>

definition DefaultNotificationQueueCapacity :: int where
  "DefaultNotificationQueueCapacity = 1024"

record Notification =
  ID :: uint64
  EventTime :: time
  Payload :: string

record NotificationQueue =
  nextID :: uint64
  qcap :: int
  messages :: "Notification list"

definition NewNotificationQueue :: "int \<Rightarrow> NotificationQueue" where
  "NewNotificationQueue n =
     \<lparr>nextID = 0, qcap = (if n \<le> 0 then DefaultNotificationQueueCapacity else n), messages = []\<rparr>"

definition Append :: "time \<Rightarrow> Notification \<Rightarrow> NotificationQueue \<Rightarrow> NotificationQueue" where
  "Append now msg q =
     (if Payload msg = [] then q
      else let msg = (if isZero (EventTime msg) then msg\<lparr>EventTime := now\<rparr> else msg);
               n = nextID q + 1;
               ms = messages q @ [msg\<lparr>ID := n\<rparr>]
           in q\<lparr>nextID := n,
                messages := if int (length ms) > qcap q then drop (length ms - nat (qcap q)) ms else ms\<rparr>)"

definition Drain :: "int \<Rightarrow> NotificationQueue \<Rightarrow> Notification list \<times> NotificationQueue" where
  "Drain n q =
     (let k = (if n \<le> 0 then 100 else n);
          k = (if k > int (length (messages q)) then length (messages q) else nat k)
      in (take k (messages q), q\<lparr>messages := drop k (messages q)\<rparr>))"

definition Len :: "NotificationQueue \<Rightarrow> nat" where
  "Len q = length (messages q)"

text \<open>The payload of an alarm event; the encoder sorts the members by key and none of them can
  fail to encode.\<close>

definition alarmPayload :: "time \<Rightarrow> Event \<Rightarrow> string" where
  "alarmPayload t evt =
     (let status = (if evStatus evt = [] then StatusActive else evStatus evt); a = evAlarm evt in
      marshalObject [(''ems-fault-management:alarm-notification'', marshalObject (map (\<lambda>(k, v). (k, quoteJSON v))
        [(''alarm_id'', aAlarmID a), (''alarm_status'', status), (''component'', evComponent evt),
         (''event_time'', formatRFC3339 t), (''event_type'', aEventType a),
         (''managed_object_instance'', aManagedObjectInstance a),
         (''occurrence_count'', formatInt (uint (evCount evt))), (''perceived_severity'', aPerceivedSeverity a),
         (''probable_cause'', aProbableCause a), (''specific_problem'', aSpecificProblem a)]))])"

definition AppendAlarmEvent :: "time \<Rightarrow> Event \<Rightarrow> NotificationQueue \<Rightarrow> NotificationQueue" where
  "AppendAlarmEvent now evt q =
     (let t = (if isZero (evAt evt) then now else evAt evt)
      in Append now \<lparr>ID = 0, EventTime = t, Payload = alarmPayload t evt\<rparr> q)"

section \<open>Runs of the queue\<close>

datatype queueLabel = Appended Notification | Drained "Notification list"

inductive queueStep :: "NotificationQueue \<Rightarrow> queueLabel \<Rightarrow> NotificationQueue \<Rightarrow> bool" where
  append: "Payload msg \<noteq> [] \<Longrightarrow> q' = Append now msg q \<Longrightarrow> queueStep q (Appended (last (messages q'))) q'"
| drain: "Drain n q = (out, q') \<Longrightarrow> queueStep q (Drained out) q'"

inductive_cases queueStepE: "queueStep q l q'"

fun appended :: "queueLabel list \<Rightarrow> Notification list" where
  "appended [] = []"
| "appended (Appended m # ls) = m # appended ls"
| "appended (Drained ms # ls) = appended ls"

fun drained :: "queueLabel list \<Rightarrow> Notification list" where
  "drained [] = []"
| "drained (Appended m # ls) = drained ls"
| "drained (Drained ms # ls) = ms @ drained ls"

lemma label_append [simp]:
  "appended (ls @ ls') = appended ls @ appended ls'" "drained (ls @ ls') = drained ls @ drained ls'"
proof -
  show "appended (ls @ ls') = appended ls @ appended ls'" by (induction ls rule: appended.induct) auto
  show "drained (ls @ ls') = drained ls @ drained ls'" by (induction ls rule: drained.induct) auto
qed

definition queueOK :: "NotificationQueue \<Rightarrow> queueLabel list \<Rightarrow> bool" where
  "queueOK q ls \<longleftrightarrow> 0 < qcap q \<and> int (length (messages q)) \<le> qcap q
     \<and> map ID (appended ls) = map of_nat [1..<Suc (length (appended ls))] \<and> nextID q = of_nat (length (appended ls))
     \<and> suffix (messages q) (appended ls) \<and> subseq (drained ls @ messages q) (appended ls)
     \<and> (int (length (appended ls)) \<le> qcap q \<longrightarrow> drained ls @ messages q = appended ls)"

lemma queueOK_new: "queueOK (NewNotificationQueue n) []"
  by (simp add: queueOK_def NewNotificationQueue_def DefaultNotificationQueueCapacity_def)

lemma queueOK_drain:
  assumes "queueOK q ls" "Drain n q = (out, q')"
  shows "queueOK q' (ls @ [Drained out])"
proof -
  obtain k where k: "out = take k (messages q)" "q' = q\<lparr>messages := drop k (messages q)\<rparr>"
    using assms(2) by (auto simp: Drain_def Let_def)
  have "suffix (drop k (messages q)) (messages q)" by (simp add: suffix_drop)
  then have "suffix (drop k (messages q)) (appended ls)" using assms(1) suffix_order.trans by (auto simp: queueOK_def)
  then show ?thesis using assms(1) k by (auto simp: queueOK_def)
qed

text \<open>What an append adds and what it pushes out.\<close>

lemma Append_messages:
  assumes "Payload msg \<noteq> []" "0 < qcap q"
  obtains k m where "messages (Append now msg q) = drop k (messages q @ [m])" "ID m = nextID q + 1"
    "last (messages (Append now msg q)) = m" "int (length (messages q)) < qcap q \<longrightarrow> k = 0"
    "int (length (messages (Append now msg q))) \<le> qcap q" "k \<le> length (messages q)"
proof -
  define m where "m = (if isZero (EventTime msg) then msg\<lparr>EventTime := now\<rparr> else msg)\<lparr>ID := nextID q + 1\<rparr>"
  define k where "k = (if int (length (messages q @ [m])) > qcap q then length (messages q @ [m]) - nat (qcap q) else 0)"
  have ms: "messages (Append now msg q) = drop k (messages q @ [m])"
    using assms(1) by (simp add: Append_def Let_def m_def k_def)
  have k: "k \<le> length (messages q)" using assms(2) by (auto simp: k_def nat_le_iff)
  show thesis
    by (rule that [OF ms]) (use assms(2) k in \<open>auto simp: ms m_def k_def\<close>)
qed

lemma queueOK_append:
  assumes ok: "queueOK q ls" and "Payload msg \<noteq> []"
  shows "queueOK (Append now msg q) (ls @ [Appended (last (messages (Append now msg q)))])"
proof -
  have "0 < qcap q" using ok by (simp add: queueOK_def)
  then obtain k m where a: "messages (Append now msg q) = drop k (messages q @ [m])" "ID m = nextID q + 1"
      "last (messages (Append now msg q)) = m" "int (length (messages q)) < qcap q \<longrightarrow> k = 0"
      "int (length (messages (Append now msg q))) \<le> qcap q" "k \<le> length (messages q)"
    using Append_messages [OF assms(2)] by metis
  have q': "qcap (Append now msg q) = qcap q" "nextID (Append now msg q) = nextID q + 1"
    using assms(2) by (simp_all add: Append_def Let_def)
  have sq: "subseq (drained ls @ messages q) (appended ls)" and sf: "suffix (messages q) (appended ls)"
    using ok by (auto simp: queueOK_def)
  have "subseq (drained ls @ drop k (messages q)) (drained ls @ messages q)"
    by (intro list_emb_append_mono subseq_order.refl suffix_imp_subseq suffix_drop)
  then have 1: "subseq (drained ls @ messages (Append now msg q)) (appended ls @ [m])"
    using sq a(1,6) subseq_order.trans by (fastforce simp flip: append_assoc)
  have "suffix (drop k (messages q)) (appended ls)" using sf suffix_drop suffix_order.trans by blast
  then have 2: "suffix (messages (Append now msg q)) (appended ls @ [m])" using a(1,6) by simp
  have 3: "drained ls @ messages (Append now msg q) = appended ls @ [m]" if "int (length (appended ls @ [m])) \<le> qcap q"
  proof -
    have all: "drained ls @ messages q = appended ls" using that ok by (simp add: queueOK_def)
    then have "length (messages q) \<le> length (appended ls)" by (metis length_append le_add2)
    then have "k = 0" using that a(4) by simp
    then show ?thesis using all a(1) by (metis append_assoc drop0)
  qed
  show ?thesis using ok 1 2 3 a(2,5) by (simp add: queueOK_def q' a(3))
qed

lemma queueStep_OK: "queueOK q ls \<Longrightarrow> queueStep q l q' \<Longrightarrow> queueOK q' (ls @ [l])"
  by (erule queueStepE) (auto intro: queueOK_append queueOK_drain)

section \<open>Properties\<close>



end
