(* ===== verification/TCA.thy ===== *)
theory TCA
  imports AlarmStore
begin

text \<open>
  Threshold crossing alerts (\<^verbatim>\<open>internal/ems/fcaps/tca/engine.go\<close>, \<^verbatim>\<open>config.go\<close>): rules over
  the values of a performance report, each with a threshold to raise and one to clear, and a time
  that either has to hold before the alarm is raised or cleared.

  The maps of a report are association lists in the order of iteration; the states of the rules
  are a map. The clock is read only when a report carries no end time. Log messages are not
  modelled.
\<close>

section \<open>Reports and their metrics\<close>

definition CanonicalUEDLBitrate :: string where "CanonicalUEDLBitrate = ''ue.dl_bitrate''"
definition CanonicalUEULBitrate :: string where "CanonicalUEULBitrate = ''ue.ul_bitrate''"
definition CanonicalUEULSNR :: string where "CanonicalUEULSNR = ''ue.ul_snr''"
definition CanonicalUEDLCQI :: string where "CanonicalUEDLCQI = ''ue.dl_cqi''"
definition CanonicalUEDLBLER :: string where "CanonicalUEDLBLER = ''ue.dl_bler''"
definition CanonicalUEULBLER :: string where "CanonicalUEULBLER = ''ue.ul_bler''"
definition CanonicalUEULPUCCHNI :: string where "CanonicalUEULPUCCHNI = ''ue.ul_pucch_ni''"
definition CanonicalUEULPHR :: string where "CanonicalUEULPHR = ''ue.ul_phr''"
definition CanonicalUERRCRLFCnt :: string where "CanonicalUERRCRLFCnt = ''ue.rrc_rlf_cnt''"
definition CanonicalUERRCInactivity :: string where "CanonicalUERRCInactivity = ''ue.rrc_release_cause_inactivity''"
definition CanonicalRRCConnectedUES :: string where "CanonicalRRCConnectedUES = ''rrc.rrc_connected_ues''"
definition CanonicalS1APReady :: string where "CanonicalS1APReady = ''s1ap.ready''"
definition CanonicalNGAPReady :: string where "CanonicalNGAPReady = ''ngap.ready''"
definition CanonicalS1APStatusCode :: string where "CanonicalS1APStatusCode = ''s1ap.status_code''"
definition CanonicalNASDLDrop :: string where "CanonicalNASDLDrop = ''s1ap.nas_dl_drop''"
definition CanonicalNASULFail :: string where "CanonicalNASULFail = ''s1ap.nas_ul_fail''"
definition CanonicalNASULSecUnknown :: string where "CanonicalNASULSecUnknown = ''s1ap.nas_ul_sec_hdr_unknown''"
definition CanonicalNASULParseFail :: string where "CanonicalNASULParseFail = ''s1ap.nas_ul_parse_fail''"
definition CanonicalNASDLParseFail :: string where "CanonicalNASDLParseFail = ''s1ap.nas_dl_parse_fail''"
definition CanonicalNASDLServiceRej :: string where "CanonicalNASDLServiceRej = ''s1ap.nas_dl_service_reject''"
definition CanonicalRRCProtocolFail :: string where "CanonicalRRCProtocolFail = ''rrc.rrc_protocol_fail''"
definition CanonicalRRCConRejectTX :: string where "CanonicalRRCConRejectTX = ''rrc.rrc_con_reject_tx''"
definition CanonicalRRCPagingFail :: string where "CanonicalRRCPagingFail = ''rrc.rrc_paging_add_fail''"
definition CanonicalRRCMaxRLCRetx :: string where "CanonicalRRCMaxRLCRetx = ''rrc.rrc_max_rlc_retx''"

type_synonym Values = "(string \<times> float64) list"

record Report =
  repEnd :: time
  ByDN :: "(string \<times> Values) list"

section \<open>Configuration\<close>

definition RuleS1InterfaceDown :: string where "RuleS1InterfaceDown = ''s1_interface_down''"
definition RuleNASSignalingLoss :: string where "RuleNASSignalingLoss = ''nas_signaling_loss''"
definition RuleNASSecurityMismatch :: string where "RuleNASSecurityMismatch = ''nas_security_mismatch''"
definition RuleNASParsingFailure :: string where "RuleNASParsingFailure = ''nas_parsing_failure''"
definition RuleRRCProtocolError :: string where "RuleRRCProtocolError = ''rrc_protocol_error''"
definition RuleRRCConnectionRejection :: string where "RuleRRCConnectionRejection = ''rrc_connection_rejection''"
definition RuleCoreServiceReject :: string where "RuleCoreServiceReject = ''core_service_reject''"
definition RulePagingCapacityExceeded :: string where "RulePagingCapacityExceeded = ''paging_capacity_exceeded''"
definition RuleRLCMaxRetransmissions :: string where "RuleRLCMaxRetransmissions = ''rlc_max_retransmissions''"
definition RuleLowThroughput :: string where "RuleLowThroughput = ''low_throughput''"
definition RuleBadSignalCondition :: string where "RuleBadSignalCondition = ''bad_signal_condition''"
definition RuleHighBLER :: string where "RuleHighBLER = ''high_bler''"
definition RuleRLFStorm :: string where "RuleRLFStorm = ''radio_link_failure_storm''"
definition RuleRFInterference :: string where "RuleRFInterference = ''rf_interference_detected''"
definition RuleUEInactivityCleanup :: string where "RuleUEInactivityCleanup = ''ue_inactivity_cleanup''"
definition RuleBearerCongestion :: string where "RuleBearerCongestion = ''bearer_congestion''"
definition RulePowerHeadroomCritical :: string where "RulePowerHeadroomCritical = ''power_headroom_critical''"

record RuleConfig =
  rcEnabled :: bool
  RaiseThreshold :: float64
  ClearThreshold :: float64
  RaiseDuration :: duration
  ClearDuration :: duration

record Config =
  cfgEnabled :: bool
  Rules :: "(string \<times> RuleConfig) list"

definition zeroRule :: RuleConfig where
  "zeroRule = \<lparr>rcEnabled = False, RaiseThreshold = Fin 0, ClearThreshold = Fin 0, RaiseDuration = 0, ClearDuration = 0\<rparr>"

definition immediateRule :: "float64 \<Rightarrow> float64 \<Rightarrow> duration \<Rightarrow> duration \<Rightarrow> RuleConfig" where
  "immediateRule raise clear raiseDuration clearDuration = \<lparr>rcEnabled = True, RaiseThreshold = raise, ClearThreshold = clear,
     RaiseDuration = raiseDuration, ClearDuration = clearDuration\<rparr>"

definition DemoSafeConfig :: Config where
  "DemoSafeConfig = \<lparr>cfgEnabled = True, Rules = [
     (RuleS1InterfaceDown, immediateRule (Fin 1) (Fin 1) 0 (10 * second)),
     (RuleNASSignalingLoss, immediateRule (Fin 0) (Fin 0) 0 (30 * second)),
     (RuleNASSecurityMismatch, immediateRule (Fin 0) (Fin 0) 0 (30 * second)),
     (RuleNASParsingFailure, immediateRule (Fin 0) (Fin 0) 0 (30 * second)),
     (RuleRRCProtocolError, immediateRule (Fin 0) (Fin 0) 0 (30 * second)),
     (RuleRRCConnectionRejection, immediateRule (Fin 0) (Fin 0) 0 (30 * second)),
     (RuleCoreServiceReject, immediateRule (Fin 0) (Fin 0) 0 (30 * second)),
     (RulePagingCapacityExceeded, immediateRule (Fin 0) (Fin 0) 0 (30 * second)),
     (RuleRLCMaxRetransmissions, immediateRule (Fin 0) (Fin 0) 0 (30 * second)),
     (RuleLowThroughput, immediateRule (Fin 1000000) (Fin 1000001) (30 * second) (10 * second)),
     (RuleBadSignalCondition, immediateRule (Fin 0) (Fin 5) (10 * second) (10 * second)),
     (RuleHighBLER, immediateRule (round64 (1 / 10)) (round64 (1 / 20)) (10 * second) (10 * second)),
     (RuleRLFStorm, immediateRule (Fin 5) (Fin 0) 0 (30 * second)),
     (RuleRFInterference, immediateRule (Fin (- 90)) (Fin (- 95)) (10 * second) (10 * second)),
     (RuleUEInactivityCleanup, immediateRule (round64 (4 / 5)) (round64 (1 / 10)) (30 * second) (30 * second)),
     (RuleBearerCongestion, immediateRule (Fin 500000) (Fin 100000) (10 * second) (10 * second)),
     (RulePowerHeadroomCritical, immediateRule (Fin 0) (Fin 3) (10 * second) (10 * second))]\<rparr>"

definition normalizeRule :: "RuleConfig \<Rightarrow> RuleConfig \<Rightarrow> RuleConfig" where
  "normalizeRule def inp =
     (if \<not> rcEnabled inp then def\<lparr>rcEnabled := False\<rparr>
      else def\<lparr>rcEnabled := True, RaiseThreshold := RaiseThreshold inp, ClearThreshold := ClearThreshold inp,
        RaiseDuration := (if RaiseDuration inp > 0 then RaiseDuration inp else RaiseDuration def),
        ClearDuration := (if ClearDuration inp > 0 then ClearDuration inp else ClearDuration def)\<rparr>)"

definition NormalizeConfig :: "Config \<Rightarrow> Config" where
  "NormalizeConfig inp =
     (if \<not> cfgEnabled inp then \<lparr>cfgEnabled = False, Rules = []\<rparr>
      else DemoSafeConfig\<lparr>Rules := fold (\<lambda>(name, rule) rs.
        AList.update name (normalizeRule (case map_of rs name of Some b \<Rightarrow> b | None \<Rightarrow> zeroRule) rule) rs)
        (Rules inp) (Rules DemoSafeConfig)\<rparr>)"

definition Rule :: "Config \<Rightarrow> string \<Rightarrow> RuleConfig" where
  "Rule c name = (if \<not> cfgEnabled c then zeroRule else case map_of (Rules c) name of Some r \<Rightarrow> r | None \<Rightarrow> zeroRule)"

section \<open>The state machine of a rule\<close>

record stateKey =
  skRule :: string
  skComponent :: string
  skCode :: string

record ruleState =
  active :: bool
  pendingRaise :: time
  pendingClear :: time

record thresholdRule =
  trName :: string
  trCode :: string
  trConfig :: RuleConfig
  trSeverity :: string

record Engine =
  tcfg :: Config
  states :: "stateKey \<Rightarrow> ruleState option"
  tmanager :: AlarmManager

definition componentPrefix :: string where "componentPrefix = ''tca:''"

definition zeroState :: ruleState where
  "zeroState = \<lparr>active = False, pendingRaise = 0, pendingClear = 0\<rparr>"

definition NewEngine :: "AlarmManager \<Rightarrow> Config \<Rightarrow> Engine" where
  "NewEngine m c = \<lparr>tcfg = NormalizeConfig c, states = (\<lambda>_. None), tmanager = m\<rparr>"

definition transition :: "AlarmCodec \<Rightarrow> time \<Rightarrow> thresholdRule \<Rightarrow> string \<Rightarrow> float64 \<Rightarrow> bool \<Rightarrow> bool \<Rightarrow> string
    \<Rightarrow> Engine \<Rightarrow> Event list \<times> Engine" where
  "transition codec now rule moi value violation clear detail e =
     (let component = componentPrefix @ moi;
          key = \<lparr>skRule = trName rule, skComponent = component, skCode = trCode rule\<rparr>;
          state = (case states e key of Some s \<Rightarrow> s | None \<Rightarrow> zeroState);
          store = (\<lambda>s. e\<lparr>states := (states e)(key \<mapsto> s)\<rparr>)
      in if \<not> active state then
           if \<not> violation then ([], e\<lparr>states := (states e)(key := None)\<rparr>)
           else
             let started = isZero (pendingRaise state);
                 state = (if started then state\<lparr>pendingRaise := now\<rparr> else state)
             in if started \<and> RaiseDuration (trConfig rule) > 0 then ([], store state)
                else if timeSub now (pendingRaise state) < RaiseDuration (trConfig rule) then ([], store state)
                else
                  let state = state\<lparr>active := True, pendingRaise := 0\<rparr>;
                      alarm = NewThresholdAlarmWithSeverity (trCode rule) moi detail value (trSeverity rule)
                  in case Raise codec (tmanager e) now component ''degraded'' alarm of
                       ((evt, changed), m) \<Rightarrow> (if changed then [evt] else [], (store state)\<lparr>tmanager := m\<rparr>)
         else if clear then
           let started = isZero (pendingClear state);
               state = (if started then state\<lparr>pendingClear := now\<rparr> else state)
           in if started \<and> ClearDuration (trConfig rule) > 0 then ([], store state)
              else if timeSub now (pendingClear state) < ClearDuration (trConfig rule) then ([], store state)
              else
                (case ClearAlarm codec (tmanager e) now component (trCode rule) ''healthy'' of
                   (evt, m) \<Rightarrow> (case evt of Some ev \<Rightarrow> [ev] | None \<Rightarrow> [],
                     e\<lparr>states := (states e)(key := None), tmanager := m\<rparr>))
         else if violation then
           ([], (store (state\<lparr>pendingClear := 0\<rparr>))\<lparr>tmanager := TouchAlarm codec (tmanager e) now component (trCode rule)\<rparr>)
         else ([], store (state\<lparr>pendingClear := 0\<rparr>)))"

section \<open>Values of a report\<close>

definition firstMetricValue :: "string list \<Rightarrow> Values \<Rightarrow> float64 option" where
  "firstMetricValue keys values =
     (case find (\<lambda>k. map_of values k \<noteq> None) keys of Some k \<Rightarrow> map_of values k | None \<Rightarrow> None)"

definition metricValue :: "string \<Rightarrow> Values \<Rightarrow> float64 option" where
  "metricValue key values = map_of values key"

definition maxBLER :: "Values \<Rightarrow> float64 option" where
  "maxBLER values = fold (\<lambda>key best. case map_of values key of None \<Rightarrow> best
       | Some v \<Rightarrow> (case best of None \<Rightarrow> Some v | Some b \<Rightarrow> if f64_lt b v then Some v else Some b))
     [CanonicalUEDLBLER, CanonicalUEULBLER] None"

definition badSignalValue :: "Values \<Rightarrow> float64 option" where
  "badSignalValue values =
     (let snr = map_of values CanonicalUEULSNR; cqi = map_of values CanonicalUEDLCQI in
      case snr of
        Some v \<Rightarrow> if f64_lt v (Fin 0) then Some v else (case cqi of Some c \<Rightarrow> Some c | None \<Rightarrow> Some v)
      | None \<Rightarrow> cqi)"

definition sumValues :: "string list \<Rightarrow> Values \<Rightarrow> float64 option" where
  "sumValues keys values = fold (\<lambda>key sum. case map_of values key of None \<Rightarrow> sum
       | Some v \<Rightarrow> Some (f64_add (case sum of Some s \<Rightarrow> s | None \<Rightarrow> Fin 0) v)) keys None"

definition belowRaise :: "float64 \<Rightarrow> RuleConfig \<Rightarrow> bool" where "belowRaise v c = f64_lt v (RaiseThreshold c)"
definition aboveRaise :: "float64 \<Rightarrow> RuleConfig \<Rightarrow> bool" where "aboveRaise v c = f64_lt (RaiseThreshold c) v"
definition atOrBelowRaise :: "float64 \<Rightarrow> RuleConfig \<Rightarrow> bool" where "atOrBelowRaise v c = f64_le v (RaiseThreshold c)"
definition belowClear :: "float64 \<Rightarrow> RuleConfig \<Rightarrow> bool" where "belowClear v c = f64_lt v (ClearThreshold c)"
definition atOrBelowClear :: "float64 \<Rightarrow> RuleConfig \<Rightarrow> bool" where "atOrBelowClear v c = f64_le v (ClearThreshold c)"
definition aboveClear :: "float64 \<Rightarrow> RuleConfig \<Rightarrow> bool" where "aboveClear v c = f64_lt (ClearThreshold c) v"

text \<open>The format \<^verbatim>\<open>%.0f\<close>.\<close>

fun formatWhole :: "float64 \<Rightarrow> string" where
  "formatWhole (Fin q) = (if q < 0 then CHR ''-'' # formatNat (nat (roundHalfEven (- q))) else formatNat (nat (roundHalfEven q)))"
| "formatWhole NegZero = ''-0''"
| "formatWhole x = formatFixed 1 x"

section \<open>Evaluation of a report\<close>

text \<open>A loop that collects the events of one step per element.\<close>

fun collect :: "('a \<Rightarrow> Engine \<Rightarrow> Event list \<times> Engine) \<Rightarrow> 'a list \<Rightarrow> Engine \<Rightarrow> Event list \<times> Engine" where
  "collect f [] e = ([], e)"
| "collect f (x # xs) e = (case f x e of (out, e1) \<Rightarrow> (case collect f xs e1 of (outs, e2) \<Rightarrow> (out @ outs, e2)))"

text \<open>The bodies of the loops over the objects of a report.\<close>

definition perDNStep :: "AlarmCodec \<Rightarrow> time \<Rightarrow> thresholdRule \<Rightarrow> (Values \<Rightarrow> float64 option) \<Rightarrow> (float64 \<Rightarrow> RuleConfig \<Rightarrow> bool)
    \<Rightarrow> (float64 \<Rightarrow> RuleConfig \<Rightarrow> bool) \<Rightarrow> string \<times> Values \<Rightarrow> Engine \<Rightarrow> Event list \<times> Engine" where
  "perDNStep codec now rule valueFn violationFn clearFn = (\<lambda>(dn, values) e. case valueFn values of
       None \<Rightarrow> ([], e)
     | Some v \<Rightarrow>
         if f64_isNaN v \<or> f64_isInf v then ([], e)
         else transition codec now rule dn v (violationFn v (trConfig rule)) (clearFn v (trConfig rule))
           (trName rule @ '' value '' @ formatFixed 6 v) e)"

definition evaluatePerDNWithRule :: "AlarmCodec \<Rightarrow> Report \<Rightarrow> time \<Rightarrow> thresholdRule \<Rightarrow> (Values \<Rightarrow> float64 option)
    \<Rightarrow> (float64 \<Rightarrow> RuleConfig \<Rightarrow> bool) \<Rightarrow> (float64 \<Rightarrow> RuleConfig \<Rightarrow> bool) \<Rightarrow> Engine \<Rightarrow> Event list \<times> Engine" where
  "evaluatePerDNWithRule codec report now rule valueFn violationFn clearFn =
     collect (perDNStep codec now rule valueFn violationFn clearFn) (ByDN report)"

definition plainRule :: "string \<Rightarrow> string \<Rightarrow> RuleConfig \<Rightarrow> thresholdRule" where
  "plainRule name code c = \<lparr>trName = name, trCode = code, trConfig = c, trSeverity = []\<rparr>"

definition evaluatePerDN :: "AlarmCodec \<Rightarrow> Report \<Rightarrow> time \<Rightarrow> string \<Rightarrow> string \<Rightarrow> (Values \<Rightarrow> float64 option)
    \<Rightarrow> (float64 \<Rightarrow> RuleConfig \<Rightarrow> bool) \<Rightarrow> (float64 \<Rightarrow> RuleConfig \<Rightarrow> bool) \<Rightarrow> Engine \<Rightarrow> Event list \<times> Engine" where
  "evaluatePerDN codec report now ruleName code valueFn violationFn clearFn e =
     (let c = Rule (tcfg e) ruleName in
      if \<not> rcEnabled c then ([], e)
      else evaluatePerDNWithRule codec report now (plainRule ruleName code c) valueFn violationFn clearFn e)"

definition evaluateS1Interface :: "AlarmCodec \<Rightarrow> Report \<Rightarrow> time \<Rightarrow> Engine \<Rightarrow> Event list \<times> Engine" where
  "evaluateS1Interface codec report now e =
     (let c = Rule (tcfg e) RuleS1InterfaceDown in
      if \<not> rcEnabled c then ([], e)
      else evaluatePerDNWithRule codec report now (plainRule RuleS1InterfaceDown AlarmS1InterfaceDown c)
        (firstMetricValue [CanonicalS1APReady, CanonicalNGAPReady])
        (\<lambda>v c. f64_lt v (RaiseThreshold c)) (\<lambda>v c. f64_le (ClearThreshold c) v) e)"

record counterRule =
  crRule :: string
  crCode :: string
  crKeys :: "string list"
  crMajorAt :: float64
  crEscalates :: bool

definition counterRules :: "counterRule list" where
  "counterRules = [
     \<lparr>crRule = RuleNASSignalingLoss, crCode = AlarmNASSignalingLoss, crKeys = [CanonicalNASDLDrop, CanonicalNASULFail], crMajorAt = Fin 0, crEscalates = False\<rparr>,
     \<lparr>crRule = RuleNASSecurityMismatch, crCode = AlarmNASSecurityMismatch, crKeys = [CanonicalNASULSecUnknown], crMajorAt = Fin 0, crEscalates = False\<rparr>,
     \<lparr>crRule = RuleNASParsingFailure, crCode = AlarmNASParsingFailure, crKeys = [CanonicalNASULParseFail, CanonicalNASDLParseFail], crMajorAt = Fin 0, crEscalates = False\<rparr>,
     \<lparr>crRule = RuleRRCProtocolError, crCode = AlarmRRCProtocolError, crKeys = [CanonicalRRCProtocolFail], crMajorAt = Fin 0, crEscalates = False\<rparr>,
     \<lparr>crRule = RuleRRCConnectionRejection, crCode = AlarmRRCConnectionRejection, crKeys = [CanonicalRRCConRejectTX], crMajorAt = Fin 5, crEscalates = True\<rparr>,
     \<lparr>crRule = RuleCoreServiceReject, crCode = AlarmCoreServiceReject, crKeys = [CanonicalNASDLServiceRej], crMajorAt = Fin 0, crEscalates = False\<rparr>,
     \<lparr>crRule = RulePagingCapacityExceeded, crCode = AlarmPagingCapacityExceeded, crKeys = [CanonicalRRCPagingFail], crMajorAt = Fin 0, crEscalates = False\<rparr>,
     \<lparr>crRule = RuleRLCMaxRetransmissions, crCode = AlarmRLCMaxRetransmissions, crKeys = [CanonicalRRCMaxRLCRetx], crMajorAt = Fin 0, crEscalates = False\<rparr>]"

definition counterStep :: "AlarmCodec \<Rightarrow> time \<Rightarrow> counterRule \<Rightarrow> RuleConfig \<Rightarrow> string \<times> Values \<Rightarrow> Engine \<Rightarrow> Event list \<times> Engine" where
  "counterStep codec now item c = (\<lambda>(dn, values) e. case sumValues (crKeys item) values of
       None \<Rightarrow> ([], e)
     | Some v \<Rightarrow>
         transition codec now \<lparr>trName = crRule item, trCode = crCode item, trConfig = c,
             trSeverity = if crEscalates item \<and> f64_le (crMajorAt item) v then SeverityMajor else []\<rparr>
           dn v (f64_lt (RaiseThreshold c) v) (f64_le v (ClearThreshold c))
           (crRule item @ '' delta '' @ formatWhole v) e)"

definition evaluateCounter :: "AlarmCodec \<Rightarrow> Report \<Rightarrow> time \<Rightarrow> counterRule \<Rightarrow> Engine \<Rightarrow> Event list \<times> Engine" where
  "evaluateCounter codec report now item e =
     (let c = Rule (tcfg e) (crRule item) in
      if \<not> rcEnabled c then ([], e) else collect (counterStep codec now item c) (ByDN report) e)"

definition evaluateNodeCounters :: "AlarmCodec \<Rightarrow> Report \<Rightarrow> time \<Rightarrow> Engine \<Rightarrow> Event list \<times> Engine" where
  "evaluateNodeCounters codec report now = collect (evaluateCounter codec report now) counterRules"

text \<open>The totals of the low-throughput rule: throughput, connected users and the object named.\<close>

definition throughputTotals :: "Report \<Rightarrow> float64 \<times> float64 \<times> string" where
  "throughputTotals report = fold (\<lambda>(dn, values) (tput, ues, moi).
       let moi = (if moi = [] then dn else moi);
           tput = (case map_of values CanonicalUEDLBitrate of Some v \<Rightarrow> f64_add tput v | None \<Rightarrow> tput);
           tput = (case map_of values CanonicalUEULBitrate of Some v \<Rightarrow> f64_add tput v | None \<Rightarrow> tput)
       in case map_of values CanonicalRRCConnectedUES of
            Some v \<Rightarrow> if f64_lt ues v then (tput, v, dn) else (tput, ues, moi)
          | None \<Rightarrow> (tput, ues, moi))
     (ByDN report) (Fin 0, Fin 0, [])"

definition evaluateLowThroughput :: "AlarmCodec \<Rightarrow> Report \<Rightarrow> time \<Rightarrow> Engine \<Rightarrow> Event list \<times> Engine" where
  "evaluateLowThroughput codec report now e =
     (let c = Rule (tcfg e) RuleLowThroughput in
      if \<not> rcEnabled c then ([], e)
      else case throughputTotals report of
        (tput, ues, moi0) \<Rightarrow>
          (let moi = (if moi0 = [] then ''SubNetwork=unknown/ManagedElement=unknown'' else moi0);
               violation = (f64_lt (Fin 0) ues \<and> f64_lt tput (RaiseThreshold c));
               clear = (f64_le ues (Fin 0) \<or> f64_le (ClearThreshold c) tput)
           in transition codec now (plainRule RuleLowThroughput AlarmLowThroughputActiveUsers c) moi tput violation clear
             (''aggregate throughput '' @ formatFixed 3 tput @ '' bps with connected UEs '' @ formatWhole ues) e))"

definition bearerStep :: "AlarmCodec \<Rightarrow> time \<Rightarrow> RuleConfig \<Rightarrow> string \<Rightarrow> string \<times> float64 \<Rightarrow> Engine \<Rightarrow> Event list \<times> Engine" where
  "bearerStep codec now c dn = (\<lambda>(key, v) e.
     if \<not> hasPrefix key ''bearer.'' \<or> \<not> hasSuffix key ''.dl_buffered_bytes'' then ([], e)
     else transition codec now (plainRule RuleBearerCongestion AlarmBearerCongestion c) dn v
       (f64_lt (RaiseThreshold c) v) (f64_le v (ClearThreshold c)) (key @ '' buffered '' @ formatWhole v @ '' bytes'') e)"

definition evaluateBearerCongestion :: "AlarmCodec \<Rightarrow> Report \<Rightarrow> time \<Rightarrow> Engine \<Rightarrow> Event list \<times> Engine" where
  "evaluateBearerCongestion codec report now e =
     (let c = Rule (tcfg e) RuleBearerCongestion in
      if \<not> rcEnabled c then ([], e)
      else collect (\<lambda>(dn, values). collect (bearerStep codec now c dn) values) (ByDN report) e)"

definition Evaluate :: "AlarmCodec \<Rightarrow> time \<Rightarrow> Report \<Rightarrow> Engine \<Rightarrow> Event list \<times> Engine" where
  "Evaluate codec clk report e =
     (if \<not> cfgEnabled (tcfg e) then ([], e)
      else let now = (if isZero (repEnd report) then clk else repEnd report) in
        collect (\<lambda>f. f)
          [evaluateS1Interface codec report now, evaluateNodeCounters codec report now, evaluateLowThroughput codec report now,
           evaluatePerDN codec report now RuleBadSignalCondition AlarmBadSignalCondition badSignalValue belowRaise aboveClear,
           evaluatePerDN codec report now RuleHighBLER AlarmHighBLER maxBLER aboveRaise belowClear,
           evaluatePerDN codec report now RuleRLFStorm AlarmRadioLinkFailureStorm (metricValue CanonicalUERRCRLFCnt) aboveRaise atOrBelowClear,
           evaluatePerDN codec report now RuleRFInterference AlarmRFInterferenceDetected (metricValue CanonicalUEULPUCCHNI) aboveRaise belowClear,
           evaluatePerDN codec report now RuleUEInactivityCleanup AlarmUEInactivityCleanup (metricValue CanonicalUERRCInactivity) aboveRaise belowClear,
           evaluateBearerCongestion codec report now,
           evaluatePerDN codec report now RulePowerHeadroomCritical AlarmPowerHeadroomCritical (metricValue CanonicalUEULPHR) atOrBelowRaise aboveClear]
          e)"

definition ComponentMOI :: "string \<Rightarrow> string" where
  "ComponentMOI c = trimPrefix c componentPrefix"

section \<open>Every step is a transition of a rule\<close>

text \<open>The rules with the code of the alarm each of them raises; no two rules share a code.\<close>

definition ruleCodes :: "(string \<times> string) list" where
  "ruleCodes = [(RuleS1InterfaceDown, AlarmS1InterfaceDown), (RuleNASSignalingLoss, AlarmNASSignalingLoss),
      (RuleNASSecurityMismatch, AlarmNASSecurityMismatch), (RuleNASParsingFailure, AlarmNASParsingFailure),
      (RuleRRCProtocolError, AlarmRRCProtocolError), (RuleRRCConnectionRejection, AlarmRRCConnectionRejection),
      (RuleCoreServiceReject, AlarmCoreServiceReject), (RulePagingCapacityExceeded, AlarmPagingCapacityExceeded),
      (RuleRLCMaxRetransmissions, AlarmRLCMaxRetransmissions), (RuleLowThroughput, AlarmLowThroughputActiveUsers), (RuleBadSignalCondition, AlarmBadSignalCondition),
      (RuleHighBLER, AlarmHighBLER), (RuleRLFStorm, AlarmRadioLinkFailureStorm),
      (RuleRFInterference, AlarmRFInterferenceDetected), (RuleUEInactivityCleanup, AlarmUEInactivityCleanup),
      (RuleBearerCongestion, AlarmBearerCongestion), (RulePowerHeadroomCritical, AlarmPowerHeadroomCritical)]"

lemma ruleCodes_distinct: "distinct (map snd ruleCodes)"
  by code_simp

lemma ruleCodes_inj: "(n, c) \<in> set ruleCodes \<Longrightarrow> (n', c) \<in> set ruleCodes \<Longrightarrow> n = n'"
  using ruleCodes_distinct by (metis distinct_map inj_on_def snd_conv prod.inject)

lemma counterRules_coded: "list_all (\<lambda>r. (crRule r, crCode r) \<in> set (tl ruleCodes)) counterRules"
  by (simp add: counterRules_def ruleCodes_def)

lemma collect_inv:
  "(\<And>x e. x \<in> set xs \<Longrightarrow> Q e \<Longrightarrow> Q (snd (f x e))) \<Longrightarrow> Q e \<Longrightarrow> Q (snd (collect f xs e))"
proof (induction xs arbitrary: e)
  case (Cons x xs)
  obtain out e1 where 1: "f x e = (out, e1)" by fastforce
  have "Q e1" using Cons.prems(1) [of x e] Cons.prems(2) 1 by simp
  then have "Q (snd (collect f xs e1))" using Cons.IH Cons.prems(1) by simp
  then show ?case using 1 by (cases "collect f xs e1") simp
qed simp

text \<open>The interface of the core network is evaluated first, then the other rules.\<close>

lemma later_rules:
  "(RuleLowThroughput, AlarmLowThroughputActiveUsers) \<in> set (tl ruleCodes)" "(RuleBearerCongestion, AlarmBearerCongestion) \<in> set (tl ruleCodes)"
  "(RuleBadSignalCondition, AlarmBadSignalCondition) \<in> set (tl ruleCodes)" "(RuleHighBLER, AlarmHighBLER) \<in> set (tl ruleCodes)"
  "(RuleRLFStorm, AlarmRadioLinkFailureStorm) \<in> set (tl ruleCodes)" "(RuleRFInterference, AlarmRFInterferenceDetected) \<in> set (tl ruleCodes)"
  "(RuleUEInactivityCleanup, AlarmUEInactivityCleanup) \<in> set (tl ruleCodes)"
  "(RulePowerHeadroomCritical, AlarmPowerHeadroomCritical) \<in> set (tl ruleCodes)"
  by (simp_all add: ruleCodes_def)

definition laterEvaluations :: "AlarmCodec \<Rightarrow> Report \<Rightarrow> time \<Rightarrow> (Engine \<Rightarrow> Event list \<times> Engine) list" where
  "laterEvaluations codec report now =
     [evaluateNodeCounters codec report now, evaluateLowThroughput codec report now,
      evaluatePerDN codec report now RuleBadSignalCondition AlarmBadSignalCondition badSignalValue belowRaise aboveClear,
      evaluatePerDN codec report now RuleHighBLER AlarmHighBLER maxBLER aboveRaise belowClear,
      evaluatePerDN codec report now RuleRLFStorm AlarmRadioLinkFailureStorm (metricValue CanonicalUERRCRLFCnt) aboveRaise atOrBelowClear,
      evaluatePerDN codec report now RuleRFInterference AlarmRFInterferenceDetected (metricValue CanonicalUEULPUCCHNI) aboveRaise belowClear,
      evaluatePerDN codec report now RuleUEInactivityCleanup AlarmUEInactivityCleanup (metricValue CanonicalUERRCInactivity) aboveRaise belowClear,
      evaluateBearerCongestion codec report now,
      evaluatePerDN codec report now RulePowerHeadroomCritical AlarmPowerHeadroomCritical (metricValue CanonicalUEULPHR) atOrBelowRaise aboveClear]"

lemma Evaluate_split:
  "snd (Evaluate codec clk report e) =
     (if \<not> cfgEnabled (tcfg e) then e
      else let now = (if isZero (repEnd report) then clk else repEnd report)
           in snd (collect (\<lambda>f. f) (laterEvaluations codec report now) (snd (evaluateS1Interface codec report now e))))"
  by (simp add: Evaluate_def laterEvaluations_def Let_def split: prod.split)

text \<open>What the transitions of some of the rules keep, the evaluation of these rules keeps.\<close>

locale rule_invariant =
  fixes codec :: AlarmCodec and holds :: "Engine \<Rightarrow> bool" and codes :: "(string \<times> string) set"
  assumes step: "holds e \<Longrightarrow> (trName rule, trCode rule) \<in> codes \<Longrightarrow>
      holds (snd (transition codec now rule moi v violation clear detail e))"
begin

lemma perDN:
  assumes "holds e" "(trName rule, trCode rule) \<in> codes"
  shows "holds (snd (evaluatePerDNWithRule codec report now rule vf rf cf e))"
  unfolding evaluatePerDNWithRule_def
proof (rule collect_inv [where Q = holds, OF _ assms(1)])
  fix x :: "string \<times> Values" and e assume "holds e"
  then show "holds (snd (perDNStep codec now rule vf rf cf x e))"
    using step [OF _ assms(2)] by (cases x) (simp add: perDNStep_def split: option.split)
qed

lemma evaluatePerDN:
  assumes "holds e" "(name, code) \<in> codes"
  shows "holds (snd (evaluatePerDN codec report now name code vf rf cf e))"
  using assms(1) perDN [OF assms(1), of "plainRule name code (Rule (tcfg e) name)"] assms(2)
  by (simp add: evaluatePerDN_def Let_def plainRule_def)

lemma s1Interface:
  "(RuleS1InterfaceDown, AlarmS1InterfaceDown) \<in> codes \<Longrightarrow> holds e \<Longrightarrow> holds (snd (evaluateS1Interface codec report now e))"
  using perDN [of e "plainRule RuleS1InterfaceDown AlarmS1InterfaceDown (Rule (tcfg e) RuleS1InterfaceDown)"]
  by (simp add: evaluateS1Interface_def Let_def plainRule_def)

lemma counter:
  assumes "holds e" "(crRule item, crCode item) \<in> codes"
  shows "holds (snd (evaluateCounter codec report now item e))"
proof -
  note rule = assms(2)
  have "holds (snd (counterStep codec now item c x e))" if "holds e" for c x e
  proof -
    obtain dn vs where x: "x = (dn, vs)" by (cases x)
    show ?thesis
    proof (cases "sumValues (crKeys item) vs")
      case (Some v)
      then show ?thesis unfolding x counterStep_def by (simp add: step [OF that] rule)
    qed (simp add: x counterStep_def that)
  qed
  then have "holds (snd (collect (counterStep codec now item c) (ByDN report) e))" for c
    using assms(1) by (rule collect_inv [where Q = holds])
  then show ?thesis using assms(1) by (simp add: evaluateCounter_def Let_def)
qed

lemma nodeCounters:
  "list_all (\<lambda>r. (crRule r, crCode r) \<in> codes) counterRules \<Longrightarrow> holds e \<Longrightarrow> holds (snd (evaluateNodeCounters codec report now e))"
  unfolding evaluateNodeCounters_def by (rule collect_inv [where Q = holds]) (simp_all add: counter list_all_iff)

lemma lowThroughput:
  "(RuleLowThroughput, AlarmLowThroughputActiveUsers) \<in> codes \<Longrightarrow> holds e \<Longrightarrow> holds (snd (evaluateLowThroughput codec report now e))"
  using step [of e "plainRule RuleLowThroughput AlarmLowThroughputActiveUsers (Rule (tcfg e) RuleLowThroughput)"]
  by (simp add: evaluateLowThroughput_def Let_def plainRule_def split: prod.split)

lemma bearerCongestion:
  assumes rule: "(RuleBearerCongestion, AlarmBearerCongestion) \<in> codes" and "holds e"
  shows "holds (snd (evaluateBearerCongestion codec report now e))"
proof -
  have "holds (snd (bearerStep codec now c dn x e))" if "holds e" for c dn x e
  proof -
    have "holds (snd (transition codec now (plainRule RuleBearerCongestion AlarmBearerCongestion c) dn v a b d e))" for v a b d
      by (rule step [OF that]) (simp add: plainRule_def rule)
    then show ?thesis using that by (cases x) (simp add: bearerStep_def)
  qed
  then have one: "holds (snd (collect (bearerStep codec now c dn) vs e))" if "holds e" for c dn vs e
    using that by (rule collect_inv [where Q = holds])
  have "holds (snd (collect (\<lambda>(dn, values). collect (bearerStep codec now c dn) values) (ByDN report) e))" for c
    by (rule collect_inv [where Q = holds, OF _ assms(2)]) (use one in \<open>simp split: prod.split\<close>)
  then show ?thesis using assms(2) by (simp add: evaluateBearerCongestion_def Let_def)
qed

lemma laterRules:
  assumes "set (tl ruleCodes) \<subseteq> codes" "holds e"
  shows "holds (snd (collect (\<lambda>f. f) (laterEvaluations codec report now) e))"
proof -
  have rules: "(n, c) \<in> codes" if "(n, c) \<in> set (tl ruleCodes)" for n c using assms(1) that by blast
  note known = later_rules [THEN rules]
  have counters: "list_all (\<lambda>r. (crRule r, crCode r) \<in> codes) counterRules"
    using counterRules_coded rules by (auto simp: list_all_iff)
  note parts = nodeCounters [OF counters] lowThroughput [OF known(1)] bearerCongestion [OF known(2)]
    evaluatePerDN [OF _ known(3)] evaluatePerDN [OF _ known(4)] evaluatePerDN [OF _ known(5)]
    evaluatePerDN [OF _ known(6)] evaluatePerDN [OF _ known(7)] evaluatePerDN [OF _ known(8)]
  have "list_all (\<lambda>f. \<forall>e. holds e \<longrightarrow> holds (snd (f e))) (laterEvaluations codec report now)"
    by (simp add: laterEvaluations_def parts)
  then show ?thesis by (intro collect_inv [where Q = holds, OF _ assms(2)]) (simp add: list_all_iff)
qed

lemma evaluation:
  assumes "set ruleCodes \<subseteq> codes" "holds e"
  shows "holds (snd (Evaluate codec clk report e))"
proof -
  have "(RuleS1InterfaceDown, AlarmS1InterfaceDown) \<in> codes" "set (tl ruleCodes) \<subseteq> codes"
    using assms(1) by (auto simp: ruleCodes_def)
  then show ?thesis using assms(2) laterRules s1Interface by (simp add: Evaluate_split Let_def split: prod.split)
qed

end

section \<open>The states agree with the alarm list\<close>

definition tcaKey :: "string \<Rightarrow> string \<Rightarrow> string \<Rightarrow> stateKey" where
  "tcaKey n moi c = \<lparr>skRule = n, skComponent = componentPrefix @ moi, skCode = c\<rparr>"

definition tcaAlarm :: "string \<Rightarrow> string \<Rightarrow> Key" where
  "tcaAlarm moi c = \<lparr>Component = componentPrefix @ moi, Code = c\<rparr>"

definition isActive :: "Engine \<Rightarrow> string \<Rightarrow> string \<Rightarrow> string \<Rightarrow> bool" where
  "isActive e n moi c \<longleftrightarrow> (case states e (tcaKey n moi c) of Some s \<Rightarrow> active s | None \<Rightarrow> False)"

definition tcaOK :: "Engine \<Rightarrow> bool" where
  "tcaOK e \<longleftrightarrow> storeOK (astore (tmanager e))
     \<and> (\<forall>(n, c) \<in> set ruleCodes. \<forall>moi. isActive e n moi c \<longleftrightarrow> statusOf (tmanager e) (tcaAlarm moi c) = Some StatusActive)"

text \<open>Raising under a TCA component keeps the code of the rule.\<close>

lemma trimSpace_tca: "\<exists>s. trimSpace (componentPrefix @ moi) = [] \<or> trimSpace (componentPrefix @ moi) = CHR ''t'' # s"
proof -
  have "\<not> prefix w (componentPrefix @ moi)" if "w \<in> set space_runes" for w
    using that by (auto simp: space_runes_def componentPrefix_def)
  then have "trimLeftSpace (componentPrefix @ moi) = componentPrefix @ moi"
    unfolding trimLeftSpace_def by (intro strip_id) auto
  then have "prefix (trimSpace (componentPrefix @ moi)) (componentPrefix @ moi)"
    using trimRightSpace_prefix by (simp add: trimSpace_def)
  then show ?thesis by (cases "trimSpace (componentPrefix @ moi)") (auto simp: componentPrefix_def)
qed

lemma codes_settled: "list_all (\<lambda>(n, c). settled c) ruleCodes"
  by code_simp

lemma codes_plain: "list_all (\<lambda>(n, c). \<not> contains c ''PROCESS'' \<and> \<not> contains c ''NETWORK'') ruleCodes"
  by code_simp

lemma Normalize_tca:
  assumes "(n, c) \<in> set ruleCodes" "aCode alarm = c"
  shows "aCode (Normalize (componentPrefix @ moi) m alarm) = c"
proof -
  have c: "trimSpace c = c" "c \<noteq> []" "\<not> contains c ''PROCESS''" "\<not> contains c ''NETWORK''"
    using codes_plain codes_settled assms(1) by (auto simp: list_all_iff settled_def)
  have "toLower (trimSpace (componentPrefix @ moi)) \<noteq> ''uds''" "toLower (trimSpace (componentPrefix @ moi)) \<noteq> ''netconf''"
    using trimSpace_tca [of moi] by (auto simp: toLower_def toLowerChar_def)
  then have "canonicalCode (componentPrefix @ moi) c = c" using c by (simp add: canonicalCode_def Let_def)
  then show ?thesis using c assms(2) by (simp add: Normalize_def Let_def)
qed

section \<open>The automaton of one rule on one object\<close>

text \<open>What a transition does to the alarm list, and the step of the rule's state apart from it.\<close>

datatype action = Idle | Raising | Clearing | Touching

definition advance :: "RuleConfig \<Rightarrow> time \<Rightarrow> bool \<Rightarrow> bool \<Rightarrow> ruleState \<Rightarrow> action \<times> ruleState option" where
  "advance c now violation clear s =
     (if \<not> active s then
        if \<not> violation then (Idle, None)
        else let started = isZero (pendingRaise s); s1 = (if started then s\<lparr>pendingRaise := now\<rparr> else s) in
          if started \<and> RaiseDuration c > 0 \<or> timeSub now (pendingRaise s1) < RaiseDuration c then (Idle, Some s1)
          else (Raising, Some (s1\<lparr>active := True, pendingRaise := 0\<rparr>))
      else if clear then
        let started = isZero (pendingClear s); s1 = (if started then s\<lparr>pendingClear := now\<rparr> else s) in
          if started \<and> ClearDuration c > 0 \<or> timeSub now (pendingClear s1) < ClearDuration c then (Idle, Some s1)
          else (Clearing, None)
      else (if violation then Touching else Idle, Some (s\<lparr>pendingClear := 0\<rparr>)))"

definition perform :: "AlarmCodec \<Rightarrow> time \<Rightarrow> thresholdRule \<Rightarrow> string \<Rightarrow> float64 \<Rightarrow> string \<Rightarrow> action \<Rightarrow> AlarmManager \<Rightarrow> Event list \<times> AlarmManager" where
  "perform codec now rule moi value detail act m = (case act of
       Idle \<Rightarrow> ([], m)
     | Raising \<Rightarrow> (case Raise codec m now (componentPrefix @ moi) ''degraded''
           (NewThresholdAlarmWithSeverity (trCode rule) moi detail value (trSeverity rule)) of
         ((evt, changed), m) \<Rightarrow> (if changed then [evt] else [], m))
     | Clearing \<Rightarrow> (case ClearAlarm codec m now (componentPrefix @ moi) (trCode rule) ''healthy'' of
         (evt, m) \<Rightarrow> (case evt of Some ev \<Rightarrow> [ev] | None \<Rightarrow> [], m))
     | Touching \<Rightarrow> ([], TouchAlarm codec m now (componentPrefix @ moi) (trCode rule)))"

definition stateOf :: "Engine \<Rightarrow> thresholdRule \<Rightarrow> string \<Rightarrow> ruleState" where
  "stateOf e rule moi = (case states e (tcaKey (trName rule) moi (trCode rule)) of Some s \<Rightarrow> s | None \<Rightarrow> zeroState)"

lemma transition_automaton:
  "transition codec now rule moi value violation clear detail e =
     (case advance (trConfig rule) now violation clear (stateOf e rule moi) of (act, s') \<Rightarrow>
       (case perform codec now rule moi value detail act (tmanager e) of (out, m) \<Rightarrow>
         (out, e\<lparr>states := (states e)(tcaKey (trName rule) moi (trCode rule) := s'), tmanager := m\<rparr>)))"
  by (simp add: transition_def advance_def perform_def stateOf_def tcaKey_def Let_def split: prod.split)

lemma advance_active:
  assumes "advance c now violation clear s = (act, s')"
  shows "(case s' of Some t \<Rightarrow> active t | None \<Rightarrow> False) \<longleftrightarrow> act = Raising \<or> act \<noteq> Clearing \<and> active s"
  using assms by (auto simp: advance_def Let_def split: if_splits)

lemma Clear_status:
  "statusOf (snd (ClearAlarm codec m now c code h)) k =
     (if k = \<lparr>Component = c, Code = code\<rparr> \<and> statusOf m k \<noteq> None then Some StatusCleared else statusOf m k)"
  by (auto simp: ClearAlarm_def Clear_def Let_def statusOf_def clearedRecord_def split: option.split)

lemma perform_status:
  assumes "storeOK (astore m)" "(n, trCode rule) \<in> set ruleCodes" "perform codec now rule moi value detail act m = (out, m')"
  shows "storeOK (astore m')"
    "statusOf m' k = (if k = tcaAlarm moi (trCode rule) then
        (if act = Raising then Some StatusActive
         else if act = Clearing \<and> statusOf m k \<noteq> None then Some StatusCleared else statusOf m k)
      else statusOf m k)"
proof -
  let ?a = "NewThresholdAlarmWithSeverity (trCode rule) moi detail value (trSeverity rule)"
  note step = alarmStep_OK [OF assms(1), of codec "()"]
  obtain evt ch m1 where r: "Raise codec m now (componentPrefix @ moi) ''degraded'' ?a = ((evt, ch), m1)"
    by (metis prod.collapse)
  have "aCode (Normalize (componentPrefix @ moi) (aManagedObjectInstance ?a) ?a) = trCode rule"
    by (rule Normalize_tca [OF assms(2)]) (simp add: NewThresholdAlarmWithSeverity_def Let_def)
  then have k: "evKey evt = tcaAlarm moi (trCode rule)"
    using Normalize_code_of_raise [OF r assms(1)] by (simp add: tcaAlarm_def)
  have m1: "storeOK (astore m1)" "statusOf m1 = (statusOf m)(tcaAlarm moi (trCode rule) \<mapsto> StatusActive)"
    using step [OF alarmStep.raise, of now "componentPrefix @ moi" "''degraded''" ?a] Raise_view(2) [OF assms(1) r] r k by simp_all
  have cl: "storeOK (astore (snd (ClearAlarm codec m now (componentPrefix @ moi) (trCode rule) ''healthy'')))"
    by (rule step [OF alarmStep.clear])
  have to: "storeOK (astore (TouchAlarm codec m now (componentPrefix @ moi) (trCode rule)))"
    by (rule step [OF alarmStep.touch])
  show "storeOK (astore m')"
    using assms(1,3) r m1 cl to by (cases act) (auto simp: perform_def split: prod.splits)
  show "statusOf m' k = (if k = tcaAlarm moi (trCode rule) then
        (if act = Raising then Some StatusActive
         else if act = Clearing \<and> statusOf m k \<noteq> None then Some StatusCleared else statusOf m k)
      else statusOf m k)"
    using assms(3) r m1(2) Clear_status [of codec m now "componentPrefix @ moi" "trCode rule" "''healthy''" k]
    by (cases act) (auto simp: perform_def Touch_view tcaAlarm_def split: prod.splits)
qed

lemma tcaKey_eq [simp]: "tcaKey n moi c = tcaKey n' moi' c' \<longleftrightarrow> n = n' \<and> moi = moi' \<and> c = c'"
  by (auto simp: tcaKey_def)

lemma tcaAlarm_eq [simp]: "tcaAlarm moi c = tcaAlarm moi' c' \<longleftrightarrow> moi = moi' \<and> c = c'"
  by (auto simp: tcaAlarm_def)

lemma tcaOK_D: "tcaOK e \<Longrightarrow> (n, c) \<in> set ruleCodes \<Longrightarrow>
    isActive e n moi c \<longleftrightarrow> statusOf (tmanager e) (tcaAlarm moi c) = Some StatusActive"
  by (auto simp: tcaOK_def)

lemma transition_OK:
  assumes ok: "tcaOK e" and rule: "(trName rule, trCode rule) \<in> set ruleCodes"
  shows "tcaOK (snd (transition codec now rule moi v violation clear detail e))"
proof -
  obtain act s' where a: "advance (trConfig rule) now violation clear (stateOf e rule moi) = (act, s')" by fastforce
  obtain out m' where p: "perform codec now rule moi v detail act (tmanager e) = (out, m')" by fastforce
  define e' where "e' = e\<lparr>states := (states e)(tcaKey (trName rule) moi (trCode rule) := s'), tmanager := m'\<rparr>"
  have e': "snd (transition codec now rule moi v violation clear detail e) = e'"
    by (simp add: transition_automaton a p e'_def)
  have st: "storeOK (astore (tmanager e))" using ok by (simp add: tcaOK_def)
  note ps = perform_status [OF st rule p]
  have was: "active (stateOf e rule moi) \<longleftrightarrow> isActive e (trName rule) moi (trCode rule)"
    by (simp add: stateOf_def isActive_def zeroState_def split: option.split)
  have "isActive e' n moi' c \<longleftrightarrow> statusOf m' (tcaAlarm moi' c) = Some StatusActive" if nc: "(n, c) \<in> set ruleCodes" for n c moi'
  proof (cases "moi' = moi \<and> c = trCode rule")
    case True
    then have "n = trName rule" using ruleCodes_inj [OF nc] rule by simp
    then have "isActive e' n moi' c \<longleftrightarrow> act = Raising \<or> act \<noteq> Clearing \<and> isActive e n moi' c"
      using True advance_active [OF a] was by (simp add: isActive_def e'_def)
    moreover have "isActive e n moi' c \<longleftrightarrow> statusOf (tmanager e) (tcaAlarm moi' c) = Some StatusActive"
      using ok nc by (auto simp: tcaOK_def)
    ultimately show ?thesis using True ps(2) [of "tcaAlarm moi' c"] by (auto split: if_splits)
  next
    case False
    then have "isActive e' n moi' c = isActive e n moi' c" by (auto simp: isActive_def e'_def)
    then show ?thesis using False ok nc ps(2) [of "tcaAlarm moi' c"] by (auto simp: tcaOK_def)
  qed
  then show ?thesis using ps(1) by (auto simp: tcaOK_def e' e'_def)
qed

lemma rules_not_Nil: "ruleCodes \<noteq> []"
  by (simp add: ruleCodes_def)

lemmas known_rules = later_rules [THEN list.set_sel(2) [OF rules_not_Nil]]

interpretation tca: rule_invariant codec tcaOK "set ruleCodes" for codec
  by unfold_locales (rule transition_OK)

lemma NewEngine_OK: "storeOK (astore m) \<Longrightarrow> (\<And>moi c. statusOf m (tcaAlarm moi c) \<noteq> Some StatusActive) \<Longrightarrow> tcaOK (NewEngine m c)"
  by (auto simp: tcaOK_def NewEngine_def isActive_def)

section \<open>Time to trigger\<close>

text \<open>One evaluation of a rule on an object.\<close>

record sample =
  sAt :: time
  sValue :: float64
  sViolation :: bool
  sClear :: bool
  sDetail :: string

definition observe :: "AlarmCodec \<Rightarrow> thresholdRule \<Rightarrow> string \<Rightarrow> sample \<Rightarrow> Engine \<Rightarrow> Engine" where
  "observe codec rule moi x e = snd (transition codec (sAt x) rule moi (sValue x) (sViolation x) (sClear x) (sDetail x) e)"

definition ruleStateOf :: "thresholdRule \<Rightarrow> string \<Rightarrow> Engine \<Rightarrow> ruleState option" where
  "ruleStateOf rule moi e = states e (tcaKey (trName rule) moi (trCode rule))"

definition readState :: "ruleState option \<Rightarrow> ruleState" where
  "readState s = (case s of Some s \<Rightarrow> s | None \<Rightarrow> zeroState)"

lemma observe_state:
  "ruleStateOf rule moi (observe codec rule moi x e) =
     snd (advance (trConfig rule) (sAt x) (sViolation x) (sClear x) (readState (ruleStateOf rule moi e)))"
  by (simp add: observe_def transition_automaton ruleStateOf_def stateOf_def readState_def split: prod.split)

text \<open>The violation held for at least \<open>d\<close> at some time in the past, and is holding since \<open>t\<close>.\<close>

definition held :: "duration \<Rightarrow> sample list \<Rightarrow> bool" where
  "held d xs \<longleftrightarrow> (\<exists>pre x mid post. xs = pre @ (x # mid) @ post \<and> (\<forall>y \<in> set (x # mid). sViolation y)
     \<and> d \<le> timeSub (sAt (last (x # mid))) (sAt x))"

definition holdingSince :: "time \<Rightarrow> sample list \<Rightarrow> bool" where
  "holdingSince t xs \<longleftrightarrow> (\<exists>pre x mid. xs = pre @ x # mid \<and> sAt x = t \<and> (\<forall>y \<in> set (x # mid). sViolation y))"

lemma held_snoc: "held d xs \<Longrightarrow> held d (xs @ [y])"
  unfolding held_def by (metis append.assoc)

lemma holdingSince_snoc: "holdingSince t xs \<Longrightarrow> sViolation y \<Longrightarrow> holdingSince t (xs @ [y])"
proof -
  assume "holdingSince t xs" and y: "sViolation y"
  then obtain pre x mid where x: "xs = pre @ x # mid" "sAt x = t" "\<forall>y \<in> set (x # mid). sViolation y"
    unfolding holdingSince_def by blast
  show ?thesis unfolding holdingSince_def
    by (intro exI [of _ pre] exI [of _ x] exI [of _ "mid @ [y]"]) (use x y in auto)
qed

lemma holdingSince_start: "sViolation y \<Longrightarrow> holdingSince (sAt y) (xs @ [y])"
  unfolding holdingSince_def by (intro exI [of _ xs] exI [of _ y] exI [of _ "[]"]) simp

lemma holdingSince_held:
  "holdingSince t (xs @ [y]) \<Longrightarrow> d \<le> timeSub (sAt y) t \<Longrightarrow> held d (xs @ [y])"
proof -
  assume h: "holdingSince t (xs @ [y])" "d \<le> timeSub (sAt y) t"
  then obtain pre x mid where x: "xs @ [y] = pre @ x # mid" "sAt x = t" "\<forall>y \<in> set (x # mid). sViolation y"
    unfolding holdingSince_def by blast
  have "last (x # mid) = y" using x(1) by (metis last_appendR last_snoc list.distinct(1))
  then show ?thesis unfolding held_def
    by (intro exI [of _ pre] exI [of _ x] exI [of _ mid] exI [of _ "[]"]) (use x h(2) in simp)
qed

definition ruleOK :: "duration \<Rightarrow> sample list \<Rightarrow> ruleState \<Rightarrow> bool" where
  "ruleOK d xs s \<longleftrightarrow> (if active s then held d xs else pendingRaise s \<noteq> 0 \<longrightarrow> holdingSince (pendingRaise s) xs)"

lemma advance_OK:
  assumes "ruleOK (RaiseDuration c) xs s" "sAt y \<noteq> 0"
    and "advance c (sAt y) (sViolation y) (sClear y) s = (act, s')"
  shows "ruleOK (RaiseDuration c) (xs @ [y]) (readState s')"
proof (cases "active s")
  case True
  then have "held (RaiseDuration c) (xs @ [y])" using assms(1) held_snoc by (simp add: ruleOK_def)
  then show ?thesis using True assms(3) by (auto simp: advance_def Let_def ruleOK_def readState_def zeroState_def split: if_splits)
next
  case False
  define s1 where "s1 = (if isZero (pendingRaise s) then s\<lparr>pendingRaise := sAt y\<rparr> else s)"
  have h: "holdingSince (pendingRaise s1) (xs @ [y])" if "sViolation y"
    using assms(1,2) False holdingSince_start [OF that] holdingSince_snoc [OF _ that] that by (auto simp: ruleOK_def s1_def)
  have "\<not> active s1" using False by (simp add: s1_def)
  then show ?thesis
    using False assms(3) h holdingSince_held [OF h]
    by (auto simp: advance_def Let_def s1_def [symmetric] ruleOK_def readState_def zeroState_def split: if_splits)
qed

lemma observations_OK:
  assumes "\<forall>x \<in> set xs. sAt x \<noteq> 0" "ruleStateOf rule moi e = None"
  shows "ruleOK (RaiseDuration (trConfig rule)) xs (readState (ruleStateOf rule moi (fold (observe codec rule moi) xs e)))"
  using assms(1)
proof (induction xs rule: rev_induct)
  case Nil
  then show ?case by (simp add: assms(2) ruleOK_def readState_def zeroState_def)
next
  case (snoc x xs)
  let ?e = "fold (observe codec rule moi) xs e"
  obtain act s' where a: "advance (trConfig rule) (sAt x) (sViolation x) (sClear x) (readState (ruleStateOf rule moi ?e)) = (act, s')"
    by fastforce
  show ?case using advance_OK [OF _ _ a] snoc by (simp add: observe_state a)
qed

text \<open>A rule that keeps seeing the violation.\<close>

definition onWay :: "duration \<Rightarrow> time \<Rightarrow> time \<Rightarrow> ruleState \<Rightarrow> bool" where
  "onWay d t0 now s \<longleftrightarrow> active s \<or> pendingRaise s = t0 \<and> timeSub now t0 < d"

lemma advance_onWay:
  assumes "onWay (RaiseDuration c) t0 now s" "t0 \<noteq> 0" "sViolation y" "\<not> sClear y"
  shows "onWay (RaiseDuration c) t0 (sAt y) (readState (snd (advance c (sAt y) (sViolation y) (sClear y) s)))"
  using assms by (auto simp: onWay_def advance_def Let_def readState_def)

lemma advance_first:
  assumes "sAt y \<noteq> 0" "sViolation y"
  shows "onWay (RaiseDuration c) (sAt y) (sAt y) (readState (snd (advance c (sAt y) (sViolation y) (sClear y) zeroState)))"
  using assms by (auto simp: onWay_def advance_def Let_def readState_def zeroState_def timeSub_def)

lemma observations_onWay:
  assumes "\<forall>y \<in> set (x # xs). sViolation y \<and> \<not> sClear y" "sAt x \<noteq> 0" "ruleStateOf rule moi e = None"
  shows "onWay (RaiseDuration (trConfig rule)) (sAt x) (sAt (last (x # xs)))
    (readState (ruleStateOf rule moi (fold (observe codec rule moi) (x # xs) e)))"
  using assms(1)
proof (induction xs rule: rev_induct)
  case Nil
  then show ?case using advance_first [OF assms(2), of "trConfig rule"] by (simp add: observe_state assms(3) readState_def)
next
  case (snoc y xs)
  then have "onWay (RaiseDuration (trConfig rule)) (sAt x) (sAt (last (x # xs)))
      (readState (ruleStateOf rule moi (fold (observe codec rule moi) (x # xs) e)))" by simp
  from advance_onWay [OF this assms(2), of y] snoc.prems show ?case by (simp add: observe_state)
qed

lemma observe_OK: "tcaOK e \<Longrightarrow> (trName rule, trCode rule) \<in> set ruleCodes \<Longrightarrow> tcaOK (fold (observe codec rule moi) xs e)"
  by (induction xs arbitrary: e) (auto simp: observe_def intro: transition_OK)

lemma observed_status:
  assumes "tcaOK e" "(trName rule, trCode rule) \<in> set ruleCodes"
  shows "statusOf (tmanager e) (tcaAlarm moi (trCode rule)) = Some StatusActive \<longleftrightarrow> active (readState (ruleStateOf rule moi e))"
proof -
  have "isActive e (trName rule) moi (trCode rule) \<longleftrightarrow> active (readState (ruleStateOf rule moi e))"
    by (simp add: isActive_def readState_def ruleStateOf_def zeroState_def split: option.split)
  then show ?thesis using assms by (auto simp: tcaOK_def)
qed

section \<open>Properties\<close>

definition emptyList :: "fs \<Rightarrow> AlarmManager" where
  "emptyList s = \<lparr>astore = NewStore s, emitted = []\<rparr>"

lemma emptyList_OK: "tcaOK (NewEngine (emptyList s) cfg)"
  by (rule NewEngine_OK) (simp_all add: emptyList_def NewStore_OK, simp add: statusOf_def NewStore_def)

text \<open>C32: The threshold engine and the alarm list agree. After any sequence of reports, for every rule
  and every managed object, the engine holds the rule active exactly when the alarm of
  that rule on that object is active in the list, so it clears what it raised and nothing else.
\<close>

theorem tca_states_match_alarms:
  assumes "(n, c) \<in> set ruleCodes"
  shows "let e = fold (\<lambda>(clk, report) e. snd (Evaluate codec clk report e)) reports (NewEngine (emptyList s) cfg) in
    isActive e n moi c \<longleftrightarrow> statusOf (tmanager e) (tcaAlarm moi c) = Some StatusActive"
proof -
  have "tcaOK (fold (\<lambda>(clk, report) e. snd (Evaluate codec clk report e)) reports e)" if "tcaOK e" for e
    using that by (induction reports arbitrary: e) (auto intro: tca.evaluation [OF subset_refl])
  from tcaOK_D [OF this [OF emptyList_OK] assms] show ?thesis by (simp add: Let_def)
qed

theorem tca_states_match_alarms_witness:
  "let e = fold (\<lambda>(clk, report) e. snd (Evaluate oneRecordCodec clk report e))
      [(7, \<lparr>repEnd = 0, ByDN = [(''ME=1'', [(CanonicalS1APReady, Fin 0)])]\<rparr>)] (NewEngine (emptyList emptyDisk) \<lparr>cfgEnabled = False, Rules = []\<rparr>)
   in isActive e RuleHighBLER ''ME=1'' AlarmHighBLER \<longleftrightarrow> statusOf (tmanager e) (tcaAlarm ''ME=1'' AlarmHighBLER) = Some StatusActive"
  by (rule tca_states_match_alarms [OF known_rules(4)])

text \<open>C33: No alarm without a sustained violation. Whatever a rule observes on an object, its alarm is
  active only if at some time the threshold was violated in every observation of a period of at
  least the rule's raise duration.
\<close>

theorem alarm_needs_sustained_violation:
  assumes "(trName rule, trCode rule) \<in> set ruleCodes" "\<forall>x \<in> set xs. sAt x \<noteq> 0"
    and "statusOf (tmanager (fold (observe codec rule moi) xs (NewEngine (emptyList s) cfg))) (tcaAlarm moi (trCode rule)) = Some StatusActive"
  shows "\<exists>pre x mid post. xs = pre @ (x # mid) @ post \<and> (\<forall>y \<in> set (x # mid). sViolation y)
    \<and> RaiseDuration (trConfig rule) \<le> timeSub (sAt (last (x # mid))) (sAt x)"
proof -
  let ?e = "fold (observe codec rule moi) xs (NewEngine (emptyList s) cfg)"
  have "active (readState (ruleStateOf rule moi ?e))"
    using assms(3) observed_status [OF observe_OK [OF emptyList_OK assms(1)] assms(1)] by blast
  moreover have "ruleOK (RaiseDuration (trConfig rule)) xs (readState (ruleStateOf rule moi ?e))"
    by (rule observations_OK [OF assms(2)]) (simp add: ruleStateOf_def NewEngine_def)
  ultimately show ?thesis by (simp add: ruleOK_def held_def)
qed

text \<open>C34: A sustained violation is alarmed. When a rule sees the threshold violated in every
  observation, from the first to the last of them at least the raise duration passes, and none
  reaches the clear threshold, the alarm is active at the end.
\<close>

theorem sustained_violation_raises_alarm:
  assumes "(trName rule, trCode rule) \<in> set ruleCodes" "\<forall>y \<in> set (x # xs). sViolation y \<and> \<not> sClear y" "sAt x \<noteq> 0"
    and "RaiseDuration (trConfig rule) \<le> timeSub (sAt (last (x # xs))) (sAt x)"
  shows "statusOf (tmanager (fold (observe codec rule moi) (x # xs) (NewEngine (emptyList s) cfg))) (tcaAlarm moi (trCode rule))
    = Some StatusActive"
proof -
  let ?e = "fold (observe codec rule moi) (x # xs) (NewEngine (emptyList s) cfg)"
  have "onWay (RaiseDuration (trConfig rule)) (sAt x) (sAt (last (x # xs))) (readState (ruleStateOf rule moi ?e))"
    by (rule observations_onWay [OF assms(2,3)]) (simp add: ruleStateOf_def NewEngine_def)
  then have "active (readState (ruleStateOf rule moi ?e))" using assms(4) by (auto simp: onWay_def)
  then show ?thesis using observed_status [OF observe_OK [OF emptyList_OK assms(1)] assms(1)] by blast
qed

definition badSignal :: thresholdRule where
  "badSignal = plainRule RuleBadSignalCondition AlarmBadSignalCondition (Rule DemoSafeConfig RuleBadSignalCondition)"

definition weak :: "time \<Rightarrow> sample" where
  "weak t = \<lparr>sAt = t, sValue = Fin (- 3), sViolation = True, sClear = False, sDetail = ''snr''\<rparr>"

lemma badSignal_facts:
  "(trName badSignal, trCode badSignal) \<in> set ruleCodes" "RaiseDuration (trConfig badSignal) = 10 * second"
  using known_rules(3)
  by (simp_all add: badSignal_def plainRule_def Rule_def DemoSafeConfig_def immediateRule_def RuleS1InterfaceDown_def
      RuleNASSignalingLoss_def RuleNASSecurityMismatch_def RuleNASParsingFailure_def RuleRRCProtocolError_def
      RuleRRCConnectionRejection_def RuleCoreServiceReject_def RulePagingCapacityExceeded_def RuleRLCMaxRetransmissions_def
      RuleLowThroughput_def RuleBadSignalCondition_def)

theorem sustained_violation_raises_alarm_witness:
  "statusOf (tmanager (fold (observe oneRecordCodec badSignal ''ME=1'') [weak 5, weak (5 + 10 * second)] (NewEngine (emptyList emptyDisk) DemoSafeConfig)))
    (tcaAlarm ''ME=1'' (trCode badSignal)) = Some StatusActive"
  by (rule sustained_violation_raises_alarm [OF badSignal_facts(1)])
     (simp_all add: weak_def badSignal_facts(2) timeSub_def second_def)

theorem alarm_needs_sustained_violation_witness:
  "\<exists>pre x mid post. [weak 5, weak (5 + 10 * second)] = pre @ (x # mid) @ post \<and> (\<forall>y \<in> set (x # mid). sViolation y)
    \<and> RaiseDuration (trConfig badSignal) \<le> timeSub (sAt (last (x # mid))) (sAt x)"
proof (rule alarm_needs_sustained_violation [OF badSignal_facts(1)])
  let ?e = "fold (observe oneRecordCodec badSignal ''ME=1'') [weak 5, weak (5 + 10 * second)] (NewEngine (emptyList emptyDisk) DemoSafeConfig)"
  have "onWay (RaiseDuration (trConfig badSignal)) (sAt (weak 5)) (sAt (last [weak 5, weak (5 + 10 * second)]))
      (readState (ruleStateOf badSignal ''ME=1'' ?e))"
    by (rule observations_onWay) (simp_all add: weak_def ruleStateOf_def NewEngine_def)
  then have "active (readState (ruleStateOf badSignal ''ME=1'' ?e))"
    by (simp add: onWay_def weak_def badSignal_facts(2) timeSub_def second_def)
  then show "statusOf (tmanager ?e) (tcaAlarm ''ME=1'' (trCode badSignal)) = Some StatusActive"
    using observed_status [OF observe_OK [OF emptyList_OK badSignal_facts(1)] badSignal_facts(1)] by blast
qed (simp add: weak_def second_def)

section \<open>One state for all bearers of an object\<close>

text \<open>
  The rule on bearer congestion runs once for each bearer of an object, with one state for all of
  them. As long as every report has a bearer that is not congested and the reports come more often
  than the raise duration, the alarm is never raised, however long another bearer is congested.
\<close>

fun masked :: "duration \<Rightarrow> time \<Rightarrow> (time \<times> sample list) list \<Rightarrow> bool" where
  "masked d t [] = True"
| "masked d t ((t', xs) # rs) \<longleftrightarrow> t' \<noteq> 0 \<and> timeSub t' t < d \<and> (\<forall>x \<in> set xs. sAt x = t') \<and> (\<exists>x \<in> set xs. \<not> sViolation x)
     \<and> masked d t' rs"

definition notRaised :: "time set \<Rightarrow> ruleState \<Rightarrow> bool" where
  "notRaised T s \<longleftrightarrow> \<not> active s \<and> (pendingRaise s = 0 \<or> pendingRaise s \<in> T)"

lemma notRaised_mono: "notRaised T s \<Longrightarrow> T \<subseteq> T' \<Longrightarrow> notRaised T' s"
  by (auto simp: notRaised_def)

lemma advance_notRaised:
  assumes "notRaised T s" "\<forall>t \<in> insert now T. timeSub now t < RaiseDuration c" "0 < RaiseDuration c"
  shows "notRaised (if violation then insert now T else {}) (readState (snd (advance c now violation clear s)))"
  using assms by (auto simp: notRaised_def advance_def Let_def readState_def zeroState_def)

lemma round_notRaised:
  assumes "notRaised T (readState (ruleStateOf rule moi e))" "\<forall>t \<in> T. timeSub now t < RaiseDuration (trConfig rule)"
    "0 < RaiseDuration (trConfig rule)" "\<forall>x \<in> set xs. sAt x = now"
  shows "notRaised (if \<exists>x \<in> set xs. \<not> sViolation x then {now} else insert now T)
    (readState (ruleStateOf rule moi (fold (observe codec rule moi) xs e)))"
  using assms
proof (induction xs arbitrary: e T)
  case Nil
  then show ?case by (auto simp: notRaised_def)
next
  case (Cons x xs)
  have now: "timeSub now now < RaiseDuration (trConfig rule)" using Cons.prems(3) by (simp add: timeSub_def)
  let ?e = "observe codec rule moi x e" and ?T = "if sViolation x then insert now T else {}"
  have "notRaised ?T (readState (ruleStateOf rule moi ?e))"
    using advance_notRaised [OF Cons.prems(1), of now "trConfig rule"] Cons.prems now by (simp add: observe_state)
  moreover have "\<forall>t \<in> ?T. timeSub now t < RaiseDuration (trConfig rule)" using Cons.prems(2) now by simp
  ultimately have "notRaised (if \<exists>x \<in> set xs. \<not> sViolation x then {now} else insert now ?T)
      (readState (ruleStateOf rule moi (fold (observe codec rule moi) xs ?e)))"
    using Cons.IH Cons.prems(3,4) by simp
  then have "notRaised (if \<exists>x \<in> set (x # xs). \<not> sViolation x then {now} else insert now T)
      (readState (ruleStateOf rule moi (fold (observe codec rule moi) xs ?e)))"
    by (rule notRaised_mono) auto
  then show ?case by simp
qed

lemma idle_bearer_masks_congestion:
  assumes "masked (RaiseDuration (trConfig rule)) t rounds" "0 < RaiseDuration (trConfig rule)"
    "notRaised {t} (readState (ruleStateOf rule moi e))"
  shows "\<not> active (readState (ruleStateOf rule moi (fold (\<lambda>(t, xs). fold (observe codec rule moi) xs) rounds e)))"
  using assms
proof (induction rounds arbitrary: t e)
  case Nil
  then show ?case by (simp add: notRaised_def)
next
  case (Cons r rounds)
  obtain t' xs where r: "r = (t', xs)" by (cases r)
  have "notRaised {t'} (readState (ruleStateOf rule moi (fold (observe codec rule moi) xs e)))"
    using round_notRaised [OF Cons.prems(3), of t' xs codec] Cons.prems(1,2) r by auto
  from Cons.IH [OF _ Cons.prems(2) this] Cons.prems(1) r show ?case by simp
qed

end
