(* ===== verification/PM.thy ===== *)
theory PM
  imports NRM TCA
begin

text \<open>
  Performance management: the metrics that take part in it (\<^verbatim>\<open>internal/ems/domain/pm/registry.go\<close>)
  and the engine that aggregates the samples of a window into a report
  (\<^verbatim>\<open>internal/ems/fcaps/pm/engine.go\<close>, \<^verbatim>\<open>store.go\<close>, \<^verbatim>\<open>types.go\<close>).

  The engine is one goroutine: its loop is a function of the sequence of inputs that its
  \<^verbatim>\<open>select\<close> takes. The reports it hands to the bus are a list. Bus, registry and store are
  present, since the loop returns at once without them. Log messages are not modelled. The maps
  of accumulators are association lists, and \<^verbatim>\<open>mm\<close>, which the code changes through the
  reference in the outer map, is written back to it.
\<close>

section \<open>Metrics of performance management\<close>

definition LeafThroughputDL :: string where "LeafThroughputDL = ''throughputDL''"
definition LeafThroughputUL :: string where "LeafThroughputUL = ''throughputUL''"
definition LeafSINRUL :: string where "LeafSINRUL = ''sinrUL''"
definition LeafCQIDL :: string where "LeafCQIDL = ''cqiDL''"
definition LeafBLERDL :: string where "LeafBLERDL = ''blerDL''"
definition LeafBLERUL :: string where "LeafBLERUL = ''blerUL''"
definition LeafRRCConnected :: string where "LeafRRCConnected = ''rrcConnectedUEs''"

record MetricMeta =
  mmCanonicalKey :: string
  mmLeaf :: string
  mmType :: string
  mmUnit :: string
  mmDescription :: string
  mmPattern :: bool

definition metricMeta :: "string \<Rightarrow> string \<Rightarrow> string \<Rightarrow> string \<Rightarrow> string \<Rightarrow> MetricMeta" where
  "metricMeta key leaf typ unit descr = \<lparr>mmCanonicalKey = key, mmLeaf = leaf, mmType = typ, mmUnit = unit,
     mmDescription = descr, mmPattern = False\<rparr>"

definition MeasurementDefinitions :: "MetricMeta list" where
  "MeasurementDefinitions = [
     metricMeta CanonicalUEDLBitrate LeafThroughputDL Gauge ''bps'' ''Downlink throughput (UE sample gauge).'',
     metricMeta CanonicalUEULBitrate LeafThroughputUL Gauge ''bps'' ''Uplink throughput (UE sample gauge).'',
     metricMeta CanonicalUEULSNR LeafSINRUL Gauge ''dB'' ''Uplink SINR (UE sample gauge).'',
     metricMeta CanonicalUEDLCQI LeafCQIDL Gauge ''index'' ''Downlink CQI (UE sample gauge).'',
     metricMeta CanonicalUEDLBLER LeafBLERDL Gauge ''ratio'' ''Downlink BLER (UE sample gauge).'',
     metricMeta CanonicalUEULBLER LeafBLERUL Gauge ''ratio'' ''Uplink BLER (UE sample gauge).'',
     metricMeta CanonicalRRCConnectedUES LeafRRCConnected Gauge ''count'' ''Currently connected RRC UEs.'',
     metricMeta CanonicalS1APReady [] Gauge ''boolean'' ''S1AP ready state encoded as 1/0.'',
     metricMeta CanonicalNGAPReady [] Gauge ''boolean'' ''NGAP ready state encoded as 1/0.'',
     metricMeta CanonicalS1APStatusCode [] Gauge ''count'' ''S1AP status code.'',
     metricMeta CanonicalNASDLDrop [] Counter ''count'' ''Dropped downlink NAS messages.'',
     metricMeta CanonicalNASULFail [] Counter ''count'' ''Failed uplink NAS messages.'',
     metricMeta CanonicalNASULSecUnknown [] Counter ''count'' ''Unknown uplink NAS security headers.'',
     metricMeta CanonicalNASULParseFail [] Counter ''count'' ''Uplink NAS parse failures.'',
     metricMeta CanonicalNASDLParseFail [] Counter ''count'' ''Downlink NAS parse failures.'',
     metricMeta CanonicalNASDLServiceRej [] Counter ''count'' ''Downlink NAS service rejects.'',
     metricMeta CanonicalRRCProtocolFail [] Counter ''count'' ''RRC protocol failures.'',
     metricMeta CanonicalRRCConRejectTX [] Counter ''count'' ''RRC connection reject transmissions.'',
     metricMeta CanonicalRRCPagingFail [] Counter ''count'' ''Paging add failures.'',
     metricMeta CanonicalRRCMaxRLCRetx [] Counter ''count'' ''RRC max RLC retransmission events.'',
     metricMeta CanonicalUEULPUCCHNI [] Gauge ''dBm'' ''Uplink PUCCH noise and interference.'',
     metricMeta CanonicalUEULPHR [] Gauge ''dB'' ''UE uplink power headroom.'',
     metricMeta CanonicalUERRCRLFCnt [] Counter ''count'' ''UE radio link failure counter.'',
     metricMeta CanonicalUERRCInactivity [] Gauge ''boolean'' ''UE release cause is inactivity.'',
     (metricMeta ''bearer.*.dl_buffered_bytes'' [] Gauge ''bytes'' ''Downlink buffered bytes per bearer.'')\<lparr>mmPattern := True\<rparr>]"

fun skipParts :: "string list \<Rightarrow> string \<Rightarrow> string option" where
  "skipParts [] rest = Some rest"
| "skipParts (part # parts) rest =
     (if part = [] then skipParts parts rest
      else case index rest part of None \<Rightarrow> None | Some i \<Rightarrow> skipParts parts (drop (i + length part) rest))"

definition wildcardMatch :: "string \<Rightarrow> string \<Rightarrow> bool" where
  "wildcardMatch pattern value =
     (let parts = splitOn (CHR ''*'') pattern
      in if length parts = 1 then pattern = value
         else if hd parts \<noteq> [] \<and> \<not> hasPrefix value (hd parts) then False
         else case skipParts (tl parts) (drop (length (hd parts)) value) of
                None \<Rightarrow> False
              | Some _ \<Rightarrow> last parts = [] \<or> hasSuffix value (last parts))"

definition IsAllowedCanonicalKey :: "string \<Rightarrow> bool" where
  "IsAllowedCanonicalKey name \<longleftrightarrow> list_ex (\<lambda>def.
     if mmPattern def then wildcardMatch (mmCanonicalKey def) name else mmCanonicalKey def = name) MeasurementDefinitions"

section \<open>Accumulators\<close>

text \<open>Subtraction, and division by a positive finite number, of the values of \<^verbatim>\<open>float64\<close>.\<close>

definition f64_sub :: "float64 \<Rightarrow> float64 \<Rightarrow> float64" where
  "f64_sub x y = f64_add x (f64_neg y)"

definition f64_div_pos :: "float64 \<Rightarrow> rat \<Rightarrow> float64" where
  "f64_div_pos x q = (case x of Fin p \<Rightarrow> round64 (p / q) | y \<Rightarrow> y)"

record metricAcc =
  accMetric :: Metric
  accSeen :: bool
  accFirst :: float64
  accLast :: float64
  accSum :: float64
  accCount :: int

definition newMetricAcc :: "Metric \<Rightarrow> metricAcc" where
  "newMetricAcc m = \<lparr>accMetric = m, accSeen = False, accFirst = Fin 0, accLast = Fin 0, accSum = Fin 0, accCount = 0\<rparr>"

definition addValue :: "float64 \<Rightarrow> metricAcc \<Rightarrow> metricAcc" where
  "addValue v a =
     (if \<not> accSeen a then a\<lparr>accSeen := True, accFirst := v, accLast := v, accSum := v, accCount := 1\<rparr>
      else a\<lparr>accLast := v, accSum := f64_add (accSum a) v, accCount := accCount a + 1\<rparr>)"

definition accValue :: "metricAcc \<Rightarrow> float64 option" where
  "accValue a =
     (if \<not> accSeen a then None
      else if mType (accMetric a) = Gauge then
        (if accCount a = 0 then None else Some (f64_div_pos (accSum a) (of_int (accCount a))))
      else if mType (accMetric a) = Counter then
        (let delta = f64_sub (accLast a) (accFirst a)
         in if f64_lt delta (Fin 0) then Some (accLast a) else Some delta)
      else None)"

section \<open>The engine\<close>

record PMConfig =
  Granularity :: duration
  ReportEvery :: duration

record PMValue =
  pvMetric :: Metric
  pvValue :: float64

record PMReport =
  pmBegin :: time
  pmEnd :: time
  pmGranularity :: duration
  pmByDN :: "(DN \<times> (string \<times> PMValue) list) list"

record PerfEngine =
  pmCfg :: PMConfig
  windowStart :: time
  acc :: "(DN \<times> (string \<times> metricAcc) list) list"
  maxDN :: nat
  pmRegistry :: Registry
  pmLatest :: "PMReport option"
  pmPublished :: "PMReport list"

definition NewPerfEngine :: "Registry \<Rightarrow> PMConfig \<Rightarrow> time \<Rightarrow> PerfEngine" where
  "NewPerfEngine reg cfg now =
     (let cfg = (if Granularity cfg \<le> 0 then cfg\<lparr>Granularity := 10 * second\<rparr> else cfg);
          cfg = (if ReportEvery cfg \<le> 0 then cfg\<lparr>ReportEvery := Granularity cfg\<rparr> else cfg)
      in \<lparr>pmCfg = cfg, windowStart = now, acc = [], maxDN = 1024, pmRegistry = reg, pmLatest = None, pmPublished = []\<rparr>)"

definition applyConfig :: "PMConfig \<Rightarrow> PerfEngine \<Rightarrow> PerfEngine" where
  "applyConfig cfg e =
     (let e = (if Granularity cfg > 0 then e\<lparr>pmCfg := (pmCfg e)\<lparr>Granularity := Granularity cfg\<rparr>\<rparr> else e)
      in if ReportEvery cfg > 0 then e\<lparr>pmCfg := (pmCfg e)\<lparr>ReportEvery := ReportEvery cfg\<rparr>\<rparr> else e)"

definition ingestMetric :: "string \<times> Metric \<Rightarrow> (string \<times> metricAcc) list \<Rightarrow> (string \<times> metricAcc) list" where
  "ingestMetric nm mm = (case nm of (name, m) \<Rightarrow>
     if \<not> IsAllowedCanonicalKey name then mm
     else let a = (case map_of mm name of Some a \<Rightarrow> a | None \<Rightarrow> newMetricAcc m)
          in AList.update name (addValue (mValue m) a) mm)"

definition ingestSample :: "time \<Rightarrow> Sample \<Rightarrow> PerfEngine \<Rightarrow> PerfEngine" where
  "ingestSample now s e =
     (case Resolve now (pmRegistry e) s of
        (Inl err, r) \<Rightarrow> e\<lparr>pmRegistry := r\<rparr>
      | (Inr dn, r) \<Rightarrow>
          (let e = e\<lparr>pmRegistry := r\<rparr>
           in case map_of (acc e) dn of
                Some mm \<Rightarrow> e\<lparr>acc := AList.update dn (fold ingestMetric (sMetrics s) mm) (acc e)\<rparr>
              | None \<Rightarrow>
                  if maxDN e \<le> length (acc e) then e
                  else e\<lparr>acc := AList.update dn (fold ingestMetric (sMetrics s) []) (acc e)\<rparr>))"

definition ingest :: "time \<Rightarrow> Sample list \<Rightarrow> PerfEngine \<Rightarrow> PerfEngine" where
  "ingest now samples e = fold (ingestSample now) samples e"

definition flushMetrics :: "(string \<times> metricAcc) list \<Rightarrow> (string \<times> PMValue) list option" where
  "flushMetrics mm =
     (let out = List.map_filter (\<lambda>(name, a). map_option (Pair name) (map_option (PMValue.make (accMetric a)) (accValue a))) mm
      in if out = [] then None else Some out)"

definition flush :: "time \<Rightarrow> PerfEngine \<Rightarrow> PerfEngine" where
  "flush now e =
     (let e = (if now < windowStart e then e\<lparr>windowStart := now\<rparr> else e);
          report = \<lparr>pmBegin = windowStart e, pmEnd = now, pmGranularity = Granularity (pmCfg e),
            pmByDN = List.map_filter (\<lambda>(dn, mm). map_option (Pair dn) (flushMetrics mm)) (acc e)\<rparr>
      in e\<lparr>pmLatest := Some report, pmPublished := pmPublished e @ [report], windowStart := now, acc := []\<rparr>)"

datatype pmInput =
  ContextDone | BusClosed | Tick time | TelemetryMsg time "Sample list" | ConfigUpdate PMConfig | OtherMsg

fun RunEngine :: "pmInput list \<Rightarrow> PerfEngine \<Rightarrow> PerfEngine" where
  "RunEngine [] e = e"
| "RunEngine (ContextDone # ins) e = e"
| "RunEngine (BusClosed # ins) e = e"
| "RunEngine (Tick now # ins) e = RunEngine ins (flush now e)"
| "RunEngine (TelemetryMsg now samples # ins) e = RunEngine ins (ingest now samples e)"
| "RunEngine (ConfigUpdate cfg # ins) e = RunEngine ins (applyConfig cfg e)"
| "RunEngine (OtherMsg # ins) e = RunEngine ins e"

definition LatestReport :: "PerfEngine \<Rightarrow> PMReport option" where
  "LatestReport e = pmLatest e"

section \<open>Wildcards\<close>

text \<open>What a pattern means: a star stands for any text, every other character for itself.\<close>

fun glob :: "string \<Rightarrow> string \<Rightarrow> bool" where
  "glob [] v \<longleftrightarrow> v = []"
| "glob (c # p) v \<longleftrightarrow> (if c = CHR ''*'' then list_ex (\<lambda>k. glob p (drop k v)) [0..<Suc (length v)]
     else case v of [] \<Rightarrow> False | x # xs \<Rightarrow> x = c \<and> glob p xs)"

fun floating :: "string list \<Rightarrow> string \<Rightarrow> bool" where
  "floating [] v \<longleftrightarrow> True"
| "floating [p] v \<longleftrightarrow> suffix p v"
| "floating (p # q # ps) v \<longleftrightarrow> (\<exists>a b. v = a @ p @ b \<and> floating (q # ps) b)"

lemma floating_prepend: "floating ps b \<Longrightarrow> floating ps (a @ b)"
proof (induction ps b rule: floating.induct)
  case (3 p q ps v)
  then obtain x y where "v = x @ p @ y" "floating (q # ps) y" by auto
  then have "a @ v = (a @ x) @ p @ y" "floating (q # ps) y" by simp_all
  then show ?case unfolding floating.simps by blast
qed (auto intro: suffix_appendI)

lemma glob_star: "glob (CHR ''*'' # p) v \<longleftrightarrow> (\<exists>a b. v = a @ b \<and> glob p b)"
proof -
  have "(\<exists>k \<le> length v. glob p (drop k v)) \<longleftrightarrow> (\<exists>a b. v = a @ b \<and> glob p b)"
    by (metis append_take_drop_id append_eq_conv_conj le_add1 length_append)
  then show ?thesis by (auto simp: list_ex_iff less_Suc_eq_le simp del: upt_Suc)
qed

lemma glob_floating:
  "glob pat v \<longleftrightarrow> (case splitOn (CHR ''*'') pat of [] \<Rightarrow> False | [p] \<Rightarrow> v = p
     | p # q # ps \<Rightarrow> \<exists>r. v = p @ r \<and> floating (q # ps) r)"
proof (induction pat arbitrary: v)
  case (Cons c pat)
  obtain p ps where pat: "splitOn (CHR ''*'') pat = p # ps" using splitOn_not_Nil by (metis list.exhaust)
  show ?case
  proof (cases "c = CHR ''*''")
    case True
    show ?thesis unfolding True glob_star using pat Cons.IH by (cases ps) (auto simp: suffix_def)
  next
    case False
    then show ?thesis using pat Cons.IH by (cases v; cases ps) auto
  qed
qed simp

lemma index_Some: "index r p = Some i \<Longrightarrow> r = take i r @ p @ drop (i + length p) r"
proof (induction r arbitrary: i)
  case Nil
  then show ?case by (auto simp: index.simps [of "[]"] split: if_splits)
next
  case (Cons x r)
  then show ?case
    by (subst (asm) (2) index.simps) (auto simp: prefix_def split: if_splits)
qed

lemma index_first: "\<exists>i \<le> length a. index (a @ p @ b) p = Some i"
proof (induction a)
  case Nil
  then show ?case by (simp add: index.simps)
next
  case (Cons x a)
  then show ?case by (auto simp: index.simps [of "x # _"])
qed

lemma skipParts_last: "skipParts ps r = Some x \<Longrightarrow> ps \<noteq> [] \<Longrightarrow> length (last ps) \<le> length r"
proof (induction ps r rule: skipParts.induct)
  case (2 part parts rest)
  show ?case
  proof (cases "part = []")
    case False
    with 2(3) obtain i where i: "index rest part = Some i" "skipParts parts (drop (i + length part) rest) = Some x"
      by (auto split: option.splits)
    have "length part \<le> length rest" using arg_cong [OF index_Some [OF i(1)], of length] by simp
    then show ?thesis using 2(2) [OF False i] by (cases "parts = []") auto
  qed (use 2 in auto)
qed simp

lemma suffix_shorten: "suffix s (a @ b) \<Longrightarrow> length s \<le> length b \<Longrightarrow> suffix s b"
  by (metis suffixI suffix_length_suffix)

lemma skipParts_floating: "ps \<noteq> [] \<Longrightarrow> floating ps r \<longleftrightarrow> skipParts ps r \<noteq> None \<and> suffix (last ps) r"
proof (induction ps r rule: floating.induct)
  case (2 p r)
  have "index r p \<noteq> None" if "suffix p r" using that index_first [of _ p "[]"] by (fastforce simp: suffix_def)
  then show ?case by (auto split: option.splits)
next
  case (3 p q ps r)
  show ?case
  proof (cases "p = []")
    case True
    have "floating (p # q # ps) r \<longleftrightarrow> floating (q # ps) r"
      using floating_prepend by (auto simp: True intro: exI [of _ "[]"])
    then show ?thesis using 3 True by simp
  next
    case False
    have "skipParts (p # q # ps) r \<noteq> None \<and> suffix (last (q # ps)) r" if fl: "floating (p # q # ps) r"
    proof -
      obtain a b where ab: "r = a @ p @ b" "floating (q # ps) b" using fl by auto
      obtain i where i: "index r p = Some i" "i \<le> length a" using index_first [of a p b] ab by auto
      have "drop (i + length p) r = drop (i + length p) (a @ p) @ b" using i(2) ab(1) by simp
      then have "floating (q # ps) (drop (i + length p) r)" using floating_prepend ab(2) by metis
      then have "skipParts (q # ps) (drop (i + length p) r) \<noteq> None" "suffix (last (q # ps)) (drop (i + length p) r)"
        using 3 by blast+
      then show ?thesis using i(1) False suffix_order.trans [OF _ suffix_drop] by auto
    qed
    moreover have "floating (p # q # ps) r" if sk: "skipParts (p # q # ps) r \<noteq> None" "suffix (last (q # ps)) r"
    proof -
      obtain i where i: "index r p = Some i" "skipParts (q # ps) (drop (i + length p) r) \<noteq> None"
        using sk False by (auto simp del: skipParts.simps(1) split: option.splits if_splits)
      note r = index_Some [OF i(1)]
      have "suffix (last (q # ps)) ((take i r @ p) @ drop (i + length p) r)" using sk(2) r by (metis append.assoc)
      moreover have "length (last (q # ps)) \<le> length (drop (i + length p) r)" using i(2) skipParts_last by blast
      ultimately have "suffix (last (q # ps)) (drop (i + length p) r)" by (rule suffix_shorten)
      then have "floating (q # ps) (drop (i + length p) r)" using 3 i(2) by blast
      then show ?thesis using r by (metis floating.simps(3))
    qed
    ultimately have "floating (p # q # ps) r \<longleftrightarrow> skipParts (p # q # ps) r \<noteq> None \<and> suffix (last (q # ps)) r" by blast
    then show ?thesis by (simp only: last.simps list.distinct if_False)
  qed
qed simp

lemma splitOn_one: "splitOn d s = [p] \<Longrightarrow> s = p"
  by (induction s arbitrary: p) (auto simp: splitOn_not_Nil split: if_splits list.splits)

lemma wildcardMatch_glob: "wildcardMatch pattern v \<longleftrightarrow> glob pattern v"
proof -
  obtain p ps where parts: "splitOn (CHR ''*'') pattern = p # ps" using splitOn_not_Nil by (metis list.exhaust)
  show ?thesis
  proof (cases ps)
    case Nil
    then have "pattern = p" using parts splitOn_one by simp
    then show ?thesis using Nil parts by (auto simp: wildcardMatch_def glob_floating)
  next
    case (Cons q qs)
    have tail: "skipParts ps r \<noteq> None \<and> suffix (last ps) (p @ r) \<longleftrightarrow> floating ps r" for r
      using Cons skipParts_floating [of ps r] skipParts_last [of ps r] suffix_shorten [of "last ps" p r] suffix_appendI [of "last ps" r p]
      by auto
    have "wildcardMatch pattern v \<longleftrightarrow> prefix p v \<and> skipParts ps (drop (length p) v) \<noteq> None \<and> suffix (last ps) v"
      using Cons parts by (auto simp: wildcardMatch_def hasPrefix_def hasSuffix_def split: option.splits)
    also have "\<dots> \<longleftrightarrow> (\<exists>r. v = p @ r \<and> skipParts ps r \<noteq> None \<and> suffix (last ps) (p @ r))"
      by (auto simp: prefix_def)
    also have "\<dots> \<longleftrightarrow> glob pattern v" unfolding tail by (simp only: glob_floating parts Cons list.case)
    finally show ?thesis .
  qed
qed

section \<open>What a report means\<close>

text \<open>The specification has no accumulators: it looks at the samples of the window as a list. An
  object is reported when it is among the first 1024 named in the window; the value of a metric
  is the mean of its observations, or for a counter the growth from the first to the last.\<close>

definition pmKey :: "string \<Rightarrow> bool" where
  "pmKey name \<longleftrightarrow> list_ex (\<lambda>def. if mmPattern def then glob (mmCanonicalKey def) name else mmCanonicalKey def = name)
     MeasurementDefinitions"

definition firstSeen :: "'a list \<Rightarrow> 'a list" where
  "firstSeen xs = rev (remdups (rev xs))"

definition named :: "NRMConfig \<Rightarrow> Sample list \<Rightarrow> DN list" where
  "named cfg ss = firstSeen (List.map_filter (objectName cfg) ss)"

definition metricsOf :: "string \<Rightarrow> (string \<times> Metric) list \<Rightarrow> Metric list" where
  "metricsOf name ms = map snd (filter (\<lambda>p. fst p = name) ms)"

definition observed :: "NRMConfig \<Rightarrow> Sample list \<Rightarrow> DN \<Rightarrow> string \<Rightarrow> Metric list" where
  "observed cfg ss dn name = concat (map (\<lambda>s. metricsOf name (sMetrics s)) (filter (\<lambda>s. objectName cfg s = Some dn) ss))"

definition aggregate :: "string \<Rightarrow> float64 list \<Rightarrow> float64 option" where
  "aggregate typ vs =
     (if typ = Gauge then Some (f64_div_pos (foldl f64_add (hd vs) (tl vs)) (of_nat (length vs)))
      else if typ = Counter then
        (let growth = f64_sub (last vs) (hd vs) in Some (if f64_lt growth (Fin 0) then last vs else growth))
      else None)"

definition expectedValue :: "NRMConfig \<Rightarrow> Sample list \<Rightarrow> DN \<Rightarrow> string \<Rightarrow> PMValue option" where
  "expectedValue cfg ss dn name =
     (if dn \<in> set (take 1024 (named cfg ss)) \<and> pmKey name
      then case observed cfg ss dn name of [] \<Rightarrow> None
           | m # ms \<Rightarrow> map_option (PMValue.make m) (aggregate (mType m) (map mValue (m # ms)))
      else None)"

definition reportValue :: "PMReport \<Rightarrow> DN \<Rightarrow> string \<Rightarrow> PMValue option" where
  "reportValue r dn name = Option.bind (map_of (pmByDN r) dn) (\<lambda>out. map_of out name)"

text \<open>The windows of a run: the time of each tick with the samples received since the previous one.\<close>

fun windows :: "pmInput list \<Rightarrow> Sample list \<Rightarrow> (time \<times> Sample list) list" where
  "windows [] ss = []"
| "windows (ContextDone # ins) ss = []"
| "windows (BusClosed # ins) ss = []"
| "windows (Tick now # ins) ss = (now, ss) # windows ins []"
| "windows (TelemetryMsg now samples # ins) ss = windows ins (ss @ samples)"
| "windows (ConfigUpdate cfg # ins) ss = windows ins ss"
| "windows (OtherMsg # ins) ss = windows ins ss"

definition describes :: "NRMConfig \<Rightarrow> PMReport \<Rightarrow> time \<times> Sample list \<Rightarrow> bool" where
  "describes cfg r w \<longleftrightarrow> pmEnd r = fst w \<and> pmBegin r \<le> pmEnd r \<and> distinct (map fst (pmByDN r))
     \<and> (\<forall>dn name. reportValue r dn name = expectedValue cfg (snd w) dn name)"

subsection \<open>Accumulators and lists of observations\<close>

lemma IsAllowed_pmKey: "IsAllowedCanonicalKey name \<longleftrightarrow> pmKey name"
  by (simp add: IsAllowedCanonicalKey_def pmKey_def wildcardMatch_glob)

definition observeMetric :: "Metric \<Rightarrow> metricAcc option \<Rightarrow> metricAcc option" where
  "observeMetric m a = Some (addValue (mValue m) (case a of Some a \<Rightarrow> a | None \<Rightarrow> newMetricAcc m))"

lemma ingestMetric_observeMetric:
  "map_of (fold ingestMetric ms mm) name =
     (if pmKey name then fold observeMetric (metricsOf name ms) (map_of mm name) else map_of mm name)"
proof (induction ms arbitrary: mm)
  case (Cons nm ms)
  obtain n m where nm: "nm = (n, m)" by (cases nm)
  have "map_of (ingestMetric nm mm) name = (if pmKey name \<and> n = name then observeMetric m (map_of mm name) else map_of mm name)"
    by (auto simp: nm ingestMetric_def IsAllowed_pmKey observeMetric_def update_conv' Let_def)
  then show ?case using Cons.IH by (simp add: metricsOf_def nm)
qed (simp add: metricsOf_def)

lemma distinct_ingestMetric: "distinct (map fst mm) \<Longrightarrow> distinct (map fst (fold ingestMetric ms mm))"
proof (induction ms arbitrary: mm)
  case (Cons nm ms)
  have "distinct (map fst (ingestMetric nm mm))"
    using Cons.prems by (cases nm) (simp add: ingestMetric_def distinct_update Let_def)
  then show ?case using Cons.IH by simp
qed simp

lemma observeMetric_more:
  assumes "accSeen a"
  shows "fold observeMetric ms (Some a) = Some (a\<lparr>accLast := (if ms = [] then accLast a else mValue (last ms)),
    accSum := foldl f64_add (accSum a) (map mValue ms), accCount := accCount a + int (length ms)\<rparr>)"
  using assms by (induction ms arbitrary: a) (simp_all add: observeMetric_def addValue_def)

lemma observeMetric_aggregate:
  "fold observeMetric (m # ms) None = Some a \<Longrightarrow> accMetric a = m \<and> accValue a = aggregate (mType m) (map mValue (m # ms))"
proof -
  assume a: "fold observeMetric (m # ms) None = Some a"
  define a0 where "a0 = \<lparr>accMetric = m, accSeen = True, accFirst = mValue m, accLast = mValue m, accSum = mValue m, accCount = 1\<rparr>"
  have "observeMetric m None = Some a0" by (simp add: observeMetric_def addValue_def newMetricAcc_def a0_def)
  then have "a = a0\<lparr>accLast := (if ms = [] then mValue m else mValue (last ms)),
      accSum := foldl f64_add (mValue m) (map mValue ms), accCount := 1 + int (length ms)\<rparr>"
    using a observeMetric_more [of a0 ms] by (simp add: a0_def)
  then show ?thesis by (auto simp: a0_def accValue_def aggregate_def Let_def last_map add.commute)
qed

lemma observeMetric_Nil_iff: "fold observeMetric ms None = None \<longleftrightarrow> ms = []"
proof -
  have "fold observeMetric ms (Some a) \<noteq> None" for a by (induction ms arbitrary: a) (auto simp: observeMetric_def)
  then show ?thesis by (cases ms) (auto simp: observeMetric_def)
qed

subsection \<open>The engine keeps the observations of its window\<close>

lemma firstSeen_simps [simp]:
  "firstSeen [] = []" "firstSeen (xs @ [x]) = (if x \<in> set xs then firstSeen xs else firstSeen xs @ [x])"
  "set (firstSeen xs) = set xs" "distinct (firstSeen xs)"
  by (simp_all add: firstSeen_def)

lemma set_named: "set (named cfg ss) = {dn. \<exists>s \<in> set ss. objectName cfg s = Some dn}"
  by (auto simp: named_def List.map_filter_def intro: rev_image_eqI)

lemma named_snoc:
  "named cfg (ss @ [s]) = (case objectName cfg s of None \<Rightarrow> named cfg ss
     | Some dn \<Rightarrow> if dn \<in> set (named cfg ss) then named cfg ss else named cfg ss @ [dn])"
  by (auto simp: named_def List.map_filter_def split: option.split)

lemma observed_snoc:
  "observed cfg (ss @ [s]) dn name = observed cfg ss dn name @ (if objectName cfg s = Some dn then metricsOf name (sMetrics s) else [])"
  by (simp add: observed_def)

lemma observed_fresh: "dn \<notin> set (named cfg ss) \<Longrightarrow> observed cfg ss dn name = []"
  by (auto simp: observed_def set_named)

definition holdsWindow :: "NRMConfig \<Rightarrow> Sample list \<Rightarrow> DN \<Rightarrow> (string \<times> metricAcc) list \<Rightarrow> bool" where
  "holdsWindow cfg ss dn mm \<longleftrightarrow> distinct (map fst mm)
     \<and> (\<forall>name. map_of mm name = (if pmKey name then fold observeMetric (observed cfg ss dn name) None else None))"

definition pmOK :: "NRMConfig \<Rightarrow> Sample list \<Rightarrow> PerfEngine \<Rightarrow> bool" where
  "pmOK cfg ss e \<longleftrightarrow> coherent cfg (pmRegistry e) \<and> maxDN e = 1024
     \<and> map fst (acc e) = take 1024 (named cfg ss) \<and> (\<forall>(dn, mm) \<in> set (acc e). holdsWindow cfg ss dn mm)"

lemma holdsWindow_empty: "dn \<notin> set (named cfg ss) \<Longrightarrow> holdsWindow cfg ss dn []"
  by (simp add: holdsWindow_def observed_fresh)

lemma holdsWindow_other: "objectName cfg s \<noteq> Some dn \<Longrightarrow> holdsWindow cfg (ss @ [s]) dn = holdsWindow cfg ss dn"
  by (auto simp: holdsWindow_def observed_snoc fun_eq_iff)

lemma holdsWindow_step:
  "holdsWindow cfg ss dn mm \<Longrightarrow> objectName cfg s = Some dn \<Longrightarrow> holdsWindow cfg (ss @ [s]) dn (fold ingestMetric (sMetrics s) mm)"
  by (simp add: holdsWindow_def observed_snoc ingestMetric_observeMetric distinct_ingestMetric)

lemma distinct_named: "distinct (named cfg ss)"
  by (simp add: named_def)

lemma pmOK_update:
  assumes acc: "map fst xs = take 1024 (named cfg ss)" "\<forall>(d, mm) \<in> set xs. holdsWindow cfg ss d mm"
    and dn: "objectName cfg s = Some dn" and mm: "holdsWindow cfg ss dn mm"
    and room: "dn \<in> set (map fst xs) \<or> length xs < 1024"
  defines "ys \<equiv> AList.update dn (fold ingestMetric (sMetrics s) mm) xs"
  shows "map fst ys = take 1024 (named cfg (ss @ [s])) \<and> (\<forall>(d, mm) \<in> set ys. holdsWindow cfg (ss @ [s]) d mm)"
proof
  have "distinct (map fst xs)" using acc(1) distinct_named [of cfg ss] by simp
  show "map fst ys = take 1024 (named cfg (ss @ [s]))"
  proof (cases "dn \<in> set (map fst xs)")
    case True
    then have "dn \<in> set (named cfg ss)" using acc(1) by (metis in_set_takeD)
    then show ?thesis using True acc(1) dn by (simp add: ys_def update_known named_snoc)
  next
    case False
    then have "length (take 1024 (named cfg ss)) < 1024" using room acc(1) by (metis length_map)
    then have "take 1024 (named cfg ss) = named cfg ss" "length (named cfg ss) < 1024" by auto
    then show ?thesis using False acc(1) dn by (simp add: ys_def update_fresh named_snoc)
  qed
  show "\<forall>(d, mm) \<in> set ys. holdsWindow cfg (ss @ [s]) d mm"
  proof clarify
    fix d mm' assume d: "(d, mm') \<in> set ys"
    have ys: "map_of ys d = Some mm'"
      using d \<open>distinct (map fst xs)\<close> by (intro map_of_is_SomeI) (simp_all add: ys_def distinct_update)
    show "holdsWindow cfg (ss @ [s]) d mm'"
    proof (cases "d = dn")
      case False
      then have "(d, mm') \<in> set xs" using ys by (auto simp: ys_def update_conv' dest: map_of_SomeD)
      then show ?thesis using acc(2) dn False by (auto simp: holdsWindow_other)
    qed (use ys mm dn in \<open>auto simp: ys_def update_conv' holdsWindow_step\<close>)
  qed
qed

lemma ingestSample_OK: 
  assumes e: "pmOK cfg ss e"
  shows "pmOK cfg (ss @ [s]) (ingestSample now s e)"
proof (cases "objectName cfg s")
  case None
  with Resolve_unnamed obtain err where "Resolve now (pmRegistry e) s = (Inl err, pmRegistry e)" by blast
  then show ?thesis using e None by (auto simp: pmOK_def ingestSample_def named_snoc holdsWindow_other)
next
  case (Some dn)
  obtain r where r: "Resolve now (pmRegistry e) s = (Inr dn, r)" "coherent cfg r"
    using Resolve_coherent [OF _ Some, of "pmRegistry e"] e by (auto simp: pmOK_def)
  have keys: "map_of (acc e) dn \<noteq> None \<longleftrightarrow> dn \<in> set (map fst (acc e))" by (simp add: map_of_eq_None_iff)
  show ?thesis
  proof (cases "map_of (acc e) dn")
    case known: (Some mm)
    then have "holdsWindow cfg ss dn mm" using e by (auto simp: pmOK_def dest: map_of_SomeD)
    then show ?thesis using e known keys r pmOK_update [of "acc e" cfg ss s dn mm] Some
      by (simp add: pmOK_def ingestSample_def)
  next
    case fresh: None
    show ?thesis
    proof (cases "length (acc e) < 1024")
      case True
      then have "take 1024 (named cfg ss) = named cfg ss" using e by (auto simp: pmOK_def dest: arg_cong [of _ _ length])
      then have "dn \<notin> set (named cfg ss)" using e fresh by (metis pmOK_def keys)
      then show ?thesis using True e fresh r pmOK_update [of "acc e" cfg ss s dn "[]"] Some holdsWindow_empty
        by (simp add: pmOK_def ingestSample_def)
    next
      case False
      then have "take 1024 (named cfg (ss @ [s])) = take 1024 (named cfg ss)"
        using e by (auto simp: pmOK_def named_snoc Some dest: arg_cong [of _ _ length])
      moreover have "\<forall>(d, mm) \<in> set (acc e). d \<noteq> dn" using fresh by (force simp: map_of_eq_None_iff)
      ultimately show ?thesis using False e fresh r Some
        by (fastforce simp: pmOK_def ingestSample_def holdsWindow_other)
    qed
  qed
qed

lemma ingest_OK: "pmOK cfg ss e \<Longrightarrow> pmOK cfg (ss @ samples) (ingest now samples e)"
proof (induction samples arbitrary: ss e)
  case (Cons s samples)
  then show ?case using Cons.IH [of "ss @ [s]"] ingestSample_OK by (simp add: ingest_def)
qed (simp add: ingest_def)

subsection \<open>A report says what its window held\<close>

lemma map_of_map_filter:
  "distinct (map fst xs) \<Longrightarrow>
   map_of (List.map_filter (\<lambda>(k, x). map_option (Pair k) (f x)) xs) k = Option.bind (map_of xs k) f"
proof (induction xs)
  case (Cons kx xs)
  obtain k' x where kx: "kx = (k', x)" by (cases kx)
  have "map_of xs k' = None" using Cons.prems by (simp add: kx map_of_eq_None_iff)
  then show ?case using Cons by (cases "f x") (auto simp: kx map_filter_simps)
qed (simp add: map_filter_simps)

lemma distinct_map_filter:
  "distinct (map fst xs) \<Longrightarrow> distinct (map fst (List.map_filter (\<lambda>(k, x). map_option (Pair k) (f x)) xs))"
proof (induction xs)
  case (Cons kx xs)
  have "fst ` set (List.map_filter (\<lambda>(k, x). map_option (Pair k) (f x)) xs) \<subseteq> fst ` set xs"
    by (force simp: List.map_filter_def)
  with Cons show ?case by (cases kx; cases "f (snd kx)") (auto simp: map_filter_simps)
qed (simp add: map_filter_simps)

lemma flushMetrics_value:
  assumes "holdsWindow cfg ss dn mm"
  shows "Option.bind (flushMetrics mm) (\<lambda>out. map_of out name) = (if pmKey name
    then case observed cfg ss dn name of [] \<Rightarrow> None
      | m # ms \<Rightarrow> map_option (PMValue.make m) (aggregate (mType m) (map mValue (m # ms)))
    else None)"
proof -
  let ?f = "\<lambda>a. map_option (PMValue.make (accMetric a)) (accValue a)"
  let ?out = "List.map_filter (\<lambda>(name, a). map_option (Pair name) (?f a)) mm"
  have "Option.bind (flushMetrics mm) (\<lambda>out. map_of out name) = map_of ?out name"
    by (simp add: flushMetrics_def Let_def)
  also have "\<dots> = Option.bind (map_of mm name) ?f"
    using map_of_map_filter [of mm ?f name] assms by (simp add: holdsWindow_def)
  also have "map_of mm name = (if pmKey name then fold observeMetric (observed cfg ss dn name) None else None)"
    using assms by (simp add: holdsWindow_def)
  finally show ?thesis
    using observeMetric_Nil_iff [of "observed cfg ss dn name"] observeMetric_aggregate
    by (cases "observed cfg ss dn name"; cases "fold observeMetric (observed cfg ss dn name) None") auto
qed

lemma flush_describes:
  assumes e: "pmOK cfg ss e"
  shows "\<exists>r. pmPublished (flush now e) = pmPublished e @ [r] \<and> pmLatest (flush now e) = Some r
    \<and> describes cfg r (now, ss) \<and> pmOK cfg [] (flush now e)"
proof -
  define r where "r = \<lparr>pmBegin = min now (windowStart e), pmEnd = now, pmGranularity = Granularity (pmCfg e),
    pmByDN = List.map_filter (\<lambda>(dn, mm). map_option (Pair dn) (flushMetrics mm)) (acc e)\<rparr>"
  have new: "pmPublished (flush now e) = pmPublished e @ [r]" "pmLatest (flush now e) = Some r"
    "acc (flush now e) = []" "pmRegistry (flush now e) = pmRegistry e" "maxDN (flush now e) = maxDN e"
    by (simp_all add: flush_def r_def Let_def)
  have keys: "map fst (acc e) = take 1024 (named cfg ss)" and ok: "\<forall>(dn, mm) \<in> set (acc e). holdsWindow cfg ss dn mm"
    using e by (simp_all add: pmOK_def)
  have val: "reportValue r dn name = Option.bind (map_of (acc e) dn) (\<lambda>mm. Option.bind (flushMetrics mm) (\<lambda>out. map_of out name))" for dn name
    using map_of_map_filter [of "acc e" flushMetrics dn] keys distinct_named [of cfg ss]
    by (simp add: reportValue_def r_def)
  have "reportValue r dn name = expectedValue cfg ss dn name" for dn name
  proof (cases "map_of (acc e) dn")
    case None
    then have "dn \<notin> set (map fst (acc e))" by (simp add: map_of_eq_None_iff)
    then show ?thesis using None keys by (simp add: val expectedValue_def)
  next
    case (Some mm)
    then have "holdsWindow cfg ss dn mm" and "dn \<in> set (map fst (acc e))" using ok by (auto dest!: map_of_SomeD intro: rev_image_eqI)
    then show ?thesis using flushMetrics_value [of cfg ss dn mm name] keys Some by (simp add: val expectedValue_def)
  qed
  moreover have "distinct (map fst (pmByDN r))"
    using keys distinct_named [of cfg ss] by (simp add: r_def distinct_map_filter)
  ultimately have "describes cfg r (now, ss)" by (simp add: describes_def) (simp add: r_def)
  moreover have "pmOK cfg [] (flush now e)" using e new by (simp add: pmOK_def named_def map_filter_simps)
  ultimately show ?thesis using new by blast
qed

lemma applyConfig_frame [simp]:
  "acc (applyConfig c e) = acc e" "pmRegistry (applyConfig c e) = pmRegistry e" "maxDN (applyConfig c e) = maxDN e"
  "pmPublished (applyConfig c e) = pmPublished e" "pmLatest (applyConfig c e) = pmLatest e"
  by (simp_all add: applyConfig_def Let_def)

lemma ingest_frame [simp]: "pmPublished (ingest now ss e) = pmPublished e" "pmLatest (ingest now ss e) = pmLatest e"
proof -
  have "pmPublished (ingestSample now s e) = pmPublished e \<and> pmLatest (ingestSample now s e) = pmLatest e" for s e
    by (simp add: ingestSample_def Let_def split: prod.split sum.split option.split)
  then have "pmPublished (ingest now ss e) = pmPublished e \<and> pmLatest (ingest now ss e) = pmLatest e"
    by (induction ss arbitrary: e) (simp_all add: ingest_def)
  then show "pmPublished (ingest now ss e) = pmPublished e" "pmLatest (ingest now ss e) = pmLatest e" by simp_all
qed

lemma run_describes:
  "pmOK cfg ss e \<Longrightarrow> \<exists>rs. pmPublished (RunEngine ins e) = pmPublished e @ rs \<and> list_all2 (describes cfg) rs (windows ins ss)
     \<and> pmLatest (RunEngine ins e) = (if rs = [] then pmLatest e else Some (last rs))"
proof (induction ins e arbitrary: ss rule: RunEngine.induct)
  case (4 now ins e)
  obtain r where r: "pmPublished (flush now e) = pmPublished e @ [r]" "pmLatest (flush now e) = Some r"
    "describes cfg r (now, ss)" "pmOK cfg [] (flush now e)" using flush_describes [OF 4(2)] by blast
  from 4(1) [OF r(4)] obtain rs where "pmPublished (RunEngine ins (flush now e)) = pmPublished e @ r # rs"
    "list_all2 (describes cfg) rs (windows ins [])"
    "pmLatest (RunEngine ins (flush now e)) = (if rs = [] then Some r else Some (last rs))" using r(1,2) by auto
  then show ?case using r(3) by (intro exI [of _ "r # rs"]) simp
next
  case (5 now samples ins e)
  from 5(1) [OF ingest_OK [OF 5(2)]] show ?case by (simp only: RunEngine.simps windows.simps ingest_frame)
next
  case (6 c ins e)
  have "pmOK cfg ss (applyConfig c e)" using 6(2) by (simp add: pmOK_def)
  from 6(1) [OF this] show ?case by (simp only: RunEngine.simps windows.simps applyConfig_frame)
qed auto

lemma run_describes_windows:
  assumes "NewRegistry t0 cfg = Inr reg"
  shows "list_all2 (describes cfg) (pmPublished (RunEngine ins (NewPerfEngine reg pmcfg t1))) (windows ins [])"
    and "LatestReport (RunEngine ins (NewPerfEngine reg pmcfg t1)) =
      (let rs = pmPublished (RunEngine ins (NewPerfEngine reg pmcfg t1)) in if rs = [] then None else Some (last rs))"
proof -
  have "pmOK cfg [] (NewPerfEngine reg pmcfg t1)"
    using NewRegistry_coherent [OF assms] by (simp add: pmOK_def NewPerfEngine_def Let_def named_def map_filter_simps)
  from run_describes [OF this, of ins]
  show "list_all2 (describes cfg) (pmPublished (RunEngine ins (NewPerfEngine reg pmcfg t1))) (windows ins [])"
    "LatestReport (RunEngine ins (NewPerfEngine reg pmcfg t1)) =
      (let rs = pmPublished (RunEngine ins (NewPerfEngine reg pmcfg t1)) in if rs = [] then None else Some (last rs))"
    by (auto simp: LatestReport_def NewPerfEngine_def Let_def)
qed

text \<open>C36: The performance engine implements its specification over the windows of a run. Whatever
  messages and ticks it takes, it publishes one report per tick, in order, and the report says of
  every object and metric what the samples since the previous tick say: the mean of a gauge, the
  growth of a counter or its last value after a reset, for the metrics of performance management
  and for the first 1024 objects of the window, and nothing else. The interval of a report never
  ends before it begins, and the store holdsWindow the last report.\<close>

theorem pm_reports_refine_windows:
  assumes "NewRegistry t0 cfg = Inr reg" and "e = RunEngine ins (NewPerfEngine reg pmcfg t1)"
  shows "list_all2 (describes cfg) (pmPublished e) (windows ins [])
    \<and> LatestReport e = (if pmPublished e = [] then None else Some (last (pmPublished e)))"
  using run_describes_windows [OF assms(1)] assms(2) by (simp add: Let_def)

definition cqi :: "float64 \<Rightarrow> Metric" where
  "cqi v = \<lparr>mName = ''ue.dl_cqi'', mType = Gauge, mValue = v, mUnit = []\<rparr>"

definition cqiSample :: "string \<Rightarrow> float64 \<Rightarrow> Sample" where
  "cqiSample scope v = (scoped scope)\<lparr>sMetrics := [(''ue.dl_cqi'', cqi v), (''ue.private'', cqi v)]\<rparr>"

definition cqiRun :: "pmInput list" where
  "cqiRun = [TelemetryMsg 1 [cqiSample ''cell:1/ue:70'' (Fin 10), cqiSample [] (Fin 3)], OtherMsg,
     TelemetryMsg 2 [cqiSample ''cell:1/ue:71'' (Fin 14)], Tick 20, Tick 30]"

lemma cqiSample_fields:
  "sScope (cqiSample scope v) = scope" "sMetrics (cqiSample scope v) = [(''ue.dl_cqi'', cqi v), (''ue.private'', cqi v)]"
  by (simp_all add: cqiSample_def)

lemma cqiSample_name: "objectName cfg (cqiSample scope v) = objectName cfg (scoped scope)"
  unfolding objectName_def objectRDNs_def cellKeyFromSample_def cqiSample_fields sScope_scoped ..

theorem pm_reports_refine_windows_witness:
  "\<exists>reg r1 r2. NewRegistry 0 lteConfig = Inr reg
    \<and> pmPublished (RunEngine cqiRun (NewPerfEngine reg \<lparr>Granularity = 0, ReportEvery = 0\<rparr> 0)) = [r1, r2]
    \<and> reportValue r1 ''SubNetwork=lab,ManagedElement=enb1,ENBFunction=7,EUtranCell=1'' ''ue.dl_cqi'' = Some (PMValue.make (cqi (Fin 10)) (Fin 12))
    \<and> reportValue r1 ''SubNetwork=lab,ManagedElement=enb1,ENBFunction=7,EUtranCell=1'' ''ue.private'' = None
    \<and> pmEnd r2 = 30"
proof -
  let ?dn = "''SubNetwork=lab,ManagedElement=enb1,ENBFunction=7,EUtranCell=1''"
  obtain reg where reg: "NewRegistry 0 lteConfig = Inr reg" by (simp add: NewRegistry_def lteConfig_def)
  have names: "objectName lteConfig (cqiSample ''cell:1/ue:70'' v) = Some ?dn" "objectName lteConfig (cqiSample ''cell:1/ue:71'' v) = Some ?dn"
    "objectName lteConfig (cqiSample [] v) = None" for v
    unfolding cqiSample_name by code_simp+
  have keys: "pmKey ''ue.dl_cqi''" "\<not> pmKey ''ue.private''" by code_simp+
  obtain r1 r2 where r: "pmPublished (RunEngine cqiRun (NewPerfEngine reg \<lparr>Granularity = 0, ReportEvery = 0\<rparr> 0)) = [r1, r2]"
    "describes lteConfig r1 (20, [cqiSample ''cell:1/ue:70'' (Fin 10), cqiSample [] (Fin 3), cqiSample ''cell:1/ue:71'' (Fin 14)])"
    "describes lteConfig r2 (30, [])"
    using pm_reports_refine_windows [OF reg refl, of cqiRun "\<lparr>Granularity = 0, ReportEvery = 0\<rparr>" 0]
    by (auto simp: cqiRun_def list_all2_Cons2)
  have "named lteConfig [cqiSample ''cell:1/ue:70'' (Fin 10), cqiSample [] (Fin 3), cqiSample ''cell:1/ue:71'' (Fin 14)] = [?dn]"
    by (simp add: named_def map_filter_simps names firstSeen_def)
  moreover have "round64 24 = Fin 24" "round64 12 = Fin 12" using round64_int [of 24] round64_int [of 12] by simp_all
  ultimately have "expectedValue lteConfig [cqiSample ''cell:1/ue:70'' (Fin 10), cqiSample [] (Fin 3), cqiSample ''cell:1/ue:71'' (Fin 14)]
      ?dn ''ue.dl_cqi'' = Some (PMValue.make (cqi (Fin 10)) (Fin 12))"
    by (simp add: expectedValue_def keys observed_def names metricsOf_def cqiSample_fields cqi_def aggregate_def
        f64_add_def f64_div_pos_def)
  then show ?thesis using r reg keys by (auto simp: describes_def expectedValue_def)
qed

end
