(* ===== verification/ConfigControl.thy ===== *)
theory ConfigControl
  imports Manager Notifications PM
begin

text \<open>
  The control interface (\<^verbatim>\<open>internal/ems/services/config_control.go\<close>): the HTTP handlers through
  which the NETCONF server and the operator reach the configuration manager, the configuration
  store, the notification queue and the lifecycle supervisor.

  A request is its method, path, headers, the query parameter \<^verbatim>\<open>max\<close> and its body, absent when
  reading it fails. What \<^verbatim>\<open>encoding/json\<close> makes of a body is the record \<open>Decoders\<close>: for
  each struct the text that succeeds or fails to decode; a decoder that fails may have filled in
  a part of the struct, so it returns the flag and the struct. The properties hold for every such
  record. A response is its status and its body before encoding.

  The manager and the handlers share one store: with a manager present it is the manager's, and
  without one the control has the store and the files by itself. The mutex that a restart holds
  while its goroutine runs is the target in \<open>restarting\<close>. A handler makes its clock readings
  \<open>clk 0\<close>, \<open>clk 1\<close> and so on. Requests are handled one at a time; listening, shutting
  down and log messages are not modelled.
\<close>

section \<open>Requests and responses\<close>

record Request =
  rqMethod :: string
  rqPath :: string
  rqHeader :: "string \<Rightarrow> string"
  rqMax :: string
  rqBody :: "bytes option"

record Decoders =
  decodeEdit :: "bytes \<Rightarrow> bool \<times> EditRequest"
  decodeValidate :: "bytes \<Rightarrow> bool \<times> ValidateRequest"
  decodeLock :: "bytes \<Rightarrow> bool \<times> LockRequest"
  decodeMeta :: "bytes \<Rightarrow> bool \<times> SessionMeta"
  decodeKeepAlive :: "bytes \<Rightarrow> SessionMeta list option"
  decodeRestart :: "bytes \<Rightarrow> string option"
  decodeChanges :: "bytes \<Rightarrow> (string \<times> goany) list option"
  decodeTCATest :: "bytes \<Rightarrow> (string \<times> (string \<times> float64) list) option"

record restartResponse =
  rrStatus :: string
  rrSerial :: string
  rrContainer :: string
  rrMessage :: string

record configResponse =
  crStatus :: string
  crRunning :: "EditableConfig option"
  crCandidate :: "EditableConfig option"
  crMessage :: string
  crErrorTag :: string
  crErrorType :: string
  crErrorAppTag :: string
  crErrorInfo :: "uint64 option"

datatype respBody = RestartBody restartResponse | ConfigBody configResponse | Lines "string list" | NoBody

record Response =
  respStatus :: int
  respBody :: respBody

definition StatusOK :: int where "StatusOK = 200"
definition StatusAccepted :: int where "StatusAccepted = 202"
definition StatusNoContent :: int where "StatusNoContent = 204"
definition StatusBadRequest :: int where "StatusBadRequest = 400"
definition StatusNotFound :: int where "StatusNotFound = 404"
definition StatusMethodNotAllowed :: int where "StatusMethodNotAllowed = 405"
definition StatusConflict :: int where "StatusConflict = 409"
definition StatusServiceUnavailable :: int where "StatusServiceUnavailable = 503"

record ControlEnv =
  cMenv :: ManagerEnv
  cSupervisor :: "(string \<Rightarrow> unit result) option"
  cDecoders :: Decoders
  cTestInject :: bool
  cHasBus :: bool

record Control =
  Targets :: "(string \<times> string) list"
  cManager :: "Manager option"
  cPlain :: "(Store \<times> fs) option"
  cQueue :: "NotificationQueue option"
  cPublished :: "PMReport list"
  restarting :: "string option"

definition controlStore :: "Control \<Rightarrow> Store option" where
  "controlStore c = (case cManager c of Some m \<Rightarrow> Some (mstore m) | None \<Rightarrow> map_option fst (cPlain c))"

definition copyTargets :: "(string \<times> string) list \<Rightarrow> (string \<times> string) list" where
  "copyTargets inp = fold (\<lambda>(k, v) out.
     if trimSpace k = [] \<or> trimSpace v = [] then out else AList.update (trimSpace k) (trimSpace v) out) inp []"

definition NewConfigControl ::
    "(string \<times> string) list \<Rightarrow> Manager option \<Rightarrow> (Store \<times> fs) option \<Rightarrow> NotificationQueue option \<Rightarrow> Control" where
  "NewConfigControl targets manager plain queue =
     \<lparr>Targets = copyTargets targets, cManager = manager, cPlain = plain, cQueue = queue, cPublished = [], restarting = None\<rparr>"

definition okResponse :: configResponse where
  "okResponse = \<lparr>crStatus = ''ok'', crRunning = None, crCandidate = None, crMessage = [], crErrorTag = [],
     crErrorType = [], crErrorAppTag = [], crErrorInfo = None\<rparr>"

definition writeConfigJSON :: "int \<Rightarrow> configResponse \<Rightarrow> Response" where
  "writeConfigJSON status payload = \<lparr>respStatus = status, respBody = ConfigBody payload\<rparr>"

definition errorResponse :: "int \<Rightarrow> string \<Rightarrow> Response" where
  "errorResponse status message = writeConfigJSON status (okResponse\<lparr>crStatus := ''error'', crMessage := message\<rparr>)"

definition writeJSON :: "int \<Rightarrow> restartResponse \<Rightarrow> Response" where
  "writeJSON status payload = \<lparr>respStatus = status, respBody = RestartBody payload\<rparr>"

definition restartError :: "int \<Rightarrow> string \<Rightarrow> string \<Rightarrow> string \<Rightarrow> Response" where
  "restartError status serial container message =
     writeJSON status \<lparr>rrStatus = ''error'', rrSerial = serial, rrContainer = container, rrMessage = message\<rparr>"

fun mErrText :: "mErr \<Rightarrow> string" where
  "mErrText (RPC e) = RPCErrorText e"
| "mErrText (Plain e) = errText e"

definition httpStatusForRPCError :: "RPCError \<Rightarrow> int" where
  "httpStatusForRPCError e =
     (if Tag e = ErrorTagInUse \<or> Tag e = ErrorTagLockDenied then StatusConflict else StatusBadRequest)"

fun writeNetconfError :: "mErr option \<Rightarrow> Response" where
  "writeNetconfError None = writeConfigJSON StatusOK okResponse"
| "writeNetconfError (Some (RPC e)) = writeConfigJSON (httpStatusForRPCError e)
     (okResponse\<lparr>crStatus := ''error'', crMessage := (if Message e = [] then RPCErrorText e else Message e),
        crErrorTag := Tag e, crErrorType := Type e, crErrorAppTag := AppTag e,
        crErrorInfo := (if OwnerSessionID e \<noteq> 0 then Some (OwnerSessionID e) else None)\<rparr>)"
| "writeNetconfError (Some (Plain e)) = writeConfigJSON StatusBadRequest
     (okResponse\<lparr>crStatus := ''error'', crMessage := errText e, crErrorTag := ErrorTagOperationFailed,
        crErrorType := ''application''\<rparr>)"

section \<open>Decoding a request\<close>

datatype decodeErr = EOF | ReadFailed

definition populateSessionMetaHeaders :: "Request \<Rightarrow> SessionMeta \<Rightarrow> SessionMeta" where
  "populateSessionMetaHeaders r out =
     (let out = out\<lparr>user := trimSpace (rqHeader r ''X-NETCONF-Username'')\<rparr>;
          raw = trimSpace (rqHeader r ''X-NETCONF-Session-ID'')
      in if raw = [] then out
         else case parseUint 64 raw of Some v \<Rightarrow> out\<lparr>sid := of_nat v\<rparr> | None \<Rightarrow> out)"

definition isNetconfEditEnvelope :: "EditRequest \<Rightarrow> bool" where
  "isNetconfEditEnvelope req \<longleftrightarrow> trimSpace (ePayload req) \<noteq> [] \<or> trimSpace (eTarget req) \<noteq> []
     \<or> trimSpace (DefaultOperation req) \<noteq> [] \<or> trimSpace (TestOption req) \<noteq> [] \<or> trimSpace (ErrorOption req) \<noteq> []
     \<or> sid (eMeta req) \<noteq> 0 \<or> trimSpace (user (eMeta req)) \<noteq> []"

definition isNetconfValidateEnvelope :: "ValidateRequest \<Rightarrow> bool" where
  "isNetconfValidateEnvelope req \<longleftrightarrow> trimSpace (vPayload req) \<noteq> [] \<or> trimSpace (vSource req) \<noteq> []
     \<or> sid (vMeta req) \<noteq> 0 \<or> trimSpace (user (vMeta req)) \<noteq> []"

definition zeroMeta :: SessionMeta where "zeroMeta = \<lparr>sid = 0, user = []\<rparr>"

definition zeroEdit :: EditRequest where
  "zeroEdit = \<lparr>eMeta = zeroMeta, eTarget = [], DefaultOperation = [], TestOption = [], ErrorOption = [], ePayload = []\<rparr>"

definition decodeNetconfEditRequest :: "Decoders \<Rightarrow> Request \<Rightarrow> decodeErr option \<times> EditRequest" where
  "decodeNetconfEditRequest d r = (case rqBody r of
       None \<Rightarrow> (Some ReadFailed, zeroEdit)
     | Some body \<Rightarrow>
         (let trimmed = trimSpace body;
              envelope = decodeEdit d body
          in if trimmed \<noteq> [] \<and> hasPrefix trimmed ''{'' \<and> fst envelope \<and> isNetconfEditEnvelope (snd envelope)
             then (None, snd envelope)
             else let out = \<lparr>eMeta = populateSessionMetaHeaders r zeroMeta,
                        eTarget = trimSpace (rqHeader r ''X-NETCONF-Target''),
                        DefaultOperation = trimSpace (rqHeader r ''X-NETCONF-Default-Operation''),
                        TestOption = trimSpace (rqHeader r ''X-NETCONF-Test-Option''),
                        ErrorOption = trimSpace (rqHeader r ''X-NETCONF-Error-Option''),
                        ePayload = trimmed\<rparr>
                  in (if trimmed = [] then Some EOF else None, out)))"

definition decodeNetconfValidateRequest :: "Decoders \<Rightarrow> Request \<Rightarrow> decodeErr option \<times> ValidateRequest" where
  "decodeNetconfValidateRequest d r = (case rqBody r of
       None \<Rightarrow> (Some ReadFailed, \<lparr>vMeta = zeroMeta, vSource = [], vPayload = []\<rparr>)
     | Some body \<Rightarrow>
         (let trimmed = trimSpace body;
              envelope = decodeValidate d body
          in if trimmed \<noteq> [] \<and> hasPrefix trimmed ''{'' \<and> fst envelope \<and> isNetconfValidateEnvelope (snd envelope)
             then (None, snd envelope)
             else (None, \<lparr>vMeta = populateSessionMetaHeaders r zeroMeta,
                          vSource = trimSpace (rqHeader r ''X-NETCONF-Source''), vPayload = trimmed\<rparr>)))"

definition decodeNetconfSessionMeta :: "Decoders \<Rightarrow> Request \<Rightarrow> decodeErr option \<times> SessionMeta" where
  "decodeNetconfSessionMeta d r = (case rqBody r of
       None \<Rightarrow> (Some ReadFailed, zeroMeta)
     | Some body \<Rightarrow>
         (let trimmed = trimSpace body;
              (ok, out) = (if trimmed \<noteq> [] then decodeMeta d body else (False, zeroMeta))
          in if ok \<and> (sid out \<noteq> 0 \<or> trimSpace (user out) \<noteq> []) then (None, out)
             else let out = populateSessionMetaHeaders r out
                  in (if sid out = 0 \<and> trimSpace (user out) = [] \<and> trimmed = [] then Some EOF else None, out)))"

definition decodeNetconfCommitRequest :: "Decoders \<Rightarrow> Request \<Rightarrow> decodeErr option \<times> SessionMeta" where
  "decodeNetconfCommitRequest d r = (case decodeNetconfSessionMeta d r of
       (Some ReadFailed, meta) \<Rightarrow> (Some ReadFailed, zeroMeta)
     | (_, meta) \<Rightarrow> (None, meta))"

definition decodeNetconfLockRequest :: "Decoders \<Rightarrow> Request \<Rightarrow> decodeErr option \<times> LockRequest" where
  "decodeNetconfLockRequest d r = (case rqBody r of
       None \<Rightarrow> (Some ReadFailed, \<lparr>rMeta = zeroMeta, rTarget = []\<rparr>)
     | Some body \<Rightarrow>
         (let trimmed = trimSpace body;
              (ok, out) = (if trimmed \<noteq> [] then decodeLock d body else (False, \<lparr>rMeta = zeroMeta, rTarget = []\<rparr>))
          in if ok \<and> (trimSpace (rTarget out) \<noteq> [] \<or> sid (rMeta out) \<noteq> 0 \<or> trimSpace (user (rMeta out)) \<noteq> []) then (None, out)
             else let out = out\<lparr>rMeta := populateSessionMetaHeaders r (rMeta out),
                        rTarget := trimSpace (rqHeader r ''X-NETCONF-Target'')\<rparr>
                  in (if rTarget out = [] \<and> trimmed = [] then Some EOF else None, out)))"

section \<open>Handlers\<close>

abbreviation notAllowed :: Response where
  "notAllowed \<equiv> errorResponse StatusMethodNotAllowed ''method not allowed''"

abbreviation noStore :: Response where
  "noStore \<equiv> errorResponse StatusServiceUnavailable ''configuration store is not configured''"

abbreviation noManager :: Response where
  "noManager \<equiv> errorResponse StatusServiceUnavailable ''netconf mediation is not configured''"

abbreviation badJSON :: Response where
  "badJSON \<equiv> errorResponse StatusBadRequest ''invalid JSON payload''"

definition resolveTargetForSerial :: "Control \<Rightarrow> string \<Rightarrow> string option" where
  "resolveTargetForSerial c serial0 =
     (let serial = trimSpace serial0
      in if serial = [] then None
         else case Option.bind (map_of (Targets c) serial) (\<lambda>t. if trimSpace t \<noteq> [] then Some t else None) of
           Some target \<Rightarrow> Some target
         | None \<Rightarrow>
             (case controlStore c of None \<Rightarrow> None | Some st \<Rightarrow>
                if length (Targets c) \<noteq> 1 then None
                else if serial \<noteq> trimSpace (ENBSerial (Running st)) \<and> serial \<noteq> trimSpace (ENBSerial (Candidate st)) then None
                else find (\<lambda>t. trimSpace t \<noteq> []) (map snd (Targets c))))"

definition handleRestart :: "ControlEnv \<Rightarrow> Request \<Rightarrow> Control \<Rightarrow> Response \<times> Control" where
  "handleRestart env r c =
     (if rqMethod r \<noteq> ''POST'' then (restartError StatusMethodNotAllowed [] [] ''method not allowed'', c)
      else if cSupervisor env = None then (restartError StatusServiceUnavailable [] [] ''supervisor is not configured'', c)
      else case Option.bind (rqBody r) (decodeRestart (cDecoders env)) of
        None \<Rightarrow> (restartError StatusBadRequest [] [] ''invalid JSON payload'', c)
      | Some serial0 \<Rightarrow>
          (let serial = trimSpace serial0
           in if serial = [] then (restartError StatusBadRequest [] [] ''serial is required'', c)
              else case resolveTargetForSerial c serial of
                None \<Rightarrow> (restartError StatusNotFound serial [] ''serial is not managed by this EMS instance'', c)
              | Some target \<Rightarrow>
                  if trimSpace target = [] then (restartError StatusNotFound serial [] ''serial is not managed by this EMS instance'', c)
                  else if restarting c \<noteq> None then (restartError StatusConflict serial target ''restart already in progress'', c)
                  else (writeJSON StatusAccepted \<lparr>rrStatus = ''accepted'', rrSerial = serial, rrContainer = target, rrMessage = []\<rparr>,
                        c\<lparr>restarting := Some target\<rparr>)))"

text \<open>The end of the goroutine of a restart, which gives the mutex back whatever the outcome.\<close>

definition restartEnded :: "Control \<Rightarrow> Control" where
  "restartEnded c = c\<lparr>restarting := None\<rparr>"

definition handleRunning :: "Request \<Rightarrow> Control \<Rightarrow> Response \<times> Control" where
  "handleRunning r c =
     (if rqMethod r \<noteq> ''GET'' then (notAllowed, c)
      else case controlStore c of
        None \<Rightarrow> (noStore, c)
      | Some st \<Rightarrow> (writeConfigJSON StatusOK (okResponse\<lparr>crRunning := Some (Running st)\<rparr>), c))"

definition handleCandidate :: "Request \<Rightarrow> Control \<Rightarrow> Response \<times> Control" where
  "handleCandidate r c =
     (if rqMethod r \<noteq> ''GET'' then (notAllowed, c)
      else case controlStore c of
        None \<Rightarrow> (noStore, c)
      | Some st \<Rightarrow> (writeConfigJSON StatusOK (okResponse\<lparr>crCandidate := Some (Candidate st)\<rparr>), c))"

text \<open>The edit that both configurations of the control offer: through the manager or on the store.\<close>

definition editThrough :: "ControlEnv \<Rightarrow> (string \<times> goany) list \<Rightarrow> Control \<Rightarrow> (mErr + EditableConfig) option \<times> Control" where
  "editThrough env changes c = (case cManager c of
       Some m \<Rightarrow> (case EditFlat (cMenv env) m changes of (res, m') \<Rightarrow> (Some res, c\<lparr>cManager := Some m'\<rparr>))
     | None \<Rightarrow>
         (case cPlain c of
            None \<Rightarrow> (None, c)
          | Some (st, s) \<Rightarrow> (case Edit st changes of (res, st') \<Rightarrow>
              (Some (map_sum Plain (\<lambda>x. x) res), c\<lparr>cPlain := Some (st', s)\<rparr>))))"

definition handleEditConfig :: "ControlEnv \<Rightarrow> Request \<Rightarrow> Control \<Rightarrow> Response \<times> Control" where
  "handleEditConfig env r c =
     (if rqMethod r \<noteq> ''POST'' then (notAllowed, c)
      else if controlStore c = None then (noStore, c)
      else case Option.bind (rqBody r) (decodeChanges (cDecoders env)) of
        None \<Rightarrow> (badJSON, c)
      | Some changes \<Rightarrow>
          if changes = [] then (errorResponse StatusBadRequest ''changes are required'', c)
          else case editThrough env changes c of
            (Some (Inr cfg), c') \<Rightarrow> (writeConfigJSON StatusOK (okResponse\<lparr>crCandidate := Some cfg\<rparr>), c')
          | (Some (Inl e), c') \<Rightarrow> (errorResponse StatusBadRequest (mErrText e), c')
          | (None, c') \<Rightarrow> (noStore, c'))"

definition commitAndRestart :: "ControlEnv \<Rightarrow> Store \<Rightarrow> fs \<Rightarrow> Control \<Rightarrow> Response \<times> Control" where
  "commitAndRestart env st s c = (case Commit st s of
       (Inl e, st', s') \<Rightarrow> (errorResponse StatusBadRequest (errText e), c\<lparr>cPlain := Some (st', s')\<rparr>)
     | (Inr cfg, st', s') \<Rightarrow>
         (let c = c\<lparr>cPlain := Some (st', s')\<rparr>
          in case (resolveTargetForSerial c (trimSpace (ENBSerial cfg)), cSupervisor env) of
               (Some target, Some restart) \<Rightarrow>
                 (case restart target of
                    Inl e \<Rightarrow> (writeConfigJSON StatusConflict
                      (okResponse\<lparr>crStatus := ''error'', crRunning := Some cfg, crMessage := errText e\<rparr>), c)
                  | Inr _ \<Rightarrow> (writeConfigJSON StatusOK (okResponse\<lparr>crRunning := Some cfg\<rparr>), c))
             | _ \<Rightarrow> (writeConfigJSON StatusOK (okResponse\<lparr>crRunning := Some cfg,
                 crMessage := ''config committed; restart is skipped (target/supervisor unavailable)''\<rparr>), c)))"

definition handleCommit :: "ControlEnv \<Rightarrow> (nat \<Rightarrow> time) \<Rightarrow> Request \<Rightarrow> Control \<Rightarrow> Response \<times> Control" where
  "handleCommit env clk r c =
     (if rqMethod r \<noteq> ''POST'' then (notAllowed, c)
      else case cManager c of
        Some m \<Rightarrow>
          (case ManagerCommit (cMenv env) m zeroMeta (clk 0) (clk 1) (clk 2) (clk 3) of
             (Inl e, m') \<Rightarrow> (errorResponse StatusBadRequest (mErrText e), c\<lparr>cManager := Some m'\<rparr>)
           | (Inr cfg, m') \<Rightarrow> (writeConfigJSON StatusOK (okResponse\<lparr>crRunning := Some cfg\<rparr>), c\<lparr>cManager := Some m'\<rparr>))
      | None \<Rightarrow>
          (case cPlain c of
             None \<Rightarrow> (noStore, c)
           | Some (st, s) \<Rightarrow> commitAndRestart env st s c))"

definition handleNetconfEditConfig :: "ControlEnv \<Rightarrow> (nat \<Rightarrow> time) \<Rightarrow> Request \<Rightarrow> Control \<Rightarrow> Response \<times> Control" where
  "handleNetconfEditConfig env clk r c =
     (if rqMethod r \<noteq> ''POST'' then (notAllowed, c)
      else case cManager c of
        None \<Rightarrow> (noManager, c)
      | Some m \<Rightarrow>
          (case decodeNetconfEditRequest (cDecoders env) r of
             (Some e, req) \<Rightarrow> (badJSON, c)
           | (None, req) \<Rightarrow>
               (case EditConfig (cMenv env) m req (clk 0) (clk 1) of
                  (Inl e, m') \<Rightarrow> (writeNetconfError (Some e), c\<lparr>cManager := Some m'\<rparr>)
                | (Inr cfg, m') \<Rightarrow> (writeConfigJSON StatusOK (okResponse\<lparr>crCandidate := Some cfg\<rparr>), c\<lparr>cManager := Some m'\<rparr>))))"

definition handleNetconfValidate :: "ControlEnv \<Rightarrow> Request \<Rightarrow> Control \<Rightarrow> Response \<times> Control" where
  "handleNetconfValidate env r c =
     (if rqMethod r \<noteq> ''POST'' then (notAllowed, c)
      else case cManager c of
        None \<Rightarrow> (noManager, c)
      | Some m \<Rightarrow>
          (case decodeNetconfValidateRequest (cDecoders env) r of
             (Some e, req) \<Rightarrow> (badJSON, c)
           | (None, req) \<Rightarrow> (writeNetconfError (Validate (cMenv env) m req), c)))"

definition handleNetconfCommit :: "ControlEnv \<Rightarrow> (nat \<Rightarrow> time) \<Rightarrow> Request \<Rightarrow> Control \<Rightarrow> Response \<times> Control" where
  "handleNetconfCommit env clk r c =
     (if rqMethod r \<noteq> ''POST'' then (notAllowed, c)
      else case cManager c of
        None \<Rightarrow> (noManager, c)
      | Some m \<Rightarrow>
          (case decodeNetconfCommitRequest (cDecoders env) r of
             (Some e, req) \<Rightarrow> (badJSON, c)
           | (None, req) \<Rightarrow>
               (case ManagerCommit (cMenv env) m req (clk 0) (clk 1) (clk 2) (clk 3) of
                  (Inl e, m') \<Rightarrow> (writeNetconfError (Some e), c\<lparr>cManager := Some m'\<rparr>)
                | (Inr cfg, m') \<Rightarrow> (writeConfigJSON StatusOK (okResponse\<lparr>crRunning := Some cfg\<rparr>), c\<lparr>cManager := Some m'\<rparr>))))"

definition handleNetconfDiscardChanges :: "ControlEnv \<Rightarrow> (nat \<Rightarrow> time) \<Rightarrow> Request \<Rightarrow> Control \<Rightarrow> Response \<times> Control" where
  "handleNetconfDiscardChanges env clk r c =
     (if rqMethod r \<noteq> ''POST'' then (notAllowed, c)
      else case cManager c of
        None \<Rightarrow> (noManager, c)
      | Some m \<Rightarrow>
          (case decodeNetconfSessionMeta (cDecoders env) r of
             (Some ReadFailed, req) \<Rightarrow> (badJSON, c)
           | (_, req) \<Rightarrow>
               (case DiscardChanges (cMenv env) m req (clk 0) (clk 1) of
                  (Inl e, m') \<Rightarrow> (writeNetconfError (Some e), c\<lparr>cManager := Some m'\<rparr>)
                | (Inr cfg, m') \<Rightarrow> (writeConfigJSON StatusOK (okResponse\<lparr>crCandidate := Some cfg\<rparr>), c\<lparr>cManager := Some m'\<rparr>))))"

definition handleNetconfLockLike :: "ControlEnv \<Rightarrow> (nat \<Rightarrow> time) \<Rightarrow> bool \<Rightarrow> Request \<Rightarrow> Control \<Rightarrow> Response \<times> Control" where
  "handleNetconfLockLike env clk acquire r c =
     (if rqMethod r \<noteq> ''POST'' then (notAllowed, c)
      else case cManager c of
        None \<Rightarrow> (noManager, c)
      | Some m \<Rightarrow>
          (case decodeNetconfLockRequest (cDecoders env) r of
             (Some e, req) \<Rightarrow> (badJSON, c)
           | (None, req) \<Rightarrow>
               (case (if acquire then (case Lock m req (clk 0) of (e, m') \<Rightarrow> (map_option RPC e, m'))
                      else Unlock (cMenv env) m req (clk 0) (clk 1)) of
                  (e, m') \<Rightarrow> (writeNetconfError e, c\<lparr>cManager := Some m'\<rparr>))))"

definition handleNetconfLock :: "ControlEnv \<Rightarrow> (nat \<Rightarrow> time) \<Rightarrow> Request \<Rightarrow> Control \<Rightarrow> Response \<times> Control" where
  "handleNetconfLock env clk = handleNetconfLockLike env clk True"

definition handleNetconfUnlock :: "ControlEnv \<Rightarrow> (nat \<Rightarrow> time) \<Rightarrow> Request \<Rightarrow> Control \<Rightarrow> Response \<times> Control" where
  "handleNetconfUnlock env clk = handleNetconfLockLike env clk False"

definition handleNetconfSessionClose :: "ControlEnv \<Rightarrow> Request \<Rightarrow> Control \<Rightarrow> Response \<times> Control" where
  "handleNetconfSessionClose env r c =
     (if rqMethod r \<noteq> ''POST'' then (notAllowed, c)
      else case cManager c of
        None \<Rightarrow> (noManager, c)
      | Some m \<Rightarrow>
          (case decodeNetconfSessionMeta (cDecoders env) r of
             (Some e, req) \<Rightarrow> (badJSON, c)
           | (None, req) \<Rightarrow> (writeConfigJSON StatusOK okResponse, c\<lparr>cManager := Some (SessionClose (cMenv env) m (sid req))\<rparr>)))"

definition handleNetconfSessionReset :: "ControlEnv \<Rightarrow> Request \<Rightarrow> Control \<Rightarrow> Response \<times> Control" where
  "handleNetconfSessionReset env r c =
     (if rqMethod r \<noteq> ''POST'' then (notAllowed, c)
      else case cManager c of
        None \<Rightarrow> (noManager, c)
      | Some m \<Rightarrow> (writeConfigJSON StatusOK okResponse, c\<lparr>cManager := Some (ResetSessions (cMenv env) m)\<rparr>))"

text \<open>Bodies of more than \<open>1 << 20\<close> bytes are cut.\<close>

definition limited :: "Request \<Rightarrow> bytes option" where
  "limited r = map_option (take 1048576) (rqBody r)"

definition handleNetconfKeepAlive :: "ControlEnv \<Rightarrow> (nat \<Rightarrow> time) \<Rightarrow> Request \<Rightarrow> Control \<Rightarrow> Response \<times> Control" where
  "handleNetconfKeepAlive env clk r c =
     (if rqMethod r \<noteq> ''POST'' then (notAllowed, c)
      else case cManager c of
        None \<Rightarrow> (noManager, c)
      | Some m \<Rightarrow>
          (case Option.bind (limited r) (decodeKeepAlive (cDecoders env)) of
             None \<Rightarrow> (badJSON, c)
           | Some metas \<Rightarrow> (writeConfigJSON StatusOK okResponse, c\<lparr>cManager := Some (KeepAlive m metas (clk 0))\<rparr>)))"

definition handleNetconfNotifications :: "Request \<Rightarrow> Control \<Rightarrow> Response \<times> Control" where
  "handleNetconfNotifications r c =
     (if rqMethod r \<noteq> ''POST'' then (notAllowed, c)
      else case cQueue c of
        None \<Rightarrow> (\<lparr>respStatus = StatusNoContent, respBody = NoBody\<rparr>, c)
      | Some q \<Rightarrow>
          (let raw = trimSpace (rqMax r);
               n = (case parseInt 64 raw of Some v \<Rightarrow> if raw \<noteq> [] \<and> v > 0 then v else 100 | None \<Rightarrow> 100)
           in case Drain n q of (items, q') \<Rightarrow>
                if items = [] then (\<lparr>respStatus = StatusNoContent, respBody = NoBody\<rparr>, c\<lparr>cQueue := Some q'\<rparr>)
                else (\<lparr>respStatus = StatusOK,
                       respBody = Lines (map (\<lambda>item. formatRFC3339 (EventTime item) @ [CHR 0x09] @ Payload item) items)\<rparr>,
                      c\<lparr>cQueue := Some q'\<rparr>)))"

definition testValue :: "string \<Rightarrow> float64 \<Rightarrow> PMValue" where
  "testValue name v = \<lparr>pvMetric = \<lparr>mName = name, mType = [], mValue = v, mUnit = []\<rparr>, pvValue = v\<rparr>"

definition handleTCATestReport :: "ControlEnv \<Rightarrow> (nat \<Rightarrow> time) \<Rightarrow> Request \<Rightarrow> Control \<Rightarrow> Response \<times> Control" where
  "handleTCATestReport env clk r c =
     (if rqMethod r \<noteq> ''POST'' then (notAllowed, c)
      else if \<not> cTestInject env \<or> \<not> cHasBus env then (errorResponse StatusNotFound ''TCA test injection is disabled'', c)
      else case Option.bind (limited r) (decodeTCATest (cDecoders env)) of
        None \<Rightarrow> (badJSON, c)
      | Some (managedObject, metrics) \<Rightarrow>
          (let moi = trimSpace managedObject;
               vals = fold (\<lambda>(name, v) out. if trimSpace name = [] then out
                 else AList.update (trimSpace name) (testValue (trimSpace name) v) out) metrics []
           in if moi = [] then (errorResponse StatusBadRequest ''managed_object is required'', c)
              else if metrics = [] then (errorResponse StatusBadRequest ''metrics are required'', c)
              else if vals = [] then (errorResponse StatusBadRequest ''metrics are empty after normalization'', c)
              else (writeConfigJSON StatusOK (okResponse\<lparr>crMessage := ''TCA test report accepted''\<rparr>),
                    c\<lparr>cPublished := cPublished c @
                      [\<lparr>pmBegin = clk 0, pmEnd = clk 0, pmGranularity = 0, pmByDN = [(moi, vals)]\<rparr>]\<rparr>)))"

text \<open>The multiplexer: its patterns are exact paths.\<close>

definition handler :: "ControlEnv \<Rightarrow> (nat \<Rightarrow> time) \<Rightarrow> Request \<Rightarrow> Control \<Rightarrow> Response \<times> Control" where
  "handler env clk r c =
     (case map_of [
        (''/v1/control/restart'', handleRestart env r),
        (''/v1/control/config/running'', handleRunning r),
        (''/v1/control/config/candidate'', handleCandidate r),
        (''/v1/control/config/edit-config'', handleEditConfig env r),
        (''/v1/control/config/commit'', handleCommit env clk r),
        (''/v1/control/netconf/edit-config'', handleNetconfEditConfig env clk r),
        (''/v1/control/netconf/validate'', handleNetconfValidate env r),
        (''/v1/control/netconf/commit'', handleNetconfCommit env clk r),
        (''/v1/control/netconf/discard-changes'', handleNetconfDiscardChanges env clk r),
        (''/v1/control/netconf/lock'', handleNetconfLock env clk r),
        (''/v1/control/netconf/unlock'', handleNetconfUnlock env clk r),
        (''/v1/control/netconf/session-close'', handleNetconfSessionClose env r),
        (''/v1/control/netconf/sessions/reset'', handleNetconfSessionReset env r),
        (''/v1/control/netconf/sessions/keepalive'', handleNetconfKeepAlive env clk r),
        (''/v1/control/netconf/notifications'', handleNetconfNotifications r),
        (''/v1/control/fm/tca/test-report'', handleTCATestReport env clk r)] (rqPath r) of
       Some f \<Rightarrow> f c
     | None \<Rightarrow> (\<lparr>respStatus = StatusNotFound, respBody = NoBody\<rparr>, c))"

section \<open>Requests as calls of the manager\<close>

text \<open>The sessions in whose name a request acts. The flat edit and the reset know no session, and
  unlocking a datastore other than the candidate resets the candidate all the same: they act for
  everybody.\<close>

definition acting :: "Decoders \<Rightarrow> Request \<Rightarrow> uint64 set" where
  "acting d r =
     (let p = rqPath r; lr = snd (decodeNetconfLockRequest d r)
      in if p = ''/v1/control/config/edit-config'' \<or> p = ''/v1/control/netconf/sessions/reset'' then UNIV
         else if p = ''/v1/control/config/commit'' then {0}
         else if p = ''/v1/control/netconf/edit-config'' then {sid (eMeta (snd (decodeNetconfEditRequest d r)))}
         else if p = ''/v1/control/netconf/commit'' then {sid (snd (decodeNetconfCommitRequest d r))}
         else if p = ''/v1/control/netconf/discard-changes'' \<or> p = ''/v1/control/netconf/session-close''
         then {sid (snd (decodeNetconfSessionMeta d r))}
         else if p = ''/v1/control/netconf/lock'' then {sid (rMeta lr)}
         else if p = ''/v1/control/netconf/unlock'' then (if trimSpace (rTarget lr) = ''candidate'' then {sid (rMeta lr)} else UNIV)
         else if p = ''/v1/control/netconf/sessions/keepalive'' then
           (case Option.bind (limited r) (decodeKeepAlive d) of Some metas \<Rightarrow> sid ` set metas | None \<Rightarrow> {})
         else {})"

definition ticking :: "(nat \<Rightarrow> time) \<Rightarrow> bool" where
  "ticking clk \<longleftrightarrow> clk 0 \<le> clk 1 \<and> clk 1 \<le> clk 2 \<and> clk 2 \<le> clk 3"

definition drives :: "ControlEnv \<Rightarrow> (nat \<Rightarrow> time) \<Rightarrow> uint64 set \<Rightarrow> (Control \<Rightarrow> Response \<times> Control) \<Rightarrow> bool" where
  "drives env clk A f \<longleftrightarrow> (\<forall>c m. cManager c = Some m \<longrightarrow>
     (\<exists>m'. cManager (snd (f c)) = Some m' \<and> (m' = m \<or> (\<exists>t \<le> clk 3. mgrStep (cMenv env) m (A, t) m'))))"

lemma drives_still:
  "drives env clk A (handleRestart env r)" "drives env clk A (handleRunning r)" "drives env clk A (handleCandidate r)"
  "drives env clk A (handleNetconfValidate env r)" "drives env clk A (handleNetconfNotifications r)"
  "drives env clk A (handleTCATestReport env clk r)"
  by (auto simp: drives_def handleRestart_def handleRunning_def handleCandidate_def handleNetconfValidate_def
      handleNetconfNotifications_def handleTCATestReport_def Let_def split: option.split prod.split)

lemma drivesI:
  assumes "\<And>(c :: Control) m. cManager c = Some m \<Longrightarrow> snd (f c) = c \<or> snd (f c) = c\<lparr>cManager := Some (g m)\<rparr>"
    and "\<And>m. mgrStep (cMenv env) m (A, t) (g m)" and "t \<le> clk 3"
  shows "drives env clk A f"
  unfolding drives_def
proof (intro allI impI)
  fix c :: Control and m assume c: "cManager c = Some m"
  from assms(1) [OF c] assms(2) [of m] assms(3) c
  show "\<exists>m'. cManager (snd (f c)) = Some m' \<and> (m' = m \<or> (\<exists>t \<le> clk 3. mgrStep (cMenv env) m (A, t) m'))" by auto
qed

lemma times: "ticking clk \<Longrightarrow> clk 0 \<le> clk 1" "ticking clk \<Longrightarrow> clk 1 \<le> clk 2" "ticking clk \<Longrightarrow> clk 2 \<le> clk 3"
  "ticking clk \<Longrightarrow> clk 1 \<le> clk 3" "ticking clk \<Longrightarrow> clk 0 \<le> clk 3"
  by (auto simp: ticking_def)

lemma drives_flat: "drives env clk UNIV (handleEditConfig env r)"
proof (cases "Option.bind (rqBody r) (decodeChanges (cDecoders env))")
  case (Some changes)
  then show ?thesis
    by (intro drivesI [where g = "\<lambda>m. snd (EditFlat (cMenv env) m changes)" and t = "clk 3"] mgrStep.editFlat order_refl)
      (auto simp: handleEditConfig_def editThrough_def split: option.split prod.split sum.split)
qed (auto simp: drives_def handleEditConfig_def)

lemma drives_commit: "ticking clk \<Longrightarrow> drives env clk {0} (handleCommit env clk r)"
proof (rule drivesI [where g = "\<lambda>m. snd (ManagerCommit (cMenv env) m zeroMeta (clk 0) (clk 1) (clk 2) (clk 3))" and t = "clk 3"])
  assume clk: "ticking clk"
  show "mgrStep (cMenv env) m ({0}, clk 3) (snd (ManagerCommit (cMenv env) m zeroMeta (clk 0) (clk 1) (clk 2) (clk 3)))" for m
    using mgrStep.commit [OF times(1-3) [OF clk], of "cMenv env" m zeroMeta] by (simp add: zeroMeta_def)
qed (auto simp: handleCommit_def split: option.split prod.split sum.split)

lemma drives_edit: "ticking clk \<Longrightarrow> drives env clk {sid (eMeta (snd (decodeNetconfEditRequest (cDecoders env) r)))} (handleNetconfEditConfig env clk r)"
  by (rule drivesI [where g = "\<lambda>m. snd (EditConfig (cMenv env) m (snd (decodeNetconfEditRequest (cDecoders env) r)) (clk 0) (clk 1))" and t = "clk 1"],
      (auto simp: handleNetconfEditConfig_def split: option.split prod.split sum.split) [1],
      rule mgrStep.editConfig, (erule times)+)

lemma drives_netconfCommit: "ticking clk \<Longrightarrow> drives env clk {sid (snd (decodeNetconfCommitRequest (cDecoders env) r))} (handleNetconfCommit env clk r)"
  by (rule drivesI [where g = "\<lambda>m. snd (ManagerCommit (cMenv env) m (snd (decodeNetconfCommitRequest (cDecoders env) r)) (clk 0) (clk 1) (clk 2) (clk 3))" and t = "clk 3"],
      (auto simp: handleNetconfCommit_def split: option.split prod.split sum.split) [1],
      rule mgrStep.commit, (erule times)+, rule order_refl)

lemma drives_discard: "ticking clk \<Longrightarrow> drives env clk {sid (snd (decodeNetconfSessionMeta (cDecoders env) r))} (handleNetconfDiscardChanges env clk r)"
  by (rule drivesI [where g = "\<lambda>m. snd (DiscardChanges (cMenv env) m (snd (decodeNetconfSessionMeta (cDecoders env) r)) (clk 0) (clk 1))" and t = "clk 1"],
      (auto simp: handleNetconfDiscardChanges_def split: option.split prod.split sum.split decodeErr.split) [1],
      rule mgrStep.discardChanges, (erule times)+)

lemma drives_lock: "ticking clk \<Longrightarrow> drives env clk {sid (rMeta (snd (decodeNetconfLockRequest (cDecoders env) r)))} (handleNetconfLock env clk r)"
  by (rule drivesI [where g = "\<lambda>m. snd (Lock m (snd (decodeNetconfLockRequest (cDecoders env) r)) (clk 0))" and t = "clk 0"],
      (auto simp: handleNetconfLock_def handleNetconfLockLike_def split: option.split prod.split) [1],
      simp_all add: mgrStep.lock times)

lemma drives_unlock:
  "ticking clk \<Longrightarrow> drives env clk (if trimSpace (rTarget (snd (decodeNetconfLockRequest (cDecoders env) r))) = ''candidate''
     then {sid (rMeta (snd (decodeNetconfLockRequest (cDecoders env) r)))} else UNIV) (handleNetconfUnlock env clk r)"
  by (rule drivesI [where g = "\<lambda>m. snd (Unlock (cMenv env) m (snd (decodeNetconfLockRequest (cDecoders env) r)) (clk 0) (clk 1))" and t = "clk 1"],
      (auto simp: handleNetconfUnlock_def handleNetconfLockLike_def split: option.split prod.split) [1],
      rule mgrStep.unlock, (erule times)+)

lemma drives_close: "drives env clk {sid (snd (decodeNetconfSessionMeta (cDecoders env) r))} (handleNetconfSessionClose env r)"
  by (rule drivesI [where g = "\<lambda>m. SessionClose (cMenv env) m (sid (snd (decodeNetconfSessionMeta (cDecoders env) r)))" and t = "clk 3"],
      (auto simp: handleNetconfSessionClose_def split: option.split prod.split) [1],
      simp_all add: mgrStep.sessionClose times)

lemma drives_reset: "drives env clk UNIV (handleNetconfSessionReset env r)"
  by (rule drivesI [where g = "ResetSessions (cMenv env)" and t = "clk 3"]) (auto simp: handleNetconfSessionReset_def mgrStep.resetSessions)

lemma drives_keepAlive:
  "ticking clk \<Longrightarrow> drives env clk (case Option.bind (limited r) (decodeKeepAlive (cDecoders env)) of Some metas \<Rightarrow> sid ` set metas | None \<Rightarrow> {})
     (handleNetconfKeepAlive env clk r)"
proof (cases "Option.bind (limited r) (decodeKeepAlive (cDecoders env))")
  case (Some metas)
  assume "ticking clk"
  with Some show ?thesis
    by (intro drivesI [where g = "\<lambda>m. KeepAlive m metas (clk 0)" and t = "clk 0"]) (simp_all add: handleNetconfKeepAlive_def mgrStep.keepAlive times)
qed (auto simp: drives_def handleNetconfKeepAlive_def split: option.split)

lemma drives_handler: "ticking clk \<Longrightarrow> drives env clk (acting (cDecoders env) r) (handler env clk r)"
proof -
  assume clk: "ticking clk"
  have none: "drives env clk A (\<lambda>c. (resp, c))" for A resp by (simp add: drives_def)
  note all = drives_still drives_flat drives_commit [OF clk] drives_edit [OF clk] drives_netconfCommit [OF clk] drives_discard [OF clk]
    drives_lock [OF clk] drives_unlock [OF clk] drives_close drives_reset drives_keepAlive [OF clk] none
  show ?thesis unfolding handler_def acting_def Let_def by (simp add: all)
qed

subsection \<open>Runs of the control\<close>

inductive ctlStep :: "ControlEnv \<Rightarrow> Control \<Rightarrow> uint64 set \<times> time \<Rightarrow> Control \<Rightarrow> bool" for env where
  request: "ticking clk \<Longrightarrow> ctlStep env c (acting (cDecoders env) r, clk 3) (snd (handler env clk r c))"
| ended: "ctlStep env c ({}, t) (restartEnded c)"

lemma ctlStep_manager:
  assumes "ctlStep env c (A, t) c'" "cManager c = Some m"
  shows "\<exists>m'. cManager c' = Some m' \<and> (m' = m \<or> (\<exists>t' \<le> t. mgrStep (cMenv env) m (A, t') m'))"
  using assms(1)
proof cases
  case (request clk r)
  then show ?thesis using drives_handler [of clk env r] assms(2) by (simp add: drives_def)
qed (use assms(2) in \<open>simp add: restartEnded_def\<close>)

lemma ctlStep_locks:
  assumes "ctlStep env c l c'" "cManager c = Some m" "lockWF (mlocks m)"
  shows "\<exists>m'. cManager c' = Some m' \<and> lockWF (mlocks m') \<and> ttl (mlocks m') = ttl (mlocks m)"
proof -
  obtain A t where l: "l = (A, t)" by (cases l)
  then obtain m' where "cManager c' = Some m'" "m' = m \<or> (\<exists>l'. mgrStep (cMenv env) m l' m')"
    using ctlStep_manager [of env c A t c' m] assms(1,2) by blast
  then show ?thesis using assms(3) mgrStep_locks mgrStep_ttl by blast
qed

definition managed :: "Control \<Rightarrow> bool" where
  "managed c \<longleftrightarrow> (\<exists>m. cManager c = Some m \<and> lockWF (mlocks m))"

definition guarded :: "Control \<Rightarrow> lockOwner \<Rightarrow> (lockOwner \<times> Store) option" where
  "guarded c ow = Option.bind (cManager c) (\<lambda>m. map_option (Pair ow) (guardedStore m ow))"

definition strange :: "Control \<Rightarrow> lockOwner \<times> Store \<Rightarrow> uint64 set \<times> time \<Rightarrow> bool" where
  "strange c ow l \<longleftrightarrow> (\<exists>m. cManager c = Some m \<and> foreignTo (mlocks m) (fst ow) l)"

interpretation ctl: exclusion managed "ctlStep env" guarded strange for env
proof (unfold_locales, goal_cases)
  case (1 c l c') then show ?case using ctlStep_locks by (fastforce simp: managed_def)
next
  case (2 c l c' ow l') then show ?case using ctlStep_locks by (fastforce simp: managed_def strange_def foreignTo_def)
next
  case (3 c l c' d ow)
  obtain m where mm: "cManager c = Some m" "lockWF (mlocks m)" using 3(1,2) by (auto simp: managed_def)
  obtain m' where "cManager c' = Some m'" "m' = m \<or> (\<exists>t' \<le> snd l. mgrStep (cMenv env) m (fst l, t') m')"
    using 3(1,2) mm(1) ctlStep_manager [of env c "fst l" "snd l" c' m] by (cases l) auto
  note m = mm this
  have g: "guards m d" "ow = (d, mstore m)" using 3(3) m(1) by (auto simp: guarded_def guardedStore_def split: if_splits)
  have "foreignTo (mlocks m) d (fst l, t')" if "t' \<le> snd l" for t'
    using 3(4) m(1) g(2) that by (auto simp: strange_def foreignTo_def)
  then have "mstore m' = mstore m \<and> guards m' d" using m(4) foreign_step [OF _ m(2) g(1)] g(1) by blast
  then show ?case using g m(3) by (simp add: guarded_def guardedStore_def)
qed

lemma locks_kept:
  assumes "trace (ctlStep env) c tr" "cManager c = Some m" "lockWF (mlocks m)"
  shows "\<exists>m'. cManager (traceEnd c tr) = Some m' \<and> lockWF (mlocks m') \<and> ttl (mlocks m') = ttl (mlocks m)"
proof (rule trace_inv [of "\<lambda>c'. \<exists>m'. cManager c' = Some m' \<and> lockWF (mlocks m') \<and> ttl (mlocks m') = ttl (mlocks m)"])
  fix c1 l c2
  assume "ctlStep env c1 l c2" "\<exists>m'. cManager c1 = Some m' \<and> lockWF (mlocks m') \<and> ttl (mlocks m') = ttl (mlocks m)"
  then show "\<exists>m'. cManager c2 = Some m' \<and> lockWF (mlocks m') \<and> ttl (mlocks m') = ttl (mlocks m)"
    using ctlStep_locks [of env c1 l c2] by metis
qed (use assms in auto)

lemma ensure_tag: "fst (ensure l ds meta ErrorTagInUse t1 t2) = Some e \<Longrightarrow> OwnerSessionID e \<noteq> 0 \<Longrightarrow> Tag e = ErrorTagInUse"
  by (auto simp: ensure_def Let_def NewInUse_def NewRPCError_def split: sum.splits option.splits if_splits)

lemma refused_response:
  assumes "cManager c = Some m" "guards m ow" "lockWF (mlocks m)" "rqMethod r = ''POST''"
    and "decodeNetconfEditRequest (cDecoders env) r = (None, req)" "sid (eMeta req) \<noteq> SessionID ow"
    and "clk 0 \<le> LastSeen ow + ttl (mlocks m)"
  shows "\<exists>payload. fst (handleNetconfEditConfig env clk r c) = \<lparr>respStatus = StatusConflict, respBody = ConfigBody payload\<rparr>
    \<and> crErrorTag payload = ErrorTagInUse \<and> crErrorInfo payload = Some (SessionID ow)"
proof -
  obtain e where e: "fst (ensure (mlocks m) ''candidate'' (eMeta req) ErrorTagInUse (clk 0) (clk 1)) = Some e" "OwnerSessionID e = SessionID ow"
    using guards_refused [OF assms(2,3,6,7), of ErrorTagInUse "clk 1"] by blast
  moreover have "SessionID ow \<noteq> 0" using assms(2) by (simp add: guards_def)
  ultimately have "Tag e = ErrorTagInUse" using ensure_tag by metis
  then show ?thesis using refused_frame(1) [OF e(1) refl, of "cMenv env"] e(2) \<open>SessionID ow \<noteq> 0\<close> assms(1,4,5)
    by (simp add: handleNetconfEditConfig_def writeConfigJSON_def httpStatusForRPCError_def)
qed

section \<open>Properties\<close>


definition anyDecoders :: Decoders where
  "anyDecoders = \<lparr>decodeEdit = (\<lambda>_. (False, zeroEdit)), decodeValidate = (\<lambda>_. (False, \<lparr>vMeta = zeroMeta, vSource = [], vPayload = []\<rparr>)),
     decodeLock = (\<lambda>_. (False, \<lparr>rMeta = zeroMeta, rTarget = []\<rparr>)), decodeMeta = (\<lambda>_. (False, zeroMeta)),
     decodeKeepAlive = (\<lambda>_. None), decodeRestart = (\<lambda>_. None), decodeChanges = (\<lambda>_. Some [(''pci'', VUint32 9)]),
     decodeTCATest = (\<lambda>_. None)\<rparr>"

definition sampleControlEnv :: ControlEnv where
  "sampleControlEnv = \<lparr>cMenv = sampleEnv None, cSupervisor = None, cDecoders = anyDecoders, cTestInject = False, cHasBus = False\<rparr>"

definition sampleControl :: Control where
  "sampleControl = NewConfigControl [] (Some (sampleManager (\<lambda>_. None))) None None"

definition bobPosts :: "string \<Rightarrow> Request" where
  "bobPosts p = \<lparr>rqMethod = ''POST'', rqPath = p,
     rqHeader = (\<lambda>h. if h = ''X-NETCONF-Session-ID'' then ''2'' else if h = ''X-NETCONF-Target'' then ''candidate'' else []),
     rqMax = [], rqBody = Some ''[]''\<rparr>"

lemma bob_texts: "trimSpace ''[]'' = ''[]''" "trimSpace ''candidate'' = ''candidate''" "trimSpace ''2'' = ''2''"
  by (simp_all add: trimSpace_printable printable_def)

lemma bob_headers: "populateSessionMetaHeaders (bobPosts p) zeroMeta = \<lparr>sid = 2, user = []\<rparr>"
proof -
  have "parseNat ''2'' = Some 2" by code_simp
  then have "parseUint 64 ''2'' = Some 2" by (simp add: parseUint_def)
  then show ?thesis by (simp add: populateSessionMetaHeaders_def bobPosts_def bob_texts zeroMeta_def)
qed


text \<open>The flat edit knows no session and ignores the lock: it changes the candidate that another
  session has locked.\<close>

lemma flat_edit_ignores_lock:
  "\<exists>m'. cManager (snd (handler sampleControlEnv clk (bobPosts ''/v1/control/config/edit-config'') sampleControl)) = Some m'
     \<and> PCI (Candidate (mstore m')) = 9 \<and> PCI (Candidate (mstore (sampleManager (\<lambda>_. None)))) = 7"
proof -
  let ?r = "bobPosts ''/v1/control/config/edit-config''" and ?m = "sampleManager (\<lambda>_. None)"
  have pci: "PCI (Candidate (snd (Edit rrStore [(''pci'', VUint32 9)]))) = 9" "PCI (Candidate rrStore) = 7" by code_simp+
  obtain res m' where e: "EditFlat (cMenv sampleControlEnv) ?m [(''pci'', VUint32 9)] = (res, m')" by fastforce
  have st: "mstore ?m = rrStore" by (simp add: sampleManager_def)
  have "mstore m' = snd (Edit rrStore [(''pci'', VUint32 9)])" using EditFlat_store [of "cMenv sampleControlEnv" ?m "[(''pci'', VUint32 9)]"] e st by simp
  moreover have "handler sampleControlEnv clk ?r sampleControl = handleEditConfig sampleControlEnv ?r sampleControl"
    by (simp add: handler_def bobPosts_def)
  moreover have "editThrough sampleControlEnv [(''pci'', VUint32 9)] sampleControl = (Some res, sampleControl\<lparr>cManager := Some m'\<rparr>)"
    using e by (simp add: editThrough_def sampleControl_def NewConfigControl_def)
  moreover have "controlStore sampleControl \<noteq> None" by (simp add: sampleControl_def NewConfigControl_def controlStore_def)
  moreover have "Option.bind (rqBody ?r) (decodeChanges (cDecoders sampleControlEnv)) = Some [(''pci'', VUint32 9)]" "rqMethod ?r = ''POST''"
    by (simp_all add: bobPosts_def sampleControlEnv_def anyDecoders_def)
  ultimately show ?thesis using pci st by (simp add: handleEditConfig_def split: sum.split)
qed

end
