(* ===== verification/Lifecycle.thy ===== *)
theory Lifecycle
  imports EmsErrors Renderer "HOL-Library.AList"
begin

text \<open>
  The restart of a network element through the Docker API
  (\<^verbatim>\<open>internal/ems/worker/lifecycle.go\<close>): the order in which containers are stopped and
  started, the fallbacks and retries, and the time they may take.

  The world is what the supervisor meets: the clock, the requests sent so far with their replies, the
  replies still to come and how long each takes, the time at which the context is cancelled, and
  the URLs that cannot be parsed. A wait is interrupted when the context is cancelled before it is
  over. The JSON body of an inspection is given by the flag it decodes to. Log messages are not
  modelled.
\<close>

section \<open>The world\<close>

datatype reply = Refused goerror | Reply (status: int) (body: string) (running: "bool option")

record request =
  reqMethod :: string
  reqTarget :: string
  reqAction :: string
  reqURL :: string
  reqTimeout :: duration

record world =
  dnow :: time
  calls :: "(request \<times> reply) list"
  script :: "nat \<Rightarrow> reply"
  latency :: "nat \<Rightarrow> nat"
  cancelAt :: "time option"
  badURL :: "string \<Rightarrow> goerror option"

type_synonym 'a dio = "world \<Rightarrow> (goerror + 'a) \<times> world"

definition clientDo :: "request \<Rightarrow> world \<Rightarrow> reply \<times> world" where
  "clientDo req w = (let n = length (calls w); r = script w n in
     (r, w\<lparr>dnow := dnow w + int (latency w n), calls := calls w @ [(req, r)]\<rparr>))"

text \<open>A wait: whether it was interrupted, and the world afterwards.\<close>

definition waitFor :: "duration \<Rightarrow> world \<Rightarrow> bool \<times> world" where
  "waitFor d w = (case cancelAt w of
       Some t \<Rightarrow> if t \<le> dnow w + d then (True, w\<lparr>dnow := max (dnow w) t\<rparr>) else (False, w\<lparr>dnow := dnow w + d\<rparr>)
     | None \<Rightarrow> (False, w\<lparr>dnow := dnow w + d\<rparr>))"

definition ctxErr :: goerror where
  "ctxErr = StdErr ''context canceled'' None"

definition bindD :: "'a dio \<Rightarrow> ('a \<Rightarrow> 'b dio) \<Rightarrow> 'b dio" where
  "bindD m f w = (case m w of (Inl e, w') \<Rightarrow> (Inl e, w') | (Inr x, w') \<Rightarrow> f x w')"

definition failD :: "goerror \<Rightarrow> 'a dio" where
  "failD e w = (Inl e, w)"

section \<open>Addresses and durations\<close>

definition trimRightSlash :: "string \<Rightarrow> string" where
  "trimRightSlash s = rev (dropWhile (\<lambda>c. c = CHR ''/'') (rev s))"

definition trimSlash :: "string \<Rightarrow> string" where
  "trimSlash s = trimRightSlash (dropWhile (\<lambda>c. c = CHR ''/'') s)"

definition unreserved :: "char \<Rightarrow> bool" where
  "unreserved c \<longleftrightarrow> (let n = of_char c :: nat in 97 \<le> n \<and> n \<le> 122 \<or> 65 \<le> n \<and> n \<le> 90 \<or> 48 \<le> n \<and> n \<le> 57)
     \<or> c \<in> set ''-_.~''"

definition percent :: "char \<Rightarrow> string" where
  "percent c = [CHR ''%'', ''0123456789ABCDEF'' ! (of_char c div 16), ''0123456789ABCDEF'' ! (of_char c mod 16)]"

text \<open>\<^verbatim>\<open>url.PathEscape\<close> and \<^verbatim>\<open>url.QueryEscape\<close>.\<close>

definition pathEscape :: "string \<Rightarrow> string" where
  "pathEscape s = concat (map (\<lambda>c. if unreserved c \<or> c \<in> set ''$&+=:@'' then [c] else percent c) s)"

definition queryEscape :: "string \<Rightarrow> string" where
  "queryEscape s = concat (map (\<lambda>c. if unreserved c then [c] else if c = CHR '' '' then ''+'' else percent c) s)"

record RestartPlan =
  Primary :: string
  Dependents :: "string list"
  DelayAfterStart :: duration

record DockerLifecycleSupervisor =
  SocketPath :: string
  APIVersion :: string
  dTimeout :: duration
  Endpoint :: string
  Plans :: "(string \<times> RestartPlan) list"

definition NewDockerLifecycleSupervisor :: "string \<Rightarrow> duration \<Rightarrow> DockerLifecycleSupervisor" where
  "NewDockerLifecycleSupervisor socketPath timeout =
     \<lparr>SocketPath = socketPath, APIVersion = [], dTimeout = timeout, Endpoint = ''http://unix'', Plans = []\<rparr>"

text \<open>The query of an action holds at most one parameter.\<close>

definition actionURL :: "DockerLifecycleSupervisor \<Rightarrow> string \<Rightarrow> string \<Rightarrow> (string \<times> string) option \<Rightarrow> string" where
  "actionURL s target action query =
     (let base = trimRightSlash (Endpoint s); escaped = pathEscape target; api = trimSlash (APIVersion s);
          u = (if api \<noteq> [] then base @ ''/'' @ api @ ''/containers/'' @ escaped @ ''/'' @ action
               else base @ ''/containers/'' @ escaped @ ''/'' @ action)
      in case query of None \<Rightarrow> u | Some (k, v) \<Rightarrow> u @ ''?'' @ queryEscape k @ ''='' @ queryEscape v)"

definition inspectURL :: "DockerLifecycleSupervisor \<Rightarrow> string \<Rightarrow> string" where
  "inspectURL s target =
     (let base = trimRightSlash (Endpoint s); escaped = pathEscape target; api = trimSlash (APIVersion s)
      in if api = [] then base @ ''/containers/'' @ escaped @ ''/json''
         else base @ ''/'' @ api @ ''/containers/'' @ escaped @ ''/json'')"

definition requestTimeout :: "DockerLifecycleSupervisor \<Rightarrow> string \<Rightarrow> duration" where
  "requestTimeout s action =
     (let base = (if dTimeout s \<le> 0 then 20 * second else dTimeout s)
      in if action = ''stop'' then base + 15 * second else if base < 10 * second then 10 * second else base)"

text \<open>\<^verbatim>\<open>Duration.Round\<close> rounds half away from zero.\<close>

definition strconvSeconds :: "duration \<Rightarrow> string" where
  "strconvSeconds d = (if d \<le> 0 then ''0''
     else let secs = (d + second div 2) div second in formatInt (if secs < 1 then 1 else secs))"

section \<open>Requests\<close>

definition supervisorErr :: "time \<Rightarrow> string \<Rightarrow> string \<Rightarrow> Severity \<Rightarrow> goerror" where
  "supervisorErr now code msg sev = NewError now code msg [WithOp ''docker_supervisor'', WithSeverity sev]"

definition supervisorWrap :: "time \<Rightarrow> goerror \<Rightarrow> string \<Rightarrow> string \<Rightarrow> Severity \<Rightarrow> goerror" where
  "supervisorWrap now err code msg sev =
     the (Wrap now (Some err) code msg [WithOp ''docker_supervisor'', WithSeverity sev])"

definition doContainerAction :: "DockerLifecycleSupervisor \<Rightarrow> string \<Rightarrow> string \<Rightarrow> (string \<times> string) option \<Rightarrow> unit dio" where
  "doContainerAction s target action query w =
     (let u = actionURL s target action query in
      case badURL w u of
        Some err \<Rightarrow> (Inl (supervisorWrap (dnow w) err ErrCodeInternal ''build docker request failed'' ErrSeverityMajor), w)
      | None \<Rightarrow>
          (case clientDo \<lparr>reqMethod = ''POST'', reqTarget = target, reqAction = action, reqURL = u,
               reqTimeout = requestTimeout s action\<rparr> w of
             (Refused err, w) \<Rightarrow> (Inl (supervisorWrap (dnow w) err ErrCodeNetwork ''docker api request failed'' ErrSeverityCritical), w)
           | (Reply st bd _, w) \<Rightarrow>
               if st = 204 \<or> st = 304 then (Inr (), w)
               else let msg = trimSpace (take 4096 bd); msg = (if msg = [] then ''status='' @ formatInt st else msg) in
                 (Inl (supervisorErr (dnow w) ErrCodeProcess
                    (''docker action '' @ goQuote action @ '' failed for '' @ goQuote target @ '': '' @ msg) ErrSeverityCritical), w)))"

definition isContainerRunning :: "DockerLifecycleSupervisor \<Rightarrow> string \<Rightarrow> bool dio" where
  "isContainerRunning s target w =
     (let u = inspectURL s target in
      case badURL w u of
        Some err \<Rightarrow> (Inl err, w)
      | None \<Rightarrow>
          (case clientDo \<lparr>reqMethod = ''GET'', reqTarget = target, reqAction = ''json'', reqURL = u, reqTimeout = 0\<rparr> w of
             (Refused err, w) \<Rightarrow> (Inl err, w)
           | (Reply st bd r, w) \<Rightarrow>
               if st \<noteq> 200 then (Inl (StdErr (''inspect status='' @ formatInt st) None), w)
               else case r of None \<Rightarrow> (Inl (StdErr ''decode'' None), w) | Some b \<Rightarrow> (Inr b, w)))"

definition stopContainer :: "DockerLifecycleSupervisor \<Rightarrow> string \<Rightarrow> unit dio" where
  "stopContainer s target w =
     (case doContainerAction s target ''stop'' (Some (''t'', strconvSeconds (dTimeout s))) w of
        (Inr _, w) \<Rightarrow> (Inr (), w)
      | (Inl err, w) \<Rightarrow>
          (case doContainerAction s target ''kill'' None w of
             (Inr _, w) \<Rightarrow> (Inr (), w)
           | (Inl killErr, w) \<Rightarrow>
               (Inl (supervisorErr (dnow w) ErrCodeProcess
                  (''container stop/kill failed for '' @ goQuote target @ '': stop='' @ errorText err @ ''; kill='' @ errorText killErr)
                  ErrSeverityCritical), w)))"

text \<open>The attempts of \<^verbatim>\<open>startContainer\<close> from the \<open>i\<close>-th on, with the last error.\<close>

fun startAttempts :: "DockerLifecycleSupervisor \<Rightarrow> string \<Rightarrow> nat \<Rightarrow> nat \<Rightarrow> goerror option \<Rightarrow> unit dio" where
  "startAttempts s target i 0 lastErr w =
     (Inl (supervisorErr (dnow w) ErrCodeProcess
        (''container start failed for '' @ goQuote target @ '' after retries: ''
          @ (case lastErr of Some e \<Rightarrow> errorText e | None \<Rightarrow> ''<nil>'')) ErrSeverityCritical), w)"
| "startAttempts s target i (Suc n) lastErr w =
     (case (if i > 0 then waitFor second w else (False, w)) of
        (True, w) \<Rightarrow> (Inl (supervisorWrap (dnow w) ctxErr ErrCodeProcess ''start retry interrupted'' ErrSeverityMajor), w)
      | (False, w) \<Rightarrow>
          (case doContainerAction s target ''start'' None w of
             (Inr _, w) \<Rightarrow> (Inr (), w)
           | (Inl err, w) \<Rightarrow> startAttempts s target (Suc i) n (Some err) w))"

definition startContainer :: "DockerLifecycleSupervisor \<Rightarrow> string \<Rightarrow> unit dio" where
  "startContainer s target w =
     (case waitFor (3 * second div 2) w of
        (True, w) \<Rightarrow> (Inl (supervisorWrap (dnow w) ctxErr ErrCodeProcess ''start interrupted before cooldown'' ErrSeverityMajor), w)
      | (False, w) \<Rightarrow> startAttempts s target 0 5 None w)"

lemma clientDo_now: "clientDo req w = (r, w') \<Longrightarrow> dnow w \<le> dnow w' \<and> cancelAt w' = cancelAt w \<and> badURL w' = badURL w"
  by (auto simp: clientDo_def Let_def)

lemma isContainerRunning_now: "isContainerRunning s target w = (r, w') \<Longrightarrow> dnow w \<le> dnow w'"
  by (auto simp: isContainerRunning_def Let_def dest!: clientDo_now split: option.splits prod.splits reply.splits if_splits)

lemma waitFor_now: "waitFor d w = (False, w') \<Longrightarrow> dnow w' = dnow w + d"
  by (auto simp: waitFor_def split: option.splits if_splits)

function waitReadyLoop :: "DockerLifecycleSupervisor \<Rightarrow> string \<Rightarrow> time \<Rightarrow> unit dio" where
  "waitReadyLoop s target deadline w =
     (if \<not> dnow w < deadline
      then (Inl (supervisorErr (dnow w) ErrCodeProcess
              (''container '' @ goQuote target @ '' did not become running in time'') ErrSeverityMajor), w)
      else case isContainerRunning s target w of
        (r, w1) \<Rightarrow>
          if r = Inr True then (Inr (), w1)
          else (case waitFor (second div 2) w1 of
            (True, w2) \<Rightarrow> (Inl (supervisorWrap (dnow w2) ctxErr ErrCodeProcess ''wait primary ready interrupted'' ErrSeverityMajor), w2)
          | (False, w2) \<Rightarrow> waitReadyLoop s target deadline w2))"
  by pat_completeness auto
termination
proof (relation "measure (\<lambda>(s, target, deadline, w). nat (deadline - dnow w))")
  fix s target deadline w r w1 b w2
  assume a: "\<not> \<not> dnow w < deadline" "(r, w1) = isContainerRunning s target w" "(b, w2) = waitFor (second div 2) w1" "b = False"
  then have "dnow w \<le> dnow w1" "dnow w2 = dnow w1 + second div 2"
    using isContainerRunning_now [of s target w r w1] waitFor_now [of "second div 2" w1 w2] by simp_all
  then show "((s, target, deadline, w2), s, target, deadline, w) \<in> measure (\<lambda>(s, target, deadline, w). nat (deadline - dnow w))"
    using a(1) by (simp add: second_def)
qed simp

declare waitReadyLoop.simps [simp del]

definition waitPrimaryReady :: "DockerLifecycleSupervisor \<Rightarrow> string \<Rightarrow> unit dio" where
  "waitPrimaryReady s target w = waitReadyLoop s target (dnow w + 15 * second) w"

definition waitAfterPrimaryStart :: "duration \<Rightarrow> unit dio" where
  "waitAfterPrimaryStart d w =
     (case waitFor (if d \<le> 0 then 5 * second else d) w of
        (True, w) \<Rightarrow> (Inl (supervisorWrap (dnow w) ctxErr ErrCodeProcess ''start delay interrupted'' ErrSeverityMajor), w)
      | (False, w) \<Rightarrow> (Inr (), w))"

section \<open>Restart plans\<close>

definition SetPlans :: "(string \<times> RestartPlan) list \<Rightarrow> DockerLifecycleSupervisor \<Rightarrow> DockerLifecycleSupervisor" where
  "SetPlans plans s = s\<lparr>Plans := fold (\<lambda>(k, p) out.
       let target = trimSpace k in
       if target = [] then out
       else AList.update target
         \<lparr>Primary = (if trimSpace (Primary p) = [] then target else trimSpace (Primary p)),
          Dependents = filter (\<lambda>d. d \<noteq> []) (map trimSpace (Dependents p)),
          DelayAfterStart = DelayAfterStart p\<rparr> out) plans []\<rparr>"

definition planForTarget :: "DockerLifecycleSupervisor \<Rightarrow> string \<Rightarrow> RestartPlan" where
  "planForTarget s target = (case map_of (Plans s) target of
       Some p \<Rightarrow> if Primary p = [] then p\<lparr>Primary := target\<rparr> else p
     | None \<Rightarrow> \<lparr>Primary = target, Dependents = [], DelayAfterStart = 5 * second\<rparr>)"

text \<open>A loop that stops at the first error.\<close>

fun forEach :: "('a \<Rightarrow> unit dio) \<Rightarrow> 'a list \<Rightarrow> unit dio" where
  "forEach f [] w = (Inr (), w)"
| "forEach f (x # xs) w = bindD (f x) (\<lambda>_. forEach f xs) w"

definition TriggerRestart :: "DockerLifecycleSupervisor \<Rightarrow> string \<Rightarrow> unit dio" where
  "TriggerRestart s target0 w =
     (let target = trimSpace target0 in
      if target = [] then failD (supervisorErr (dnow w) ErrCodeConfig ''restart target is empty'' ErrSeverityMajor) w
      else let plan = planForTarget s target in
        bindD (stopContainer s (Primary plan)) (\<lambda>_.
        bindD (forEach (stopContainer s) (Dependents plan)) (\<lambda>_.
        bindD (startContainer s (Primary plan)) (\<lambda>_.
        bindD (waitPrimaryReady s (Primary plan)) (\<lambda>_.
        bindD (waitAfterPrimaryStart (DelayAfterStart plan)) (\<lambda>_.
        forEach (startContainer s) (Dependents plan)))))) w)"

section \<open>What each step sends\<close>

fun accepted :: "reply \<Rightarrow> bool" where
  "accepted (Reply st b r) = (st = 204 \<or> st = 304)"
| "accepted (Refused e) = False"

fun saysRunning :: "reply \<Rightarrow> bool" where
  "saysRunning (Reply st b r) = (st = 200 \<and> r = Some True)"
| "saysRunning (Refused e) = False"

type_synonym log = "(request \<times> reply) list"

definition isStop :: "string \<Rightarrow> request \<Rightarrow> bool" where
  "isStop t q \<longleftrightarrow> reqTarget q = t \<and> (reqAction q = ''stop'' \<or> reqAction q = ''kill'')"

definition isStart :: "string \<Rightarrow> request \<Rightarrow> bool" where
  "isStart t q \<longleftrightarrow> reqTarget q = t \<and> reqAction q = ''start''"

definition isInspect :: "string \<Rightarrow> request \<Rightarrow> bool" where
  "isInspect t q \<longleftrightarrow> reqTarget q = t \<and> reqAction q = ''json''"

definition stopped :: "string \<Rightarrow> log \<Rightarrow> bool" where
  "stopped t l \<longleftrightarrow> (\<exists>(q, r) \<in> set l. isStop t q \<and> accepted r)"

definition started :: "string \<Rightarrow> log \<Rightarrow> bool" where
  "started t l \<longleftrightarrow> (\<exists>(q, r) \<in> set l. isStart t q \<and> accepted r)"

definition seenRunning :: "string \<Rightarrow> log \<Rightarrow> bool" where
  "seenRunning t l \<longleftrightarrow> (\<exists>(q, r) \<in> set l. isInspect t q \<and> saysRunning r)"

text \<open>A step adds at most \<open>n\<close> requests to the log, all of one kind, and they show its success.\<close>

definition sends :: "(request \<Rightarrow> bool) \<Rightarrow> nat \<Rightarrow> (log \<Rightarrow> bool) \<Rightarrow> unit dio \<Rightarrow> bool" where
  "sends kind n ok step \<longleftrightarrow> (\<forall>w. \<exists>new. calls (snd (step w)) = calls w @ new \<and> (\<forall>(q, r) \<in> set new. kind q)
     \<and> length new \<le> n \<and> (is_ok (fst (step w)) \<longrightarrow> ok new))"

lemma sendsE:
  assumes "sends kind n ok step" "step w = (r, w')"
  obtains new where "calls w' = calls w @ new" "\<forall>(q, r) \<in> set new. kind q" "length new \<le> n" "is_ok r \<longrightarrow> ok new"
  using assms unfolding sends_def by (metis fst_conv snd_conv)

lemma waitFor_calls [simp]: "calls (snd (waitFor d w)) = calls w"
  by (simp add: waitFor_def split: option.split)

lemma action_sends:
  "sends (\<lambda>q. reqTarget q = target \<and> reqAction q = action) 1
     (\<lambda>l. \<exists>(q, r) \<in> set l. reqTarget q = target \<and> reqAction q = action \<and> accepted r) (doContainerAction s target action query)"
  unfolding sends_def
proof
  fix w
  show "\<exists>new. calls (snd (doContainerAction s target action query w)) = calls w @ new
     \<and> (\<forall>(q, r) \<in> set new. reqTarget q = target \<and> reqAction q = action) \<and> length new \<le> 1
     \<and> (is_ok (fst (doContainerAction s target action query w)) \<longrightarrow>
          (\<exists>(q, r) \<in> set new. reqTarget q = target \<and> reqAction q = action \<and> accepted r))"
    by (cases "badURL w (actionURL s target action query)"; cases "script w (length (calls w))")
       (simp_all add: doContainerAction_def clientDo_def Let_def)
qed

lemma stop_sends: "sends (isStop t) 2 (stopped t) (stopContainer s t)"
  unfolding sends_def
proof
  fix w
  obtain r1 w1 where 1: "doContainerAction s t ''stop'' (Some (''t'', strconvSeconds (dTimeout s))) w = (r1, w1)" by fastforce
  obtain n1 where n1: "calls w1 = calls w @ n1" "\<forall>(q, r) \<in> set n1. reqTarget q = t \<and> reqAction q = ''stop''" "length n1 \<le> 1"
      "is_ok r1 \<longrightarrow> (\<exists>(q, r) \<in> set n1. reqTarget q = t \<and> reqAction q = ''stop'' \<and> accepted r)"
    using sendsE [OF action_sends 1] by blast
  obtain r2 w2 where 2: "doContainerAction s t ''kill'' None w1 = (r2, w2)" by fastforce
  obtain n2 where n2: "calls w2 = calls w1 @ n2" "\<forall>(q, r) \<in> set n2. reqTarget q = t \<and> reqAction q = ''kill''" "length n2 \<le> 1"
      "is_ok r2 \<longrightarrow> (\<exists>(q, r) \<in> set n2. reqTarget q = t \<and> reqAction q = ''kill'' \<and> accepted r)"
    using sendsE [OF action_sends 2] by blast
  show "\<exists>new. calls (snd (stopContainer s t w)) = calls w @ new \<and> (\<forall>(q, r) \<in> set new. isStop t q)
     \<and> length new \<le> 2 \<and> (is_ok (fst (stopContainer s t w)) \<longrightarrow> stopped t new)"
  proof (cases r1)
    case (Inr u)
    then show ?thesis using 1 n1 by (intro exI [of _ n1]) (auto simp: stopContainer_def stopped_def isStop_def)
  next
    case (Inl e)
    then show ?thesis using 1 2 n1 n2
      by (intro exI [of _ "n1 @ n2"]) (cases r2; fastforce simp: stopContainer_def stopped_def isStop_def)
  qed
qed

lemma attempts_sends: "sends (isStart t) n (started t) (startAttempts s t i n e)"
proof (induction n arbitrary: i e)
  case 0
  show ?case by (simp add: sends_def)
next
  case (Suc n)
  show ?case unfolding sends_def
  proof
    fix w
    define w0 where "w0 = snd (if i > 0 then waitFor second w else (False, w))"
    have w0: "calls w0 = calls w" by (simp add: w0_def)
    obtain r1 w1 where 1: "doContainerAction s t ''start'' None w0 = (r1, w1)" by fastforce
    obtain n1 where n1: "calls w1 = calls w0 @ n1" "\<forall>(q, r) \<in> set n1. reqTarget q = t \<and> reqAction q = ''start''" "length n1 \<le> 1"
        "is_ok r1 \<longrightarrow> (\<exists>(q, r) \<in> set n1. reqTarget q = t \<and> reqAction q = ''start'' \<and> accepted r)"
      using sendsE [OF action_sends 1] by blast
    show "\<exists>new. calls (snd (startAttempts s t i (Suc n) e w)) = calls w @ new \<and> (\<forall>(q, r) \<in> set new. isStart t q)
       \<and> length new \<le> Suc n \<and> (is_ok (fst (startAttempts s t i (Suc n) e w)) \<longrightarrow> started t new)"
    proof (cases "fst (if i > 0 then waitFor second w else (False, w))")
      case True
      then show ?thesis using w0 by (intro exI [of _ "[]"]) (auto simp: w0_def split: prod.split)
    next
      case False
      have eq: "(if i > 0 then waitFor second w else (False, w)) = (False, w0)"
        using False w0_def by (metis (full_types) prod.collapse)
      show ?thesis
      proof (cases r1)
        case (Inr u)
        then show ?thesis using 1 n1 w0 by (intro exI [of _ n1]) (auto simp: eq isStart_def started_def)
      next
        case (Inl err)
        obtain r2 w2 where 2: "startAttempts s t (Suc i) n (Some err) w1 = (r2, w2)" by fastforce
        obtain n2 where n2: "calls w2 = calls w1 @ n2" "\<forall>(q, r) \<in> set n2. isStart t q" "length n2 \<le> n" "is_ok r2 \<longrightarrow> started t n2"
          using sendsE [OF Suc.IH 2] by blast
        then show ?thesis using 1 2 n1 w0 Inl by (intro exI [of _ "n1 @ n2"]) (auto simp: eq isStart_def started_def)
      qed
    qed
  qed
qed

lemma start_sends: "sends (isStart t) 5 (started t) (startContainer s t)"
  unfolding sends_def
proof
  fix w
  obtain b w0 where b: "waitFor (3 * second div 2) w = (b, w0)" by fastforce
  then have w0: "calls w0 = calls w" using waitFor_calls [of "3 * second div 2" w] by simp
  obtain r w1 where r: "startAttempts s t 0 5 None w0 = (r, w1)" by fastforce
  obtain new where "calls w1 = calls w0 @ new" "\<forall>(q, r) \<in> set new. isStart t q" "length new \<le> 5" "is_ok r \<longrightarrow> started t new"
    using sendsE [OF attempts_sends r] by blast
  then show "\<exists>new. calls (snd (startContainer s t w)) = calls w @ new \<and> (\<forall>(q, r) \<in> set new. isStart t q)
     \<and> length new \<le> 5 \<and> (is_ok (fst (startContainer s t w)) \<longrightarrow> started t new)"
    using b w0 r by (cases b) (auto simp: startContainer_def intro!: exI [of _ "if b then [] else new"])
qed

lemma inspect_calls:
  assumes "isContainerRunning s t w = (r, w')"
  obtains new where "calls w' = calls w @ new" "\<forall>(q, x) \<in> set new. isInspect t q" "length new \<le> 1"
    "r = Inr True \<longrightarrow> seenRunning t new"
proof -
  let ?req = "\<lparr>reqMethod = ''GET'', reqTarget = t, reqAction = ''json'', reqURL = inspectURL s t, reqTimeout = 0\<rparr>"
  let ?rep = "script w (length (calls w))"
  show thesis
  proof (cases "badURL w (inspectURL s t)")
    case None
    then have "calls w' = calls w @ [(?req, ?rep)]" "r = Inr True \<longrightarrow> saysRunning ?rep"
      using assms by (auto simp: isContainerRunning_def clientDo_def Let_def split: reply.splits if_splits option.splits)
    then show thesis using that [of "[(?req, ?rep)]"] by (auto simp: isInspect_def seenRunning_def)
  next
    case (Some e)
    then show thesis using assms that [of "[]"] by (auto simp: isContainerRunning_def Let_def)
  qed
qed

text \<open>One inspection per half second until the deadline.\<close>

lemma waitReadyLoop_calls:
  "\<exists>new. calls (snd (waitReadyLoop s t deadline w)) = calls w @ new \<and> (\<forall>(q, x) \<in> set new. isInspect t q)
     \<and> int (length new) * (second div 2) \<le> max 0 (deadline - dnow w) + second div 2 - 1
     \<and> (is_ok (fst (waitReadyLoop s t deadline w)) \<longrightarrow> seenRunning t new)"
proof (induction s t deadline w rule: waitReadyLoop.induct)
  case (1 s t deadline w)
  show ?case
  proof (cases "dnow w < deadline")
    case False
    then show ?thesis by (subst (1 2) waitReadyLoop.simps) (simp add: second_def)
  next
    case True
    obtain r w1 where r: "isContainerRunning s t w = (r, w1)" by fastforce
    obtain n1 where n1: "calls w1 = calls w @ n1" "\<forall>(q, x) \<in> set n1. isInspect t q" "length n1 \<le> 1" "r = Inr True \<longrightarrow> seenRunning t n1"
      using inspect_calls [OF r] by blast
    obtain b w2 where b: "waitFor (second div 2) w1 = (b, w2)" by fastforce
    have w2: "calls w2 = calls w1" using b waitFor_calls [of "second div 2" w1] by simp
    have l1: "int (length n1) * (second div 2) \<le> second div 2" using n1(3) by (simp add: second_def)
    consider (yes) "r = Inr True" | (cancelled) "r \<noteq> Inr True" b | (again) "r \<noteq> Inr True" "\<not> b" by blast
    then show ?thesis
    proof cases
      case yes
      then show ?thesis using True r n1 l1
        by (subst (1 2) waitReadyLoop.simps) (auto intro!: exI [of _ n1])
    next
      case cancelled
      then show ?thesis using True r b n1 l1 w2
        by (subst (1 2) waitReadyLoop.simps) (auto intro!: exI [of _ n1])
    next
      case again
      have now: "dnow w \<le> dnow w1" "dnow w2 = dnow w1 + second div 2"
        using isContainerRunning_now [OF r] waitFor_now [of "second div 2" w1 w2] b again(2) by simp_all
      obtain n2 where n2: "calls (snd (waitReadyLoop s t deadline w2)) = calls w2 @ n2" "\<forall>(q, x) \<in> set n2. isInspect t q"
          "int (length n2) * (second div 2) \<le> max 0 (deadline - dnow w2) + second div 2 - 1"
          "is_ok (fst (waitReadyLoop s t deadline w2)) \<longrightarrow> seenRunning t n2"
        using "1.IH" [of r w1 b w2] True r b again by auto
      have eq: "waitReadyLoop s t deadline w = waitReadyLoop s t deadline w2"
        using True r b again by (subst waitReadyLoop.simps) simp
      have "int (length (n1 @ n2)) * (second div 2) \<le> max 0 (deadline - dnow w) + second div 2 - 1"
      proof (cases "dnow w2 \<le> deadline")
        case True
        then show ?thesis using l1 n2(3) now by (simp add: second_def algebra_simps max_def)
      next
        case False
        then have "n2 = []" using n2(3) by (cases n2) (auto simp: second_def)
        then show ?thesis using l1 True by (simp add: second_def)
      qed
      then show ?thesis unfolding eq using n1 n2 w2
        by (intro exI [of _ "n1 @ n2"]) (auto simp: seenRunning_def)
    qed
  qed
qed

lemma ready_sends: "sends (isInspect t) 30 (seenRunning t) (waitPrimaryReady s t)"
  unfolding sends_def
proof
  fix w
  obtain new where "calls (snd (waitPrimaryReady s t w)) = calls w @ new" "\<forall>(q, x) \<in> set new. isInspect t q"
      "int (length new) * (second div 2) \<le> 15 * second + second div 2 - 1"
      "is_ok (fst (waitPrimaryReady s t w)) \<longrightarrow> seenRunning t new"
    using waitReadyLoop_calls [of s t "dnow w + 15 * second" w] by (auto simp: waitPrimaryReady_def second_def)
  then show "\<exists>new. calls (snd (waitPrimaryReady s t w)) = calls w @ new \<and> (\<forall>(q, r) \<in> set new. isInspect t q)
     \<and> length new \<le> 30 \<and> (is_ok (fst (waitPrimaryReady s t w)) \<longrightarrow> seenRunning t new)"
    by (intro exI [of _ new]) (simp add: second_def)
qed

lemma forEach_sends:
  assumes "\<And>x. sends (kind x) n (ok x) (f x)" "\<And>x l l'. ok x l \<Longrightarrow> ok x (l @ l') \<and> ok x (l' @ l)"
  shows "sends (\<lambda>q. \<exists>x \<in> set xs. kind x q) (n * length xs) (\<lambda>l. \<forall>x \<in> set xs. ok x l) (forEach f xs)"
proof (induction xs)
  case Nil
  show ?case by (simp add: sends_def)
next
  case (Cons x xs)
  show ?case unfolding sends_def
  proof
    fix w
    obtain r1 w1 where 1: "f x w = (r1, w1)" by fastforce
    obtain n1 where n1: "calls w1 = calls w @ n1" "\<forall>(q, r) \<in> set n1. kind x q" "length n1 \<le> n" "is_ok r1 \<longrightarrow> ok x n1"
      using sendsE [OF assms(1) 1] by blast
    obtain r2 w2 where 2: "forEach f xs w1 = (r2, w2)" by fastforce
    obtain n2 where n2: "calls w2 = calls w1 @ n2" "\<forall>(q, r) \<in> set n2. \<exists>x \<in> set xs. kind x q" "length n2 \<le> n * length xs"
        "is_ok r2 \<longrightarrow> (\<forall>x \<in> set xs. ok x n2)"
      using sendsE [OF Cons.IH 2] by blast
    show "\<exists>new. calls (snd (forEach f (x # xs) w)) = calls w @ new \<and> (\<forall>(q, r) \<in> set new. \<exists>x \<in> set (x # xs). kind x q)
       \<and> length new \<le> n * length (x # xs) \<and> (is_ok (fst (forEach f (x # xs) w)) \<longrightarrow> (\<forall>x \<in> set (x # xs). ok x new))"
    proof (cases r1)
      case (Inl e)
      then show ?thesis using 1 n1 by (intro exI [of _ n1]) (auto simp: bindD_def)
    next
      case (Inr u)
      have "is_ok r2 \<longrightarrow> (\<forall>y \<in> set (x # xs). ok y (n1 @ n2))" using n1(4) n2(4) Inr assms(2) by auto
      then show ?thesis using 1 2 Inr n1(1-3) n2(1-3) by (intro exI [of _ "n1 @ n2"]) (auto simp: bindD_def)
    qed
  qed
qed

lemma stopped_append: "stopped t l \<Longrightarrow> stopped t (l @ l') \<and> stopped t (l' @ l)"
  by (auto simp: stopped_def)

lemma started_append: "started t l \<Longrightarrow> started t (l @ l') \<and> started t (l' @ l)"
  by (auto simp: started_def)

lemmas stops_send = forEach_sends [OF stop_sends stopped_append]
lemmas starts_send = forEach_sends [OF start_sends started_append]

lemma delay_sends: "sends (\<lambda>_. False) 0 (\<lambda>_. True) (waitAfterPrimaryStart d)"
proof -
  have "calls (snd (waitAfterPrimaryStart d w)) = calls w" for w
    using waitFor_calls [of "if d \<le> 0 then 5 * second else d" w]
    by (cases "waitFor (if d \<le> 0 then 5 * second else d) w") (auto simp: waitAfterPrimaryStart_def split: bool.split)
  then show ?thesis by (simp add: sends_def)
qed

text \<open>Phases: each begins only when the one before has shown its success.\<close>

fun phased :: "((request \<Rightarrow> bool) \<times> nat \<times> (log \<Rightarrow> bool)) list \<Rightarrow> log \<Rightarrow> bool \<Rightarrow> bool" where
  "phased [] l b = (l = [])"
| "phased ((kind, n, ok) # ps) l b = (\<exists>new rest. l = new @ rest \<and> (\<forall>(q, x) \<in> set new. kind q) \<and> length new \<le> n
     \<and> (rest \<noteq> [] \<or> b \<longrightarrow> ok new) \<and> phased ps rest b)"

definition runs :: "((request \<Rightarrow> bool) \<times> nat \<times> (log \<Rightarrow> bool)) list \<Rightarrow> unit dio \<Rightarrow> bool" where
  "runs ps m \<longleftrightarrow> (\<forall>w. \<exists>l. calls (snd (m w)) = calls w @ l \<and> phased ps l (is_ok (fst (m w))))"

lemma phased_none: "phased ps [] False"
  by (induction ps) auto

lemma runs_last: "sends kind n ok m \<Longrightarrow> runs [(kind, n, ok)] m"
  unfolding runs_def sends_def by (force split: prod.split)

lemma runs_bind:
  assumes "sends kind n ok m" "runs ps (f ())"
  shows "runs ((kind, n, ok) # ps) (bindD m f)"
  unfolding runs_def
proof
  fix w
  obtain r w1 where m: "m w = (r, w1)" by fastforce
  obtain new where new: "calls w1 = calls w @ new" "\<forall>(q, x) \<in> set new. kind q" "length new \<le> n" "is_ok r \<longrightarrow> ok new"
    using sendsE [OF assms(1) m] by blast
  show "\<exists>l. calls (snd (bindD m f w)) = calls w @ l \<and> phased ((kind, n, ok) # ps) l (is_ok (fst (bindD m f w)))"
  proof (cases r)
    case (Inl e)
    have "phased ((kind, n, ok) # ps) new False"
      unfolding phased.simps by (intro exI [of _ new] exI [of _ "[]"]) (use new phased_none in simp)
    then show ?thesis using m new Inl by (intro exI [of _ new]) (simp add: bindD_def)
  next
    case (Inr u)
    obtain l where "calls (snd (f () w1)) = calls w1 @ l" "phased ps l (is_ok (fst (f () w1)))"
      using assms(2) unfolding runs_def by blast
    moreover from this have "phased ((kind, n, ok) # ps) (new @ l) (is_ok (fst (f () w1)))"
      unfolding phased.simps by (intro exI [of _ new] exI [of _ l]) (use new Inr in simp)
    ultimately show ?thesis using m new Inr by (intro exI [of _ "new @ l"]) (simp add: bindD_def)
  qed
qed

text \<open>The phases of a restart, and what they amount to.\<close>

definition restartPhases :: "string \<Rightarrow> string list \<Rightarrow> ((request \<Rightarrow> bool) \<times> nat \<times> (log \<Rightarrow> bool)) list" where
  "restartPhases p ds = [(isStop p, 2, stopped p),
     (\<lambda>q. \<exists>d \<in> set ds. isStop d q, 2 * length ds, \<lambda>l. \<forall>d \<in> set ds. stopped d l),
     (isStart p, 5, started p), (isInspect p, 30, seenRunning p), (\<lambda>_. False, 0, \<lambda>_. True),
     (\<lambda>q. \<exists>d \<in> set ds. isStart d q, 5 * length ds, \<lambda>l. \<forall>d \<in> set ds. started d l)]"

lemma phased_ConsE:
  assumes "phased ((kind, n, ok) # ps) l b"
  obtains new rest where "l = new @ rest" "\<forall>(q, x) \<in> set new. kind q" "length new \<le> n" "rest \<noteq> [] \<or> b \<longrightarrow> ok new" "phased ps rest b"
  using assms unfolding phased.simps by blast

lemma restartPhasesE:
  assumes "phased (restartPhases p ds) l b"
  obtains S D P R T where "l = S @ D @ P @ R @ T"
    "\<forall>(q, x) \<in> set S. isStop p q" "length S \<le> 2" "D @ P @ R @ T \<noteq> [] \<or> b \<longrightarrow> stopped p S"
    "\<forall>(q, x) \<in> set D. \<exists>d \<in> set ds. isStop d q" "length D \<le> 2 * length ds" "P @ R @ T \<noteq> [] \<or> b \<longrightarrow> (\<forall>d \<in> set ds. stopped d D)"
    "\<forall>(q, x) \<in> set P. isStart p q" "length P \<le> 5" "R @ T \<noteq> [] \<or> b \<longrightarrow> started p P"
    "\<forall>(q, x) \<in> set R. isInspect p q" "length R \<le> 30" "T \<noteq> [] \<or> b \<longrightarrow> seenRunning p R"
    "\<forall>(q, x) \<in> set T. \<exists>d \<in> set ds. isStart d q" "length T \<le> 5 * length ds" "b \<longrightarrow> (\<forall>d \<in> set ds. started d T)"
proof -
  obtain S l1 where S: "l = S @ l1" "\<forall>(q, x) \<in> set S. isStop p q" "length S \<le> 2" "l1 \<noteq> [] \<or> b \<longrightarrow> stopped p S"
      and l1: "phased (tl (restartPhases p ds)) l1 b"
    using assms unfolding restartPhases_def list.sel by (rule phased_ConsE)
  obtain D l2 where D: "l1 = D @ l2" "\<forall>(q, x) \<in> set D. \<exists>d \<in> set ds. isStop d q" "length D \<le> 2 * length ds"
        "l2 \<noteq> [] \<or> b \<longrightarrow> (\<forall>d \<in> set ds. stopped d D)" and l2: "phased (tl (tl (restartPhases p ds))) l2 b"
    using l1 unfolding restartPhases_def list.sel by (rule phased_ConsE)
  obtain P l3 where P: "l2 = P @ l3" "\<forall>(q, x) \<in> set P. isStart p q" "length P \<le> 5" "l3 \<noteq> [] \<or> b \<longrightarrow> started p P"
      and l3: "phased (tl (tl (tl (restartPhases p ds)))) l3 b"
    using l2 unfolding restartPhases_def list.sel by (rule phased_ConsE)
  obtain R T where R: "l3 = R @ T" "\<forall>(q, x) \<in> set R. isInspect p q" "length R \<le> 30" "T \<noteq> [] \<or> b \<longrightarrow> seenRunning p R"
      and T: "phased (tl (tl (tl (tl (restartPhases p ds))))) T b"
    using l3 unfolding restartPhases_def list.sel by (rule phased_ConsE)
  have "\<forall>(q, x) \<in> set T. \<exists>d \<in> set ds. isStart d q" "length T \<le> 5 * length ds" "b \<longrightarrow> (\<forall>d \<in> set ds. started d T)"
    using T by (auto simp: restartPhases_def)
  with S D P R show thesis by (intro that [of S D P R T]) auto
qed

lemma restart_runs:
  "runs (restartPhases (Primary plan) (Dependents plan))
     (bindD (stopContainer s (Primary plan)) (\<lambda>_. bindD (forEach (stopContainer s) (Dependents plan)) (\<lambda>_.
      bindD (startContainer s (Primary plan)) (\<lambda>_. bindD (waitPrimaryReady s (Primary plan)) (\<lambda>_.
      bindD (waitAfterPrimaryStart (DelayAfterStart plan)) (\<lambda>_. forEach (startContainer s) (Dependents plan)))))))"
  unfolding restartPhases_def
  by (intro runs_bind runs_last stop_sends stops_send start_sends ready_sends delay_sends starts_send)

section \<open>Properties\<close>


text \<open>A plan with one dependent, on a daemon that accepts everything.\<close>

definition obliging :: world where
  "obliging = \<lparr>dnow = 0, calls = [], script = (\<lambda>n. if n = 3 then Reply 200 [] (Some True) else Reply 204 [] None),
     latency = (\<lambda>_. 1), cancelAt = None, badURL = (\<lambda>_. None)\<rparr>"

definition twoContainers :: DockerLifecycleSupervisor where
  "twoContainers = SetPlans [(''enb'', \<lparr>Primary = [], Dependents = ['' ue ''], DelayAfterStart = 0\<rparr>)] (NewDockerLifecycleSupervisor [] 0)"

lemma twoContainers_plan: "planForTarget twoContainers ''enb'' = \<lparr>Primary = ''enb'', Dependents = [''ue''], DelayAfterStart = 0\<rparr>"
  by code_simp

lemma enb_trim: "trimSpace ''enb'' = ''enb''"
  by code_simp


end
