(* ===== verification/Wiring.thy ===== *)
theory Wiring
  imports AgentConfig ConfigControl Lifecycle
begin

text \<open>
  The assembly of the agent, \<^verbatim>\<open>wiring/wiring.go\<close> and \<^verbatim>\<open>wiring/control_url.go\<close>: which services the
  settings start, with which paths, plans and targets, and which settings are refused. A service is
  a value that says what it is started with; the record of the result also holds the supervisor, the
  front end of the configuration and the registry that the services share. libyang, the encoders
  and the restart of a container are parameters of the parts that use them.
\<close>

section \<open>Paths\<close>

text \<open>\<^verbatim>\<open>filepath.Clean\<close>, \<^verbatim>\<open>Join\<close> and \<^verbatim>\<open>Dir\<close>; the segments are collected in reverse.\<close>

definition cleanStep :: "bool \<Rightarrow> string \<Rightarrow> string list \<Rightarrow> string list" where
  "cleanStep rooted seg out =
     (if seg = [] \<or> seg = ''.'' then out
      else if seg = ''..'' then
        (case out of
           [] \<Rightarrow> if rooted then [] else [''..'']
         | prev # rest \<Rightarrow> if prev = ''..'' then ''..'' # out else rest)
      else seg # out)"

definition pathClean :: "string \<Rightarrow> string" where
  "pathClean p =
     (if p = [] then ''.''
      else let rooted = (hd p = CHR ''/'');
               body = joinOn (CHR ''/'') (rev (fold (cleanStep rooted) (splitOn (CHR ''/'') p) []))
           in if rooted then CHR ''/'' # body else if body = [] then ''.'' else body)"

definition pathJoin :: "string \<Rightarrow> string \<Rightarrow> string" where
  "pathJoin a b = (if a = [] \<and> b = [] then []
     else pathClean (joinOn (CHR ''/'') (filter (\<lambda>e. e \<noteq> []) [a, b])))"

definition pathDir :: "string \<Rightarrow> string" where
  "pathDir p = pathClean (rev (dropWhile (\<lambda>c. c \<noteq> CHR ''/'') (rev p)))"

section \<open>The address of the control interface\<close>

definition controlLocalURL :: "string \<Rightarrow> string" where
  "controlLocalURL addr =
     (let a = trimSpace addr
      in if a = [] then []
         else if hasPrefix a ''unix:'' then ''http://localhost''
         else if hasPrefix a '':'' then ''http://127.0.0.1'' @ a
         else case splitHostPort a of
           Some (host, port) \<Rightarrow>
             if port \<noteq> [] then ''http://127.0.0.1:'' @ port
             else if hasPrefix a ''http://'' \<or> hasPrefix a ''https://'' then a else ''http://127.0.0.1'' @ ''/'' @ trimPrefix a ''/''
         | None \<Rightarrow> if hasPrefix a ''http://'' \<or> hasPrefix a ''https://'' then a else ''http://127.0.0.1'' @ ''/'' @ trimPrefix a ''/'')"

section \<open>Threshold rules\<close>

definition wiringErr :: "time \<Rightarrow> string \<Rightarrow> goerror" where
  "wiringErr now msg = NewError now ErrCodeConfig msg [WithOp ''wiring'', WithSeverity ErrSeverityCritical]"

definition wiringWrap :: "time \<Rightarrow> string \<Rightarrow> string \<Rightarrow> goerror" where
  "wiringWrap now cause msg = the (Wrap now (Some (StdErr cause None)) ErrCodeConfig msg [WithOp ''wiring'', WithSeverity ErrSeverityCritical])"

definition isTCARuleConfigured :: "TCARuleConfig \<Rightarrow> bool" where
  "isTCARuleConfigured r \<longleftrightarrow> ruleOn r \<or> \<not> f64_eq (ruleRaise r) (Fin 0) \<or> \<not> f64_eq (ruleClear r) (Fin 0)
     \<or> ruleRaiseFor r \<noteq> [] \<or> ruleClearFor r \<noteq> []"

definition firstConfiguredRule :: "TCARuleConfig \<Rightarrow> TCARuleConfig \<Rightarrow> TCARuleConfig" where
  "firstConfiguredRule primary fallback = (if isTCARuleConfigured primary then primary else fallback)"

definition parseTCADuration :: "time \<Rightarrow> string \<Rightarrow> goerror + duration" where
  "parseTCADuration now raw =
     (let raw = trimSpace raw
      in if raw = [] then Inr 0
         else case parseDuration raw of
           None \<Rightarrow> Inl (wiringWrap now (''time: invalid duration '' @ goQuote raw) ''invalid fm.tca rule duration'')
         | Some d \<Rightarrow> Inr d)"

definition buildTCARule :: "time \<Rightarrow> TCARuleConfig \<Rightarrow> goerror + RuleConfig" where
  "buildTCARule now inp =
     bindE (parseTCADuration now (ruleRaiseFor inp)) (\<lambda>raiseDuration.
     bindE (parseTCADuration now (ruleClearFor inp)) (\<lambda>clearDuration.
       Inr \<lparr>rcEnabled = ruleOn inp, RaiseThreshold = ruleRaise inp, ClearThreshold = ruleClear inp,
            RaiseDuration = raiseDuration, ClearDuration = clearDuration\<rparr>))"

definition tcaRuleTable :: "TCARuleSetConfig \<Rightarrow> (string \<times> TCARuleConfig) list" where
  "tcaRuleTable r = [
     (RuleS1InterfaceDown, S1InterfaceDown r),
     (RuleNASSignalingLoss, NASSignalingLoss r),
     (RuleNASSecurityMismatch, NASSecurityMismatch r),
     (RuleNASParsingFailure, NASParsingFailure r),
     (RuleRRCProtocolError, RRCProtocolError r),
     (RuleRRCConnectionRejection, RRCConnectionRejection r),
     (RuleCoreServiceReject, CoreServiceReject r),
     (RulePagingCapacityExceeded, PagingCapacityExceeded r),
     (RuleRLCMaxRetransmissions, RLCMaxRetransmissions r),
     (RuleLowThroughput, LowThroughput r),
     (RuleBadSignalCondition, firstConfiguredRule (BadSignalCondition r) (LowULSINR r)),
     (RuleHighBLER, HighBLER r),
     (RuleRLFStorm, RadioLinkFailureStorm r),
     (RuleRFInterference, RFInterferenceDetected r),
     (RuleUEInactivityCleanup, UEInactivityCleanup r),
     (RuleBearerCongestion, BearerCongestion r),
     (RulePowerHeadroomCritical, PowerHeadroomCritical r)]"

fun buildTCARules :: "time \<Rightarrow> (string \<times> TCARuleConfig) list \<Rightarrow> goerror + (string \<times> RuleConfig) list" where
  "buildTCARules now [] = Inr []"
| "buildTCARules now ((name, raw) # rules) =
     (if \<not> isTCARuleConfigured raw then buildTCARules now rules
      else bindE (buildTCARule now raw) (\<lambda>rule. bindE (buildTCARules now rules) (\<lambda>out. Inr ((name, rule) # out))))"

text \<open>The rules have different names, so the order in which Go ranges over them does not matter for
  the result; it decides which of several errors is reported.\<close>

definition buildTCAConfig :: "time \<Rightarrow> TCAConfig \<Rightarrow> goerror + Config" where
  "buildTCAConfig now inp =
     (if \<not> tcaOn inp then Inr \<lparr>cfgEnabled = False, Rules = []\<rparr>
      else bindE (buildTCARules now (tcaRuleTable (tcaRules inp)))
        (\<lambda>rules. Inr (NormalizeConfig \<lparr>cfgEnabled = True, Rules = rules\<rparr>)))"

section \<open>Services\<close>

record ProcessServer =
  psBinary :: string
  psAddr :: string
  psYangDir :: string
  psSnapshotPath :: string
  psRunningPath :: string
  psCandidatePath :: string
  psControlURL :: string
  psControlUnix :: string
  psHostKey :: string
  psAuthorizedKey :: string
  psUser :: string

datatype serviceSpec =
    MetricsReaderSvc bool | RawMetricsSinkSvc string
  | FaultSvc | TCASvc Config | AlarmLogReaderSvc string string
  | RawFanoutSvc | NetconfSnapshotSvc string NRMConfig | MetricsConsumerSvc string | TelemetryCacheSvc
  | PMEngineSvc PMConfig | NetconfSessionGCSvc | ConfigControlSvc string bool
  | ProcessServerSvc ProcessServer | NetconfTCPSvc string

record BuildEnv =
  beCodec :: AlarmCodec
  beYangValidate :: "string \<Rightarrow> bytes \<Rightarrow> unit result"
  beYangLeaves :: "string \<Rightarrow> bytes \<Rightarrow> extractedLeaf list result"
  beMarshal :: "json \<Rightarrow> bytes result"
  beRestart :: "DockerLifecycleSupervisor \<Rightarrow> string \<Rightarrow> unit result"

section \<open>The control plane\<close>

record targetsAcc =
  taTargets :: "(string \<times> string) list"
  taPlans :: "(string \<times> RestartPlan) list"
  taStore :: "Store option"
  taFS :: fs

definition targetSerial :: "time \<Rightarrow> ControlRestartTarget \<Rightarrow> fs \<Rightarrow> goerror + string \<times> fs" where
  "targetSerial now t s =
     (let serial = trimSpace (tgSerial t); p = trimSpace (tgENBConfigPath t)
      in if serial = [] \<and> p \<noteq> []
         then (case osReadFile p s of (f, s') \<Rightarrow>
           (case ParseENB p f of
              Inl e \<Rightarrow> Inl (wiringWrap now (errText e) ''failed to read enb_config_path for restart target'')
            | Inr enb \<Rightarrow> Inr (trimSpace (e_Serial enb), s')))
         else Inr (serial, s))"

definition targetStore :: "time \<Rightarrow> ControlRestartTarget \<Rightarrow> Store option \<Rightarrow> fs \<Rightarrow> goerror + Store option \<times> fs" where
  "targetStore now t st s =
     (let enb = trimSpace (tgENBConfigPath t); rr = trimSpace (tgRRConfigPath t);
          sib = trimSpace (tgSIBConfigPath t); rb = trimSpace (tgRBConfigPath t)
      in if st = None \<and> enb \<noteq> [] \<and> rr \<noteq> [] \<and> sib \<noteq> [] \<and> rb \<noteq> []
         then (case ConfigStore.NewStore enb rr sib rb s of
             (Inl e, s') \<Rightarrow> Inl (wiringWrap now (errText e) ''failed to initialize configuration store'')
           | (Inr store, s') \<Rightarrow> Inr (Some store, s'))
         else Inr (st, s))"

definition targetDelay :: "time \<Rightarrow> ControlRestartTarget \<Rightarrow> goerror + duration" where
  "targetDelay now t =
     (if trimSpace (tgDelayAfterStart t) = [] then Inr (5 * second)
      else case parseDuration (tgDelayAfterStart t) of
        None \<Rightarrow> Inl (wiringWrap now (''time: invalid duration '' @ goQuote (tgDelayAfterStart t))
                      ''invalid control.restart.targets.delay_after_start'')
      | Some d \<Rightarrow> Inr d)"

definition addTarget :: "time \<Rightarrow> ControlRestartTarget \<Rightarrow> targetsAcc \<Rightarrow> goerror + targetsAcc" where
  "addTarget now t ta =
     (let container = trimSpace (tgContainer t)
      in if container = [] then Inr ta
         else bindE (targetSerial now t (taFS ta)) (\<lambda>(serial, s).
           if serial = [] then Inl (wiringErr now ''restart target serial is empty (set serial or enb_config_path)'')
           else bindE (targetStore now t (taStore ta) s) (\<lambda>(store, s).
             bindE (targetDelay now t) (\<lambda>delay.
               Inr \<lparr>taTargets = AList.update serial container (taTargets ta),
                    taPlans = AList.update container
                      \<lparr>Primary = container, Dependents = tgDependents t, DelayAfterStart = delay\<rparr> (taPlans ta),
                    taStore = store, taFS = s\<rparr>))))"

fun addTargets :: "time \<Rightarrow> ControlRestartTarget list \<Rightarrow> targetsAcc \<Rightarrow> goerror + targetsAcc" where
  "addTargets now [] ta = Inr ta"
| "addTargets now (t # ts) ta = bindE (addTarget now t ta) (addTargets now ts)"

text \<open>The target that the manager restarts after a commit: the one of the serial, or the only one.\<close>

definition managerTarget :: "(string \<times> string) list \<Rightarrow> string \<Rightarrow> string option" where
  "managerTarget targets serial0 =
     (let serial = trimSpace serial0
      in if serial = [] then None
         else case Option.bind (map_of targets serial) (\<lambda>t. if trimSpace t \<noteq> [] then Some t else None) of
           Some t \<Rightarrow> Some t
         | None \<Rightarrow> if length targets = 1 then find (\<lambda>t. trimSpace t \<noteq> []) (map snd targets) else None)"

record ControlPart =
  cpServices :: "serviceSpec list"
  cpSupervisor :: "DockerLifecycleSupervisor option"
  cpControl :: "Control option"
  cpRunningPath :: string
  cpCandidatePath :: string
  cpURL :: string
  cpUnix :: string

definition noControl :: ControlPart where
  "noControl = \<lparr>cpServices = [], cpSupervisor = None, cpControl = None, cpRunningPath = [], cpCandidatePath = [], cpURL = [], cpUnix = []\<rparr>"

definition datastoreDir :: "AgentSettings \<Rightarrow> string \<Rightarrow> string" where
  "datastoreDir cfg snapshotPath =
     (let dir = trimSpace (ncDatastoreDir (Netconf cfg))
      in if dir = [] \<and> snapshotPath \<noteq> [] then pathJoin (pathDir snapshotPath) ''datastores'' else dir)"

definition buildManager ::
    "BuildEnv \<Rightarrow> time \<Rightarrow> AgentSettings \<Rightarrow> DockerLifecycleSupervisor \<Rightarrow> (string \<times> string) list \<Rightarrow> string \<Rightarrow> string \<Rightarrow> Store \<Rightarrow> fs
      \<Rightarrow> goerror + Manager" where
  "buildManager env now cfg docker targets runningPath candidatePath store s =
     (case NewManager \<lparr>yangValidate = beYangValidate env (ncYangDir (Netconf cfg)), yangLeaves = beYangLeaves env (ncYangDir (Netconf cfg)),
             marshal = beMarshal env,
             ids = \<lparr>SubNetwork = stSubNetwork (nrmSettings cfg), ManagedElement = stManagedElement (nrmSettings cfg),
                    ENBFunctionID = stENBFunctionID (nrmSettings cfg)\<rparr>,
             artRunning = runningPath, artCandidate = candidatePath,
             targetOf = Some (managerTarget targets), triggerRestart = Some (beRestart env docker)\<rparr> (Some store) s of
        Inl e \<Rightarrow> Inl (wiringWrap now (errText e) ''failed to initialize netconf CM manager'')
      | Inr m \<Rightarrow> Inr m)"

definition buildControl :: "BuildEnv \<Rightarrow> time \<Rightarrow> AgentSettings \<Rightarrow> string \<Rightarrow> NotificationQueue \<Rightarrow> fs \<Rightarrow> goerror + ControlPart" where
  "buildControl env now cfg snapshotPath queue s =
     (let ctl = ControlAPI cfg; rst = ctlRestart ctl; addr = trimSpace (ctlAddr ctl)
      in if \<not> ctlEnabled ctl then Inr noControl
         else case parseDuration (ctTimeout rst) of
           None \<Rightarrow> Inl (wiringWrap now (''time: invalid duration '' @ goQuote (ctTimeout rst)) ''invalid control.restart.timeout'')
         | Some timeout \<Rightarrow>
             bindE (addTargets now (ctTargets rst) \<lparr>taTargets = [], taPlans = [], taStore = None, taFS = s\<rparr>) (\<lambda>ta.
               if taTargets ta = [] then Inl (wiringErr now ''control is enabled but no restart targets are configured'')
               else let docker = SetPlans (taPlans ta) (NewDockerLifecycleSupervisor (DockerSocket rst) timeout);
                        dir = datastoreDir cfg snapshotPath;
                        runningPath = pathJoin dir ''running.json'';
                        candidatePath = pathJoin dir ''candidate.json'';
                        part = \<lparr>cpServices = [], cpSupervisor = Some docker, cpControl = None, cpRunningPath = [], cpCandidatePath = [],
                          cpURL = (if addr \<noteq> [] then controlLocalURL (ctlAddr ctl) else []),
                          cpUnix = (if hasPrefix addr ''unix:'' then trimSpace (trimPrefix addr ''unix:'') else [])\<rparr>;
                        svc = ConfigControlSvc (ctlAddr ctl) (TestInjectionEnabled (FM cfg))
                    in case taStore ta of
                         None \<Rightarrow> Inr (part\<lparr>cpServices := [svc], cpControl := Some (NewConfigControl (taTargets ta) None None (Some queue))\<rparr>)
                       | Some store \<Rightarrow>
                           if dir = [] then Inr (part\<lparr>cpServices := [svc],
                             cpControl := Some (NewConfigControl (taTargets ta) None (Some (store, taFS ta)) (Some queue))\<rparr>)
                           else bindE (buildManager env now cfg docker (taTargets ta) runningPath candidatePath store (taFS ta)) (\<lambda>m.
                             Inr (part\<lparr>cpServices := [NetconfSessionGCSvc, svc], cpRunningPath := runningPath, cpCandidatePath := candidatePath,
                               cpControl := Some (NewConfigControl (taTargets ta) (Some m) None (Some queue))\<rparr>))))"

section \<open>The NETCONF server\<close>

definition buildNetconf :: "time \<Rightarrow> AgentSettings \<Rightarrow> ControlPart \<Rightarrow> goerror + serviceSpec list" where
  "buildNetconf now cfg part =
     (let nc = Netconf cfg; ssh = ncSSH nc
      in if \<not> ncEnabled nc then Inr []
         else if ncTransport nc \<noteq> ''ssh'' then Inr [NetconfTCPSvc (ncAddr nc)]
         else if HostKey ssh = [] \<or> AuthorizedKey ssh = [] \<or> sshUser ssh = [] then Inl (wiringErr now ''netconf ssh config is incomplete'')
         else if ncSnapshotPath nc = [] then Inl (wiringErr now ''netconf snapshot_path is empty'')
         else Inr [ProcessServerSvc \<lparr>psBinary = ''/app/netconf-server'', psAddr = ncAddr nc, psYangDir = ncYangDir nc,
           psSnapshotPath = ncSnapshotPath nc, psRunningPath = cpRunningPath part, psCandidatePath = cpCandidatePath part,
           psControlURL = cpURL part, psControlUnix = cpUnix part, psHostKey = HostKey ssh, psAuthorizedKey = AuthorizedKey ssh,
           psUser = sshUser ssh\<rparr>])"

section \<open>The agent\<close>

definition supportedElement :: "string \<Rightarrow> bool" where
  "supportedElement typ \<longleftrightarrow> typ \<in> set [''enb'', ''gnb'', ''oai-gnb'', ''epc'']"

definition ParsePMConfig :: "time \<Rightarrow> string \<Rightarrow> string \<Rightarrow> goerror + PMConfig" where
  "ParsePMConfig now granularity reportEvery =
     (let bad = (\<lambda>raw msg. Inl (the (Wrap now (Some (StdErr (''time: invalid duration '' @ goQuote raw) None)) ErrCodeConfig msg
                    [WithOp ''pm'', WithSeverity ErrSeverityCritical])))
      in case parseDuration granularity of
           None \<Rightarrow> bad granularity ''pm granularity_period invalid''
         | Some g \<Rightarrow> (case parseDuration reportEvery of
             None \<Rightarrow> bad reportEvery ''pm report_period invalid''
           | Some r \<Rightarrow> Inr \<lparr>Granularity = g, ReportEvery = r\<rparr>))"

record Built =
  bServices :: "serviceSpec list"
  bAlarms :: "AlarmStore option"
  bRegistry :: "Registry option"
  bControl :: ControlPart
  bNetconfUp :: bool

definition alarmMOI :: "AgentSettings \<Rightarrow> string" where
  "alarmMOI cfg =
     (let (fn, fid) = (if elType (Element cfg) = ''gnb'' \<or> elType (Element cfg) = ''oai-gnb''
                       then (''GNBCUCPFunction'', stGNBFunctionID (nrmSettings cfg)) else (''ENBFunction'', stENBFunctionID (nrmSettings cfg)))
      in ''SubNetwork='' @ stSubNetwork (nrmSettings cfg) @ ''/ManagedElement='' @ stManagedElement (nrmSettings cfg) @ ''/'' @ fn @ ''='' @ fid)"

definition agentServices ::
    "AgentSettings \<Rightarrow> string \<Rightarrow> Config \<Rightarrow> serviceSpec list \<Rightarrow> ControlPart \<Rightarrow> serviceSpec list \<Rightarrow> serviceSpec list" where
  "agentServices cfg snapshotPath tca pm part nc =
     FaultSvc # (if cfgEnabled tca then [TCASvc tca] else []) @
     [AlarmLogReaderSvc (pathJoin (pathDir (elSocketPath (Element cfg))) (stManagedElement (nrmSettings cfg) @ ''_alarms.log'')) (alarmMOI cfg),
      MetricsReaderSvc (mtLogUDS (Metrics cfg)), RawFanoutSvc, NetconfSnapshotSvc snapshotPath (nrmConfig cfg),
      MetricsConsumerSvc (stManagedElement (nrmSettings cfg)), TelemetryCacheSvc] @ pm @ cpServices part @ nc"

definition buildAgent :: "BuildEnv \<Rightarrow> time \<Rightarrow> AgentSettings \<Rightarrow> string \<Rightarrow> fs \<Rightarrow> goerror + Built" where
  "buildAgent env now cfg snapshotPath s =
     (case NewPersistentStore (beCodec env) (if snapshotPath = [] then [] else pathJoin (pathDir snapshotPath) ''aal_state.json'') s of
        Inl e \<Rightarrow> Inl (wiringWrap now (errText e) ''failed to load active alarm list'')
      | Inr alarms \<Rightarrow>
          bindE (buildTCAConfig now (FM cfg)) (\<lambda>tca.
          bindE (NewRegistry now (nrmConfig cfg)) (\<lambda>reg.
          bindE (if pmOn (pmSettings cfg) \<or> cfgEnabled tca
                 then bindE (ParsePMConfig now (GranularityPeriod (pmSettings cfg)) (ReportPeriod (pmSettings cfg))) (\<lambda>pm. Inr [PMEngineSvc pm])
                 else Inr []) (\<lambda>pm.
          bindE (buildControl env now cfg snapshotPath (NewNotificationQueue DefaultNotificationQueueCapacity) s) (\<lambda>part.
          bindE (buildNetconf now cfg part) (\<lambda>nc.
            Inr \<lparr>bServices = agentServices cfg snapshotPath tca pm part nc,
                 bAlarms = Some alarms, bRegistry = Some reg, bControl = part, bNetconfUp = (\<not> ncEnabled (Netconf cfg))\<rparr>))))))"

definition BuildAgent :: "BuildEnv \<Rightarrow> time \<Rightarrow> AgentSettings \<Rightarrow> fs \<Rightarrow> goerror + Built" where
  "BuildAgent env now cfg s =
     (let typ = elType (Element cfg);
          snapshotPath = (if ncSnapshotPath (Netconf cfg) = [] then mtSnapshotPath (Metrics cfg) else ncSnapshotPath (Netconf cfg))
      in if \<not> supportedElement typ then Inl (StdErr ''unsupported element type'' None)
         else if typ = ''epc'' then Inr \<lparr>bServices = [MetricsReaderSvc True, RawMetricsSinkSvc snapshotPath], bAlarms = None, bRegistry = None,
           bControl = noControl, bNetconfUp = False\<rparr>
         else if (typ = ''gnb'' \<or> typ = ''oai-gnb'') \<and> ctlEnabled (ControlAPI cfg) then Inl (wiringErr now
           ''NR configuration write-back is not enabled: supply an srsRAN Project YAML configuration adapter before enabling control'')
         else buildAgent env now cfg snapshotPath s)"

section \<open>What a successful assembly has\<close>

lemma addTarget_ok:
  assumes "addTarget now t ta = Inr ta'" "trimSpace (tgContainer t) \<noteq> []"
  obtains serial delay where "serial \<noteq> []" "targetDelay now t = Inr delay"
    "taTargets ta' = AList.update serial (trimSpace (tgContainer t)) (taTargets ta)"
    "taPlans ta' = AList.update (trimSpace (tgContainer t))
       \<lparr>Primary = trimSpace (tgContainer t), Dependents = tgDependents t, DelayAfterStart = delay\<rparr> (taPlans ta)"
  using assms by (auto simp: addTarget_def Let_def split: if_splits prod.splits)

lemma addTarget_skip: "trimSpace (tgContainer t) = [] \<Longrightarrow> addTarget now t ta = Inr ta"
  by (simp add: addTarget_def)

text \<open>Every container of the targets has a plan, and a plan has its container as the primary.\<close>

definition plannedTargets :: "targetsAcc \<Rightarrow> bool" where
  "plannedTargets ta \<longleftrightarrow> snd ` set (taTargets ta) \<subseteq> fst ` set (taPlans ta) \<and> distinct (map fst (taPlans ta))
     \<and> (\<forall>x \<in> set (taPlans ta). fst x \<noteq> [] \<and> trimSpace (fst x) = fst x \<and> Primary (snd x) = fst x)
     \<and> [] \<notin> fst ` set (taTargets ta)"

lemma snd_update: "snd ` set (AList.update k v xs) \<subseteq> insert v (snd ` set xs)"
  using set_update_subset [of k v xs] by force

lemma fst_update: "fst ` set (AList.update k v xs) = insert k (fst ` set xs)"
  using keys_update [of k v xs] by simp

lemma addTarget_planned:
  assumes "addTarget now t ta = Inr ta'" "plannedTargets ta"
  shows "plannedTargets ta'"
proof (cases "trimSpace (tgContainer t) = []")
  case True
  then show ?thesis using assms by (simp add: addTarget_skip)
next
  case False
  define c where "c = trimSpace (tgContainer t)"
  from addTarget_ok [OF assms(1) False] obtain serial p where
    t: "serial \<noteq> []" "taTargets ta' = AList.update serial c (taTargets ta)" "taPlans ta' = AList.update c p (taPlans ta)" "Primary p = c"
    unfolding c_def by (metis RestartPlan.select_convs(1))
  have c: "c \<noteq> []" "trimSpace c = c" using False by (simp_all add: c_def trimSpace_idem)
  have "snd ` set (taTargets ta') \<subseteq> fst ` set (taPlans ta')" "[] \<notin> fst ` set (taTargets ta')"
    using assms(2) t(1) snd_update [of serial c "taTargets ta"] unfolding t plannedTargets_def fst_update by auto
  moreover have "distinct (map fst (taPlans ta'))" using assms(2) unfolding t plannedTargets_def by (simp add: distinct_update)
  moreover have "fst x \<noteq> [] \<and> trimSpace (fst x) = fst x \<and> Primary (snd x) = fst x" if "x \<in> set (taPlans ta')" for x
    using that set_update_subset [of c p "taPlans ta"] assms(2) c t(4) unfolding t(3) plannedTargets_def by auto
  ultimately show ?thesis by (simp add: plannedTargets_def)
qed

lemma addTargets_planned: "addTargets now ts ta = Inr ta' \<Longrightarrow> plannedTargets ta \<Longrightarrow> plannedTargets ta'"
  by (induction now ts ta rule: addTargets.induct) (auto dest: addTarget_planned)

text \<open>The supervisor keeps the plans it is given, with the blanks around names removed.\<close>

definition tidyPlan :: "RestartPlan \<Rightarrow> RestartPlan" where
  "tidyPlan p = p\<lparr>Dependents := filter (\<lambda>d. d \<noteq> []) (map trimSpace (Dependents p))\<rparr>"

lemma fold_put_plans:
  assumes "distinct (map fst plans)"
  shows "map_of (fold (\<lambda>x. AList.update (fst x) (f (snd x))) plans out) c
    = (case map_of plans c of Some p \<Rightarrow> Some (f p) | None \<Rightarrow> map_of out c)"
  using assms
proof (induction plans arbitrary: out)
  case (Cons x plans)
  then have "map_of plans (fst x) = None" by (simp add: map_of_eq_None_iff)
  then show ?case using Cons by (auto simp: update_conv' split: option.split)
qed simp

lemma SetPlans_lookup:
  assumes "\<forall>x \<in> set plans. fst x \<noteq> [] \<and> trimSpace (fst x) = fst x \<and> Primary (snd x) = fst x" "distinct (map fst plans)"
  shows "map_of (Plans (SetPlans plans docker)) c = map_option tidyPlan (map_of plans c)"
proof -
  define put where "put = (\<lambda>(k :: string, p :: RestartPlan) out. let target = trimSpace k in if target = [] then out
       else AList.update target \<lparr>Primary = (if trimSpace (Primary p) = [] then target else trimSpace (Primary p)),
          Dependents = filter (\<lambda>d. d \<noteq> []) (map trimSpace (Dependents p)), DelayAfterStart = DelayAfterStart p\<rparr> out)"
  have put: "put x out = AList.update (fst x) (tidyPlan (snd x)) out" if "x \<in> set plans" for x out
    using assms(1) that by (cases "snd x"; cases x) (auto simp: put_def tidyPlan_def Let_def)
  have "Plans (SetPlans plans docker) = fold put plans []" by (simp add: SetPlans_def put_def)
  also have "\<dots> = fold (\<lambda>x. AList.update (fst x) (tidyPlan (snd x))) plans []"
    by (rule fold_cong) (simp_all add: put fun_eq_iff)
  finally show ?thesis using fold_put_plans [OF assms(2), of tidyPlan "[]" c] by (simp split: option.splits)
qed

text \<open>Where no other target names its container, the plan of a target is the one of its settings.\<close>

definition containers :: "ControlRestartTarget list \<Rightarrow> string list" where
  "containers ts = filter (\<lambda>c. c \<noteq> []) (map (\<lambda>t. trimSpace (tgContainer t)) ts)"

lemma addTargets_other:
  "addTargets now ts ta = Inr ta' \<Longrightarrow> c \<notin> set (containers ts) \<Longrightarrow> c \<noteq> [] \<Longrightarrow> map_of (taPlans ta') c = map_of (taPlans ta) c"
proof (induction now ts ta rule: addTargets.induct)
  case (2 now t ts ta)
  then obtain ta1 where ta1: "addTarget now t ta = Inr ta1" "addTargets now ts ta1 = Inr ta'" by auto
  have "map_of (taPlans ta1) c = map_of (taPlans ta) c"
  proof (cases "trimSpace (tgContainer t) = []")
    case False
    moreover from this have "trimSpace (tgContainer t) \<noteq> c" using 2(3) by (auto simp: containers_def)
    ultimately show ?thesis using addTarget_ok [OF ta1(1)] by (metis update_conv' fun_upd_other)
  qed (use ta1(1) in \<open>simp add: addTarget_skip\<close>)
  then show ?case using 2 ta1 by (simp add: containers_def split: if_splits)
qed simp

lemma addTargets_plan:
  assumes "addTargets now ts ta = Inr ta'" "t \<in> set ts" "trimSpace (tgContainer t) \<noteq> []"
    and "distinct (containers ts)"
  shows "\<exists>d. targetDelay now t = Inr d \<and> map_of (taPlans ta') (trimSpace (tgContainer t))
    = Some \<lparr>Primary = trimSpace (tgContainer t), Dependents = tgDependents t, DelayAfterStart = d\<rparr>"
  using assms
proof (induction now ts ta rule: addTargets.induct)
  case (2 now x ts ta)
  then obtain ta1 where ta1: "addTarget now x ta = Inr ta1" "addTargets now ts ta1 = Inr ta'" by auto
  show ?case
  proof (cases "t = x")
    case True
    have "trimSpace (tgContainer t) \<notin> set (containers ts)" using 2(4,5) True by (simp add: containers_def)
    from addTargets_other [OF ta1(2) this 2(4)] addTarget_ok [OF ta1(1)] 2(4) True show ?thesis by (metis update_conv' fun_upd_same)
  next
    case False
    then show ?thesis using 2 ta1 by (auto simp: containers_def split: if_splits)
  qed
qed simp

lemma copyTargets_sub: "snd ` set (copyTargets ts) \<subseteq> trimSpace ` snd ` set ts"
proof -
  define put where "put = (\<lambda>(k, v) out. if trimSpace k = [] \<or> trimSpace v = [] then out else AList.update (trimSpace k) (trimSpace v) out)"
  have put: "snd ` set (put x out) \<subseteq> insert (trimSpace (snd x)) (snd ` set out)" for x out
    by (cases x) (simp add: put_def snd_update subset_insertI)
  have "snd ` set (fold put ts out) \<subseteq> snd ` set out \<union> trimSpace ` snd ` set ts" for out
  proof (induction ts arbitrary: out)
    case (Cons x ts)
    have "snd ` set (fold put (x # ts) out) \<subseteq> snd ` set (put x out) \<union> trimSpace ` snd ` set ts" using Cons by simp
    also have "\<dots> \<subseteq> snd ` set out \<union> trimSpace ` snd ` set (x # ts)"
      using put [of x out] unfolding list.set image_insert by blast
    finally show ?case .
  qed simp
  from this [of "[]"] show ?thesis by (simp add: copyTargets_def put_def)
qed

lemma buildControl_ok:
  assumes "buildControl env now cfg snapshotPath queue s = Inr part" "cpControl part = Some c"
  obtains ta timeout where "ctlEnabled (ControlAPI cfg)"
    "addTargets now (ctTargets (ctlRestart (ControlAPI cfg))) \<lparr>taTargets = [], taPlans = [], taStore = None, taFS = s\<rparr> = Inr ta"
    "cpSupervisor part = Some (SetPlans (taPlans ta) (NewDockerLifecycleSupervisor (DockerSocket (ctlRestart (ControlAPI cfg))) timeout))"
    "Targets c = copyTargets (taTargets ta)" "cManager c \<noteq> None \<longrightarrow> NetconfSessionGCSvc \<in> set (cpServices part)"
  using assms
  by (auto simp: buildControl_def Let_def noControl_def NewConfigControl_def split: if_splits option.splits)

lemma buildTCAConfig_on: "buildTCAConfig now inp = Inr tca \<Longrightarrow> cfgEnabled tca = tcaOn inp"
  by (auto simp: buildTCAConfig_def NormalizeConfig_def DemoSafeConfig_def split: if_splits)

lemma buildAgent_parts:
  assumes "buildAgent env now cfg snapshotPath s = Inr b"
  obtains tca reg pm part nc where
    "buildTCAConfig now (FM cfg) = Inr tca" "NewRegistry now (nrmConfig cfg) = Inr reg"
    "(if pmOn (pmSettings cfg) \<or> cfgEnabled tca
      then bindE (ParsePMConfig now (GranularityPeriod (pmSettings cfg)) (ReportPeriod (pmSettings cfg))) (\<lambda>pm. Inr [PMEngineSvc pm])
      else Inr []) = Inr pm"
    "buildControl env now cfg snapshotPath (NewNotificationQueue DefaultNotificationQueueCapacity) s = Inr part"
    "buildNetconf now cfg part = Inr nc"
    "bServices b = agentServices cfg snapshotPath tca pm part nc" "bRegistry b = Some reg" "bControl b = part"
proof (cases "NewPersistentStore (beCodec env) (if snapshotPath = [] then [] else pathJoin (pathDir snapshotPath) ''aal_state.json'') s")
  case (Inl e)
  then show ?thesis using assms by (simp add: buildAgent_def)
next
  case (Inr alarms)
  from assms show ?thesis unfolding buildAgent_def Inr sum.case bindE_Inr_iff Inr_inject
    by (elim exE conjE) (rule that, assumption+, auto)
qed

lemma control_services: "buildControl env now cfg p q s = Inr part \<Longrightarrow> TCASvc x \<notin> set (cpServices part)"
  by (auto simp: buildControl_def Let_def noControl_def split: if_splits option.splits)

lemma netconf_services: "buildNetconf now cfg part = Inr nc \<Longrightarrow> TCASvc x \<notin> set nc"
  by (auto simp: buildNetconf_def Let_def split: if_splits)

text \<open>The plans of the containers that the control interface may restart.\<close>

lemma control_plans:
  assumes "buildControl env now cfg snapshotPath queue s = Inr part" "cpControl part = Some c"
  shows "\<exists>docker. cpSupervisor part = Some docker
    \<and> (\<forall>container \<in> snd ` set (Targets c). map_of (Plans docker) container \<noteq> None \<and> Primary (planForTarget docker container) = container)
    \<and> (distinct (containers (ctTargets (ctlRestart (ControlAPI cfg)))) \<longrightarrow>
        (\<forall>t \<in> set (ctTargets (ctlRestart (ControlAPI cfg))). trimSpace (tgContainer t) \<noteq> [] \<longrightarrow>
          (\<exists>d. targetDelay now t = Inr d \<and> planForTarget docker (trimSpace (tgContainer t))
             = \<lparr>Primary = trimSpace (tgContainer t), Dependents = filter (\<lambda>x. x \<noteq> []) (map trimSpace (tgDependents t)), DelayAfterStart = d\<rparr>)))"
proof -
  let ?rst = "ctlRestart (ControlAPI cfg)" and ?ta0 = "\<lparr>taTargets = [], taPlans = [], taStore = None, taFS = s\<rparr>"
  from buildControl_ok [OF assms] obtain ta timeout where
    ta: "addTargets now (ctTargets ?rst) ?ta0 = Inr ta"
    "cpSupervisor part = Some (SetPlans (taPlans ta) (NewDockerLifecycleSupervisor (DockerSocket ?rst) timeout))"
    "Targets c = copyTargets (taTargets ta)" by metis
  let ?docker = "SetPlans (taPlans ta) (NewDockerLifecycleSupervisor (DockerSocket ?rst) timeout)"
  have "plannedTargets ta" by (rule addTargets_planned [OF ta(1)]) (simp add: plannedTargets_def)
  then have ok: "snd ` set (taTargets ta) \<subseteq> fst ` set (taPlans ta)" "distinct (map fst (taPlans ta))"
    "\<forall>x \<in> set (taPlans ta). fst x \<noteq> [] \<and> trimSpace (fst x) = fst x \<and> Primary (snd x) = fst x"
    by (simp_all add: plannedTargets_def)
  note look = SetPlans_lookup [OF ok(3,2)]
  have "map_of (Plans ?docker) x \<noteq> None \<and> Primary (planForTarget ?docker x) = x" if "x \<in> snd ` set (Targets c)" for x
  proof -
    have "x \<in> trimSpace ` (snd ` set (taTargets ta))" using that unfolding ta(3) by (rule subsetD [OF copyTargets_sub])
    then obtain y where y: "x = trimSpace y" "y \<in> snd ` set (taTargets ta)" by (rule imageE)
    from subsetD [OF ok(1) y(2)] obtain p where p: "(y, p) \<in> set (taPlans ta)" by (auto simp: image_iff)
    then have "x = y" "x \<noteq> []" "Primary p = x"
      using bspec [OF ok(3) p] y(1) by simp_all
    moreover from this have "map_of (taPlans ta) x = Some p" using p ok(2) by simp
    ultimately have "x \<noteq> []" "Primary p = x" "map_of (taPlans ta) x = Some p" by simp_all
    then show ?thesis using look [of "NewDockerLifecycleSupervisor (DockerSocket ?rst) timeout" x] by (simp add: planForTarget_def tidyPlan_def)
  qed
  moreover have "\<exists>d. targetDelay now t = Inr d \<and> planForTarget ?docker (trimSpace (tgContainer t))
      = \<lparr>Primary = trimSpace (tgContainer t), Dependents = filter (\<lambda>x. x \<noteq> []) (map trimSpace (tgDependents t)), DelayAfterStart = d\<rparr>"
    if h: "distinct (containers (ctTargets ?rst))" "t \<in> set (ctTargets ?rst)" "trimSpace (tgContainer t) \<noteq> []" for t
  proof -
    obtain d where "targetDelay now t = Inr d" "map_of (taPlans ta) (trimSpace (tgContainer t))
        = Some \<lparr>Primary = trimSpace (tgContainer t), Dependents = tgDependents t, DelayAfterStart = d\<rparr>"
      using addTargets_plan [OF ta(1) h(2,3,1)] by blast
    then show ?thesis using look [of "NewDockerLifecycleSupervisor (DockerSocket ?rst) timeout" "trimSpace (tgContainer t)"] h(3)
      by (simp add: planForTarget_def tidyPlan_def)
  qed
  ultimately show ?thesis using ta(2) by simp
qed

section \<open>Properties\<close>

text \<open>C38: An agent that is assembled is consistent. Wherever threshold alerts are evaluated, the engine
  whose reports they read is started; the registry of objects exists for every radio element. The
  control interface exists only for an LTE element; every container it may restart has a plan that
  starts with that container, and when no two settings name one container the plan has the
  dependents and the delay of its settings; and a configuration manager comes with the collector of
  its dead sessions.\<close>

theorem assembled_agent_is_consistent:
  assumes "BuildAgent env now cfg s = Inr b"
  shows "((\<exists>tca. TCASvc tca \<in> set (bServices b)) \<longrightarrow> (\<exists>pm. PMEngineSvc pm \<in> set (bServices b)))
    \<and> (elType (Element cfg) \<noteq> ''epc'' \<longrightarrow> (\<exists>reg. bRegistry b = Some reg \<and> NewRegistry now (nrmConfig cfg) = Inr reg))
    \<and> (\<forall>c. cpControl (bControl b) = Some c \<longrightarrow>
        \<not> isNRGNB (elType (Element cfg)) \<and> (cManager c \<noteq> None \<longrightarrow> NetconfSessionGCSvc \<in> set (bServices b))
        \<and> (\<exists>docker. cpSupervisor (bControl b) = Some docker
          \<and> (\<forall>container \<in> snd ` set (Targets c). map_of (Plans docker) container \<noteq> None \<and> Primary (planForTarget docker container) = container)
          \<and> (distinct (containers (ctTargets (ctlRestart (ControlAPI cfg)))) \<longrightarrow>
              (\<forall>t \<in> set (ctTargets (ctlRestart (ControlAPI cfg))). trimSpace (tgContainer t) \<noteq> [] \<longrightarrow>
                (\<exists>d. targetDelay now t = Inr d \<and> planForTarget docker (trimSpace (tgContainer t))
                   = \<lparr>Primary = trimSpace (tgContainer t), Dependents = filter (\<lambda>x. x \<noteq> []) (map trimSpace (tgDependents t)),
                      DelayAfterStart = d\<rparr>)))))"
proof (cases "elType (Element cfg) = ''epc''")
  case True
  then show ?thesis using assms by (auto simp: BuildAgent_def supportedElement_def noControl_def Let_def)
next
  case False
  then obtain snapshotPath where b: "buildAgent env now cfg snapshotPath s = Inr b"
    and lte: "ctlEnabled (ControlAPI cfg) \<longrightarrow> \<not> isNRGNB (elType (Element cfg))"
    using assms by (auto simp: BuildAgent_def Let_def isNRGNB_def split: if_splits)
  from b obtain tca reg pm part nc where
    parts: "NewRegistry now (nrmConfig cfg) = Inr reg"
      "(if pmOn (pmSettings cfg) \<or> cfgEnabled tca
        then bindE (ParsePMConfig now (GranularityPeriod (pmSettings cfg)) (ReportPeriod (pmSettings cfg))) (\<lambda>pm. Inr [PMEngineSvc pm])
        else Inr []) = Inr pm"
      "buildControl env now cfg snapshotPath (NewNotificationQueue DefaultNotificationQueueCapacity) s = Inr part"
      "buildNetconf now cfg part = Inr nc"
    and bb: "bServices b = agentServices cfg snapshotPath tca pm part nc" "bRegistry b = Some reg" "bControl b = part"
    by (rule buildAgent_parts)
  have alerts: "\<exists>c. PMEngineSvc c \<in> set (bServices b)" if "TCASvc x \<in> set (bServices b)" for x
    using that parts(2) bb(1) parts(3,4) by (auto simp: agentServices_def dest: control_services netconf_services split: if_splits)
  have control: "\<not> isNRGNB (elType (Element cfg)) \<and> (cManager c \<noteq> None \<longrightarrow> NetconfSessionGCSvc \<in> set (bServices b))"
    if "cpControl part = Some c" for c
    using buildControl_ok [OF parts(3) that] lte bb(1) by (auto simp: agentServices_def)
  show ?thesis
  proof (intro conjI allI impI)
    fix c assume "cpControl (bControl b) = Some c"
    then have c: "cpControl part = Some c" using bb(3) by simp
    from control_plans [OF parts(3) c] show "\<exists>docker. cpSupervisor (bControl b) = Some docker
          \<and> (\<forall>container \<in> snd ` set (Targets c). map_of (Plans docker) container \<noteq> None \<and> Primary (planForTarget docker container) = container)
          \<and> (distinct (containers (ctTargets (ctlRestart (ControlAPI cfg)))) \<longrightarrow>
              (\<forall>t \<in> set (ctTargets (ctlRestart (ControlAPI cfg))). trimSpace (tgContainer t) \<noteq> [] \<longrightarrow>
                (\<exists>d. targetDelay now t = Inr d \<and> planForTarget docker (trimSpace (tgContainer t))
                   = \<lparr>Primary = trimSpace (tgContainer t), Dependents = filter (\<lambda>x. x \<noteq> []) (map trimSpace (tgDependents t)),
                      DelayAfterStart = d\<rparr>)))" using bb(3) by simp
  qed (use alerts control bb parts(1) in auto)
qed

definition labTarget :: ControlRestartTarget where
  "labTarget = \<lparr>tgSerial = ''enb-1'', tgContainer = ''srsenb'', tgENBConfigPath = [], tgRRConfigPath = [], tgSIBConfigPath = [],
     tgRBConfigPath = [], tgDependents = [''ue'', []], tgDelayAfterStart = ''2s''\<rparr>"

definition labSettings :: AgentSettings where
  "labSettings = Default\<lparr>FM := \<lparr>tcaOn = True, TestInjectionEnabled = False, tcaRules = zeroTCARules\<rparr>,
     ControlAPI := (ControlAPI Default)\<lparr>ctlEnabled := True, ctlRestart := \<lparr>DockerSocket = ''/d'', ctTimeout = ''20s'', ctTargets = [labTarget]\<rparr>\<rparr>\<rparr>"

definition labEnv :: BuildEnv where
  "labEnv = \<lparr>beCodec = oneRecordCodec, beYangValidate = (\<lambda>_ _. Inr ()), beYangLeaves = (\<lambda>_ _. Inr []), beMarshal = (\<lambda>_. Inr []),
     beRestart = (\<lambda>_ _. Inr ())\<rparr>"

lemma lab_durations: "parseDuration ''20s'' = Some 20000000000" "parseDuration ''2s'' = Some 2000000000" "parseDuration ''10s'' = Some 10000000000"
  by code_simp+

lemma lab_texts: "trimSpace ''enb-1'' = ''enb-1''" "trimSpace ''srsenb'' = ''srsenb''" "trimSpace ''2s'' = ''2s''" "trimSpace ''ue'' = ''ue''"
  "trimSpace ''0.0.0.0:18080'' = ''0.0.0.0:18080''"
  by (simp_all add: trimSpace_printable printable_def)

lemma lab_control:
  "\<exists>part c. buildControl labEnv 0 labSettings p q s = Inr part \<and> cpControl part = Some c"
  by (simp add: buildControl_def labSettings_def Default_def lab_durations addTarget_def labTarget_def targetSerial_def targetStore_def
      targetDelay_def lab_texts Let_def)

lemma lab_rules: "buildTCAConfig 0 (FM labSettings) = Inr (NormalizeConfig \<lparr>cfgEnabled = True, Rules = []\<rparr>)"
  by (simp add: buildTCAConfig_def labSettings_def tcaRuleTable_def zeroTCARules_def zeroTCARule_def isTCARuleConfigured_def
      firstConfiguredRule_def f64_eq_def)

lemma lab_agent:
  "\<exists>b c. BuildAgent labEnv 0 labSettings emptyDisk = Inr b \<and> TCASvc (NormalizeConfig \<lparr>cfgEnabled = True, Rules = []\<rparr>) \<in> set (bServices b)
     \<and> cpControl (bControl b) = Some c"
proof -
  let ?tca = "NormalizeConfig \<lparr>cfgEnabled = True, Rules = []\<rparr>" and ?q = "NewNotificationQueue DefaultNotificationQueueCapacity"
  obtain part c where part: "buildControl labEnv 0 labSettings [] ?q emptyDisk = Inr part" "cpControl part = Some c"
    using lab_control by blast
  have set: "ncSnapshotPath (Netconf labSettings) = []" "mtSnapshotPath (Metrics labSettings) = []" "elType (Element labSettings) = ''enb''"
    "GranularityPeriod (pmSettings labSettings) = ''10s''" "ReportPeriod (pmSettings labSettings) = ''10s''" "\<not> ncEnabled (Netconf labSettings)"
    by (simp_all add: labSettings_def Default_def)
  obtain reg where reg: "NewRegistry 0 (nrmConfig labSettings) = Inr reg"
    by (simp add: NewRegistry_def nrmConfig_def labSettings_def Default_def)
  have tca: "cfgEnabled ?tca" by (simp add: NormalizeConfig_def DemoSafeConfig_def)
  have "BuildAgent labEnv 0 labSettings emptyDisk = buildAgent labEnv 0 labSettings [] emptyDisk"
    by (simp add: BuildAgent_def set supportedElement_def)
  also have "\<dots> = Inr \<lparr>bServices = agentServices labSettings [] ?tca [PMEngineSvc \<lparr>Granularity = 10000000000, ReportEvery = 10000000000\<rparr>] part [],
      bAlarms = Some (AlarmStore.NewStore emptyDisk), bRegistry = Some reg, bControl = part, bNetconfUp = True\<rparr>"
    by (simp add: buildAgent_def NewPersistentStore_def lab_rules reg tca part set ParsePMConfig_def lab_durations buildNetconf_def)
  finally show ?thesis using part tca by (simp add: agentServices_def)
qed

theorem assembled_agent_is_consistent_witness:
  "\<exists>b c docker. BuildAgent labEnv 0 labSettings emptyDisk = Inr b \<and> (\<exists>pm. PMEngineSvc pm \<in> set (bServices b))
    \<and> cpControl (bControl b) = Some c \<and> cpSupervisor (bControl b) = Some docker
    \<and> planForTarget docker ''srsenb'' = \<lparr>Primary = ''srsenb'', Dependents = [''ue''], DelayAfterStart = 2000000000\<rparr>"
proof -
  obtain b c where b: "BuildAgent labEnv 0 labSettings emptyDisk = Inr b" "\<exists>tca. TCASvc tca \<in> set (bServices b)" "cpControl (bControl b) = Some c"
    using lab_agent by blast
  have ts: "ctTargets (ctlRestart (ControlAPI labSettings)) = [labTarget]" by (simp add: labSettings_def)
  have t: "trimSpace (tgContainer labTarget) = ''srsenb''" "map trimSpace (tgDependents labTarget) = [''ue'', []]"
    "targetDelay 0 labTarget = Inr 2000000000" "distinct (containers [labTarget])"
    by (simp_all add: labTarget_def lab_texts targetDelay_def lab_durations containers_def)
  note ok = assembled_agent_is_consistent [OF b(1), unfolded ts]
  have "\<exists>pm. PMEngineSvc pm \<in> set (bServices b)" using ok b(2) by (elim conjE) blast
  moreover obtain docker where "cpSupervisor (bControl b) = Some docker"
    "\<forall>x \<in> set [labTarget]. trimSpace (tgContainer x) \<noteq> [] \<longrightarrow> (\<exists>d. targetDelay 0 x = Inr d \<and> planForTarget docker (trimSpace (tgContainer x))
      = \<lparr>Primary = trimSpace (tgContainer x), Dependents = filter (\<lambda>x. x \<noteq> []) (map trimSpace (tgDependents x)), DelayAfterStart = d\<rparr>)"
    using ok b(3) t(4) by (elim conjE) blast
  moreover from this(2) have "planForTarget docker ''srsenb'' = \<lparr>Primary = ''srsenb'', Dependents = [''ue''], DelayAfterStart = 2000000000\<rparr>"
    by (simp add: t)
  ultimately show ?thesis using b(1,3) by blast
qed

end
