(* ===== verification/Channels.thy ===== *)
theory Channels
  imports Main
begin

text \<open>
  Go's buffered channels as the element manager uses them: a send inside a \<^verbatim>\<open>select\<close> with a
  default branch never blocks but gives up when the buffer is full, a plain send waits for room,
  and either panics on a closed channel; a receive takes the oldest message, also from a closed
  channel that still holds some.
\<close>

record 'a chan =
  capacity :: nat
  buf :: "'a list"
  closed :: bool

definition makeChan :: "nat \<Rightarrow> 'a chan" where
  "makeChan n = \<lparr>capacity = n, buf = [], closed = False\<rparr>"

datatype sendResult = Sent | Full | Panic

definition trySend :: "'a \<Rightarrow> 'a chan \<Rightarrow> sendResult \<times> 'a chan" where
  "trySend x c =
     (if closed c then (Panic, c)
      else if length (buf c) < capacity c then (Sent, c\<lparr>buf := buf c @ [x]\<rparr>)
      else (Full, c))"

definition recv :: "'a chan \<Rightarrow> ('a \<times> 'a chan) option" where
  "recv c = (case buf c of [] \<Rightarrow> None | x # xs \<Rightarrow> Some (x, c\<lparr>buf := xs\<rparr>))"

definition closeChan :: "'a chan \<Rightarrow> 'a chan" where
  "closeChan c = c\<lparr>closed := True\<rparr>"

text \<open>A channel never holds more than its capacity.\<close>

definition chanOK :: "'a chan \<Rightarrow> bool" where
  "chanOK c \<longleftrightarrow> length (buf c) \<le> capacity c"

lemma chanOK_ops [simp]:
  "chanOK (makeChan n)" "chanOK (closeChan c) = chanOK c"
  by (simp_all add: chanOK_def makeChan_def closeChan_def)

lemma makeChan_simps [simp]: "buf (makeChan n) = []" "\<not> closed (makeChan n)" "capacity (makeChan n) = n"
  by (simp_all add: makeChan_def)

lemma closeChan_simps [simp]: "buf (closeChan c) = buf c" "closed (closeChan c)" "capacity (closeChan c) = capacity c"
  by (simp_all add: closeChan_def)

lemma trySend_cases:
  assumes "trySend x c = (r, c')"
  shows "r = Sent \<and> c' = c\<lparr>buf := buf c @ [x]\<rparr> \<and> \<not> closed c \<and> length (buf c) < capacity c
    \<or> r = Full \<and> c' = c \<and> \<not> closed c \<and> capacity c \<le> length (buf c) \<or> r = Panic \<and> c' = c \<and> closed c"
  using assms by (auto simp: trySend_def split: if_splits)

lemma trySend_OK: "trySend x c = (r, c') \<Longrightarrow> chanOK c \<Longrightarrow> chanOK c'"
  by (drule trySend_cases) (auto simp: chanOK_def)

lemma recv_Some: "recv c = Some (x, c') \<longleftrightarrow> buf c = x # buf c' \<and> c' = c\<lparr>buf := buf c'\<rparr>"
  by (cases "buf c") (auto simp: recv_def)

end
