(* ===== verification/Health.thy ===== *)
theory Health
  imports EmsErrors Traces Channels "HOL-Library.AList" "HOL-Library.Multiset"
begin

text \<open>
  The health tracker (\<^verbatim>\<open>internal/ems/health/health.go\<close>): the status of the components, the state
  derived from it, and the events sent to the subscribers.

  The tracker holds its mutex while it records a status, takes the list of the subscribers and
  derives the state, but it sends the events after it has released it. The state therefore carries
  the broadcasts under way, each a list of events and the channels they still go to, and the
  replays under way of \<^verbatim>\<open>Subscribe\<close>, which sends the current status to a new channel after
  the channel is already subscribed.
\<close>

section \<open>State\<close>

definition StateUnknown :: string where "StateUnknown = ''unknown''"
definition StateHealthy :: string where "StateHealthy = ''healthy''"
definition StateDegraded :: string where "StateDegraded = ''degraded''"
definition StateCritical :: string where "StateCritical = ''critical''"

definition ComponentUDS :: string where "ComponentUDS = ''uds''"
definition ComponentNetconf :: string where "ComponentNetconf = ''netconf''"

datatype EventType = EventComponentUp | EventComponentDown | EventStateChange

record ComponentStatus =
  csUp :: bool
  csAt :: time
  csLastErr :: "goerror option"

record HealthEvent =
  heType :: EventType
  heAt :: time
  heComponent :: string
  heUp :: bool
  heErr :: "goerror option"
  heState :: string
  hePrevState :: string

record Tracker =
  components :: "(string \<times> ComponentStatus) list"
  hstate :: string
  hsubs :: "nat list"
  hchans :: "nat \<Rightarrow> HealthEvent chan"
  hnext :: nat
  broadcasts :: "(HealthEvent \<times> nat) list list"
  replays :: "(nat \<times> HealthEvent list) list"

definition NewTracker :: Tracker where
  "NewTracker = \<lparr>components = [], hstate = StateUnknown, hsubs = [], hchans = (\<lambda>_. makeChan 0), hnext = 0,
     broadcasts = [], replays = []\<rparr>"

definition derive :: "(string \<times> ComponentStatus) list \<Rightarrow> string" where
  "derive m =
     (let udsDown = (case map_of m ComponentUDS of Some st \<Rightarrow> \<not> csUp st | None \<Rightarrow> False);
          ncDown = (case map_of m ComponentNetconf of Some st \<Rightarrow> \<not> csUp st | None \<Rightarrow> False)
      in if udsDown \<and> ncDown then StateCritical
         else if udsDown \<or> ncDown then StateDegraded
         else if map_of m ComponentUDS \<noteq> None \<or> map_of m ComponentNetconf \<noteq> None then StateHealthy
         else StateUnknown)"

section \<open>Operations\<close>

definition componentChanged :: "ComponentStatus option \<Rightarrow> ComponentStatus \<Rightarrow> bool" where
  "componentChanged prev s = (case prev of None \<Rightarrow> True
     | Some p \<Rightarrow> csUp p \<noteq> csUp s \<or> (csLastErr p = None) \<noteq> (csLastErr s = None)
         \<or> (case (csLastErr p, csLastErr s) of (Some e, Some e') \<Rightarrow> errorText e \<noteq> errorText e' | _ \<Rightarrow> False))"

definition typeOf :: "bool \<Rightarrow> EventType" where
  "typeOf up = (if up then EventComponentUp else EventComponentDown)"

text \<open>The critical section of \<^verbatim>\<open>set\<close> and the events it goes on to send.\<close>

definition setStatus :: "string \<Rightarrow> ComponentStatus \<Rightarrow> Tracker \<Rightarrow> HealthEvent list \<times> Tracker" where
  "setStatus c s t =
     (let prev = map_of (components t) c;
          comps = AList.update c s (components t);
          prevState = hstate t;
          nxt = derive comps
      in ((if componentChanged prev s
           then [\<lparr>heType = typeOf (csUp s), heAt = csAt s, heComponent = c, heUp = csUp s, heErr = csLastErr s,
                  heState = nxt, hePrevState = prevState\<rparr>] else [])
          @ (if nxt \<noteq> prevState
             then [\<lparr>heType = EventStateChange, heAt = csAt s, heComponent = [], heUp = False, heErr = None,
                    heState = nxt, hePrevState = prevState\<rparr>] else []),
          t\<lparr>components := comps, hstate := nxt\<rparr>))"

definition upStatus :: "time \<Rightarrow> ComponentStatus" where
  "upStatus now = \<lparr>csUp = True, csAt = now, csLastErr = None\<rparr>"

definition downStatus :: "time \<Rightarrow> goerror option \<Rightarrow> ComponentStatus" where
  "downStatus now err = \<lparr>csUp = False, csAt = now, csLastErr = err\<rparr>"

text \<open>One send of \<^verbatim>\<open>broadcast\<close>.\<close>

definition sendEvent :: "HealthEvent \<Rightarrow> nat \<Rightarrow> Tracker \<Rightarrow> sendResult \<times> Tracker" where
  "sendEvent ev c t = (case trySend ev (hchans t c) of (r, ch) \<Rightarrow> (r, t\<lparr>hchans := (hchans t)(c := ch)\<rparr>))"

definition statusEvent :: "string \<Rightarrow> string \<times> ComponentStatus \<Rightarrow> HealthEvent" where
  "statusEvent state = (\<lambda>(c, st). \<lparr>heType = typeOf (csUp st), heAt = csAt st, heComponent = c, heUp = csUp st,
     heErr = csLastErr st, heState = state, hePrevState = state\<rparr>)"

text \<open>The critical section of \<^verbatim>\<open>Subscribe\<close> and the events it goes on to send.\<close>

definition SubscribeHealth :: "Tracker \<Rightarrow> (nat \<times> HealthEvent list) \<times> Tracker" where
  "SubscribeHealth t =
     ((hnext t, map (statusEvent (hstate t)) (components t)),
      t\<lparr>hchans := (hchans t)(hnext t := makeChan (length (components t) + 16)), hsubs := hsubs t @ [hnext t],
        hnext := Suc (hnext t)\<rparr>)"

definition unsubscribeHealth :: "nat \<Rightarrow> Tracker \<Rightarrow> Tracker" where
  "unsubscribeHealth c t = t\<lparr>hsubs := remove1 c (hsubs t), hchans := (hchans t)(c := closeChan (hchans t c))\<rparr>"

definition TrackerState :: "Tracker \<Rightarrow> string" where
  "TrackerState t = hstate t"

definition TrackerComponent :: "Tracker \<Rightarrow> string \<Rightarrow> ComponentStatus option" where
  "TrackerComponent t c = map_of (components t) c"

section \<open>Interleavings\<close>

datatype healthLabel = HSet string | HOffered sendResult nat HealthEvent | HSubscribed nat | HCancelled nat
  | HReceived nat HealthEvent

inductive healthStep :: "Tracker \<Rightarrow> healthLabel \<Rightarrow> Tracker \<Rightarrow> bool" where
  set: "setStatus c s t = (evs, t') \<Longrightarrow> mset order = mset (hsubs t) \<Longrightarrow>
    healthStep t (HSet c) (t'\<lparr>broadcasts := broadcasts t' @ [List.product evs order]\<rparr>)"
| send: "i < length (broadcasts t) \<Longrightarrow> broadcasts t ! i = (ev, c) # rest \<Longrightarrow> sendEvent ev c t = (r, t') \<Longrightarrow>
    healthStep t (HOffered r c ev) (t'\<lparr>broadcasts := (broadcasts t')[i := rest]\<rparr>)"
| subscribe: "SubscribeHealth t = ((c, evs), t') \<Longrightarrow> healthStep t (HSubscribed c) (t'\<lparr>replays := replays t' @ [(c, evs)]\<rparr>)"
| resend: "i < length (replays t) \<Longrightarrow> replays t ! i = (c, ev # rest) \<Longrightarrow> sendEvent ev c t = (r, t') \<Longrightarrow> r \<noteq> Full \<Longrightarrow>
    healthStep t (HOffered r c ev) (t'\<lparr>replays := (replays t')[i := (c, rest)]\<rparr>)"
| cancel: "c \<in> set (hsubs t) \<Longrightarrow> (c, []) \<in> set (replays t) \<Longrightarrow> healthStep t (HCancelled c) (unsubscribeHealth c t)"
| receive: "recv (hchans t c) = Some (ev, ch) \<Longrightarrow> healthStep t (HReceived c ev) (t\<lparr>hchans := (hchans t)(c := ch)\<rparr>)"

inductive_cases healthStepE: "healthStep t l t'"

section \<open>Laws\<close>

definition trackerOK :: "Tracker \<Rightarrow> bool" where
  "trackerOK t \<longleftrightarrow> hstate t = derive (components t) \<and> (\<forall>c. chanOK (hchans t c))"

lemma setStatus_state [simp]:
  "components (snd (setStatus c s t)) = AList.update c s (components t)"
  "hstate (snd (setStatus c s t)) = derive (AList.update c s (components t))"
  "hchans (snd (setStatus c s t)) = hchans t" "hsubs (snd (setStatus c s t)) = hsubs t"
  "broadcasts (snd (setStatus c s t)) = broadcasts t" "replays (snd (setStatus c s t)) = replays t"
  by (simp_all add: setStatus_def Let_def)

lemma setStatus_eq:
  "setStatus c s t = (evs, t') \<Longrightarrow>
     t' = t\<lparr>components := AList.update c s (components t), hstate := derive (AList.update c s (components t))\<rparr>"
  by (auto simp: setStatus_def Let_def)

lemma sendEvent_OK: "trackerOK t \<Longrightarrow> sendEvent ev c t = (r, t') \<Longrightarrow> trackerOK t'"
  using trySend_OK [of ev "hchans t c"] by (auto simp: trackerOK_def sendEvent_def split: prod.splits)

lemma trackerOK_pending [simp]:
  "trackerOK (t\<lparr>broadcasts := bs\<rparr>) = trackerOK t" "trackerOK (t\<lparr>replays := rs\<rparr>) = trackerOK t"
  by (simp_all add: trackerOK_def)

lemma product_Nil [simp]: "List.product xs [] = []"
  by (induction xs) auto

lemma trackerOK_new: "trackerOK NewTracker"
  by (simp add: trackerOK_def NewTracker_def derive_def Let_def)

lemma healthStep_OK:
  assumes ok: "trackerOK t" and "healthStep t l t'"
  shows "trackerOK t'"
  using assms(2)
proof cases
  case (set c s evs t1 order)
  then show ?thesis using ok setStatus_state [of c s t] by (auto simp: trackerOK_def)
next
  case (subscribe c evs t1)
  then show ?thesis using ok by (auto simp: trackerOK_def SubscribeHealth_def)
next
  case (receive c ev ch)
  then have "buf (hchans t c) = ev # buf ch" "capacity ch = capacity (hchans t c)"
    by (auto simp: recv_def split: list.splits)
  moreover have "chanOK (hchans t c)" using ok by (simp add: trackerOK_def)
  ultimately have "chanOK ch" by (simp add: chanOK_def)
  with ok receive show ?thesis by (simp add: trackerOK_def)
qed (use ok in \<open>auto simp: trackerOK_def unsubscribeHealth_def [abs_def] dest!: sendEvent_OK [OF ok]\<close>)

text \<open>\<^verbatim>\<open>derive\<close> never goes back to unknown, since components are only added.\<close>

lemma derive_known: "derive (AList.update c s m) = StateUnknown \<Longrightarrow> derive m = StateUnknown"
  by (auto simp: derive_def Let_def update_conv' StateUnknown_def StateHealthy_def StateDegraded_def StateCritical_def
      split: if_splits option.splits)

section \<open>What a listener is told\<close>

text \<open>
  The calls of \<^verbatim>\<open>Up\<close> and \<^verbatim>\<open>Down\<close> one after the other, with the events they send: the
  tracker announces the status of every component, and under the key \<open>None\<close> its overall state.
\<close>

inductive trackerStep :: "Tracker \<times> HealthEvent list \<Rightarrow> string \<Rightarrow> Tracker \<times> HealthEvent list \<Rightarrow> bool" where
  up: "setStatus c (upStatus now) t = (evs, t') \<Longrightarrow> trackerStep (t, es) c (t', es @ evs)"
| down: "setStatus c (downStatus now err) t = (evs, t') \<Longrightarrow> trackerStep (t, es) c (t', es @ evs)"

fun word :: "bool \<Rightarrow> string" where
  "word True = ''up''"
| "word False = ''down''"

definition heKey :: "HealthEvent \<Rightarrow> string option" where
  "heKey e = (if heType e = EventStateChange then None else Some (heComponent e))"

definition heValue :: "HealthEvent \<Rightarrow> string" where
  "heValue e = (if heType e = EventStateChange then heState e else word (heUp e))"

definition healthView :: "Tracker \<Rightarrow> string option \<Rightarrow> string option" where
  "healthView t k = (case k of
       None \<Rightarrow> if hstate t = StateUnknown then None else Some (hstate t)
     | Some c \<Rightarrow> map_option (\<lambda>st. word (csUp st)) (TrackerComponent t c))"

lemma componentChanged_up: "componentChanged (Some p) s \<or> csUp p = csUp s"
  by (auto simp: componentChanged_def)

lemma typeOf_neq [simp]: "typeOf b \<noteq> EventStateChange"
  by (simp add: typeOf_def)

lemma setStatus_view:
  assumes "trackerOK t" "setStatus c s t = (evs, t')"
  shows "healthView t' = fold (\<lambda>e f. f(heKey e \<mapsto> heValue e)) evs (healthView t)"
proof
  fix k
  let ?comps = "AList.update c s (components t)"
  note t' = setStatus_eq [OF assms(2)]
  have st: "hstate t = derive (components t)" using assms(1) by (simp add: trackerOK_def)
  have keep: "\<not> componentChanged (map_of (components t) c) s \<Longrightarrow>
      map_option (\<lambda>st. word (csUp st)) (map_of (components t) c) = Some (word (csUp s))"
    using componentChanged_up by (cases "map_of (components t) c") (auto simp: componentChanged_def)
  show "healthView t' k = fold (\<lambda>e f. f(heKey e \<mapsto> heValue e)) evs (healthView t) k"
  proof (cases k)
    case None
    then show ?thesis
      using assms(2) derive_known [of c s "components t"] st
      by (auto simp: setStatus_def Let_def healthView_def heKey_def heValue_def split: if_splits)
  next
    case (Some d)
    then show ?thesis
      using assms(2) keep by (auto simp: t' setStatus_def Let_def healthView_def heKey_def heValue_def
          TrackerComponent_def update_conv' split: if_splits)
  qed
qed

lemma trackerStep_OK: "trackerOK (fst m) \<Longrightarrow> trackerStep m l m' \<Longrightarrow> trackerOK (fst m')"
proof (erule trackerStep.cases)
  fix c now t evs t' es
  assume "trackerOK (fst m)" "m = (t, es)" "m' = (t', es @ evs)" "setStatus c (upStatus now) t = (evs, t')"
  then show ?thesis using setStatus_state [of c "upStatus now" t] by (auto simp: trackerOK_def)
next
  fix c now err t evs t' es
  assume "trackerOK (fst m)" "m = (t, es)" "m' = (t', es @ evs)" "setStatus c (downStatus now err) t = (evs, t')"
  then show ?thesis using setStatus_state [of c "downStatus now err" t] by (auto simp: trackerOK_def)
qed

interpretation ht: announced "\<lambda>m. trackerOK (fst m)" trackerStep snd "\<lambda>m. healthView (fst m)" heKey heValue
proof unfold_locales
  fix m :: "Tracker \<times> HealthEvent list" and l m'
  assume "trackerOK (fst m)" "trackerStep m l m'"
  then show "\<exists>es. snd m' = snd m @ es \<and> healthView (fst m') = fold (\<lambda>e f. f(heKey e \<mapsto> heValue e)) es (healthView (fst m))"
    using setStatus_view by (auto elim!: trackerStep.cases)
qed (rule trackerStep_OK)

section \<open>Properties\<close>

text \<open>C28: The overall health is always the one derived from the components, also while status changes,
  subscriptions, broadcasts and cancellations interleave: critical exactly when both the metrics
  socket and the NETCONF server are down, degraded when one of them is, and healthy when none is and at
  least one has reported. No channel holds more events than its capacity.
\<close>

theorem health_is_derived_from_components:
  assumes "trace healthStep NewTracker tr"
  shows "(let t = traceEnd NewTracker tr; down = (\<lambda>c. \<exists>st. TrackerComponent t c = Some st \<and> \<not> csUp st) in
     (TrackerState t = StateCritical \<longleftrightarrow> down ComponentUDS \<and> down ComponentNetconf)
     \<and> (TrackerState t = StateDegraded \<longleftrightarrow> down ComponentUDS \<noteq> down ComponentNetconf)
     \<and> (TrackerState t = StateUnknown \<longleftrightarrow> TrackerComponent t ComponentUDS = None \<and> TrackerComponent t ComponentNetconf = None)
     \<and> (\<forall>c. length (buf (hchans t c)) \<le> capacity (hchans t c)))"
proof -
  have "trackerOK (traceEnd NewTracker tr)" using healthStep_OK assms trackerOK_new by (rule trace_inv [of trackerOK healthStep])
  then show ?thesis
    by (auto simp: trackerOK_def chanOK_def TrackerState_def TrackerComponent_def derive_def Let_def
        StateUnknown_def StateHealthy_def StateDegraded_def StateCritical_def split: option.split)
qed

theorem health_is_derived_from_components_witness:
  "let t = (snd (setStatus ''uds'' (downStatus 5 None) NewTracker))\<lparr>broadcasts := [[]]\<rparr> in
     TrackerState t = StateDegraded \<and> \<not> (TrackerComponent t ComponentUDS = None)"
proof -
  define t where "t = (snd (setStatus ''uds'' (downStatus 5 None) NewTracker))\<lparr>broadcasts := [[]]\<rparr>"
  have "healthStep NewTracker (HSet ''uds'') t"
    using healthStep.set [of "''uds''" "downStatus 5 None" NewTracker _ _ "[]"]
    by (auto simp: t_def NewTracker_def setStatus_def Let_def)
  then have "trace healthStep NewTracker [(HSet ''uds'', t)]" by simp
  from health_is_derived_from_components [OF this]
  have "TrackerState t = StateDegraded \<longleftrightarrow> (\<exists>st. TrackerComponent t ComponentUDS = Some st \<and> \<not> csUp st)
      \<noteq> (\<exists>st. TrackerComponent t ComponentNetconf = Some st \<and> \<not> csUp st)"
    unfolding traceEnd_simps Let_def by blast
  moreover have "TrackerComponent t ComponentUDS = Some (downStatus 5 None)" "TrackerComponent t ComponentNetconf = None"
    by (simp_all add: t_def TrackerComponent_def NewTracker_def ComponentUDS_def ComponentNetconf_def)
  ultimately show ?thesis unfolding t_def [symmetric] Let_def by (simp add: downStatus_def)
qed



section \<open>What the unlocked sends allow\<close>

text \<open>
  The events are sent after the mutex is released, to a list of channels taken under it. A
  cancellation in between closes the channel, and the send panics.
\<close>

lemma broadcast_can_meet_a_closed_channel:
  "\<exists>tr ev. trace healthStep NewTracker tr \<and> fst (last tr) = HOffered Panic 0 ev"
proof -
  obtain r t1 where s1: "SubscribeHealth NewTracker = ((0, []), t1)" "hsubs t1 = [0]" "broadcasts t1 = []" "replays t1 = []"
    by (simp add: SubscribeHealth_def NewTracker_def)
  define t2 where "t2 = t1\<lparr>replays := [(0, [])]\<rparr>"
  have 1: "healthStep NewTracker (HSubscribed 0) t2" using healthStep.subscribe [OF s1(1)] s1(4) by (simp add: t2_def)
  obtain ev evs t3 where s3: "setStatus ''uds'' (upStatus 7) t2 = (ev # evs, t3)"
    using s1(1) by (auto simp: setStatus_def Let_def t2_def SubscribeHealth_def NewTracker_def componentChanged_def)
  have t3: "hsubs t3 = [0]" "broadcasts t3 = []" "replays t3 = [(0, [])]"
    using setStatus_eq [OF s3] s1 by (simp_all add: t2_def)
  define t4 where "t4 = t3\<lparr>broadcasts := [List.product (ev # evs) [0]]\<rparr>"
  have 2: "healthStep t2 (HSet ''uds'') t4"
    using healthStep.set [OF s3, of "[0]"] t3(2) s1(2) by (simp add: t4_def t2_def)
  define t5 where "t5 = unsubscribeHealth 0 t4"
  have 3: "healthStep t4 (HCancelled 0) t5" unfolding t5_def by (rule healthStep.cancel) (simp_all add: t4_def t3)
  have "sendEvent ev 0 t5 = (Panic, t5)" by (simp add: sendEvent_def trySend_def t5_def unsubscribeHealth_def)
  then have 4: "healthStep t5 (HOffered Panic 0 ev) (t5\<lparr>broadcasts := (broadcasts t5)[0 := List.product evs [0]]\<rparr>)"
    by (intro healthStep.send) (simp_all add: t5_def unsubscribeHealth_def t4_def)
  show ?thesis
    by (rule exI [of _ "[(HSubscribed 0, t2), (HSet ''uds'', t4), (HCancelled 0, t5),
          (HOffered Panic 0 ev, t5\<lparr>broadcasts := (broadcasts t5)[0 := List.product evs [0]]\<rparr>)]"])
       (use 1 2 3 4 in auto)
qed

text \<open>
  \<^verbatim>\<open>Subscribe\<close> sends the status it saw under the mutex after a later change may already have
  been sent: the last event in the channel then contradicts the tracker.
\<close>

definition staleTracker :: Tracker where
  "staleTracker = (snd (setStatus ''uds'' (downStatus 5 None) NewTracker))\<lparr>broadcasts := [[]]\<rparr>"

lemma subscriber_can_end_with_stale_status:
  "\<exists>tr. trace healthStep staleTracker tr
     \<and> replay heKey heValue (buf (hchans (traceEnd staleTracker tr) 0)) (Some ''uds'') = Some ''down''
     \<and> healthView (traceEnd staleTracker tr) (Some ''uds'') = Some ''up''
     \<and> (\<forall>bc \<in> set (broadcasts (traceEnd staleTracker tr)). bc = []) \<and> replays (traceEnd staleTracker tr) = [(0, [])]
     \<and> (\<forall>c ev. HOffered Full c ev \<notin> fst ` set tr)"
proof -
  define down where "down = statusEvent StateDegraded (''uds'', downStatus 5 None)"
  define up1 where "up1 = (statusEvent StateHealthy (''uds'', upStatus 7))\<lparr>hePrevState := StateDegraded\<rparr>"
  define up2 where "up2 = \<lparr>heType = EventStateChange, heAt = 7, heComponent = [], heUp = False, heErr = None,
      heState = StateHealthy, hePrevState = StateDegraded\<rparr>"
  define st where "st = (\<lambda>comp hs sent bc rp. \<lparr>components = [(''uds'', comp)], hstate = hs, hsubs = [0],
      hchans = (\<lambda>_. makeChan 0)(0 := \<lparr>capacity = 17, buf = sent, closed = False\<rparr>), hnext = 1,
      broadcasts = bc, replays = [(0, rp)]\<rparr>)"
  note ev_defs = down_def up1_def up2_def statusEvent_def typeOf_def upStatus_def downStatus_def
  note states = StateUnknown_def StateHealthy_def StateDegraded_def StateCritical_def ComponentUDS_def ComponentNetconf_def
  have stale: "staleTracker = \<lparr>components = [(''uds'', downStatus 5 None)], hstate = StateDegraded, hsubs = [],
      hchans = (\<lambda>_. makeChan 0), hnext = 0, broadcasts = [[]], replays = []\<rparr>"
    by (simp add: staleTracker_def setStatus_def Let_def NewTracker_def derive_def states downStatus_def)
  let ?t1 = "st (downStatus 5 None) StateDegraded [] [[]] [down]"
  let ?t2 = "st (upStatus 7) StateHealthy [] [[], [(up1, 0), (up2, 0)]] [down]"
  let ?t3 = "st (upStatus 7) StateHealthy [up1] [[], [(up2, 0)]] [down]"
  let ?t4 = "st (upStatus 7) StateHealthy [up1, up2] [[], []] [down]"
  let ?t5 = "st (upStatus 7) StateHealthy [up1, up2, down] [[], []] []"
  have 1: "healthStep staleTracker (HSubscribed 0) ?t1"
    using healthStep.subscribe [of staleTracker 0 "[down]"]
    by (auto simp: SubscribeHealth_def stale st_def down_def makeChan_def)
  have set1: "setStatus ''uds'' (upStatus 7) ?t1 = ([up1, up2], st (upStatus 7) StateHealthy [] [[]] [down])"
    by (simp add: setStatus_def Let_def st_def componentChanged_def derive_def states ev_defs)
  have 2: "healthStep ?t1 (HSet ''uds'') ?t2"
    using healthStep.set [OF set1, of "[0]"] by (simp add: st_def)
  have 3: "healthStep ?t2 (HOffered Sent 0 up1) ?t3"
    using healthStep.send [of 1 ?t2 up1 0 "[(up2, 0)]" Sent "st (upStatus 7) StateHealthy [up1] [[], [(up1, 0), (up2, 0)]] [down]"]
    by (simp add: st_def sendEvent_def trySend_def)
  have 4: "healthStep ?t3 (HOffered Sent 0 up2) ?t4"
    using healthStep.send [of 1 ?t3 up2 0 "[]" Sent "st (upStatus 7) StateHealthy [up1, up2] [[], [(up2, 0)]] [down]"]
    by (simp add: st_def sendEvent_def trySend_def)
  have 5: "healthStep ?t4 (HOffered Sent 0 down) ?t5"
    using healthStep.resend [of 0 ?t4 0 down "[]" Sent "st (upStatus 7) StateHealthy [up1, up2, down] [[], []] [down]"]
    by (simp add: st_def sendEvent_def trySend_def)
  have "replay heKey heValue [up1, up2, down] (Some ''uds'') = Some ''down''"
    by (simp add: replay_def heKey_def heValue_def ev_defs)
  moreover have "healthView ?t5 (Some ''uds'') = Some ''up''"
    by (simp add: healthView_def TrackerComponent_def st_def upStatus_def)
  ultimately show ?thesis using 1 2 3 4 5
    by (intro exI [of _ "[(HSubscribed 0, ?t1), (HSet ''uds'', ?t2), (HOffered Sent 0 up1, ?t3), (HOffered Sent 0 up2, ?t4),
          (HOffered Sent 0 down, ?t5)]"]) (simp add: st_def)
qed

end
