(* ===== verification/Bus.thy ===== *)
theory Bus
  imports EMS_Prelude Traces Channels "HOL-Library.Multiset"
begin

text \<open>
  The message bus between the services (\<^verbatim>\<open>internal/ems/bus/bus.go\<close>).

  Publishers hold the read lock while they visit the subscribers one after the other, so several
  publishers interleave with each other and with the receivers; subscribing and cancelling take
  the write lock, so they wait until no publisher is under way. The state carries the publishers
  under way: the message and the channels still to visit. A publisher without channels left has
  returned. The order in which a publisher visits the subscribers is any order, as the iteration
  over a Go map. The log messages are not modelled.
\<close>

section \<open>State and operations\<close>

record 'a Bus =
  buffer :: nat
  subs :: "nat list"
  chans :: "nat \<Rightarrow> 'a chan"
  nextChan :: nat
  drops :: uint64
  readers :: "('a \<times> nat list) list"

definition NewBus :: "int \<Rightarrow> 'a Bus" where
  "NewBus n = (let size = (if n \<le> 0 then 100 else nat n) in
     \<lparr>buffer = size, subs = [], chans = (\<lambda>_. makeChan size), nextChan = 0, drops = 0, readers = []\<rparr>)"

text \<open>One round of the loop in \<^verbatim>\<open>Publish\<close>: a non-blocking send to one subscriber.\<close>

definition offer :: "'a \<Rightarrow> nat \<Rightarrow> 'a Bus \<Rightarrow> sendResult \<times> 'a Bus" where
  "offer msg c b = (case trySend msg (chans b c) of
       (Full, ch) \<Rightarrow> (Full, b\<lparr>drops := drops b + 1\<rparr>)
     | (r, ch) \<Rightarrow> (r, b\<lparr>chans := (chans b)(c := ch)\<rparr>))"

text \<open>A publisher that runs alone, visiting the subscribers in the order of the list.\<close>

definition Publish :: "'a \<Rightarrow> 'a Bus \<Rightarrow> 'a Bus" where
  "Publish msg b = fold (\<lambda>c b. snd (offer msg c b)) (subs b) b"

definition SubscribeBus :: "'a Bus \<Rightarrow> nat \<times> 'a Bus" where
  "SubscribeBus b = (nextChan b, b\<lparr>chans := (chans b)(nextChan b := makeChan (buffer b)),
     subs := subs b @ [nextChan b], nextChan := Suc (nextChan b)\<rparr>)"

definition unsubscribe :: "nat \<Rightarrow> 'a Bus \<Rightarrow> 'a Bus" where
  "unsubscribe c b = b\<lparr>subs := remove1 c (subs b), chans := (chans b)(c := closeChan (chans b c))\<rparr>"

definition SubscriberCount :: "'a Bus \<Rightarrow> nat" where
  "SubscriberCount b = length (subs b)"

section \<open>Interleavings\<close>

datatype 'a busLabel = Publishing 'a | Delivered nat 'a | Dropped nat 'a | Panicked nat
  | Subscribed nat | Cancelled nat | Received nat 'a

fun outcome :: "nat \<Rightarrow> 'a \<Rightarrow> sendResult \<Rightarrow> 'a busLabel" where
  "outcome c msg Sent = Delivered c msg"
| "outcome c msg Full = Dropped c msg"
| "outcome c msg Panic = Panicked c"

text \<open>No publisher holds the read lock.\<close>

definition writable :: "'a Bus \<Rightarrow> bool" where
  "writable b \<longleftrightarrow> (\<forall>(msg, cs) \<in> set (readers b). cs = [])"

inductive busStep :: "'a Bus \<Rightarrow> 'a busLabel \<Rightarrow> 'a Bus \<Rightarrow> bool" where
  publish: "mset order = mset (subs b) \<Longrightarrow> busStep b (Publishing msg) (b\<lparr>readers := readers b @ [(msg, order)]\<rparr>)"
| send: "i < length (readers b) \<Longrightarrow> readers b ! i = (msg, c # cs) \<Longrightarrow> offer msg c b = (r, b') \<Longrightarrow>
    busStep b (outcome c msg r) (b'\<lparr>readers := (readers b')[i := (msg, cs)]\<rparr>)"
| subscribe: "writable b \<Longrightarrow> SubscribeBus b = (c, b') \<Longrightarrow> busStep b (Subscribed c) b'"
| cancel: "writable b \<Longrightarrow> c \<in> set (subs b) \<Longrightarrow> busStep b (Cancelled c) (unsubscribe c b)"
| receive: "recv (chans b c) = Some (msg, ch) \<Longrightarrow> busStep b (Received c msg) (b\<lparr>chans := (chans b)(c := ch)\<rparr>)"

inductive_cases busStepE: "busStep b l b'"

text \<open>What a run did on one channel.\<close>

fun deliveredOn :: "nat \<Rightarrow> 'a busLabel list \<Rightarrow> 'a list" where
  "deliveredOn c [] = []"
| "deliveredOn c (Delivered d m # ls) = (if c = d then m # deliveredOn c ls else deliveredOn c ls)"
| "deliveredOn c (l # ls) = deliveredOn c ls"

fun droppedOn :: "nat \<Rightarrow> 'a busLabel list \<Rightarrow> 'a list" where
  "droppedOn c [] = []"
| "droppedOn c (Dropped d m # ls) = (if c = d then m # droppedOn c ls else droppedOn c ls)"
| "droppedOn c (l # ls) = droppedOn c ls"

fun receivedOn :: "nat \<Rightarrow> 'a busLabel list \<Rightarrow> 'a list" where
  "receivedOn c [] = []"
| "receivedOn c (Received d m # ls) = (if c = d then m # receivedOn c ls else receivedOn c ls)"
| "receivedOn c (l # ls) = receivedOn c ls"

text \<open>The messages published since the channel was subscribed.\<close>

definition publishedTo :: "nat \<Rightarrow> 'a busLabel list \<Rightarrow> 'a list" where
  "publishedTo c ls = fold (\<lambda>l acc. case l of Subscribed d \<Rightarrow> if c = d then [] else acc
     | Publishing m \<Rightarrow> acc @ [m] | _ \<Rightarrow> acc) ls []"

fun isDrop :: "'a busLabel \<Rightarrow> bool" where
  "isDrop (Dropped c m) = True"
| "isDrop l = False"

lemma on_append [simp]:
  "deliveredOn c (ls @ ls') = deliveredOn c ls @ deliveredOn c ls'"
  "droppedOn c (ls @ ls') = droppedOn c ls @ droppedOn c ls'"
  "receivedOn c (ls @ ls') = receivedOn c ls @ receivedOn c ls'"
proof -
  show "deliveredOn c (ls @ ls') = deliveredOn c ls @ deliveredOn c ls'"
    by (induction c ls rule: deliveredOn.induct) auto
  show "droppedOn c (ls @ ls') = droppedOn c ls @ droppedOn c ls'"
    by (induction c ls rule: droppedOn.induct) auto
  show "receivedOn c (ls @ ls') = receivedOn c ls @ receivedOn c ls'"
    by (induction c ls rule: receivedOn.induct) auto
qed

lemma publishedTo_snoc [simp]:
  "publishedTo c (ls @ [l]) = (case l of Subscribed d \<Rightarrow> if c = d then [] else publishedTo c ls
     | Publishing m \<Rightarrow> publishedTo c ls @ [m] | _ \<Rightarrow> publishedTo c ls)"
  by (simp add: publishedTo_def split: busLabel.split)

section \<open>The invariant\<close>

text \<open>The messages that publishers under way have not yet offered to a channel.\<close>

definition waiting :: "nat \<Rightarrow> ('a \<times> nat list) list \<Rightarrow> 'a multiset" where
  "waiting c rs = mset (map fst (filter (\<lambda>(m, cs). c \<in> set cs) rs))"

definition busOK :: "'a Bus \<Rightarrow> 'a busLabel list \<Rightarrow> bool" where
  "busOK b ls \<longleftrightarrow> distinct (subs b) \<and> (\<forall>c \<in> set (subs b). c < nextChan b \<and> \<not> closed (chans b c))
     \<and> (\<forall>(m, cs) \<in> set (readers b). distinct cs \<and> set cs \<subseteq> set (subs b))
     \<and> (\<forall>c. length (buf (chans b c)) \<le> buffer b \<and> capacity (chans b c) = buffer b)
     \<and> (\<forall>c. receivedOn c ls @ buf (chans b c) = deliveredOn c ls)
     \<and> (\<forall>c \<ge> nextChan b. deliveredOn c ls = [] \<and> droppedOn c ls = [])
     \<and> drops b = of_nat (length (filter isDrop ls)) \<and> (\<forall>c. Panicked c \<notin> set ls)
     \<and> (\<forall>c \<in> set (subs b). mset (deliveredOn c ls) + mset (droppedOn c ls) + waiting c (readers b)
          = mset (publishedTo c ls))"

lemma waiting_simps [simp]:
  "waiting c [] = {#}" "waiting c (rs @ rs') = waiting c rs + waiting c rs'"
  "waiting c [(m, cs)] = (if c \<in> set cs then {#m#} else {#})"
  by (simp_all add: waiting_def)

lemma waiting_update:
  assumes "i < length rs" "rs ! i = (m, d # cs)" "d \<notin> set cs"
  shows "waiting c rs = waiting c (rs[i := (m, cs)]) + (if c = d then {#m#} else {#})"
proof -
  have rs: "rs = take i rs @ [(m, d # cs)] @ drop (Suc i) rs" using assms(1,2) by (metis id_take_nth_drop append_Cons append_Nil)
  have up: "rs[i := (m, cs)] = take i rs @ [(m, cs)] @ drop (Suc i) rs" using assms(1) by (simp add: upd_conv_take_nth_drop)
  show ?thesis unfolding up by (subst rs) (use assms(3) in \<open>simp only: waiting_simps\<close>, simp)
qed

lemma writable_waiting: "writable b \<Longrightarrow> waiting c (readers b) = {#}"
  by (auto simp: writable_def waiting_def filter_empty_conv)

lemma busOK_new: "busOK (NewBus n) []"
  by (auto simp: busOK_def NewBus_def Let_def publishedTo_def)

lemma busOK_publish:
  assumes "busOK b ls" "mset order = mset (subs b)"
  shows "busOK (b\<lparr>readers := readers b @ [(msg, order)]\<rparr>) (ls @ [Publishing msg])"
proof -
  have "set order = set (subs b)" "distinct order"
    using assms mset_eq_setD [OF assms(2)] mset_eq_imp_distinct_iff [OF assms(2)] by (auto simp: busOK_def)
  then show ?thesis using assms(1) by (auto simp: busOK_def)
qed

text \<open>The parts of the invariant that do not speak of the messages, and those that do.\<close>

lemma busOK_D:
  assumes "busOK b ls"
  shows "distinct (subs b)" "c \<in> set (subs b) \<Longrightarrow> c < nextChan b \<and> \<not> closed (chans b c)"
    "(m, cs) \<in> set (readers b) \<Longrightarrow> distinct cs \<and> set cs \<subseteq> set (subs b)"
    "length (buf (chans b d)) \<le> buffer b" "capacity (chans b d) = buffer b"
  using assms by (auto simp: busOK_def)

lemma busOK_send:
  assumes ok: "busOK b ls" and i: "i < length (readers b)" "readers b ! i = (msg, c # cs)" and o: "offer msg c b = (r, b')"
  shows "busOK (b'\<lparr>readers := (readers b')[i := (msg, cs)]\<rparr>) (ls @ [outcome c msg r])"
proof -
  have mem: "(msg, c # cs) \<in> set (readers b)" using i nth_mem by fastforce
  then have c: "c \<in> set (subs b)" "c \<notin> set cs" "distinct cs" "set cs \<subseteq> set (subs b)"
    using busOK_D(3) [OF ok mem] by auto
  note w = waiting_update [OF i c(2)]
  have rd: "\<forall>(m, ds) \<in> set ((readers b)[i := (msg, cs)]). distinct ds \<and> set ds \<subseteq> set (subs b)"
    using busOK_D(3) [OF ok] c(3,4) set_update_subset_insert [of "readers b" i "(msg, cs)"] by fastforce
  obtain r' ch where t: "trySend msg (chans b c) = (r', ch)" by fastforce
  have "\<not> closed (chans b c)" using busOK_D(2) [OF ok c(1)] by simp
  from trySend_cases [OF t] this consider
      (sent) "r' = Sent" "ch = (chans b c)\<lparr>buf := buf (chans b c) @ [msg]\<rparr>" "length (buf (chans b c)) < capacity (chans b c)"
    | (full) "r' = Full" "ch = chans b c" by blast
  then show ?thesis
  proof cases
    case sent
    then have b': "r = Sent" "b' = b\<lparr>chans := (chans b)(c := ch)\<rparr>" using o t by (auto simp: offer_def)
    have "length (buf (chans b c)) < buffer b" using sent(3) busOK_D(5) [OF ok, of c] by simp
    then show ?thesis using ok rd c(1) sent(2) w unfolding b' by (auto simp: busOK_def Suc_le_eq)
  next
    case full
    then have b': "r = Full" "b' = b\<lparr>drops := drops b + 1\<rparr>" using o t by (auto simp: offer_def)
    then show ?thesis using ok rd c(1) w unfolding b' by (auto simp: busOK_def)
  qed
qed

lemma busOK_subscribe:
  assumes "busOK b ls" "writable b" "SubscribeBus b = (c, b')"
  shows "busOK b' (ls @ [Subscribed c])"
proof -
  have b': "c = nextChan b" "b' = snd (SubscribeBus b)" using assms(3) by (auto simp: SubscribeBus_def)
  have r: "receivedOn c ls @ buf (chans b c) = deliveredOn c ls" "deliveredOn c ls = []" "droppedOn c ls = []"
    using assms(1) b'(1) by (auto simp: busOK_def)
  then have rn: "receivedOn (nextChan b) ls = []" unfolding b'(1) by simp
  have "c \<notin> set (subs b)" using assms(1) b'(1) by (auto simp: busOK_def)
  then show ?thesis
    using assms(1,2) r rn unfolding b'(2) b'(1) by (auto simp: busOK_def SubscribeBus_def writable_waiting writable_def)
qed

lemma busOK_cancel:
  assumes "busOK b ls" "writable b" shows "busOK (unsubscribe c b) (ls @ [Cancelled c])"
proof -
  have "set (remove1 c (subs b)) = set (subs b) - {c}" "distinct (remove1 c (subs b))"
    using assms(1) by (auto simp: busOK_def)
  then show ?thesis using assms by (auto simp: busOK_def unsubscribe_def writable_def)
qed

lemma busOK_receive:
  assumes "busOK b ls" "recv (chans b c) = Some (msg, ch)"
  shows "busOK (b\<lparr>chans := (chans b)(c := ch)\<rparr>) (ls @ [Received c msg])"
proof -
  obtain rest where ch: "buf (chans b c) = msg # rest" "ch = (chans b c)\<lparr>buf := rest\<rparr>"
    using assms(2) by (auto simp: recv_def split: list.splits)
  have a: "receivedOn c ls @ msg # rest = deliveredOn c ls" "length (msg # rest) \<le> buffer b"
    using assms(1) ch(1) unfolding busOK_def by metis+
  then show ?thesis using assms(1) ch(2) by (auto simp: busOK_def)
qed

lemma busStep_OK: "busOK b ls \<Longrightarrow> busStep b l b' \<Longrightarrow> busOK b' (ls @ [l])"
  by (erule busStepE) (auto intro: busOK_publish busOK_send busOK_subscribe busOK_cancel busOK_receive)

lemma run_busOK: "trace busStep (NewBus n) tr \<Longrightarrow> busOK (traceEnd (NewBus n) tr) (map fst tr)"
  by (rule trace_history [where step = busStep]) (auto intro: busOK_new busStep_OK)

text \<open>A publisher that runs alone is one of the interleavings.\<close>

lemma offer_frame [simp]:
  "subs (snd (offer m c b)) = subs b" "readers (snd (offer m c b)) = readers b"
  by (simp_all add: offer_def split: prod.split sendResult.split)

lemma Publish_run:
  assumes "readers b = rs @ [(msg, cs)]"
  shows "\<exists>tr. trace busStep b tr \<and> traceEnd b tr = (fold (\<lambda>c b. snd (offer msg c b)) cs b)\<lparr>readers := rs @ [(msg, [])]\<rparr>"
  using assms
proof (induction cs arbitrary: b)
  case Nil
  then show ?case by (intro exI [of _ "[]"]) simp
next
  case (Cons c cs)
  obtain r b1 where o: "offer msg c b = (r, b1)" by fastforce
  have fr: "readers b1 = readers b" using offer_frame(2) [of msg c b] o by simp
  define b2 where "b2 = b1\<lparr>readers := rs @ [(msg, cs)]\<rparr>"
  have st: "busStep b (outcome c msg r) b2"
    using busStep.send [of "length rs" b msg c cs r b1] Cons.prems o fr by (simp add: b2_def)
  obtain tr where tr: "trace busStep b2 tr"
      "traceEnd b2 tr = (fold (\<lambda>c b. snd (offer msg c b)) cs b2)\<lparr>readers := rs @ [(msg, [])]\<rparr>"
    using Cons.IH [of b2] by (auto simp: b2_def)
  have "snd (offer msg d (x\<lparr>readers := y\<rparr>)) = (snd (offer msg d x))\<lparr>readers := y\<rparr>" for d x y
    by (simp add: offer_def split: prod.split sendResult.split)
  then have "fold (\<lambda>c b. snd (offer msg c b)) cs (x\<lparr>readers := y\<rparr>) = (fold (\<lambda>c b. snd (offer msg c b)) cs x)\<lparr>readers := y\<rparr>" for x y
    by (induction cs arbitrary: x) auto
  then show ?case using st tr o by (intro exI [of _ "(outcome c msg r, b2) # tr"]) (simp add: b2_def)
qed

section \<open>Properties\<close>

text \<open>C26: The bus loses nothing silently. In every interleaving of publishers, receivers, new
  subscriptions and cancellations, no send meets a closed channel; no buffer holds more than its
  size; each subscriber receives what was delivered to it, once and in order; every message
  published since a subscription was delivered to the subscriber, or dropped because its buffer was
  full, or is held by a publisher under way; and the drop counter counts the dropped ones.
\<close>

theorem bus_loses_nothing_silently:
  assumes "trace busStep (NewBus n) tr"
  defines "b \<equiv> traceEnd (NewBus n) tr" and "ls \<equiv> map fst tr"
  shows "(\<forall>c. Panicked c \<notin> set ls \<and> length (buf (chans b c)) \<le> buffer b
      \<and> deliveredOn c ls = receivedOn c ls @ buf (chans b c))
    \<and> (\<forall>c. c \<in> set (subs b) \<longrightarrow>
        mset (publishedTo c ls) = mset (deliveredOn c ls) + mset (droppedOn c ls) + waiting c (readers b))
    \<and> drops b = of_nat (length (filter isDrop ls))"
  using run_busOK [OF assms(1)] unfolding b_def ls_def by (auto simp: busOK_def)

text \<open>A bus with one-message buffers and one subscriber, to which two messages are published.\<close>

definition tinyBus :: "nat \<Rightarrow> string list \<Rightarrow> (string \<times> nat list) list \<Rightarrow> uint64 \<Rightarrow> string Bus" where
  "tinyBus next msgs rs d = \<lparr>buffer = 1, subs = [0..<next],
     chans = (\<lambda>_. makeChan 1)(0 := \<lparr>capacity = 1, buf = msgs, closed = False\<rparr>), nextChan = next, drops = d, readers = rs\<rparr>"

definition tinyRun :: "(string busLabel \<times> string Bus) list" where
  "tinyRun = [(Subscribed 0, tinyBus 1 [] [] 0), (Publishing ''a'', tinyBus 1 [] [(''a'', [0])] 0),
     (Publishing ''b'', tinyBus 1 [] [(''a'', [0]), (''b'', [0])] 0),
     (Delivered 0 ''b'', tinyBus 1 [''b''] [(''a'', [0]), (''b'', [])] 0),
     (Dropped 0 ''a'', tinyBus 1 [''b''] [(''a'', []), (''b'', [])] 1),
     (Received 0 ''b'', tinyBus 1 [] [(''a'', []), (''b'', [])] 1)]"

lemma tinyRun_steps: "trace busStep (NewBus 1) tinyRun"
proof -
  have 1: "busStep (NewBus 1) (Subscribed 0) (tinyBus 1 [] [] 0)"
    by (rule busStep.subscribe) (auto simp: writable_def NewBus_def SubscribeBus_def tinyBus_def makeChan_def)
  have 2: "busStep (tinyBus 1 [] [] 0) (Publishing ''a'') (tinyBus 1 [] [(''a'', [0])] 0)"
    using busStep.publish [of "[0]" "tinyBus 1 [] [] 0" "''a''"] by (simp add: tinyBus_def)
  have 3: "busStep (tinyBus 1 [] [(''a'', [0])] 0) (Publishing ''b'') (tinyBus 1 [] [(''a'', [0]), (''b'', [0])] 0)"
    using busStep.publish [of "[0]" "tinyBus 1 [] [(''a'', [0])] 0" "''b''"] by (simp add: tinyBus_def)
  have 4: "busStep (tinyBus 1 [] [(''a'', [0]), (''b'', [0])] 0) (Delivered 0 ''b'') (tinyBus 1 [''b''] [(''a'', [0]), (''b'', [])] 0)"
    using busStep.send [of 1 "tinyBus 1 [] [(''a'', [0]), (''b'', [0])] 0" "''b''" 0 "[]" Sent
        "tinyBus 1 [''b''] [(''a'', [0]), (''b'', [0])] 0"]
    by (simp add: tinyBus_def offer_def trySend_def)
  have 5: "busStep (tinyBus 1 [''b''] [(''a'', [0]), (''b'', [])] 0) (Dropped 0 ''a'') (tinyBus 1 [''b''] [(''a'', []), (''b'', [])] 1)"
    using busStep.send [of 0 "tinyBus 1 [''b''] [(''a'', [0]), (''b'', [])] 0" "''a''" 0 "[]" Full
        "tinyBus 1 [''b''] [(''a'', [0]), (''b'', [])] 1"]
    by (simp add: tinyBus_def offer_def trySend_def)
  have 6: "busStep (tinyBus 1 [''b''] [(''a'', []), (''b'', [])] 1) (Received 0 ''b'') (tinyBus 1 [] [(''a'', []), (''b'', [])] 1)"
    using busStep.receive [of "tinyBus 1 [''b''] [(''a'', []), (''b'', [])] 1" 0 "''b''" "\<lparr>capacity = 1, buf = [], closed = False\<rparr>"]
    by (simp add: tinyBus_def recv_def)
  show ?thesis unfolding tinyRun_def using 1 2 3 4 5 6 by simp
qed

theorem bus_loses_nothing_silently_witness:
  "drops (traceEnd (NewBus 1) tinyRun) = 1 \<and> publishedTo 0 (map fst tinyRun) = [''a'', ''b'']
    \<and> mset (publishedTo 0 (map fst tinyRun)) = mset (deliveredOn 0 (map fst tinyRun)) + mset (droppedOn 0 (map fst tinyRun))
        + waiting 0 (readers (traceEnd (NewBus 1) tinyRun))"
proof -
  note * = bus_loses_nothing_silently [OF tinyRun_steps]
  have s: "0 \<in> set (subs (traceEnd (NewBus 1) tinyRun))" by (simp add: tinyRun_def tinyBus_def)
  have "length (filter isDrop (map fst tinyRun)) = 1" "publishedTo 0 (map fst tinyRun) = [''a'', ''b'']"
    by (simp_all add: tinyRun_def publishedTo_def)
  then show ?thesis using conjunct2 [OF conjunct2 [OF *]] conjunct1 [OF conjunct2 [OF *]] s by (metis of_nat_1)
qed

end
