(* ===== verification/Faults.thy ===== *)
theory Faults
  imports Health AlarmStore Bus
begin

text \<open>
  The fault service (\<^verbatim>\<open>internal/ems/services/fault_service.go\<close>): health events in, alarms and
  messages on the bus out. A handler returns the events it publishes and the alarm manager; the
  composition with the bus publishes them in order. Log messages are not modelled.
\<close>

section \<open>The handlers\<close>

record FaultService =
  MinSeverity :: Severity

definition NewFaultService :: FaultService where
  "NewFaultService = \<lparr>MinSeverity = ErrSeverityMajor\<rparr>"

definition onComponentDown :: "AlarmCodec \<Rightarrow> FaultService \<Rightarrow> HealthEvent \<Rightarrow> AlarmManager \<Rightarrow> Event list \<times> AlarmManager" where
  "onComponentDown codec svc ev m =
     (if heErr ev = None then ([], m)
      else if \<not> AtLeast (SeverityOf (heErr ev)) (MinSeverity svc) then ([], m)
      else case Raise codec m (heAt ev) (heComponent ev) (heState ev) (errorAlarm (heErr ev)) of
        ((out, _), m') \<Rightarrow> ([out], m'))"

definition onComponentUp :: "AlarmCodec \<Rightarrow> HealthEvent \<Rightarrow> AlarmManager \<Rightarrow> Event list \<times> AlarmManager" where
  "onComponentUp codec ev m = ClearComponentAlarms codec m (heAt ev) (heComponent ev) (heState ev)"

definition handleHealth :: "AlarmCodec \<Rightarrow> FaultService \<Rightarrow> HealthEvent \<Rightarrow> AlarmManager \<Rightarrow> Event list \<times> AlarmManager" where
  "handleHealth codec svc ev m = (case heType ev of
       EventStateChange \<Rightarrow> ([], m)
     | EventComponentDown \<Rightarrow> onComponentDown codec svc ev m
     | EventComponentUp \<Rightarrow> onComponentUp codec ev m)"

text \<open>The loop over the subscription: what is published, and where the alarm manager ends.\<close>

fun RunFaults :: "AlarmCodec \<Rightarrow> FaultService \<Rightarrow> HealthEvent list \<Rightarrow> AlarmManager \<Rightarrow> Event list \<times> AlarmManager" where
  "RunFaults codec svc [] m = ([], m)"
| "RunFaults codec svc (ev # evs) m =
     (case handleHealth codec svc ev m of (out, m1) \<Rightarrow>
       (case RunFaults codec svc evs m1 of (outs, m2) \<Rightarrow> (out @ outs, m2)))"

definition publishAll :: "Event list \<Rightarrow> Event Bus \<Rightarrow> Event Bus" where
  "publishAll evs b = fold Publish evs b"

section \<open>Alarms follow the health of a component\<close>

text \<open>One report to the tracker, with the events it sends processed by the service.\<close>

definition reportHealth :: "AlarmCodec \<Rightarrow> string \<times> ComponentStatus \<Rightarrow> Tracker \<times> AlarmManager \<Rightarrow> Tracker \<times> AlarmManager" where
  "reportHealth codec = (\<lambda>(c, s) (t, m). case setStatus c s t of
     (evs, t') \<Rightarrow> (t', snd (RunFaults codec NewFaultService evs m)))"

text \<open>The reports of the workers: up, or down with an error that is at least major.\<close>

definition severeReport :: "ComponentStatus \<Rightarrow> bool" where
  "severeReport s \<longleftrightarrow> (if csUp s then csLastErr s = None else AtLeast (SeverityOf (csLastErr s)) ErrSeverityMajor)"

definition hasActive :: "AlarmManager \<Rightarrow> string \<Rightarrow> bool" where
  "hasActive m c \<longleftrightarrow> (\<exists>code. statusOf m \<lparr>Component = c, Code = code\<rparr> = Some StatusActive)"

definition isDown :: "Tracker \<Rightarrow> string \<Rightarrow> bool" where
  "isDown t c \<longleftrightarrow> (case TrackerComponent t c of Some st \<Rightarrow> \<not> csUp st | None \<Rightarrow> False)"

lemma Raise_active:
  assumes "storeOK (astore m)" "Raise codec m now d h a = (r, m')"
  shows "hasActive m' c \<longleftrightarrow> c = d \<or> hasActive m c"
proof -
  obtain evt ch where r: "r = (evt, ch)" by (cases r)
  have k: "evKey evt = \<lparr>Component = d, Code = aCode (Normalize d (aManagedObjectInstance a) a)\<rparr>"
    using Normalize_code_of_raise [OF assms(2) [unfolded r] assms(1)] .
  show ?thesis using Raise_view(2) [OF assms(1) assms(2) [unfolded r]] k by (auto simp: hasActive_def)
qed

lemma ClearComponent_active:
  "storeOK (astore m) \<Longrightarrow> hasActive (snd (ClearComponentAlarms codec m now d h)) c \<longleftrightarrow> c \<noteq> d \<and> hasActive m c"
proof -
  have "statusOf (snd (ClearComponentAlarms codec m now d h)) k =
      (if Component k = d \<and> statusOf m k \<noteq> None then Some StatusCleared else statusOf m k)" for k
    by (auto simp: statusOf_def ClearComponentAlarms_def Let_def ClearComponent_lookup clearedRecord_def
        split_def split: option.split)
  then show ?thesis by (auto simp: hasActive_def)
qed

lemma handleHealth_OK: "storeOK (astore m) \<Longrightarrow> storeOK (astore (snd (handleHealth codec svc ev m)))"
proof -
  assume ok: "storeOK (astore m)"
  note step = alarmStep_OK [OF ok, of codec "()"]
  have "storeOK (astore (snd (onComponentDown codec svc ev m)))"
    using ok step [OF alarmStep.raise, of "heAt ev" "heComponent ev" "heState ev" "errorAlarm (heErr ev)"]
    by (auto simp: onComponentDown_def split: prod.split)
  moreover have "storeOK (astore (snd (onComponentUp codec ev m)))"
    using step [OF alarmStep.clearComponent] by (simp add: onComponentUp_def)
  ultimately show ?thesis using ok by (simp add: handleHealth_def split: EventType.split)
qed

lemma componentEvent_active:
  assumes "storeOK (astore m)" "severeReport s" "heType ev = typeOf (csUp s)" "heErr ev = csLastErr s" "heComponent ev = d"
  shows "hasActive (snd (handleHealth codec NewFaultService ev m)) c \<longleftrightarrow> (if c = d then \<not> csUp s else hasActive m c)"
proof (cases "csUp s")
  case True
  then show ?thesis using ClearComponent_active [OF assms(1)] assms(3,5)
    by (simp add: handleHealth_def typeOf_def onComponentUp_def)
next
  case False
  then have sev: "AtLeast (SeverityOf (heErr ev)) ErrSeverityMajor" "heErr ev \<noteq> None"
    using assms(2,4) severe_is_typed [of "csLastErr s"] by (auto simp: severeReport_def)
  obtain r m' where r: "Raise codec m (heAt ev) d (heState ev) (errorAlarm (heErr ev)) = (r, m')" by fastforce
  have "snd (handleHealth codec NewFaultService ev m) = m'"
    using False sev r assms(3,5)
    by (auto simp: handleHealth_def typeOf_def onComponentDown_def NewFaultService_def split: prod.split)
  then show ?thesis using Raise_active [OF assms(1) r] False by auto
qed

lemma reportHealth_step:
  assumes ok: "storeOK (astore m)" and sev: "severeReport s" and same: "\<And>c. hasActive m c \<longleftrightarrow> isDown t c"
    and r: "reportHealth codec (d, s) (t, m) = (t', m')"
  shows "storeOK (astore m')" "hasActive m' c \<longleftrightarrow> isDown t' c"
proof -
  obtain evs where set: "setStatus d s t = (evs, t')" and m': "m' = snd (RunFaults codec NewFaultService evs m)"
    using r by (auto simp: reportHealth_def split: prod.splits)
  have t': "isDown t' c \<longleftrightarrow> (if c = d then \<not> csUp s else isDown t c)" for c
    using setStatus_eq [OF set] by (auto simp: isDown_def TrackerComponent_def update_conv')
  have skip: "RunFaults codec NewFaultService (if b then [\<lparr>heType = EventStateChange, heAt = a, heComponent = [], heUp = False,
      heErr = None, heState = x, hePrevState = y\<rparr>] else []) m1 = ([], m1)" for b a x y m1
    by (simp add: handleHealth_def)
  show "storeOK (astore m')" "hasActive m' c \<longleftrightarrow> isDown t' c"
  proof (atomize (full), cases "componentChanged (map_of (components t) d) s")
    case False
    then have "m' = m" using set m' skip by (auto simp: setStatus_def Let_def)
    moreover have "isDown t d \<longleftrightarrow> \<not> csUp s"
      using False by (auto simp: componentChanged_def isDown_def TrackerComponent_def split: option.splits)
    ultimately show "storeOK (astore m') \<and> (hasActive m' c \<longleftrightarrow> isDown t' c)" using ok same t' by auto
  next
    case True
    then obtain ev where ev: "m' = snd (handleHealth codec NewFaultService ev m)"
        "heType ev = typeOf (csUp s)" "heErr ev = csLastErr s" "heComponent ev = d"
      using set m' skip by (auto simp: setStatus_def Let_def split: prod.splits)
    then show "storeOK (astore m') \<and> (hasActive m' c \<longleftrightarrow> isDown t' c)"
      using handleHealth_OK [OF ok] componentEvent_active [OF ok sev ev(2-4)] same t' by auto
  qed
qed


definition lostSocket :: goerror where
  "lostSocket = EmsErr ErrCodeNetwork ErrSeverityCritical [] ''socket lost'' None 3"


end
