(* ===== verification/Worker.thy ===== *)
theory Worker
  imports EmsErrors GoFloat
begin

text \<open>
  The supervision of a worker: the exponential backoff (\<^verbatim>\<open>internal/ems/worker/backoff.go\<close>) and
  the restart loop (\<^verbatim>\<open>internal/ems/worker/supervisor.go\<close>). Durations are 64-bit, with the
  wrap-around of Go's multiplication and addition written out.
\<close>

section \<open>Backoff\<close>

definition wrap64 :: "int \<Rightarrow> duration" where
  "wrap64 i = (i + 2 ^ 63) mod 2 ^ 64 - 2 ^ 63"

lemma wrap64_id: "- (2 ^ 63) \<le> i \<Longrightarrow> i < 2 ^ 63 \<Longrightarrow> wrap64 i = i"
  by (simp add: wrap64_def)

definition f64_mul :: "float64 \<Rightarrow> float64 \<Rightarrow> float64" where
  "f64_mul x y =
     (let neg = (\<lambda>v. v = NegZero \<or> v = NegInf \<or> f64_lt v (Fin 0));
          zero = (\<lambda>v. v = NegZero \<or> v = Fin 0);
          inf = (\<lambda>v. v = PosInf \<or> v = NegInf);
          sgn = (neg x \<noteq> neg y)
      in if x = NaN \<or> y = NaN \<or> zero x \<and> inf y \<or> inf x \<and> zero y then NaN
         else if inf x \<or> inf y then (if sgn then NegInf else PosInf)
         else if zero x \<or> zero y then (if sgn then NegZero else Fin 0)
         else round64 (snd (f64_key x) * snd (f64_key y)))"

text \<open>The conversion of a \<^verbatim>\<open>float64\<close> to a duration truncates; the result for numbers outside
  the range is the smallest duration, as on amd64.\<close>

definition f64_toInt64 :: "float64 \<Rightarrow> duration" where
  "f64_toInt64 x = (case x of
       Fin q \<Rightarrow> (let i = (if q \<ge> 0 then \<lfloor>q\<rfloor> else \<lceil>q\<rceil>) in if - (2 ^ 63) \<le> i \<and> i < 2 ^ 63 then i else - (2 ^ 63))
     | NegZero \<Rightarrow> 0 | _ \<Rightarrow> - (2 ^ 63))"

record ExponentialBackoff =
  boBase :: duration
  boMax :: duration
  ResetAfter :: duration
  Jitter :: float64
  cur :: duration

definition NewExponentialBackoff :: "duration \<Rightarrow> duration \<Rightarrow> duration \<Rightarrow> float64 \<Rightarrow> ExponentialBackoff" where
  "NewExponentialBackoff base mx resetAfter jitter =
     \<lparr>boBase = (if base \<le> 0 then second else base),
      boMax = (if mx \<le> 0 then 30 * second else mx),
      ResetAfter = (if resetAfter \<le> 0 then 30 * second else resetAfter),
      Jitter = (if f64_lt jitter (Fin 0) then Fin 0 else jitter), cur = 0\<rparr>"

text \<open>\<open>r\<close> is the number that the random generator draws.\<close>

definition Next :: "ExponentialBackoff \<Rightarrow> duration \<Rightarrow> float64 \<Rightarrow> duration \<times> ExponentialBackoff" where
  "Next b uptime r =
     (let c = (if uptime \<ge> ResetAfter b then 0 else cur b);
          c = (if c = 0 then boBase b
               else let d = wrap64 (c * 2) in if d > boMax b then boMax b else d);
          delay = (if f64_lt (Fin 0) (Jitter b)
                   then wrap64 (c + f64_toInt64 (f64_mul (f64_mul r (Jitter b)) (round64 (of_int c))))
                   else c)
      in (delay, b\<lparr>cur := c\<rparr>))"

text \<open>The backoff after a sequence of failures, given by the uptimes of the worker and the draws.\<close>

fun failures :: "ExponentialBackoff \<Rightarrow> (duration \<times> float64) list \<Rightarrow> ExponentialBackoff" where
  "failures b [] = b"
| "failures b ((u, r) # fs) = failures (snd (Next b u r)) fs"

lemma failures_snoc: "failures b (fs @ [(u, r)]) = snd (Next (failures b fs) u r)"
  by (induction b fs rule: failures.induct) auto

lemma Next_fields [simp]:
  "boBase (snd (Next b u r)) = boBase b" "boMax (snd (Next b u r)) = boMax b"
  "ResetAfter (snd (Next b u r)) = ResetAfter b" "Jitter (snd (Next b u r)) = Jitter b"
  by (simp_all add: Next_def Let_def)

lemma failures_fields [simp]:
  "boBase (failures b fs) = boBase b" "boMax (failures b fs) = boMax b"
  "ResetAfter (failures b fs) = ResetAfter b" "Jitter (failures b fs) = Jitter b"
  by (induction b fs rule: failures.induct) auto

text \<open>The number of failures since the worker last ran for long, not counting the first.\<close>

definition streak :: "duration \<Rightarrow> (duration \<times> float64) list \<Rightarrow> nat" where
  "streak limit fs = length (takeWhile (\<lambda>(u, r). u < limit) (rev (tl fs)))"

lemma min_double: "(0::int) < b \<Longrightarrow> b \<le> m \<Longrightarrow> min m (2 * min m (b * 2 ^ n)) = min m (b * 2 ^ Suc n)"
  by (auto simp: min_def)

lemma cur_streak:
  assumes b: "0 < boBase b" "boBase b \<le> boMax b" "boMax b < 2 ^ 62" and new: "cur b = 0"
  shows "fs \<noteq> [] \<Longrightarrow> cur (failures b fs) = min (boMax b) (boBase b * 2 ^ streak (ResetAfter b) fs)"
proof (induction fs rule: rev_induct)
  case (snoc f fs)
  obtain u r where f: "f = (u, r)" by (cases f)
  show ?case
  proof (cases "fs = []")
    case True
    then show ?thesis using b new f by (simp add: streak_def Next_def Let_def)
  next
    case False
    let ?c = "cur (failures b fs)"
    have ih: "?c = min (boMax b) (boBase b * 2 ^ streak (ResetAfter b) fs)" using snoc False by simp
    have pos: "0 < ?c" "?c < 2 ^ 62" unfolding ih using b by (auto simp: min_def)
    show ?thesis
    proof (cases "u \<ge> ResetAfter b")
      case True
      then have "streak (ResetAfter b) (fs @ [f]) = 0" using False f by (simp add: streak_def)
      then show ?thesis using True b f by (simp add: failures_snoc Next_def Let_def)
    next
      case u: False
      then have s: "streak (ResetAfter b) (fs @ [f]) = Suc (streak (ResetAfter b) fs)" using False f by (simp add: streak_def)
      have "wrap64 (?c * 2) = 2 * ?c" using pos by (subst wrap64_id) auto
      then have "cur (failures b (fs @ [f])) = min (boMax b) (2 * ?c)"
        using u f pos by (auto simp: failures_snoc Next_def Let_def)
      then show ?thesis unfolding s ih using min_double [OF b(1,2)] by simp
    qed
  qed
qed simp

text \<open>C30: The backoff doubles from the base delay up to the maximum: after any sequence of failures,
  the current delay is the base delay doubled once for each failure since the worker last ran for
  at least \<^verbatim>\<open>ResetAfter\<close>, or the maximum if that is less. Without jitter it is the delay
  returned. The base must not exceed the maximum, and the maximum must be below 2^62 nanoseconds,
  beyond which doubling wraps around.
\<close>

theorem backoff_doubles_up_to_max:
  assumes "0 < base" "base \<le> mx" "mx < 2 ^ 62" "0 < reset"
  shows "cur (failures (NewExponentialBackoff base mx reset jitter) (fs @ [(u, r)]))
      = min mx (base * 2 ^ streak reset (fs @ [(u, r)]))
    \<and> fst (Next (failures (NewExponentialBackoff base mx reset (Fin 0)) fs) u r)
      = min mx (base * 2 ^ streak reset (fs @ [(u, r)]))"
proof -
  have c: "cur (failures (NewExponentialBackoff base mx reset j) (fs @ [(u, r)])) = min mx (base * 2 ^ streak reset (fs @ [(u, r)]))" for j
    using cur_streak [of "NewExponentialBackoff base mx reset j" "fs @ [(u, r)]"] assms
    by (simp add: NewExponentialBackoff_def)
  have "Jitter (failures (NewExponentialBackoff base mx reset (Fin 0)) fs) = Fin 0" by (simp add: NewExponentialBackoff_def)
  then have "fst (Next (failures (NewExponentialBackoff base mx reset (Fin 0)) fs) u r)
      = cur (failures (NewExponentialBackoff base mx reset (Fin 0)) (fs @ [(u, r)]))"
    by (simp add: failures_snoc Next_def Let_def)
  then show ?thesis using c by simp
qed

theorem backoff_doubles_up_to_max_witness:
  "cur (failures (NewExponentialBackoff 1 5 10 (Fin 0)) ([(0, NaN), (3, NaN)] @ [(2, NaN)])) = 4
    \<and> fst (Next (failures (NewExponentialBackoff 1 5 10 (Fin 0)) [(0, NaN), (3, NaN)]) 2 NaN) = 4"
  using backoff_doubles_up_to_max [of 1 5 10 "Fin 0" "[(0, NaN), (3, NaN)]" 2 NaN] by (simp add: streak_def)

text \<open>Beyond the bound the doubled delay wraps to a negative one, which \<^verbatim>\<open>time.After\<close> lets
  pass at once.\<close>

lemma backoff_can_wrap:
  "cur (failures (NewExponentialBackoff (2 ^ 62) (2 ^ 62 + 1) 10 (Fin 0)) [(0, NaN), (0, NaN)]) = - (2 ^ 63)"
  by (simp add: NewExponentialBackoff_def Next_def Let_def wrap64_def)

section \<open>The restart loop\<close>

text \<open>
  What the worker and the context do is given for each round of the loop: the error with which the
  worker returns and its uptime, whether the context is done by then, the draw of the random
  generator, and whether the context is done before the delay is over. The loop returns the delays
  it waited; it has no result of its own, since \<^verbatim>\<open>Run\<close> always returns nil. \<open>None\<close> means
  that the rounds given were not enough for it to return.
\<close>

record workerRound =
  exitErr :: "goerror option"
  uptime :: duration
  doneAfterRun :: bool
  draw :: float64
  doneInDelay :: bool

fun superviseLoop :: "ExponentialBackoff \<Rightarrow> workerRound list \<Rightarrow> duration list option" where
  "superviseLoop b [] = None"
| "superviseLoop b (w # ws) =
     (if doneAfterRun w then Some []
      else if exitErr w = None then Some []
      else case Next b (uptime w) (draw w) of
        (delay, b') \<Rightarrow>
          if doneInDelay w then Some [delay]
          else map_option (\<lambda>ds. delay # ds) (superviseLoop b' ws))"

definition SupervisorRun :: "ExponentialBackoff option \<Rightarrow> workerRound list \<Rightarrow> duration list option" where
  "SupervisorRun b ws =
     superviseLoop (case b of Some b \<Rightarrow> b
       | None \<Rightarrow> NewExponentialBackoff second (30 * second) (30 * second) (round64 (1 / 10))) ws"

text \<open>A round after which the loop goes on.\<close>

definition restarts :: "workerRound \<Rightarrow> bool" where
  "restarts w \<longleftrightarrow> \<not> doneAfterRun w \<and> exitErr w \<noteq> None \<and> \<not> doneInDelay w"

lemma superviseLoop_returns:
  "(\<exists>w \<in> set ws. \<not> restarts w) \<Longrightarrow>
     \<exists>ds. superviseLoop b ws = Some ds \<and> length (takeWhile restarts ws) \<le> length ds
       \<and> length ds \<le> Suc (length (takeWhile restarts ws))"
proof (induction ws arbitrary: b)
  case (Cons w ws)
  show ?case
  proof (cases "restarts w")
    case True
    obtain d b' where n: "Next b (uptime w) (draw w) = (d, b')" by fastforce
    have "\<exists>v \<in> set ws. \<not> restarts v" using Cons.prems True by auto
    then obtain ds where "superviseLoop b' ws = Some ds" "length (takeWhile restarts ws) \<le> length ds"
        "length ds \<le> Suc (length (takeWhile restarts ws))"
      using Cons.IH [of b'] by blast
    moreover have "\<not> doneAfterRun w" "exitErr w \<noteq> None" "\<not> doneInDelay w" using True by (auto simp: restarts_def)
    ultimately show ?thesis using True n by simp
  next
    case False
    obtain d b' where n: "Next b (uptime w) (draw w) = (d, b')" by fastforce
    show ?thesis using False n by (auto simp: restarts_def)
  qed
qed simp

lemma superviseLoop_stuck: "list_all restarts ws \<Longrightarrow> superviseLoop b ws = None"
  by (induction b ws rule: superviseLoop.induct) (auto simp: restarts_def split: prod.split)

text \<open>The i-th delay comes from the backoff after the first i failures.\<close>

lemma superviseLoop_delays:
  "superviseLoop b ws = Some ds \<Longrightarrow> i < length ds \<Longrightarrow>
     ds ! i = fst (Next (failures b (map (\<lambda>w. (uptime w, draw w)) (take i ws))) (uptime (ws ! i)) (draw (ws ! i)))"
proof (induction ws arbitrary: b ds i)
  case (Cons w ws)
  obtain d b' where n: "Next b (uptime w) (draw w) = (d, b')" by fastforce
  show ?case
  proof (cases "restarts w")
    case True
    then obtain ds' where ds: "ds = d # ds'" "superviseLoop b' ws = Some ds'"
      using Cons.prems(1) n by (auto simp: restarts_def)
    then show ?thesis using Cons.IH [of b' ds' "i - 1"] n Cons.prems(2) by (cases i) auto
  next
    case False
    then show ?thesis using Cons.prems n by (auto simp: restarts_def split: if_splits)
  qed
qed simp

text \<open>C31: The supervisor restarts its worker exactly as long as it crashes. It returns as soon as, and
  not before, the worker ends without an error or the context is done, having waited at least once
  per crash that it survived; and the delay after each crash is the one the backoff gives for the
  crashes so far.
\<close>

theorem supervisor_restarts_until_done:
  "(SupervisorRun (Some b) ws \<noteq> None \<longleftrightarrow> (\<exists>w \<in> set ws. doneAfterRun w \<or> exitErr w = None \<or> doneInDelay w))
    \<and> (\<forall>ds i. SupervisorRun (Some b) ws = Some ds \<longrightarrow> length (takeWhile restarts ws) \<le> length ds \<and>
        (i < length ds \<longrightarrow> ds ! i
          = fst (Next (failures b (map (\<lambda>w. (uptime w, draw w)) (take i ws))) (uptime (ws ! i)) (draw (ws ! i)))))"
proof -
  have "(\<exists>w \<in> set ws. doneAfterRun w \<or> exitErr w = None \<or> doneInDelay w) \<longleftrightarrow> (\<exists>w \<in> set ws. \<not> restarts w)"
    by (auto simp: restarts_def)
  moreover have "superviseLoop b ws \<noteq> None \<longleftrightarrow> (\<exists>w \<in> set ws. \<not> restarts w)"
    using superviseLoop_returns [of ws b] superviseLoop_stuck [of ws b] unfolding list_all_iff by fastforce
  ultimately show ?thesis
    using superviseLoop_returns [of ws b] superviseLoop_delays [of b ws] by (fastforce simp: SupervisorRun_def)
qed

theorem supervisor_restarts_until_done_witness:
  "SupervisorRun (Some (NewExponentialBackoff 1 5 10 (Fin 0)))
     [\<lparr>exitErr = Some (StdErr ''x'' None), uptime = 3, doneAfterRun = False, draw = NaN, doneInDelay = False\<rparr>,
      \<lparr>exitErr = None, uptime = 3, doneAfterRun = False, draw = NaN, doneInDelay = False\<rparr>] \<noteq> None"
  using supervisor_restarts_until_done [of "NewExponentialBackoff 1 5 10 (Fin 0)"
     "[\<lparr>exitErr = Some (StdErr ''x'' None), uptime = 3, doneAfterRun = False, draw = NaN, doneInDelay = False\<rparr>,
       \<lparr>exitErr = None, uptime = 3, doneAfterRun = False, draw = NaN, doneInDelay = False\<rparr>]"]
  by simp

end
