(* ===== verification/JsonText.thy ===== *)
theory JsonText
  imports GoMarshal GoFloat "HOL-Library.List_Lexorder" "HOL-Library.Char_ord"
begin

text \<open>
  \<^verbatim>\<open>encoding/json\<close> between text and values: the syntax that the decoder accepts, with its strings
  decoded to UTF-8 and its numbers kept as literals (\<^verbatim>\<open>UseNumber\<close>), the value of an object in a Go
  map, and the text that the encoder writes. A Go map is the list of its members sorted by key, so
  that equal maps are equal lists. The parser recurses with fuel; a value takes at least one
  character, so that the length of the text is enough, which is proved.
\<close>

datatype jval = JvNull | JvBool bool | JvNum string | JvStr string | JvArr "jval list" | JvObj "(string \<times> jval) list"

section \<open>Strings\<close>

definition isHex :: "char \<Rightarrow> bool" where
  "isHex c \<longleftrightarrow> isDigit c \<or> byteIn 97 102 c \<or> byteIn 65 70 c"

definition hexOf :: "char \<Rightarrow> nat" where
  "hexOf c = (if isDigit c then of_char c - 48 else if byteIn 97 102 c then of_char c - 87 else of_char c - 55)"

definition hex4 :: "string \<Rightarrow> nat option" where
  "hex4 s = (case s of a # b # c # d # r \<Rightarrow>
       if isHex a \<and> isHex b \<and> isHex c \<and> isHex d then Some (((hexOf a * 16 + hexOf b) * 16 + hexOf c) * 16 + hexOf d) else None
     | _ \<Rightarrow> None)"

definition encodeRune :: "nat \<Rightarrow> string" where
  "encodeRune n =
     (if n < 0x80 then [char_of n]
      else if n < 0x800 then [char_of (0xC0 + n div 64), char_of (0x80 + n mod 64)]
      else if n < 0x10000 then [char_of (0xE0 + n div 4096), char_of (0x80 + n div 64 mod 64), char_of (0x80 + n mod 64)]
      else [char_of (0xF0 + n div 262144), char_of (0x80 + n div 4096 mod 64), char_of (0x80 + n div 64 mod 64), char_of (0x80 + n mod 64)])"

definition replacement :: string where
  "replacement = [CHR 0xEF, CHR 0xBF, CHR 0xBD]"

text \<open>The character of a \<^verbatim>\<open>\u\<close> escape and how many characters after the four digits belong to it: a
  pair of surrogates takes a second escape.\<close>

definition escapedRune :: "nat \<Rightarrow> string \<Rightarrow> string \<times> nat" where
  "escapedRune n r =
     (if \<not> (0xD800 \<le> n \<and> n < 0xE000) then (encodeRune n, 0)
      else case (if take 2 r = [CHR 0x5C, CHR ''u''] then hex4 (drop 2 r) else None) of
        Some m \<Rightarrow> if n < 0xDC00 \<and> 0xDC00 \<le> m \<and> m < 0xE000
                   then (encodeRune (0x10000 + (n - 0xD800) * 1024 + (m - 0xDC00)), 6) else (replacement, 0)
      | None \<Rightarrow> (replacement, 0))"

definition simpleEscape :: "char \<Rightarrow> char option" where
  "simpleEscape e =
     (if e \<in> {CHR 0x22, CHR 0x5C, CHR ''/''} then Some e
      else if e = CHR ''b'' then Some (CHR 0x08) else if e = CHR ''f'' then Some (CHR 0x0C)
      else if e = CHR ''n'' then Some (CHR 0x0A) else if e = CHR ''r'' then Some (CHR 0x0D)
      else if e = CHR ''t'' then Some (CHR 0x09) else None)"

definition emit :: "string \<Rightarrow> (string \<times> string) option \<Rightarrow> (string \<times> string) option" where
  "emit p = map_option (\<lambda>(s, r). (p @ s, r))"

text \<open>The rest of a string after its opening quote.\<close>

function scanString :: "string \<Rightarrow> (string \<times> string) option" where
  "scanString s = (case s of
       [] \<Rightarrow> None
     | c # r \<Rightarrow>
         if c = CHR 0x22 then Some ([], r)
         else if c = CHR 0x5C then
           (case r of
              [] \<Rightarrow> None
            | e # r \<Rightarrow>
                if e = CHR ''u'' then
                  (case hex4 r of
                     None \<Rightarrow> None
                   | Some n \<Rightarrow> emit (fst (escapedRune n (drop 4 r))) (scanString (drop (4 + snd (escapedRune n (drop 4 r))) r)))
                else (case simpleEscape e of None \<Rightarrow> None | Some x \<Rightarrow> emit [x] (scanString r)))
         else if byteIn 0 31 c then None
         else if runeLen s = 0 then emit replacement (scanString r)
         else emit (take (runeLen s) s) (scanString (drop (runeLen s) s)))"
  by pat_completeness auto
termination
proof (relation "measure length")
  show "(drop (runeLen s) s, s) \<in> measure length" if "s = c # r" "runeLen s \<noteq> 0" for s :: string and c r
    using that by simp
qed auto

declare scanString.simps [simp del]

lemma emit_Some: "emit p m = Some (x, r) \<longleftrightarrow> (\<exists>y. m = Some (y, r) \<and> x = p @ y)"
  by (auto simp: emit_def)

lemmas scanString_Cons = scanString.simps [of "c # r" for c r, unfolded list.case]

lemma scanString_shorter: "scanString s = Some (x, r) \<Longrightarrow> length r < length s"
proof (induction "length s" arbitrary: s x r rule: less_induct)
  case less
  show ?case
  proof (cases s)
    case Nil
    then show ?thesis using less(2) by (simp add: scanString.simps)
  next
    case (Cons c t)
    have IH: "length r < length s" if "scanString u = Some (y, r)" "length u < length s" for u y
      using less(1) [OF that(2,1)] that(2) by simp
    note eq = less(2) [unfolded Cons scanString_Cons]
    consider "c = CHR 0x22" | "c = CHR 0x5C" | "c \<noteq> CHR 0x22" "c \<noteq> CHR 0x5C" by blast
    then show ?thesis
    proof cases
      case 1
      then show ?thesis using eq Cons by simp
    next
      case 2
      then obtain e u where t: "t = e # u" using eq by (cases t) simp_all
      show ?thesis
      proof (cases "e = CHR ''u''")
        case True
        then show ?thesis using eq 2 t Cons IH by (auto simp: emit_Some split: option.splits)
      next
        case False
        then show ?thesis using eq 2 t Cons IH by (auto simp: emit_Some split: option.splits)
      qed
    next
      case 3
      then show ?thesis using eq Cons IH by (auto simp: emit_Some split: if_splits)
    qed
  qed
qed

section \<open>Numbers\<close>

definition numberChar :: "char \<Rightarrow> bool" where
  "numberChar c \<longleftrightarrow> isDigit c \<or> c \<in> {CHR ''.'', CHR ''e'', CHR ''E'', CHR ''+'', CHR ''-''}"

definition fractionOK :: "string \<Rightarrow> bool" where
  "fractionOK s = (case s of [] \<Rightarrow> True | c # r \<Rightarrow> c = CHR ''.'' \<and> r \<noteq> [] \<and> list_all isDigit r)"

definition exponentOK :: "string \<Rightarrow> bool" where
  "exponentOK s = (case s of [] \<Rightarrow> True | c # r \<Rightarrow> (c = CHR ''e'' \<or> c = CHR ''E'') \<and>
     (let ds = (case r of d # ds \<Rightarrow> if d = CHR ''+'' \<or> d = CHR ''-'' then ds else r | [] \<Rightarrow> [])
      in ds \<noteq> [] \<and> list_all isDigit ds))"

text \<open>The grammar of a JSON number.\<close>

definition isValidNumber :: "string \<Rightarrow> bool" where
  "isValidNumber s =
     (let s = (case s of c # r \<Rightarrow> if c = CHR ''-'' then r else s | [] \<Rightarrow> s);
          ip = takeWhile isDigit s;
          rest = drop (length ip) s;
          fp = takeWhile (\<lambda>c. isDigit c \<or> c = CHR ''.'') rest
      in ip \<noteq> [] \<and> (hd ip = CHR ''0'' \<longrightarrow> ip = ''0'') \<and> fractionOK fp \<and> exponentOK (drop (length fp) rest))"

text \<open>A number ends where a character cannot belong to one; no other character may follow a number
  in a document anyway.\<close>

definition scanNumber :: "string \<Rightarrow> (jval \<times> string) option" where
  "scanNumber s = (let lit = takeWhile numberChar s in if isValidNumber lit then Some (JvNum lit, drop (length lit) s) else None)"

section \<open>Documents\<close>

definition isSpaceChar :: "char \<Rightarrow> bool" where
  "isSpaceChar c \<longleftrightarrow> c \<in> {CHR 0x20, CHR 0x09, CHR 0x0D, CHR 0x0A}"

abbreviation skipWs :: "string \<Rightarrow> string" where
  "skipWs s \<equiv> dropWhile isSpaceChar s"

definition literal :: "string \<Rightarrow> jval \<Rightarrow> string \<Rightarrow> (jval \<times> string) option" where
  "literal word v s = (if hasPrefix s word then Some (v, drop (length word) s) else None)"

abbreviation maxNestingDepth :: int where "maxNestingDepth \<equiv> 10000"

fun parseJson :: "nat \<Rightarrow> int \<Rightarrow> string \<Rightarrow> (jval \<times> string) option"
and parseElems :: "nat \<Rightarrow> int \<Rightarrow> string \<Rightarrow> (jval list \<times> string) option"
and parseMembers :: "nat \<Rightarrow> int \<Rightarrow> string \<Rightarrow> ((string \<times> jval) list \<times> string) option" where
  "parseJson 0 d s = None"
| "parseJson (Suc f) d s = (case s of
       [] \<Rightarrow> None
     | c # r \<Rightarrow>
         if c = CHR 0x22 then map_option (\<lambda>(x, r). (JvStr x, r)) (scanString r)
         else if c = CHR ''['' then
           (if d \<ge> maxNestingDepth then None
            else if take 1 (skipWs r) = '']'' then Some (JvArr [], drop 1 (skipWs r))
            else map_option (\<lambda>(vs, r). (JvArr vs, r)) (parseElems f (d + 1) (skipWs r)))
         else if c = CHR ''{'' then
           (if d \<ge> maxNestingDepth then None
            else if take 1 (skipWs r) = ''}'' then Some (JvObj [], drop 1 (skipWs r))
            else map_option (\<lambda>(ms, r). (JvObj ms, r)) (parseMembers f (d + 1) (skipWs r)))
         else if c = CHR ''t'' then literal ''true'' (JvBool True) s
         else if c = CHR ''f'' then literal ''false'' (JvBool False) s
         else if c = CHR ''n'' then literal ''null'' JvNull s
         else scanNumber s)"
| "parseElems 0 d s = None"
| "parseElems (Suc f) d s = (case parseJson f d s of
       None \<Rightarrow> None
     | Some (v, r) \<Rightarrow>
         (case skipWs r of
            [] \<Rightarrow> None
          | c # r \<Rightarrow>
              if c = CHR '']'' then Some ([v], r)
              else if c = CHR '','' then map_option (\<lambda>(vs, r). (v # vs, r)) (parseElems f d (skipWs r))
              else None))"
| "parseMembers 0 d s = None"
| "parseMembers (Suc f) d s = (case s of
       [] \<Rightarrow> None
     | q # r \<Rightarrow>
         if q \<noteq> CHR 0x22 then None
         else case scanString r of
           None \<Rightarrow> None
         | Some (k, r) \<Rightarrow>
             (case skipWs r of
                [] \<Rightarrow> None
              | c # r \<Rightarrow>
                  if c \<noteq> CHR '':'' then None
                  else case parseJson f d (skipWs r) of
                    None \<Rightarrow> None
                  | Some (v, r) \<Rightarrow>
                      (case skipWs r of
                         [] \<Rightarrow> None
                       | c # r \<Rightarrow>
                           if c = CHR ''}'' then Some ([(k, v)], r)
                           else if c = CHR '','' then map_option (\<lambda>(ms, r). ((k, v) # ms, r)) (parseMembers f d (skipWs r))
                           else None)))"

text \<open>\<^verbatim>\<open>Decoder.Decode\<close> reads one value and leaves the rest; \<^verbatim>\<open>Unmarshal\<close> wants nothing to follow.\<close>

definition decodeFirst :: "string \<Rightarrow> jval option" where
  "decodeFirst s = map_option fst (parseJson (2 * length s + 1) 0 (skipWs s))"

definition decodeWhole :: "string \<Rightarrow> jval option" where
  "decodeWhole s = (case parseJson (2 * length s + 1) 0 (skipWs s) of
       Some (v, r) \<Rightarrow> if skipWs r = [] then Some v else None
     | None \<Rightarrow> None)"

section \<open>The text of a value\<close>

fun marshalVal :: "jval \<Rightarrow> string" where
  "marshalVal JvNull = ''null''"
| "marshalVal (JvBool b) = (if b then ''true'' else ''false'')"
| "marshalVal (JvNum lit) = lit"
| "marshalVal (JvStr s) = quoteJSON s"
| "marshalVal (JvArr vs) = ''['' @ joinComma (map marshalVal vs) @ '']''"
| "marshalVal (JvObj ms) = ''{'' @ joinComma (map (\<lambda>(k, v). quoteJSON k @ '':'' @ marshalVal v) ms) @ ''}''"

section \<open>Valid text\<close>

definition isRune :: "string \<Rightarrow> bool" where
  "isRune p \<longleftrightarrow> p \<noteq> [] \<and> runeLen p = length p"

text \<open>A string of runes: what the decoder returns for a JSON string.\<close>

inductive validText :: "string \<Rightarrow> bool" where
  empty [simp]: "validText []"
| rune: "isRune p \<Longrightarrow> validText s \<Longrightarrow> validText (p @ s)"

lemma runeLen_le: "runeLen s \<le> length s"
  by (cases s rule: runeLen.cases) (auto split: list.split)

lemma runeLen_take: "runeLen s \<noteq> 0 \<Longrightarrow> runeLen (take (runeLen s) s @ t) = runeLen s"
proof -
  consider "s = []" | a where "s = [a]" | a b where "s = [a, b]" | a b c where "s = [a, b, c]" | a b c d u where "s = a # b # c # d # u"
    by (metis list.exhaust)
  then show "runeLen s \<noteq> 0 \<Longrightarrow> runeLen (take (runeLen s) s @ t) = runeLen s"
    by cases (auto split: if_splits)
qed

lemma isRune_take: "runeLen s \<noteq> 0 \<Longrightarrow> isRune (take (runeLen s) s)"
  using runeLen_take [of s "[]"] runeLen_le [of s] by (auto simp: isRune_def)

lemma runeLen_rune: "isRune p \<Longrightarrow> runeLen (p @ s) = length p"
  using runeLen_take [of p s] by (cases p) (auto simp: isRune_def)

lemma isRune_ascii: "byteIn 0 127 c \<Longrightarrow> isRune [c]"
  by (simp add: isRune_def)

lemma byteIn_char_of: "n < 256 \<Longrightarrow> byteIn lo hi (char_of n) \<longleftrightarrow> lo \<le> n \<and> n \<le> hi"
  by (simp add: byteIn_def)

text \<open>The digits of a number to the base 64.\<close>

lemma base64_digits:
  fixes n :: nat
  shows "n = n div 64 * 64 + n mod 64" "n div 64 = n div 4096 * 64 + n div 64 mod 64" "n div 4096 = n div 262144 * 64 + n div 4096 mod 64"
    "n mod 64 < 64" "n div 64 mod 64 < 64" "n div 4096 mod 64 < 64"
proof -
  have "n div 4096 = n div 64 div 64" "n div 262144 = n div 4096 div 64" by (simp_all flip: div_mult2_eq)
  then show "n div 64 = n div 4096 * 64 + n div 64 mod 64" "n div 4096 = n div 262144 * 64 + n div 4096 mod 64" by simp_all
qed simp_all

lemma isRune_encode:
  assumes "n < 0x110000" "\<not> (0xD800 \<le> n \<and> n < 0xE000)"
  shows "isRune (encodeRune n)"
proof -
  define a b c d where "a = n div 262144" and "b = n div 4096 mod 64" and "c = n div 64 mod 64" and "d = n mod 64"
  note digits = base64_digits [of n, folded a_def b_def c_def d_def]
  define h k where "h = n div 4096" and "k = n div 64"
  note digits = digits [folded h_def k_def]
  consider "n < 0x80" | "0x80 \<le> n" "n < 0x800" | "0x800 \<le> n" "n < 0x10000" | "0x10000 \<le> n" by linarith
  then show ?thesis
  proof cases
    case 1
    then show ?thesis by (simp add: encodeRune_def isRune_def byteIn_char_of)
  next
    case 2
    then have "2 \<le> k" "k < 32" using digits by linarith+
    moreover have "encodeRune n = [char_of (0xC0 + k), char_of (0x80 + d)]" using 2 by (simp add: encodeRune_def k_def d_def)
    ultimately show ?thesis using digits(4) by (simp add: isRune_def byteIn_char_of)
  next
    case 3
    then have "h < 16" "h = 0 \<Longrightarrow> 32 \<le> c" "h = 13 \<Longrightarrow> c < 32" using digits assms(2) by linarith+
    moreover have "encodeRune n = [char_of (0xE0 + h), char_of (0x80 + c), char_of (0x80 + d)]" using 3 by (simp add: encodeRune_def h_def c_def d_def)
    ultimately show ?thesis using digits(4,5) by (simp add: isRune_def byteIn_char_of) linarith
  next
    case 4
    then have "a \<le> 4" "a = 0 \<Longrightarrow> 16 \<le> b" "a = 4 \<Longrightarrow> b < 16" using digits assms(1) by linarith+
    moreover have "encodeRune n = [char_of (0xF0 + a), char_of (0x80 + b), char_of (0x80 + c), char_of (0x80 + d)]"
      using 4 by (simp add: encodeRune_def a_def b_def c_def d_def)
    ultimately show ?thesis using digits(4,5,6) by (simp add: isRune_def byteIn_char_of) linarith
  qed
qed

lemma hexOf_less: "isHex c \<Longrightarrow> hexOf c < 16"
  by (auto simp: isHex_def hexOf_def byteIn_def isDigit_def)

lemma hex4_less:
  assumes "hex4 s = Some n"
  shows "n < 0x10000"
proof -
  obtain a b c d r where s: "s = a # b # c # d # r" "isHex a" "isHex b" "isHex c" "isHex d"
    "n = ((hexOf a * 16 + hexOf b) * 16 + hexOf c) * 16 + hexOf d"
    using assms by (auto simp: hex4_def split: list.splits if_splits)
  then show ?thesis using hexOf_less [of a] hexOf_less [of b] hexOf_less [of c] hexOf_less [of d] by simp
qed

lemma isRune_replacement: "isRune replacement"
  by (simp add: isRune_def replacement_def byteIn_def)

lemma isRune_escaped: "hex4 s = Some n \<Longrightarrow> isRune (fst (escapedRune n r))"
  by (auto simp: escapedRune_def isRune_replacement intro!: isRune_encode dest!: hex4_less split: option.split)

lemma scanString_valid: "scanString s = Some (x, r) \<Longrightarrow> validText x"
proof (induction "length s" arbitrary: s x r rule: less_induct)
  case less
  show ?case
  proof (cases s)
    case Nil
    then show ?thesis using less(2) by (simp add: scanString.simps)
  next
    case (Cons c t)
    have IH: "validText x" if "emit p (scanString u) = Some (x, r)" "isRune p" "length u < length s" for p u
      using that less(1) [OF that(3)] by (auto simp: emit_Some intro: validText.rune)
    note eq = less(2) [unfolded Cons scanString_Cons]
    consider "c = CHR 0x22" | "c = CHR 0x5C" | "c \<noteq> CHR 0x22" "c \<noteq> CHR 0x5C" by blast
    then show ?thesis
    proof cases
      case 1
      then show ?thesis using eq by simp
    next
      case 2
      then obtain e u where t: "t = e # u" using eq by (cases t) simp_all
      show ?thesis
      proof (cases "e = CHR ''u''")
        case True
        then obtain n where n: "hex4 u = Some n" using eq 2 t by (auto split: option.splits)
        show ?thesis
          by (rule IH [of "fst (escapedRune n (drop 4 u))" "drop (4 + snd (escapedRune n (drop 4 u))) u"])
            (use eq 2 t True n Cons isRune_escaped [OF n] in simp_all)
      next
        case False
        then obtain y where y: "simpleEscape e = Some y" using eq 2 t by (auto split: option.splits)
        then have "byteIn 0 127 y" by (auto simp: simpleEscape_def byteIn_def split: if_splits)
        then show ?thesis using IH [of "[y]" u] eq 2 t False y Cons by (simp add: isRune_ascii)
      qed
    next
      case 3
      then show ?thesis
        using eq Cons IH [of replacement t] IH [of "take (runeLen s) s" "drop (runeLen s) s"] isRune_replacement isRune_take [of s]
        by (auto split: if_splits)
    qed
  qed
qed

section \<open>Strings are read back\<close>

lemma hexLower_hex: "k < 16 \<Longrightarrow> isHex (hexLower k) \<and> hexOf (hexLower k) = k"
proof -
  have "\<forall>k \<in> set [0..<16]. isHex (hexLower k) \<and> hexOf (hexLower k) = k" by code_simp
  then show "k < 16 \<Longrightarrow> isHex (hexLower k) \<and> hexOf (hexLower k) = k" by simp
qed

lemma scan_control:
  assumes "n < 128"
  shows "scanString (CHR 0x5C # ''u00'' @ hexLower (n div 16) # hexLower (n mod 16) # t) = emit [char_of n] (scanString t)"
proof -
  have "isHex (CHR ''0'')" "hexOf (CHR ''0'') = 0" by code_simp+
  moreover have "n div 16 < 16" "n mod 16 < 16" using assms by simp_all
  ultimately have "hex4 (CHR ''0'' # CHR ''0'' # hexLower (n div 16) # hexLower (n mod 16) # t) = Some n"
    using hexLower_hex by (simp add: hex4_def)
  moreover have "escapedRune n t = ([char_of n], 0)" using assms by (simp add: escapedRune_def encodeRune_def)
  ultimately show ?thesis by (simp add: scanString_Cons)
qed

lemma scan_escapeByte:
  assumes "byteIn 0 127 c"
  shows "scanString (escapeByte c @ t) = emit [c] (scanString t)"
proof -
  have n: "of_char c < (128 :: nat)" using assms by (simp add: byteIn_def)
  show ?thesis
  proof (cases "htmlSafe c")
    case True
    then have "c \<noteq> CHR 0x22" "c \<noteq> CHR 0x5C" "\<not> byteIn 0 31 c" by (auto simp: htmlSafe_def byteIn_def)
    then show ?thesis using True assms by (simp add: escapeByte_def scanString_Cons [of c])
  next
    case False
    then show ?thesis using scan_control [OF n, of t]
      by (auto simp: escapeByte_def scanString_Cons [of "CHR 0x5C"] simpleEscape_def)
  qed
qed

lemma scan_rune:
  assumes "isRune p" "\<not> byteIn 0 127 (hd p)"
  shows "scanString (p @ t) = emit p (scanString t)"
proof -
  obtain c q where p: "p = c # q" using assms(1) by (cases p) (auto simp: isRune_def)
  have "c \<noteq> CHR 0x22" "c \<noteq> CHR 0x5C" "\<not> byteIn 0 31 c" using assms(2) by (auto simp: p byteIn_def)
  moreover have "runeLen (p @ t) = length p" using runeLen_rune [OF assms(1)] .
  ultimately show ?thesis using p by (simp add: scanString_Cons [of c])
qed

lemma separator_rune:
  assumes "isRune p" "take 3 (p @ s) = [CHR 0xE2, CHR 0x80, x]" "byteIn 128 191 x"
  shows "p = [CHR 0xE2, CHR 0x80, x]"
proof -
  obtain u where u: "p @ s = CHR 0xE2 # CHR 0x80 # x # u" using assms(2) by (metis append_take_drop_id append_Cons append_Nil)
  have "runeLen (p @ s) = 3" unfolding u using assms(3) by (simp add: byteIn_def)
  then have "length p = 3" using runeLen_rune [OF assms(1), of s] by simp
  then show ?thesis using assms(2) by simp
qed

lemma scan_separator: "scanString (CHR 0x5C # ''u2028'' @ t) = emit [CHR 0xE2, CHR 0x80, CHR 0xA8] (scanString t)"
  "scanString (CHR 0x5C # ''u2029'' @ t) = emit [CHR 0xE2, CHR 0x80, CHR 0xA9] (scanString t)"
proof -
  have h: "isHex (CHR ''2'')" "isHex (CHR ''0'')" "isHex (CHR ''8'')" "isHex (CHR ''9'')"
    "hexOf (CHR ''2'') = 2" "hexOf (CHR ''0'') = 0" "hexOf (CHR ''8'') = 8" "hexOf (CHR ''9'') = 9" by code_simp+
  have e: "encodeRune 0x2028 = [CHR 0xE2, CHR 0x80, CHR 0xA8]" "encodeRune 0x2029 = [CHR 0xE2, CHR 0x80, CHR 0xA9]"
    by (simp_all add: encodeRune_def char_of_eq_iff)
  show "scanString (CHR 0x5C # ''u2028'' @ t) = emit [CHR 0xE2, CHR 0x80, CHR 0xA8] (scanString t)"
    "scanString (CHR 0x5C # ''u2029'' @ t) = emit [CHR 0xE2, CHR 0x80, CHR 0xA9] (scanString t)"
    using e by (simp_all add: scanString_Cons [of "CHR 0x5C"] hex4_def h escapedRune_def)
qed

lemma scanString_escape: "validText s \<Longrightarrow> scanString (escapeString s @ CHR 0x22 # r) = Some (s, r)"
proof (induction s rule: validText.induct)
  case empty
  then show ?case by (simp add: escapeString.simps scanString_Cons)
next
  case (rune p s)
  obtain c q where p: "p = c # q" using rune(1) by (cases p) (auto simp: isRune_def)
  show ?case
  proof (cases "byteIn 0 127 c")
    case True
    then have "q = []" using rune(1) by (simp add: p isRune_def)
    then show ?thesis using True scan_escapeByte [OF True, of "escapeString s @ CHR 0x22 # r"] rune(3)
      by (simp add: p escapeString.simps [of "c # s"] emit_def)
  next
    case False
    have len: "runeLen (p @ s) = length p" "length p \<noteq> 0" using runeLen_rune [OF rune(1)] p by simp_all
    have sep: "p = [CHR 0xE2, CHR 0x80, x]" if "take 3 (p @ s) = [CHR 0xE2, CHR 0x80, x]" "byteIn 128 191 x" for x
      using separator_rune [OF rune(1) that] .
    have "escapeString (p @ s) = (if take 3 (p @ s) = [CHR 0xE2, CHR 0x80, CHR 0xA8] then CHR 0x5C # ''u2028'' @ escapeString (drop 3 (p @ s))
        else if take 3 (p @ s) = [CHR 0xE2, CHR 0x80, CHR 0xA9] then CHR 0x5C # ''u2029'' @ escapeString (drop 3 (p @ s))
        else p @ escapeString s)"
      using False len by (subst escapeString.simps) (simp add: p)
    moreover have "byteIn 128 191 (CHR 0xA8)" "byteIn 128 191 (CHR 0xA9)" by (simp_all add: byteIn_def)
    ultimately show ?thesis
      using sep scan_separator [of "escapeString s @ CHR 0x22 # r"] scan_rune [OF rune(1), of "escapeString s @ CHR 0x22 # r"] False rune(3)
      by (auto simp: p emit_def)
  qed
qed

section \<open>Documents are read back\<close>

text \<open>The values that can come out of the decoder, and how deep they are nested.\<close>

fun wellFormed :: "jval \<Rightarrow> bool" where
  "wellFormed (JvNum lit) = (isValidNumber lit \<and> list_all numberChar lit)"
| "wellFormed (JvStr s) = validText s"
| "wellFormed (JvArr vs) = list_all wellFormed vs"
| "wellFormed (JvObj ms) = list_all (\<lambda>(k, v). validText k \<and> wellFormed v) ms"
| "wellFormed v = True"

fun depth :: "jval \<Rightarrow> int" where
  "depth (JvArr vs) = 1 + foldr max (map depth vs) 0"
| "depth (JvObj ms) = 1 + foldr max (map (\<lambda>(k, v). depth v) ms) 0"
| "depth v = 0"

lemma foldr_max_le: "foldr max xs (0 :: int) \<le> n \<longleftrightarrow> 0 \<le> n \<and> (\<forall>x \<in> set xs. x \<le> n)"
  by (induction xs) auto

lemma marshal_start:
  assumes "wellFormed v"
  obtains c t where "marshalVal v = c # t" "\<not> isSpaceChar c" "c \<noteq> CHR '']''" "c \<noteq> CHR ''}''"
    "(\<exists>lit. v = JvNum lit) \<longrightarrow> c \<notin> set [CHR 0x22, CHR ''['', CHR ''{'', CHR ''t'', CHR ''f'', CHR ''n'']"
proof (cases v)
  case (JvNum lit)
  obtain c t where lit: "lit = c # t" using assms JvNum by (cases lit) (auto simp: isValidNumber_def)
  then have "c = CHR ''-'' \<or> isDigit c" using assms JvNum by (auto simp: isValidNumber_def Let_def split: if_splits)
  then have "\<not> isSpaceChar c \<and> c \<notin> set [CHR '']'', CHR ''}'', CHR 0x22, CHR ''['', CHR ''{'', CHR ''t'', CHR ''f'', CHR ''n'']"
    by (auto simp: isSpaceChar_def isDigit_def)
  then show ?thesis using that [of c t] lit JvNum by simp
next
  case (JvBool b)
  then show ?thesis using that by (cases b) (auto simp: isSpaceChar_def)
qed (use that in \<open>auto simp: isSpaceChar_def quoteJSON_def\<close>)

lemma skipWs_marshal: "wellFormed v \<Longrightarrow> skipWs (marshalVal v @ t) = marshalVal v @ t"
  by (rule marshal_start [of v]) auto

lemma skipWs_quote: "skipWs (quoteJSON s @ t) = quoteJSON s @ t"
  by (simp add: quoteJSON_def isSpaceChar_def)

definition follows :: "string \<Rightarrow> bool" where
  "follows r \<longleftrightarrow> (case r of [] \<Rightarrow> True | c # _ \<Rightarrow> \<not> numberChar c)"

lemma scanNumber_append:
  assumes "isValidNumber lit" "list_all numberChar lit" "follows r"
  shows "scanNumber (lit @ r) = Some (JvNum lit, r)"
proof -
  have "takeWhile numberChar (lit @ r) = lit"
    using assms(2,3) by (cases r) (auto simp: follows_def list_all_iff takeWhile_append2)
  then show ?thesis using assms(1) by (simp add: scanNumber_def)
qed

lemma follows_simps: "follows (CHR '','' # r)" "follows (CHR '']'' # r)" "follows (CHR ''}'' # r)" "follows []"
  by (simp_all add: follows_def numberChar_def isDigit_def)

lemma parse_quoted: "validText s \<Longrightarrow> parseJson (Suc f) d (quoteJSON s @ r) = Some (JvStr s, r)"
  using scanString_escape [of s r] by (simp add: quoteJSON_def)

abbreviation readsBack :: "jval \<Rightarrow> bool" where
  "readsBack v \<equiv> (\<forall>f d r. length (marshalVal v) < f \<longrightarrow> d + depth v \<le> maxNestingDepth \<longrightarrow> follows r
     \<longrightarrow> parseJson f d (marshalVal v @ r) = Some (v, r))"

lemma elems_back:
  assumes "vs \<noteq> []" "\<forall>v \<in> set vs. wellFormed v \<and> readsBack v \<and> d + depth v \<le> maxNestingDepth"
  shows "length (joinComma (map marshalVal vs)) + 1 < f
    \<Longrightarrow> parseElems f d (joinComma (map marshalVal vs) @ CHR '']'' # r) = Some (vs, r)"
  using assms
proof (induction vs arbitrary: f)
  case (Cons v vs)
  obtain f' where f: "f = Suc f'" using Cons.prems(1) by (cases f) simp_all
  show ?case
  proof (cases "vs = []")
    case True
    have "parseJson f' d (marshalVal v @ CHR '']'' # r) = Some (v, CHR '']'' # r)"
      using Cons.prems True f by (simp add: follows_simps)
    then show ?thesis using True f by (simp add: isSpaceChar_def)
  next
    case False
    then obtain w ws where vs: "vs = w # ws" by (cases vs) auto
    let ?rest = "joinComma (map marshalVal vs)"
    have all: "joinComma (map marshalVal (v # vs)) = marshalVal v @ CHR '','' # ?rest" by (simp add: vs)
    have "parseJson f' d (marshalVal v @ CHR '','' # ?rest @ CHR '']'' # r) = Some (v, CHR '','' # ?rest @ CHR '']'' # r)"
      using Cons.prems f by (simp add: vs follows_simps)
    moreover have "skipWs (?rest @ CHR '']'' # r) = ?rest @ CHR '']'' # r"
      using Cons.prems(3) skipWs_marshal [of w] by (cases ws) (simp_all add: vs)
    moreover have "parseElems f' d (?rest @ CHR '']'' # r) = Some (vs, r)"
      using Cons.prems f False by (intro Cons.IH) (simp_all add: vs)
    ultimately show ?thesis unfolding all f by (simp add: isSpaceChar_def)
  qed
qed simp

lemma members_back:
  assumes "ms \<noteq> []" "\<forall>(k, v) \<in> set ms. validText k \<and> wellFormed v \<and> readsBack v \<and> d + depth v \<le> maxNestingDepth"
  shows "length (joinComma (map (\<lambda>(k, v). quoteJSON k @ '':'' @ marshalVal v) ms)) + 1 < f
    \<Longrightarrow> parseMembers f d (joinComma (map (\<lambda>(k, v). quoteJSON k @ '':'' @ marshalVal v) ms) @ CHR ''}'' # r) = Some (ms, r)"
  using assms
proof (induction ms arbitrary: f)
  case (Cons m ms)
  let ?text = "\<lambda>(k, v). quoteJSON k @ '':'' @ marshalVal v"
  obtain f' where f: "f = Suc f'" using Cons.prems(1) by (cases f) simp_all
  obtain k v where m: "m = (k, v)" by (cases m)
  have ok: "validText k" "wellFormed v" "readsBack v" "d + depth v \<le> maxNestingDepth" using Cons.prems(3) by (simp_all add: m)
  have key: "scanString (escapeString k @ CHR 0x22 # t) = Some (k, t)" for t by (rule scanString_escape [OF ok(1)])
  have sp: "skipWs (marshalVal v @ t) = marshalVal v @ t" for t by (rule skipWs_marshal [OF ok(2)])
  show ?case
  proof (cases "ms = []")
    case True
    have "parseJson f' d (marshalVal v @ CHR ''}'' # r) = Some (v, CHR ''}'' # r)"
      using Cons.prems True f ok by (simp add: m follows_simps)
    then show ?thesis using True f key sp by (simp add: m quoteJSON_def isSpaceChar_def)
  next
    case False
    then obtain w ws where ms: "ms = w # ws" by (cases ms) auto
    let ?rest = "joinComma (map ?text ms)"
    have all: "joinComma (map ?text (m # ms)) = quoteJSON k @ CHR '':'' # marshalVal v @ CHR '','' # ?rest" by (simp add: ms m)
    have "parseJson f' d (marshalVal v @ CHR '','' # ?rest @ CHR ''}'' # r) = Some (v, CHR '','' # ?rest @ CHR ''}'' # r)"
      using Cons.prems(1) f ok all by (simp add: follows_simps)
    moreover have "skipWs (?rest @ CHR ''}'' # r) = ?rest @ CHR ''}'' # r"
      by (cases w; cases ws) (simp_all add: ms quoteJSON_def isSpaceChar_def)
    moreover have "parseMembers f' d (?rest @ CHR ''}'' # r) = Some (ms, r)"
      using Cons.prems f False all by (intro Cons.IH) auto
    ultimately show ?thesis unfolding all f using key sp by (simp add: m quoteJSON_def isSpaceChar_def)
  qed
qed simp

lemma literals_back: "readsBack JvNull" "readsBack (JvBool b)"
proof -
  show "readsBack JvNull"
  proof (intro allI impI)
    fix f :: nat and d r assume "length (marshalVal JvNull) < f"
    then show "parseJson f d (marshalVal JvNull @ r) = Some (JvNull, r)" by (cases f) (simp_all add: literal_def hasPrefix_def)
  qed
  show "readsBack (JvBool b)"
  proof (intro allI impI)
    fix f :: nat and d r assume "length (marshalVal (JvBool b)) < f"
    then show "parseJson f d (marshalVal (JvBool b) @ r) = Some (JvBool b, r)" by (cases f; cases b) (simp_all add: literal_def hasPrefix_def)
  qed
qed

theorem parse_marshal: "wellFormed v \<Longrightarrow> readsBack v"
proof (induction v rule: wellFormed.induct)
  case (1 lit)
  show ?case
  proof (intro allI impI)
    fix f :: nat and d r assume a: "length (marshalVal (JvNum lit)) < f" "follows r"
    obtain f' where f: "f = Suc f'" using a(1) by (cases f) simp_all
    obtain c t where c: "lit = c # t" "c \<notin> set [CHR 0x22, CHR ''['', CHR ''{'', CHR ''t'', CHR ''f'', CHR ''n'']"
      using marshal_start [OF 1] by (metis marshalVal.simps(3))
    have "scanNumber (lit @ r) = Some (JvNum lit, r)" using 1 a(2) by (intro scanNumber_append) simp_all
    then show "parseJson f d (marshalVal (JvNum lit) @ r) = Some (JvNum lit, r)" using c by (simp add: f)
  qed
next
  case (2 s)
  then show ?case using parse_quoted by (metis less_natE marshalVal.simps(4) wellFormed.simps(2))
next
  case (3 vs)
  show ?case
  proof (intro allI impI)
    fix f :: nat and d r assume a: "length (marshalVal (JvArr vs)) < f" "d + depth (JvArr vs) \<le> maxNestingDepth"
    obtain f' where f: "f = Suc f'" using a(1) by (cases f) simp_all
    have d: "0 \<le> foldr max (map depth vs) 0" by (induction vs) auto
    have deep: "d < maxNestingDepth" "\<forall>v \<in> set vs. d + 1 + depth v \<le> maxNestingDepth"
      using a(2) d foldr_max_le [of "map depth vs" "maxNestingDepth - d - 1"] by auto
    show "parseJson f d (marshalVal (JvArr vs) @ r) = Some (JvArr vs, r)"
    proof (cases vs)
      case Nil
      then show ?thesis using f deep(1) by (simp add: isSpaceChar_def)
    next
      case (Cons w ws)
      have "\<forall>v \<in> set vs. wellFormed v \<and> readsBack v \<and> d + 1 + depth v \<le> maxNestingDepth"
        using 3 deep(2) by (simp add: list_all_iff)
      then have el: "parseElems f' (d + 1) (joinComma (map marshalVal vs) @ CHR '']'' # r) = Some (vs, r)"
        using a(1) f Cons by (intro elems_back) auto
      obtain c t where c: "marshalVal w = c # t" "\<not> isSpaceChar c" "c \<noteq> CHR '']''"
        using marshal_start [of w] 3(2) Cons by (metis list.pred_inject(2) wellFormed.simps(3))
      obtain u where u: "joinComma (map marshalVal vs) = c # u" using c(1) Cons by (cases ws) simp_all
      have sk: "skipWs (joinComma (map marshalVal vs) @ CHR '']'' # r) = joinComma (map marshalVal vs) @ CHR '']'' # r"
        "take 1 (joinComma (map marshalVal vs) @ CHR '']'' # r) \<noteq> '']''"
        using c by (simp_all add: u)
      then show ?thesis using el f deep(1) by simp
    qed
  qed
next
  case (4 ms)
  show ?case
  proof (intro allI impI)
    fix f :: nat and d r assume a: "length (marshalVal (JvObj ms)) < f" "d + depth (JvObj ms) \<le> maxNestingDepth"
    let ?text = "\<lambda>(k, v). quoteJSON k @ '':'' @ marshalVal v"
    obtain f' where f: "f = Suc f'" using a(1) by (cases f) simp_all
    have d: "0 \<le> foldr max (map (\<lambda>(k, v). depth v) ms) 0" by (induction ms) auto
    have deep: "d < maxNestingDepth" "\<forall>(k, v) \<in> set ms. d + 1 + depth v \<le> maxNestingDepth"
      using a(2) d foldr_max_le [of "map (\<lambda>(k, v). depth v) ms" "maxNestingDepth - d - 1"] by auto
    show "parseJson f d (marshalVal (JvObj ms) @ r) = Some (JvObj ms, r)"
    proof (cases ms)
      case Nil
      then show ?thesis using f deep(1) by (simp add: isSpaceChar_def)
    next
      case (Cons w ws)
      have "\<forall>(k, v) \<in> set ms. validText k \<and> wellFormed v \<and> readsBack v \<and> d + 1 + depth v \<le> maxNestingDepth"
        using 4 deep(2) by (fastforce simp: list_all_iff)
      then have el: "parseMembers f' (d + 1) (joinComma (map ?text ms) @ CHR ''}'' # r) = Some (ms, r)"
        using a(1) f Cons by (intro members_back) auto
      obtain u where u: "joinComma (map ?text ms) = CHR 0x22 # u" using Cons by (cases w; cases ws) (simp_all add: quoteJSON_def)
      have "skipWs (joinComma (map ?text ms) @ CHR ''}'' # r) = joinComma (map ?text ms) @ CHR ''}'' # r"
        "take 1 (joinComma (map ?text ms) @ CHR ''}'' # r) \<noteq> ''}''"
        unfolding u by (simp_all add: isSpaceChar_def)
      then show ?thesis using el f deep(1) by simp
    qed
  qed
qed (rule literals_back)+

text \<open>What the decoder returns is well formed and not nested too deeply.\<close>

lemma parse_wellFormed:
  "parseJson f d s = Some (v, r) \<Longrightarrow> d \<le> maxNestingDepth \<Longrightarrow> wellFormed v \<and> d + depth v \<le> maxNestingDepth"
  "parseElems f d s = Some (vs, r) \<Longrightarrow> d \<le> maxNestingDepth \<Longrightarrow> \<forall>v \<in> set vs. wellFormed v \<and> d + depth v \<le> maxNestingDepth"
  "parseMembers f d s = Some (ms, r) \<Longrightarrow> d \<le> maxNestingDepth \<Longrightarrow> \<forall>(k, v) \<in> set ms. validText k \<and> wellFormed v \<and> d + depth v \<le> maxNestingDepth"
proof (induction f d s and f d s and f d s arbitrary: v r and vs r and ms r rule: parseJson_parseElems_parseMembers.induct)
  case (2 f d s)
  obtain c t where s: "s = c # t" using 2(3) by (cases s) auto
  note eq = 2(3) [unfolded s parseJson.simps list.case]
  consider "c = CHR 0x22" | "c = CHR ''[''" | "c = CHR ''{''" | "c \<noteq> CHR 0x22" "c \<noteq> CHR ''[''" "c \<noteq> CHR ''{''" by blast
  then show ?case
  proof cases
    case 1
    then show ?thesis using eq 2(4) scanString_valid by auto
  next
    case 2
    then consider "v = JvArr []" "d < maxNestingDepth" | vs where "v = JvArr vs" "d < maxNestingDepth" "parseElems f (d + 1) (skipWs t) = Some (vs, r)"
        "take 1 (skipWs t) \<noteq> '']''"
      using eq by (auto split: if_splits)
    then show ?thesis
    proof cases
      case (2 vs)
      then have "\<forall>v \<in> set vs. wellFormed v \<and> d + 1 + depth v \<le> maxNestingDepth"
        using "2.IH"(1) [OF s] \<open>c = CHR ''[''\<close> by simp
      then show ?thesis using 2(1,2) foldr_max_le [of "map depth vs" "maxNestingDepth - d - 1"] by (auto simp: list_all_iff)
    qed auto
  next
    case 3
    then consider "v = JvObj []" "d < maxNestingDepth" | ms where "v = JvObj ms" "d < maxNestingDepth" "parseMembers f (d + 1) (skipWs t) = Some (ms, r)"
        "take 1 (skipWs t) \<noteq> ''}''"
      using eq by (auto split: if_splits)
    then show ?thesis
    proof cases
      case (2 ms)
      then have "\<forall>(k, v) \<in> set ms. validText k \<and> wellFormed v \<and> d + 1 + depth v \<le> maxNestingDepth"
        using "2.IH"(2) [OF s] \<open>c = CHR ''{''\<close> by simp
      then show ?thesis using 2(1,2) foldr_max_le [of "map (\<lambda>(k, v). depth v) ms" "maxNestingDepth - d - 1"] by (auto simp: list_all_iff)
    qed auto
  next
    case 4
    have "list_all numberChar (takeWhile numberChar s)" by (auto simp: list_all_iff dest: set_takeWhileD)
    then show ?thesis using eq 4 2(4) by (auto simp: literal_def scanNumber_def Let_def s split: if_splits)
  qed
next
  case (4 f d s)
  then show ?case by (fastforce split: option.splits list.splits if_splits)
next
  case (6 f d s)
  then show ?case by (fastforce split: option.splits list.splits if_splits dest: scanString_valid)
qed simp_all

text \<open>Every value takes characters, so that fuel for each of them is enough: more changes nothing.\<close>

lemma skipWs_length: "length (skipWs s) \<le> length s"
  by (rule length_dropWhile_le)

lemma literal_shorter: "literal word v s = Some (x, r) \<Longrightarrow> word \<noteq> [] \<Longrightarrow> s \<noteq> [] \<Longrightarrow> length r < length s"
  by (auto simp: literal_def split: if_splits)

lemma scanNumber_shorter: "scanNumber s = Some (x, r) \<Longrightarrow> length r < length s"
  by (cases s) (auto simp: scanNumber_def Let_def isValidNumber_def split: if_splits)

lemma parse_shorter:
  "parseJson f d s = Some (v, r) \<Longrightarrow> length r < length s"
  "parseElems f d s = Some (vs, r) \<Longrightarrow> length r < length s"
  "parseMembers f d s = Some (ms, r) \<Longrightarrow> length r < length s"
proof (induction f d s and f d s and f d s arbitrary: v r and vs r and ms r rule: parseJson_parseElems_parseMembers.induct)
  case (2 f d s)
  obtain c t where s: "s = c # t" using 2(3) by (cases s) auto
  note eq = 2(3) [unfolded s parseJson.simps list.case]
  have t: "length (skipWs t) < length s" using skipWs_length [of t] by (simp add: s)
  consider "c = CHR 0x22" | "c = CHR ''[''" | "c = CHR ''{''" | "c \<noteq> CHR 0x22" "c \<noteq> CHR ''[''" "c \<noteq> CHR ''{''" by blast
  then show ?case
  proof cases
    case 1
    then show ?thesis using eq scanString_shorter s by fastforce
  next
    case 2
    then show ?thesis using eq t "2.IH"(1) [OF s] by (fastforce split: if_splits)
  next
    case 3
    then show ?thesis using eq t "2.IH"(2) [OF s] by (fastforce split: if_splits)
  next
    case 4
    then show ?thesis using eq literal_shorter [of _ _ s v r] scanNumber_shorter [of s v r] s by (auto split: if_splits)
  qed
next
  case (4 f d s)
  from 4(3) obtain v t c u where v: "parseJson f d s = Some (v, t)" "skipWs t = c # u" by (auto split: option.splits list.splits)
  have "length t < length s" "length u < length t" "length (skipWs u) \<le> length u"
    using 4(1) [OF v(1)] skipWs_length [of t] skipWs_length [of u] v(2) by simp_all
  moreover have "r = u \<or> (\<exists>ws. c = CHR '','' \<and> parseElems f d (skipWs u) = Some (ws, r))" using 4(3) v by (auto split: if_splits)
  ultimately show ?case using 4(2) [OF v(1) _ v(2)] by fastforce
next
  case (6 f d s)
  from 6(3) obtain q t k t1 c t2 v t3 c' t4 where m: "s = q # t" "scanString t = Some (k, t1)" "skipWs t1 = c # t2" "c = CHR '':''"
      "parseJson f d (skipWs t2) = Some (v, t3)" "skipWs t3 = c' # t4" "q = CHR 0x22"
    by (auto split: option.splits list.splits if_splits)
  have "length t1 < length t" "length t2 < length t1" "length t3 < length t2" "length t4 < length t3" "length (skipWs t4) \<le> length t4"
    using scanString_shorter [OF m(2)] skipWs_length [of t1] skipWs_length [of t2] skipWs_length [of t3] skipWs_length [of t4] m
      6(1) [OF m(1) _ m(2) _ m(3) _ m(5)] by simp_all
  moreover have "r = t4 \<or> (\<exists>ws. c' = CHR '','' \<and> parseMembers f d (skipWs t4) = Some (ws, r))" using 6(3) m by (auto split: if_splits)
  ultimately show ?case using 6(2) [OF m(1) _ m(2) _ m(3) _ m(5) _ m(6)] m by fastforce
qed simp_all

lemma parse_fuel:
  "2 * length s + 1 \<le> f \<Longrightarrow> 2 * length s + 1 \<le> g \<Longrightarrow> parseJson f d s = parseJson g d s"
  "2 * length s + 2 \<le> f \<Longrightarrow> 2 * length s + 2 \<le> g \<Longrightarrow> parseElems f d s = parseElems g d s"
  "2 * length s + 2 \<le> f \<Longrightarrow> 2 * length s + 2 \<le> g \<Longrightarrow> parseMembers f d s = parseMembers g d s"
proof (induction f d s and f d s and f d s arbitrary: g and g and g rule: parseJson_parseElems_parseMembers.induct)
  case (2 f d s)
  obtain g' where g: "g = Suc g'" using 2(4) by (cases g) simp_all
  show ?case
  proof (cases s)
    case (Cons c t)
    have fuel: "2 * length (skipWs t) + 2 \<le> f" "2 * length (skipWs t) + 2 \<le> g'" using 2(3,4) skipWs_length [of t] by (simp_all add: g Cons)
    show ?thesis
    proof (cases "(c = CHR ''['' \<or> c = CHR ''{'') \<and> \<not> maxNestingDepth \<le> d")
      case True
      then have "c \<noteq> CHR 0x22" by auto
      from True consider "c = CHR ''[''" "take 1 (skipWs t) = '']''" | "c = CHR ''[''" "take 1 (skipWs t) \<noteq> '']''"
        | "c = CHR ''{''" "take 1 (skipWs t) = ''}''" | "c = CHR ''{''" "take 1 (skipWs t) \<noteq> ''}''" by blast
      then show ?thesis
      proof cases
        case 2
        from "2.IH"(1) [OF Cons \<open>c \<noteq> CHR 0x22\<close> 2(1) conjunct2 [OF True] 2(2) fuel] 2 True show ?thesis by (simp add: g Cons)
      next
        case 4
        then have "c \<noteq> CHR ''[''" by simp
        from "2.IH"(2) [OF Cons \<open>c \<noteq> CHR 0x22\<close> this 4(1) conjunct2 [OF True] 4(2) fuel] 4 True show ?thesis by (simp add: g Cons)
      qed (use True in \<open>simp_all add: g Cons\<close>)
    qed (auto simp: g Cons)
  qed (simp add: g)
next
  case (4 f d s)
  obtain g' where g: "g = Suc g'" using 4(4) by (cases g) simp_all
  have one: "parseJson f d s = parseJson g' d s" by (rule 4(1)) (use 4(3,4) in \<open>simp_all add: g\<close>)
  have more: "parseElems f d (skipWs u) = parseElems g' d (skipWs u)" if v: "parseJson f d s = Some (v, t)" "skipWs t = c # u" "c = CHR '',''" for v t c u
  proof -
    have "length u + 1 < length s" using parse_shorter(1) [OF v(1)] skipWs_length [of t] v(2) by simp
    then have fuel: "2 * length (skipWs u) + 2 \<le> f" "2 * length (skipWs u) + 2 \<le> g'" using 4(3,4) skipWs_length [of u] by (simp_all add: g)
    show ?thesis by (rule 4(2) [OF v(1) refl v(2)]) (use v(3) fuel in simp_all)
  qed
  show ?case
  proof (cases "parseJson f d s")
    case None
    then show ?thesis using one by (simp add: g)
  next
    case (Some x)
    then obtain v t where v: "parseJson f d s = Some (v, t)" by (cases x) simp
    then show ?thesis using one more [OF v] by (cases "skipWs t") (simp_all add: g del: dropWhile_eq_Nil_conv)
  qed
next
  case (6 f d s)
  obtain g' where g: "g = Suc g'" using 6(4) by (cases g) simp_all
  show ?case
  proof (cases s)
    case (Cons q t)
    have one: "parseJson f d (skipWs t2) = parseJson g' d (skipWs t2)"
      if "q = CHR 0x22" "scanString t = Some (k, t1)" "skipWs t1 = c # t2" "c = CHR '':''" for k t1 c t2
    proof -
      have "length t2 + 1 < length t" using scanString_shorter [OF that(2)] skipWs_length [of t1] that(3) by simp
      then have fuel: "2 * length (skipWs t2) + 1 \<le> f" "2 * length (skipWs t2) + 1 \<le> g'" using 6(3,4) skipWs_length [of t2] by (simp_all add: g Cons)
      show ?thesis by (rule 6(1) [OF Cons _ that(2) refl that(3)]) (use that fuel in simp_all)
    qed
    have more: "parseMembers f d (skipWs t4) = parseMembers g' d (skipWs t4)"
      if "q = CHR 0x22" "scanString t = Some (k, t1)" "skipWs t1 = c # t2" "c = CHR '':''" "parseJson f d (skipWs t2) = Some (v, t3)"
        "skipWs t3 = c' # t4" "c' = CHR '',''" for k t1 c t2 v t3 c' t4
    proof -
      have "length t4 + 3 < length s" using scanString_shorter [OF that(2)] skipWs_length [of t1] skipWs_length [of t2] skipWs_length [of t3]
          parse_shorter(1) [OF that(5)] that(3,6) by (simp add: Cons)
      then have fuel: "2 * length (skipWs t4) + 2 \<le> f" "2 * length (skipWs t4) + 2 \<le> g'" using 6(3,4) skipWs_length [of t4] by (simp_all add: g)
      show ?thesis by (rule 6(2) [OF Cons _ that(2) refl that(3) _ that(5) refl that(6)]) (use that fuel in simp_all)
    qed
    show ?thesis
    proof (cases "q = CHR 0x22 \<and> (\<exists>k t1 t2. scanString t = Some (k, t1) \<and> skipWs t1 = CHR '':'' # t2)")
      case False
      then consider "q \<noteq> CHR 0x22" | "scanString t = None" | k t1 where "scanString t = Some (k, t1)" "\<And>t2. skipWs t1 \<noteq> CHR '':'' # t2"
        by (metis option.exhaust surj_pair)
      then show ?thesis
      proof cases
        case (3 k t1)
        then show ?thesis by (cases "skipWs t1") (auto simp: g Cons simp del: dropWhile_eq_Nil_conv)
      qed (simp_all add: g Cons)
    next
      case True
      then obtain k t1 t2 where m: "q = CHR 0x22" "scanString t = Some (k, t1)" "skipWs t1 = CHR '':'' # t2" by blast
      note one = one [OF m refl]
      show ?thesis
      proof (cases "parseJson f d (skipWs t2)")
        case None
        then show ?thesis using one m by (simp add: g Cons)
      next
        case (Some x)
        then obtain v t3 where v: "parseJson f d (skipWs t2) = Some (v, t3)" by (cases x) simp
        then show ?thesis using one m more [OF m refl v] by (cases "skipWs t3") (simp_all add: g Cons del: dropWhile_eq_Nil_conv)
      qed
    qed
  qed (simp add: g)
qed simp_all

section \<open>Go maps\<close>

text \<open>An object becomes a map: a later member with the same key replaces an earlier one.\<close>

fun putMember :: "string \<Rightarrow> 'a \<Rightarrow> (string \<times> 'a) list \<Rightarrow> (string \<times> 'a) list" where
  "putMember k v [] = [(k, v)]"
| "putMember k v ((k', v') # ms) = (if k < k' then (k, v) # (k', v') # ms else if k = k' then (k, v) # ms else (k', v') # putMember k v ms)"

fun toAny :: "jval \<Rightarrow> jval" where
  "toAny (JvArr vs) = JvArr (map toAny vs)"
| "toAny (JvObj ms) = JvObj (fold (\<lambda>(k, v). putMember k v) (map (\<lambda>(k, v). (k, toAny v)) ms) [])"
| "toAny v = v"

fun isAny :: "jval \<Rightarrow> bool" where
  "isAny (JvArr vs) = list_all isAny vs"
| "isAny (JvObj ms) = (sorted_wrt (<) (map fst ms) \<and> list_all (\<lambda>(k, v). isAny v) ms)"
| "isAny v = True"

lemma map_of_putMember: "sorted_wrt (<) (map fst ms) \<Longrightarrow> map_of (putMember k v ms) = (map_of ms)(k \<mapsto> v)"
  by (induction k v ms rule: putMember.induct) (auto simp: fun_eq_iff)

lemma keys_putMember: "fst ` set (putMember k v ms) = insert k (fst ` set ms)"
  by (induction k v ms rule: putMember.induct) auto

lemma set_putMember: "set (putMember k v ms) \<subseteq> insert (k, v) (set ms)"
  by (induction k v ms rule: putMember.induct) auto

lemma sorted_putMember: "sorted_wrt (<) (map fst ms) \<Longrightarrow> sorted_wrt (<) (map fst (putMember k v ms))"
proof (induction k v ms rule: putMember.induct)
  case (2 k v k' v' ms)
  then show ?case using keys_putMember [of k v ms] by (auto simp: order.strict_trans)
qed simp

lemma putMember_last: "\<forall>x \<in> fst ` set ms. x < k \<Longrightarrow> putMember k v ms = ms @ [(k, v)]"
  by (induction k v ms rule: putMember.induct) auto

lemma putMember_same: "sorted_wrt (<) (map fst ms) \<Longrightarrow> map_of ms k = Some v \<Longrightarrow> putMember k v ms = ms"
proof (induction k v ms rule: putMember.induct)
  case (2 k v k' v' ms)
  show ?case
  proof (cases "k = k'")
    case False
    then have m: "map_of ms k = Some v" using 2(3) by simp
    then have "k \<in> fst ` set ms" by (force dest!: map_of_SomeD)
    then have "k' < k" using 2(2) by auto
    then show ?thesis using 2 False m by auto
  qed (use 2(3) in simp)
qed simp

lemma fold_put_sorted:
  "sorted_wrt (<) (map fst ms) \<Longrightarrow> sorted_wrt (<) (map fst (fold (\<lambda>(k, v). putMember k v) xs ms))"
  by (induction xs arbitrary: ms) (auto intro: sorted_putMember)

lemma fold_put_set: "set (fold (\<lambda>(k, v). putMember k v) xs ms) \<subseteq> set ms \<union> set xs"
proof (induction xs arbitrary: ms)
  case (Cons x xs)
  then show ?case using set_putMember [of "fst x" "snd x" ms] by (fastforce split: prod.splits)
qed simp

lemma fold_put_append: "sorted_wrt (<) (map fst (ms @ xs)) \<Longrightarrow> fold (\<lambda>(k, v). putMember k v) xs ms = ms @ xs"
proof (induction xs arbitrary: ms)
  case (Cons x xs)
  obtain k v where x: "x = (k, v)" by (cases x)
  have "putMember k v ms = ms @ [(k, v)]" using Cons.prems by (intro putMember_last) (auto simp: x sorted_wrt_append)
  then show ?case using Cons.IH [of "ms @ [(k, v)]"] Cons.prems by (simp add: x)
qed simp

lemma toAny_isAny: "isAny (toAny v)"
proof (induction v rule: toAny.induct)
  case (2 ms)
  let ?xs = "map (\<lambda>(k, v). (k, toAny v)) ms"
  have "\<forall>(k, v) \<in> set ?xs. isAny v" using 2 by auto
  then have "\<forall>(k, v) \<in> set (fold (\<lambda>(k, v). putMember k v) ?xs []). isAny v" using fold_put_set [of ?xs "[]"] by auto
  then show ?case using fold_put_sorted [of "[]" ?xs] by (simp add: list_all_iff)
qed (auto simp: list_all_iff)

lemma toAny_same: "isAny v \<Longrightarrow> toAny v = v"
proof (induction v rule: toAny.induct)
  case (1 vs)
  then show ?case by (auto simp: list_all_iff intro!: map_idI)
next
  case (2 ms)
  have "map (\<lambda>(k, v). (k, toAny v)) ms = ms" using 2 by (intro map_idI) (auto simp: list_all_iff)
  then show ?case using 2(2) fold_put_append [of "[]" ms] by simp
qed auto

lemma toAny_wellFormed: "wellFormed v \<Longrightarrow> wellFormed (toAny v)"
proof (induction v rule: toAny.induct)
  case (2 ms)
  let ?xs = "map (\<lambda>(k, v). (k, toAny v)) ms"
  have "\<forall>(k, v) \<in> set ?xs. validText k \<and> wellFormed v" using 2 by (auto simp: list_all_iff)
  then show ?case using fold_put_set [of ?xs "[]"] by (auto simp: list_all_iff)
qed (auto simp: list_all_iff)

lemma depth_le: "depth (JvArr vs) \<le> n \<longleftrightarrow> 1 \<le> n \<and> (\<forall>v \<in> set vs. depth v \<le> n - 1)"
  "depth (JvObj ms) \<le> n \<longleftrightarrow> 1 \<le> n \<and> (\<forall>(k, v) \<in> set ms. depth v \<le> n - 1)"
  using foldr_max_le [of "map depth vs" "n - 1"] foldr_max_le [of "map (\<lambda>(k, v). depth v) ms" "n - 1"] by auto

lemma toAny_depth: "depth v \<le> n \<Longrightarrow> depth (toAny v) \<le> n"
proof (induction v arbitrary: n rule: toAny.induct)
  case (1 vs)
  then show ?case unfolding toAny.simps depth_le set_map by blast
next
  case (2 ms)
  let ?xs = "map (\<lambda>(k, v). (k, toAny v)) ms"
  have "depth (toAny v) \<le> n - 1" if "(k, v) \<in> set ms" for k v
    using 2(1) [OF that refl] 2(2) that unfolding depth_le by blast
  then have "\<forall>(k, v) \<in> set ?xs. depth v \<le> n - 1" by auto
  then show ?case using fold_put_set [of ?xs "[]"] 2(2) unfolding toAny.simps depth_le by auto
qed auto

text \<open>The round trip through the text, and what a decoded value satisfies.\<close>

lemma decode_marshal:
  assumes "wellFormed v" "depth v \<le> maxNestingDepth"
  shows "decodeFirst (marshalVal v) = Some v" "decodeWhole (marshalVal v) = Some v"
proof -
  have "parseJson (2 * length (marshalVal v) + 1) 0 (marshalVal v @ []) = Some (v, [])"
    using parse_marshal [OF assms(1), rule_format, of "2 * length (marshalVal v) + 1" 0 "[]"] assms(2) follows_simps(4) by simp
  then show "decodeFirst (marshalVal v) = Some v" "decodeWhole (marshalVal v) = Some v"
    using skipWs_marshal [OF assms(1), of "[]"] unfolding decodeFirst_def decodeWhole_def append_Nil2 by (simp_all only:) simp_all
qed

lemma decodeFirst_ok: "decodeFirst s = Some v \<Longrightarrow> wellFormed v \<and> depth v \<le> maxNestingDepth"
  using parse_wellFormed(1) [of "2 * length s + 1" 0 "skipWs s" v] by (auto simp: decodeFirst_def)

end
