(* ===== verification/MetricStructs.thy ===== *)
theory MetricStructs
  imports JsonText GoMaps
begin

text \<open>
  \<^verbatim>\<open>domain/metrics.go\<close>, \<^verbatim>\<open>domain/nr_metrics.go\<close> and \<^verbatim>\<open>fcaps/metrics/parser.go\<close>: the metric documents of LTE and
  NR stations and their decoding. \<^verbatim>\<open>encoding/json\<close> decodes into a value that exists: a member that
  the document lacks, or that is \<^verbatim>\<open>null\<close>, leaves its field as it is, a repeated member is decoded into
  what the first one left. A decoding that meets a value of the wrong kind fails as a whole, whatever
  it had stored, so that \<open>None\<close> is enough of an error.

  The structs of a UE and of a bearer are only read by their tags (\<^verbatim>\<open>mediation/rules.go\<close> looks
  the fields up by reflection), so that their basic fields are lists of tags and values.
\<close>

section \<open>Conversions\<close>

text \<open>What a conversion from \<^verbatim>\<open>float64\<close> gives where the integer type cannot hold the value, which Go
  leaves to the implementation.\<close>

record Platform =
  outUint64 :: "float64 \<Rightarrow> uint64"
  outInt64 :: "float64 \<Rightarrow> int64"

definition truncate64 :: "rat \<Rightarrow> int" where
  "truncate64 q = (if q < 0 then - \<lfloor>- q\<rfloor> else \<lfloor>q\<rfloor>)"

definition floatToUint64 :: "Platform \<Rightarrow> float64 \<Rightarrow> uint64" where
  "floatToUint64 p f = (case f of
       Fin q \<Rightarrow> if 0 \<le> truncate64 q \<and> truncate64 q < 2 ^ 64 then word_of_int (truncate64 q) else outUint64 p f
     | NegZero \<Rightarrow> 0
     | _ \<Rightarrow> outUint64 p f)"

definition floatToInt64 :: "Platform \<Rightarrow> float64 \<Rightarrow> int64" where
  "floatToInt64 p f = (case f of
       Fin q \<Rightarrow> if - (2 ^ 63) \<le> truncate64 q \<and> truncate64 q < 2 ^ 63 then word_of_int (truncate64 q) else outInt64 p f
     | NegZero \<Rightarrow> 0
     | _ \<Rightarrow> outInt64 p f)"

section \<open>Decoding into a struct\<close>

datatype fieldKind = FkString | FkFloat | FkUint nat | FkInt nat

datatype fieldVal = FvString string | FvFloat float64 | FvUint nat | FvInt int

definition zeroField :: "fieldKind \<Rightarrow> fieldVal" where
  "zeroField kind = (case kind of FkString \<Rightarrow> FvString [] | FkFloat \<Rightarrow> FvFloat (Fin 0) | FkUint b \<Rightarrow> FvUint 0 | FkInt b \<Rightarrow> FvInt 0)"

definition literalStore :: "fieldKind \<Rightarrow> jval \<Rightarrow> fieldVal \<Rightarrow> fieldVal option" where
  "literalStore kind v old = (case v of
       JvNull \<Rightarrow> Some old
     | JvStr s \<Rightarrow> if kind = FkString then Some (FvString s) else None
     | JvNum lit \<Rightarrow> (case kind of
           FkFloat \<Rightarrow> map_option FvFloat (parseFloat lit)
         | FkUint bits \<Rightarrow> map_option FvUint (parseUint bits lit)
         | FkInt bits \<Rightarrow> map_option FvInt (parseInt bits lit)
         | FkString \<Rightarrow> None)
     | _ \<Rightarrow> None)"

definition decodeString :: "jval \<Rightarrow> string \<Rightarrow> string option" where
  "decodeString v old = (case literalStore FkString v (FvString old) of Some (FvString s) \<Rightarrow> Some s | _ \<Rightarrow> None)"

definition decodeFloat :: "jval \<Rightarrow> float64 \<Rightarrow> float64 option" where
  "decodeFloat v old = (case literalStore FkFloat v (FvFloat old) of Some (FvFloat f) \<Rightarrow> Some f | _ \<Rightarrow> None)"

definition decodeUint :: "nat \<Rightarrow> jval \<Rightarrow> nat \<Rightarrow> nat option" where
  "decodeUint bits v old = (case literalStore (FkUint bits) v (FvUint old) of Some (FvUint n) \<Rightarrow> Some n | _ \<Rightarrow> None)"

definition decodeInt :: "nat \<Rightarrow> jval \<Rightarrow> int \<Rightarrow> int option" where
  "decodeInt bits v old = (case literalStore (FkInt bits) v (FvInt old) of Some (FvInt n) \<Rightarrow> Some n | _ \<Rightarrow> None)"

text \<open>The field of a member: by its exact name, or else by a name that differs in case only.\<close>

definition fieldName :: "string list \<Rightarrow> string \<Rightarrow> string option" where
  "fieldName tags k = (if k \<in> set tags then Some k else find (equalFold k) tags)"

fun foldMembers :: "(string \<Rightarrow> jval \<Rightarrow> 'a \<Rightarrow> 'a option) \<Rightarrow> (string \<times> jval) list \<Rightarrow> 'a \<Rightarrow> 'a option" where
  "foldMembers f [] x = Some x"
| "foldMembers f ((k, v) # ms) x = Option.bind (f k v x) (foldMembers f ms)"

definition decodeStruct :: "string list \<Rightarrow> (string \<Rightarrow> jval \<Rightarrow> 'a \<Rightarrow> 'a option) \<Rightarrow> jval \<Rightarrow> 'a \<Rightarrow> 'a option" where
  "decodeStruct tags f v x = (case v of
       JvNull \<Rightarrow> Some x
     | JvObj ms \<Rightarrow> foldMembers (\<lambda>k v x. case fieldName tags k of None \<Rightarrow> Some x | Some tag \<Rightarrow> f tag v x) ms x
     | _ \<Rightarrow> None)"

text \<open>A slice and the elements that the array behind it still holds after its end: decoding a longer
  array into it decodes into them.\<close>

type_synonym 'a slice = "'a list \<times> 'a list"

fun decodeElems :: "(jval \<Rightarrow> 'a \<Rightarrow> 'a option) \<Rightarrow> 'a \<Rightarrow> jval list \<Rightarrow> 'a list \<Rightarrow> 'a slice option" where
  "decodeElems dec zero [] mem = Some ([], mem)"
| "decodeElems dec zero (v # vs) mem = (case dec v (case mem of [] \<Rightarrow> zero | x # _ \<Rightarrow> x) of
       None \<Rightarrow> None
     | Some y \<Rightarrow> map_option (\<lambda>(ys, rest). (y # ys, rest)) (decodeElems dec zero vs (tl mem)))"

definition decodeSlice :: "(jval \<Rightarrow> 'a \<Rightarrow> 'a option) \<Rightarrow> 'a \<Rightarrow> jval \<Rightarrow> 'a slice \<Rightarrow> 'a slice option" where
  "decodeSlice dec zero v old = (case v of
       JvNull \<Rightarrow> Some ([], [])
     | JvArr vs \<Rightarrow> if vs = [] then Some ([], []) else decodeElems dec zero vs (fst old @ snd old)
     | _ \<Rightarrow> None)"

text \<open>The basic fields of a struct, by their tags.\<close>

type_synonym fields = "(string \<times> fieldVal) list"

definition zeroFields :: "(string \<times> fieldKind) list \<Rightarrow> fields" where
  "zeroFields table = map (\<lambda>(tag, kind). (tag, zeroField kind)) table"

definition decodeField :: "(string \<times> fieldKind) list \<Rightarrow> string \<Rightarrow> jval \<Rightarrow> fields \<Rightarrow> fields option" where
  "decodeField table tag v fs = (case (map_of table tag, map_of fs tag) of
       (Some kind, Some old) \<Rightarrow> map_option (\<lambda>x. AList.update tag x fs) (literalStore kind v old)
     | _ \<Rightarrow> Some fs)"

text \<open>\<^verbatim>\<open>UnmarshalJSON\<close> of a type that may be wrapped: the last member with the name of the container, or the
  document itself.\<close>

definition unwrapInto :: "string \<Rightarrow> (jval \<Rightarrow> 'a \<Rightarrow> 'a option) \<Rightarrow> jval \<Rightarrow> 'a \<Rightarrow> 'a option" where
  "unwrapInto cont plain v x = (case v of
       JvNull \<Rightarrow> plain v x
     | JvObj ms \<Rightarrow> (case map_of (rev ms) cont of Some inner \<Rightarrow> plain inner x | None \<Rightarrow> plain v x)
     | _ \<Rightarrow> None)"

section \<open>LTE documents\<close>

definition bearerFields :: "(string \<times> fieldKind) list" where
  "bearerFields =
    [(''bearer_id'', FkUint 32), (''qci'', FkUint 32), (''dl_total_bytes'', FkUint 64), (''ul_total_bytes'', FkUint 64),
     (''dl_latency'', FkFloat), (''ul_latency'', FkFloat), (''dl_buffered_bytes'', FkUint 32), (''ul_buffered_bytes'', FkUint 32)]"

definition unmarshalBearer :: "jval \<Rightarrow> fields \<Rightarrow> fields option" where
  "unmarshalBearer = unwrapInto ''bearer_container'' (decodeStruct (map fst bearerFields) (decodeField bearerFields))"

definition ueFields :: "(string \<times> fieldKind) list" where
  "ueFields =
    [(''ue_rnti'', FkUint 16), (''dl_cqi'', FkFloat), (''dl_mcs'', FkFloat), (''dl_bitrate'', FkFloat),
     (''dl_bler'', FkFloat), (''ul_snr'', FkFloat), (''ul_mcs'', FkFloat), (''ul_pusch_rssi'', FkFloat),
     (''ul_pucch_rssi'', FkFloat), (''ul_pucch_ni'', FkFloat), (''ul_pusch_tpc'', FkInt 64),
     (''ul_pucch_tpc'', FkInt 64), (''dl_cqi_offset'', FkFloat), (''ul_snr_offset'', FkFloat),
     (''ul_bitrate'', FkFloat), (''ul_bler'', FkFloat), (''ul_phr'', FkFloat), (''ul_bsr'', FkUint 32),
     (''rrc_state_str'', FkString), (''rrc_state'', FkUint 32), (''rrc_drb_count'', FkUint 32),
     (''rrc_nof_cells'', FkUint 32), (''rrc_is_allocated'', FkUint 32), (''rrc_sr_res_present'', FkUint 32),
     (''rrc_n_pucch_cs_present'', FkUint 32), (''rrc_is_csfb'', FkUint 32), (''rrc_connect_notified'', FkUint 32),
     (''rrc_rlf_cnt'', FkUint 32), (''rrc_rlf_info_pending'', FkUint 32), (''rrc_consecutive_kos_dl'', FkUint 32),
     (''rrc_consecutive_kos_ul'', FkUint 32), (''rrc_has_tmsi'', FkUint 32), (''rrc_m_tmsi'', FkUint 32),
     (''rrc_mmec'', FkUint 32), (''rrc_establishment_cause'', FkUint 32), (''rrc_transaction_id'', FkUint 32),
     (''rrc_activity_timer_running'', FkUint 32), (''rrc_activity_timer_elapsed'', FkUint 32),
     (''rrc_activity_timer_duration'', FkUint 32), (''rrc_phy_dl_rlf_timer_running'', FkUint 32),
     (''rrc_phy_dl_rlf_timer_elapsed'', FkUint 32), (''rrc_phy_dl_rlf_timer_duration'', FkUint 32),
     (''rrc_phy_ul_rlf_timer_running'', FkUint 32), (''rrc_phy_ul_rlf_timer_elapsed'', FkUint 32),
     (''rrc_phy_ul_rlf_timer_duration'', FkUint 32), (''rrc_rlc_rlf_timer_running'', FkUint 32),
     (''rrc_rlc_rlf_timer_elapsed'', FkUint 32), (''rrc_rlc_rlf_timer_duration'', FkUint 32),
     (''rrc_last_ul_msg_bytes'', FkUint 32), (''rrc_eutra_capabilities_unpacked'', FkUint 32),
     (''rrc_release_cause'', FkString), (''rrc_con_req_rx'', FkUint 32), (''rrc_con_setup_tx'', FkUint 32),
     (''rrc_con_setup_complete_rx'', FkUint 32), (''rrc_con_reject_tx'', FkUint 32),
     (''rrc_con_reest_req_rx'', FkUint 32), (''rrc_con_reest_tx'', FkUint 32),
     (''rrc_con_reest_complete_rx'', FkUint 32), (''rrc_con_reest_reject_tx'', FkUint 32),
     (''rrc_con_reconf_tx'', FkUint 32), (''rrc_con_reconf_complete_rx'', FkUint 32),
     (''rrc_con_release_tx'', FkUint 32), (''rrc_security_mode_command_tx'', FkUint 32),
     (''rrc_security_mode_complete_rx'', FkUint 32), (''rrc_security_mode_failure_rx'', FkUint 32),
     (''rrc_ue_cap_enquiry_tx'', FkUint 32), (''rrc_ue_cap_info_rx'', FkUint 32), (''rrc_ue_info_req_tx'', FkUint 32),
     (''rrc_ue_info_resp_rx'', FkUint 32), (''rrc_max_rlc_retx'', FkUint 32), (''rrc_protocol_fail'', FkUint 32)]"

record UEContainer =
  ueScalars :: fields
  BearerList :: "fields slice"

definition zeroUE :: UEContainer where
  "zeroUE = \<lparr>ueScalars = zeroFields ueFields, BearerList = ([], [])\<rparr>"

definition ueMember :: "string \<Rightarrow> jval \<Rightarrow> UEContainer \<Rightarrow> UEContainer option" where
  "ueMember tag v u =
     (if tag = ''bearer_list''
      then map_option (\<lambda>bs. u\<lparr>BearerList := bs\<rparr>) (decodeSlice unmarshalBearer (zeroFields bearerFields) v (BearerList u))
      else map_option (\<lambda>fs. u\<lparr>ueScalars := fs\<rparr>) (decodeField ueFields tag v (ueScalars u)))"

definition unmarshalUE :: "jval \<Rightarrow> UEContainer \<Rightarrow> UEContainer option" where
  "unmarshalUE = unwrapInto ''ue_container'' (decodeStruct (map fst ueFields @ [''bearer_list'']) ueMember)"

record CellContainer =
  CarrierID :: nat
  PCI :: nat
  NoFRACH :: nat
  UEList :: "UEContainer slice"

definition zeroCell :: CellContainer where
  "zeroCell = \<lparr>CarrierID = 0, PCI = 0, NoFRACH = 0, UEList = ([], [])\<rparr>"

definition cellMember :: "string \<Rightarrow> jval \<Rightarrow> CellContainer \<Rightarrow> CellContainer option" where
  "cellMember tag v c =
     (if tag = ''carrier_id'' then map_option (\<lambda>n. c\<lparr>CarrierID := n\<rparr>) (decodeUint 32 v (CarrierID c))
      else if tag = ''pci'' then map_option (\<lambda>n. c\<lparr>PCI := n\<rparr>) (decodeUint 32 v (PCI c))
      else if tag = ''nof_rach'' then map_option (\<lambda>n. c\<lparr>NoFRACH := n\<rparr>) (decodeUint 32 v (NoFRACH c))
      else map_option (\<lambda>us. c\<lparr>UEList := us\<rparr>) (decodeSlice unmarshalUE zeroUE v (UEList c)))"

definition unmarshalCell :: "jval \<Rightarrow> CellContainer \<Rightarrow> CellContainer option" where
  "unmarshalCell = unwrapInto ''cell_container'' (decodeStruct [''carrier_id'', ''pci'', ''nof_rach'', ''ue_list''] cellMember)"

text \<open>A counter: a \<^verbatim>\<open>json.Number\<close>, which a string with the syntax of a number also is, and of which
  \<^verbatim>\<open>null\<close> leaves the empty one.\<close>

definition jsonNumber :: "jval \<Rightarrow> string option" where
  "jsonNumber v = (case v of
       JvNum lit \<Rightarrow> Some lit
     | JvStr s \<Rightarrow> if isValidNumber s then Some s else None
     | JvNull \<Rightarrow> Some []
     | _ \<Rightarrow> None)"

definition parseUint64 :: "Platform \<Rightarrow> jval \<Rightarrow> uint64 option" where
  "parseUint64 p v = (case jsonNumber v of
       None \<Rightarrow> None
     | Some num \<Rightarrow>
         (case parseInt 64 num of
            Some i \<Rightarrow> if i < 0 then None else Some (word_of_int i)
          | None \<Rightarrow>
              (case parseFloat num of
                 None \<Rightarrow> None
               | Some f \<Rightarrow> if f64_lt f (Fin 0) then None else Some (floatToUint64 p f))))"

text \<open>The members of an object in a \<^verbatim>\<open>map[string]json.RawMessage\<close>: the last one under a name stays.\<close>

definition rawMap :: "jval \<Rightarrow> (string \<times> jval) list option" where
  "rawMap v = (case v of
       JvNull \<Rightarrow> Some []
     | JvObj ms \<Rightarrow> Some (fold (\<lambda>(k, v). putMember k v) ms [])
     | _ \<Rightarrow> None)"

record S1APContainer =
  s1Status :: string
  s1StatusCode :: int
  s1Counters :: "(string \<times> uint64) list"

definition s1apMember :: "Platform \<Rightarrow> string \<Rightarrow> jval \<Rightarrow> S1APContainer \<Rightarrow> S1APContainer option" where
  "s1apMember p k v c =
     (if k = ''s1ap_status'' then map_option (\<lambda>s. c\<lparr>s1Status := s\<rparr>) (decodeString v (s1Status c))
      else if k = ''s1ap_status_code'' then map_option (\<lambda>n. c\<lparr>s1StatusCode := n\<rparr>) (decodeInt 64 v (s1StatusCode c))
      else map_option (\<lambda>n. c\<lparr>s1Counters := AList.update k n (s1Counters c)\<rparr>) (parseUint64 p v))"

definition unmarshalS1AP :: "Platform \<Rightarrow> jval \<Rightarrow> S1APContainer \<Rightarrow> S1APContainer option" where
  "unmarshalS1AP p v c = (case rawMap v of None \<Rightarrow> None | Some raw \<Rightarrow> foldMembers (s1apMember p) raw (c\<lparr>s1Counters := []\<rparr>))"

definition unmarshalRRC :: "Platform \<Rightarrow> jval \<Rightarrow> (string \<times> uint64) list \<Rightarrow> (string \<times> uint64) list option" where
  "unmarshalRRC p v c = (case rawMap v of
       None \<Rightarrow> None
     | Some raw \<Rightarrow> foldMembers (\<lambda>k v c. map_option (\<lambda>n. AList.update k n c) (parseUint64 p v)) raw [])"

record EnbMetrics =
  emType :: string
  EnbSerial :: string
  emTimestamp :: float64
  emS1AP :: S1APContainer
  emRRC :: "(string \<times> uint64) list"
  emCellList :: "CellContainer slice"

definition zeroEnb :: EnbMetrics where
  "zeroEnb = \<lparr>emType = [], EnbSerial = [], emTimestamp = Fin 0, emS1AP = \<lparr>s1Status = [], s1StatusCode = 0, s1Counters = []\<rparr>, emRRC = [],
     emCellList = ([], [])\<rparr>"

definition enbTags :: "string list" where
  "enbTags = [''type'', ''enb_serial'', ''timestamp'', ''s1ap_container'', ''rrc_container'', ''cell_list'']"

definition enbMember :: "Platform \<Rightarrow> string \<Rightarrow> jval \<Rightarrow> EnbMetrics \<Rightarrow> EnbMetrics option" where
  "enbMember p tag v m =
     (if tag = ''type'' then map_option (\<lambda>s. m\<lparr>emType := s\<rparr>) (decodeString v (emType m))
      else if tag = ''enb_serial'' then map_option (\<lambda>s. m\<lparr>EnbSerial := s\<rparr>) (decodeString v (EnbSerial m))
      else if tag = ''timestamp'' then map_option (\<lambda>f. m\<lparr>emTimestamp := f\<rparr>) (decodeFloat v (emTimestamp m))
      else if tag = ''s1ap_container'' then map_option (\<lambda>c. m\<lparr>emS1AP := c\<rparr>) (unmarshalS1AP p v (emS1AP m))
      else if tag = ''rrc_container'' then map_option (\<lambda>c. m\<lparr>emRRC := c\<rparr>) (unmarshalRRC p v (emRRC m))
      else map_option (\<lambda>cs. m\<lparr>emCellList := cs\<rparr>) (decodeSlice unmarshalCell zeroCell v (emCellList m)))"

definition decodeEnb :: "Platform \<Rightarrow> jval \<Rightarrow> EnbMetrics option" where
  "decodeEnb p v = decodeStruct enbTags (enbMember p) v zeroEnb"

section \<open>NR documents\<close>

definition unmarshalStringID :: "jval \<Rightarrow> string option" where
  "unmarshalStringID v = (case v of
       JvStr s \<Rightarrow> Some (trimSpace s)
     | JvNull \<Rightarrow> Some []
     | JvNum lit \<Rightarrow> Some lit
     | _ \<Rightarrow> None)"

record NRUEContainer =
  nuRNTI :: nat
  nuDLCQI :: float64
  nuDLBitrate :: float64
  nuDLBLER :: float64
  nuULSINR :: float64
  nuULBitrate :: float64
  nuULBLER :: float64
  nuULPHR :: float64

definition zeroNRUE :: NRUEContainer where
  "zeroNRUE = \<lparr>nuRNTI = 0, nuDLCQI = Fin 0, nuDLBitrate = Fin 0, nuDLBLER = Fin 0, nuULSINR = Fin 0, nuULBitrate = Fin 0, nuULBLER = Fin 0,
     nuULPHR = Fin 0\<rparr>"

definition nrUETags :: "string list" where
  "nrUETags = [''ue_rnti'', ''dl_cqi'', ''dl_bitrate'', ''dl_bler'', ''ul_sinr'', ''ul_bitrate'', ''ul_bler'', ''ul_phr'']"

definition nrUEMember :: "string \<Rightarrow> jval \<Rightarrow> NRUEContainer \<Rightarrow> NRUEContainer option" where
  "nrUEMember tag v u =
     (if tag = ''ue_rnti'' then map_option (\<lambda>n. u\<lparr>nuRNTI := n\<rparr>) (decodeUint 32 v (nuRNTI u))
      else if tag = ''dl_cqi'' then map_option (\<lambda>f. u\<lparr>nuDLCQI := f\<rparr>) (decodeFloat v (nuDLCQI u))
      else if tag = ''dl_bitrate'' then map_option (\<lambda>f. u\<lparr>nuDLBitrate := f\<rparr>) (decodeFloat v (nuDLBitrate u))
      else if tag = ''dl_bler'' then map_option (\<lambda>f. u\<lparr>nuDLBLER := f\<rparr>) (decodeFloat v (nuDLBLER u))
      else if tag = ''ul_sinr'' then map_option (\<lambda>f. u\<lparr>nuULSINR := f\<rparr>) (decodeFloat v (nuULSINR u))
      else if tag = ''ul_bitrate'' then map_option (\<lambda>f. u\<lparr>nuULBitrate := f\<rparr>) (decodeFloat v (nuULBitrate u))
      else if tag = ''ul_bler'' then map_option (\<lambda>f. u\<lparr>nuULBLER := f\<rparr>) (decodeFloat v (nuULBLER u))
      else map_option (\<lambda>f. u\<lparr>nuULPHR := f\<rparr>) (decodeFloat v (nuULPHR u)))"

record NRCellContainer =
  ncNCI :: string
  ncNRCellID :: string
  ncPCI :: nat
  ncUEList :: "NRUEContainer slice"

definition zeroNRCell :: NRCellContainer where
  "zeroNRCell = \<lparr>ncNCI = [], ncNRCellID = [], ncPCI = 0, ncUEList = ([], [])\<rparr>"

definition NRCellIdentity :: "NRCellContainer \<Rightarrow> string" where
  "NRCellIdentity c = (if ncNCI c \<noteq> [] then ncNCI c else if ncNRCellID c \<noteq> [] then ncNRCellID c else ''pci='' @ formatNat (ncPCI c))"

definition nrCellMember :: "string \<Rightarrow> jval \<Rightarrow> NRCellContainer \<Rightarrow> NRCellContainer option" where
  "nrCellMember tag v c =
     (if tag = ''nci'' then map_option (\<lambda>s. c\<lparr>ncNCI := s\<rparr>) (unmarshalStringID v)
      else if tag = ''nr_cell_id'' then map_option (\<lambda>s. c\<lparr>ncNRCellID := s\<rparr>) (unmarshalStringID v)
      else if tag = ''pci'' then map_option (\<lambda>n. c\<lparr>ncPCI := n\<rparr>) (decodeUint 32 v (ncPCI c))
      else map_option (\<lambda>us. c\<lparr>ncUEList := us\<rparr>) (decodeSlice (decodeStruct nrUETags nrUEMember) zeroNRUE v (ncUEList c)))"

definition unmarshalNRCell :: "jval \<Rightarrow> NRCellContainer \<Rightarrow> NRCellContainer option" where
  "unmarshalNRCell = unwrapInto ''cell_container'' (decodeStruct [''nci'', ''nr_cell_id'', ''pci'', ''ue_list''] nrCellMember)"

text \<open>Decoding into a \<^verbatim>\<open>map[string]any\<close>. Unless numbers are kept as literals, each of them has to be a
  \<^verbatim>\<open>float64\<close>.\<close>

fun floatsOK :: "jval \<Rightarrow> bool" where
  "floatsOK (JvNum lit) = (parseFloat lit \<noteq> None)"
| "floatsOK (JvArr vs) = list_all floatsOK vs"
| "floatsOK (JvObj ms) = list_all (\<lambda>(k, v). floatsOK v) ms"
| "floatsOK v = True"

definition decodeAnyMap :: "bool \<Rightarrow> jval \<Rightarrow> (string \<times> jval) list \<Rightarrow> (string \<times> jval) list option" where
  "decodeAnyMap useNumber v old = (case v of
       JvNull \<Rightarrow> Some []
     | JvObj ms \<Rightarrow> if useNumber \<or> floatsOK v then Some (fold (\<lambda>(k, v). putMember k (toAny v)) ms old) else None
     | _ \<Rightarrow> None)"

record GnbMetrics =
  gmType :: string
  gmTimestamp :: float64
  GnbID :: string
  GnbSerial :: string
  gmNGAP :: "(string \<times> jval) list"
  gmRRC :: "(string \<times> jval) list"
  gmCellList :: "NRCellContainer slice"

definition zeroGnb :: GnbMetrics where
  "zeroGnb = \<lparr>gmType = [], gmTimestamp = Fin 0, GnbID = [], GnbSerial = [], gmNGAP = [], gmRRC = [], gmCellList = ([], [])\<rparr>"

definition GnbIdentity :: "GnbMetrics \<Rightarrow> string" where
  "GnbIdentity m = (if trimSpace (GnbSerial m) \<noteq> [] then GnbSerial m else GnbID m)"

definition gnbTags :: "string list" where
  "gnbTags = [''type'', ''timestamp'', ''gnb_id'', ''gnb_serial'', ''ngap_container'', ''rrc_container'', ''cell_list'']"

definition gnbMember :: "bool \<Rightarrow> string \<Rightarrow> jval \<Rightarrow> GnbMetrics \<Rightarrow> GnbMetrics option" where
  "gnbMember useNumber tag v m =
     (if tag = ''type'' then map_option (\<lambda>s. m\<lparr>gmType := s\<rparr>) (decodeString v (gmType m))
      else if tag = ''timestamp'' then map_option (\<lambda>f. m\<lparr>gmTimestamp := f\<rparr>) (decodeFloat v (gmTimestamp m))
      else if tag = ''gnb_id'' then map_option (\<lambda>s. m\<lparr>GnbID := s\<rparr>) (unmarshalStringID v)
      else if tag = ''gnb_serial'' then map_option (\<lambda>s. m\<lparr>GnbSerial := s\<rparr>) (unmarshalStringID v)
      else if tag = ''ngap_container'' then map_option (\<lambda>c. m\<lparr>gmNGAP := c\<rparr>) (decodeAnyMap useNumber v (gmNGAP m))
      else if tag = ''rrc_container'' then map_option (\<lambda>c. m\<lparr>gmRRC := c\<rparr>) (decodeAnyMap useNumber v (gmRRC m))
      else map_option (\<lambda>cs. m\<lparr>gmCellList := cs\<rparr>) (decodeSlice unmarshalNRCell zeroNRCell v (gmCellList m)))"

definition decodeGnb :: "bool \<Rightarrow> jval \<Rightarrow> GnbMetrics option" where
  "decodeGnb useNumber v = decodeStruct gnbTags (gnbMember useNumber) v zeroGnb"

section \<open>Parsers\<close>

datatype metricsError = ErrInvalidJSON | ErrInvalidType | ErrMissingRoot

datatype metricsDoc = EnbDoc EnbMetrics | GnbDoc GnbMetrics

definition ParseEnbMetrics :: "Platform \<Rightarrow> string \<Rightarrow> metricsError + EnbMetrics" where
  "ParseEnbMetrics p raw = (case Option.bind (decodeFirst raw) (decodeEnb p) of
       None \<Rightarrow> Inl ErrInvalidJSON
     | Some m \<Rightarrow>
         if emType m \<noteq> ''enb_metrics'' then Inl ErrInvalidType
         else if f64_eq (emTimestamp m) (Fin 0) \<or> EnbSerial m = [] then Inl ErrMissingRoot
         else Inr m)"

definition ParseGnbMetrics :: "string \<Rightarrow> metricsError + GnbMetrics" where
  "ParseGnbMetrics raw = (case Option.bind (decodeFirst raw) (decodeGnb True) of
       None \<Rightarrow> Inl ErrInvalidJSON
     | Some m \<Rightarrow>
         if gmType m \<noteq> ''gnb_metrics'' then Inl ErrInvalidType
         else if f64_eq (gmTimestamp m) (Fin 0) \<or> GnbIdentity m = [] then Inl ErrMissingRoot
         else Inr m)"

definition ParserFor :: "Platform \<Rightarrow> string \<Rightarrow> (string \<Rightarrow> metricsError + metricsDoc) option" where
  "ParserFor p elementKind =
     (if elementKind = ''enb'' then Some (\<lambda>raw. map_sum id EnbDoc (ParseEnbMetrics p raw))
      else if elementKind = ''gnb'' \<or> elementKind = ''oai-gnb'' then Some (\<lambda>raw. map_sum id GnbDoc (ParseGnbMetrics raw))
      else None)"

section \<open>What a decoded struct holds\<close>

text \<open>A document in which no two members of an object have names that differ in case only.\<close>

definition tidyKeys :: "(string \<times> jval) list \<Rightarrow> bool" where
  "tidyKeys ms \<longleftrightarrow> distinct (map toLower (map fst ms))"

fun tidy :: "jval \<Rightarrow> bool" where
  "tidy (JvObj ms) = (tidyKeys ms \<and> list_all (\<lambda>(k, v). tidy v) ms)"
| "tidy (JvArr vs) = list_all tidy vs"
| "tidy v = True"

definition memberFor :: "(string \<times> jval) list \<Rightarrow> string \<Rightarrow> jval option" where
  "memberFor ms tag = map_of (map (\<lambda>(k, v). (toLower k, v)) ms) tag"

definition membersOf :: "jval \<Rightarrow> (string \<times> jval) list" where
  "membersOf v = (case v of JvObj ms \<Rightarrow> ms | _ \<Rightarrow> [])"

definition contents :: "string \<Rightarrow> jval \<Rightarrow> (string \<times> jval) list" where
  "contents cont v = (case map_of (membersOf v) cont of Some inner \<Rightarrow> membersOf inner | None \<Rightarrow> membersOf v)"

definition entries :: "jval option \<Rightarrow> jval list" where
  "entries v = (case v of Some (JvArr vs) \<Rightarrow> vs | _ \<Rightarrow> [])"

lemma tidy_members: "tidy v \<Longrightarrow> tidyKeys (membersOf v) \<and> (\<forall>(k, w) \<in> set (membersOf v). tidy w)"
  by (cases v) (auto simp: membersOf_def tidyKeys_def list_all_iff)

lemma tidy_contents: "tidy v \<Longrightarrow> tidyKeys (contents cont v) \<and> (\<forall>(k, w) \<in> set (contents cont v). tidy w)"
  using tidy_members [of v] by (auto simp: contents_def dest!: map_of_SomeD tidy_members split: option.splits)

lemma memberFor_mem: "memberFor ms tag = Some v \<Longrightarrow> \<exists>k. (k, v) \<in> set ms"
  by (auto simp: memberFor_def dest!: map_of_SomeD)

lemma tidy_entry:
  assumes "\<forall>(k, w) \<in> set ms. tidy w" "v \<in> set (entries (memberFor ms tag))"
  shows "tidy v"
proof -
  obtain vs where vs: "memberFor ms tag = Some (JvArr vs)" "v \<in> set vs" using assms(2)
    by (cases "memberFor ms tag") (auto simp: entries_def split: jval.splits)
  obtain k where "(k, JvArr vs) \<in> set ms" using memberFor_mem [OF vs(1)] by blast
  then have "tidy (JvArr vs)" using assms(1) by blast
  then show ?thesis using vs(2) by (simp add: list_all_iff)
qed

text \<open>Tags are in lower case, so that a member of a tidy object reaches the field of its folded name.\<close>

definition lowerTags :: "string list \<Rightarrow> bool" where
  "lowerTags tags \<longleftrightarrow> list_all (\<lambda>t. toLower t = t) tags"

lemma find_SomeD: "find P xs = Some x \<Longrightarrow> x \<in> set xs \<and> P x"
  by (induction xs) (auto split: if_splits)

lemma fieldName_Some:
  assumes "lowerTags tags"
  shows "fieldName tags k = Some t \<longleftrightarrow> t \<in> set tags \<and> toLower k = t"
proof
  assume "fieldName tags k = Some t"
  then show "t \<in> set tags \<and> toLower k = t" using assms find_SomeD [of "equalFold k" tags t]
    by (auto simp: fieldName_def lowerTags_def list_all_iff equalFold_def split: if_splits)
next
  assume t: "t \<in> set tags \<and> toLower k = t"
  then have low: "toLower t = t" using assms by (simp add: lowerTags_def list_all_iff)
  show "fieldName tags k = Some t"
  proof (cases "k \<in> set tags")
    case True
    then have "toLower k = k" using assms by (simp add: lowerTags_def list_all_iff)
    then show ?thesis using True t by (simp add: fieldName_def)
  next
    case False
    have "find (equalFold k) tags \<noteq> None" using t low by (auto simp: find_None_iff equalFold_def)
    then obtain u where u: "find (equalFold k) tags = Some u" by blast
    then have "u \<in> set tags" "equalFold k u" using find_SomeD by fast+
    then have "u = t" using t assms by (simp add: lowerTags_def list_all_iff equalFold_def)
    then show ?thesis using u False by (simp add: fieldName_def)
  qed
qed

text \<open>One field of a struct, read by \<open>get\<close>: the members of other fields leave it alone, the one of
  its name decodes into it, and there is at most one.\<close>

lemma foldMembers_get:
  assumes "foldMembers f ms x = Some y" "distinct (map fst ms)"
    and frame: "\<And>t v x y. t \<noteq> tag \<Longrightarrow> f t v x = Some y \<Longrightarrow> get y = get x"
    and hit: "\<And>v x y. f tag v x = Some y \<Longrightarrow> dec v (get x) = Some (get y)"
  shows "(case map_of ms tag of None \<Rightarrow> Some (get x) | Some w \<Rightarrow> dec w (get x)) = Some (get y)"
  using assms(1,2)
proof (induction ms arbitrary: x)
  case (Cons m ms)
  obtain k w where m: "m = (k, w)" by (cases m)
  from Cons.prems(1) obtain z where z: "f k w x = Some z" "foldMembers f ms z = Some y" by (auto simp: m bind_eq_Some_conv)
  have rest: "(case map_of ms tag of None \<Rightarrow> Some (get z) | Some w \<Rightarrow> dec w (get z)) = Some (get y)"
    using Cons.IH [OF z(2)] Cons.prems(2) by simp
  show ?case
  proof (cases "k = tag")
    case True
    then have "map_of ms tag = None" using Cons.prems(2) by (simp add: m map_of_eq_None_iff)
    then show ?thesis using rest hit z(1) True by (simp add: m)
  next
    case False
    show ?thesis using rest [unfolded frame [OF False z(1)]] False by (simp add: m)
  qed
qed simp

lemma decodeStruct_get:
  assumes run: "decodeStruct tags f v x = Some y" and low: "lowerTags tags" "tag \<in> set tags" and tidy: "tidyKeys (membersOf v)"
    and frame: "\<And>t v x y. t \<noteq> tag \<Longrightarrow> t \<in> set tags \<Longrightarrow> f t v x = Some y \<Longrightarrow> get y = get x"
    and hit: "\<And>v x y. f tag v x = Some y \<Longrightarrow> dec v (get x) = Some (get y)"
  shows "(case memberFor (membersOf v) tag of None \<Rightarrow> Some (get x) | Some w \<Rightarrow> dec w (get x)) = Some (get y)"
proof (cases v)
  case (JvObj ms)
  let ?step = "\<lambda>k v x. case fieldName tags k of None \<Rightarrow> Some x | Some tag \<Rightarrow> f tag v x"
  let ?plain = "\<lambda>t v x. if t \<in> set tags then f t v x else Some x" and ?ms = "map (\<lambda>(k, v). (toLower k, v)) ms"
  have name: "fieldName tags k = (if toLower k \<in> set tags then Some (toLower k) else None)" for k
  proof (cases "toLower k \<in> set tags")
    case False
    then have "fieldName tags k \<noteq> Some t" for t using fieldName_Some [OF low(1), of k t] by blast
    then show ?thesis using False by (metis option.exhaust)
  qed (use fieldName_Some [OF low(1)] in simp)
  have "foldMembers ?step ms = foldMembers ?plain ?ms"
  proof (induction ms)
    case (Cons m ms)
    obtain k w where m: "m = (k, w)" by (cases m)
    show ?case using name [of k] by (simp add: m fun_eq_iff Cons.IH)
  qed (simp add: fun_eq_iff)
  then have "foldMembers ?plain ?ms x = Some y" using run by (simp add: JvObj decodeStruct_def)
  moreover have "map fst ?ms = map toLower (map fst ms)" by auto
  then have "distinct (map fst ?ms)" using tidy by (simp only: JvObj tidyKeys_def membersOf_def jval.case)
  ultimately have "(case map_of ?ms tag of None \<Rightarrow> Some (get x) | Some w \<Rightarrow> dec w (get x)) = Some (get y)"
    by (rule foldMembers_get) (use frame hit low(2) in \<open>auto split: if_splits\<close>)
  then show ?thesis by (simp add: JvObj memberFor_def membersOf_def)
qed (use run in \<open>simp_all add: decodeStruct_def membersOf_def memberFor_def\<close>)

lemma map_of_rev_distinct: "distinct (map fst ms) \<Longrightarrow> map_of (rev ms) = map_of ms"
proof
  fix k
  assume d: "distinct (map fst ms)"
  then have "distinct (map fst (rev ms))" by (simp add: rev_map [symmetric])
  from map_of_eq_Some_iff [OF d, of k] map_of_eq_Some_iff [OF this, of k]
  show "map_of (rev ms) k = map_of ms k" by (metis option.exhaust set_rev)
qed

lemma tidyKeys_distinct: "tidyKeys ms \<Longrightarrow> distinct (map fst ms)"
  using distinct_map [of toLower "map fst ms"] by (simp add: tidyKeys_def)

lemma unwrap_contents:
  assumes "unwrapInto cont plain v x = Some y" "tidy v"
  obtains w where "plain w x = Some y" "membersOf w = contents cont v" "tidyKeys (membersOf w)"
proof (cases v)
  case (JvObj ms)
  have "distinct (map fst ms)" using assms(2) by (simp add: JvObj tidyKeys_distinct)
  then have rev: "map_of (rev ms) cont = map_of ms cont" by (simp add: map_of_rev_distinct)
  then show thesis
    using assms tidy_contents [of v cont] that
    by (cases "map_of ms cont") (auto simp: JvObj unwrapInto_def contents_def membersOf_def)
qed (use assms that in \<open>auto simp: unwrapInto_def contents_def membersOf_def tidyKeys_def\<close>)

lemma decodeElems_fresh: "decodeElems dec zero vs [] = Some (ys, rest) \<Longrightarrow> list_all2 (\<lambda>v y. dec v zero = Some y) vs ys"
  by (induction vs arbitrary: ys) (auto split: option.splits)

lemma decodeSlice_fresh: "decodeSlice dec zero v ([], []) = Some s \<Longrightarrow> list_all2 (\<lambda>v y. dec v zero = Some y) (entries (Some v)) (fst s)"
  by (cases v; cases s) (auto simp: decodeSlice_def entries_def intro: decodeElems_fresh split: if_splits)

text \<open>The fields of the LTE structs in these terms.\<close>

definition numberField :: "nat \<Rightarrow> (string \<times> jval) list \<Rightarrow> string \<Rightarrow> nat" where
  "numberField bits ms tag = (case memberFor ms tag of Some (JvNum lit) \<Rightarrow> (case parseUint bits lit of Some n \<Rightarrow> n | None \<Rightarrow> 0) | _ \<Rightarrow> 0)"

lemma decodeUint_zero:
  "z = 0 \<Longrightarrow> (case v of None \<Rightarrow> Some z | Some w \<Rightarrow> decodeUint bits w z) = Some n \<Longrightarrow>
     n = (case v of Some (JvNum lit) \<Rightarrow> (case parseUint bits lit of Some n \<Rightarrow> n | None \<Rightarrow> 0) | _ \<Rightarrow> 0)"
  by (auto simp: decodeUint_def literalStore_def split: option.splits jval.splits if_splits)

lemma slice_zero:
  "z = ([], []) \<Longrightarrow> (case v of None \<Rightarrow> Some z | Some w \<Rightarrow> decodeSlice dec zero w z) = Some s \<Longrightarrow>
     list_all2 (\<lambda>v y. dec v zero = Some y) (entries v) (fst s)"
  by (cases v) (auto simp: entries_def dest: decodeSlice_fresh)

lemma enb_cells:
  assumes "decodeEnb p v = Some m" "tidy v"
  shows "list_all2 (\<lambda>v c. unmarshalCell v zeroCell = Some c) (entries (memberFor (membersOf v) ''cell_list'')) (fst (emCellList m))"
proof -
  have low: "lowerTags enbTags" by code_simp
  note run = assms(1) [unfolded decodeEnb_def]
  have "(case memberFor (membersOf v) ''cell_list'' of None \<Rightarrow> Some (emCellList zeroEnb)
      | Some w \<Rightarrow> decodeSlice unmarshalCell zeroCell w (emCellList zeroEnb)) = Some (emCellList m)"
    by (rule decodeStruct_get [OF run low]) (use tidy_members [OF assms(2)] in \<open>auto simp: enbTags_def enbMember_def\<close>)
  then show ?thesis by (rule slice_zero [rotated]) (simp add: zeroEnb_def)
qed

lemma cell_fields:
  assumes "unmarshalCell v zeroCell = Some c" "tidy v"
  shows "CarrierID c = numberField 32 (contents ''cell_container'' v) ''carrier_id''" "PCI c = numberField 32 (contents ''cell_container'' v) ''pci''"
    "list_all2 (\<lambda>v u. unmarshalUE v zeroUE = Some u) (entries (memberFor (contents ''cell_container'' v) ''ue_list'')) (fst (UEList c))"
proof -
  let ?tags = "[''carrier_id'', ''pci'', ''nof_rach'', ''ue_list'']" and ?ms = "contents ''cell_container'' v"
  have low: "lowerTags ?tags" by code_simp
  obtain w where w: "decodeStruct ?tags cellMember w zeroCell = Some c" "membersOf w = ?ms" "tidyKeys (membersOf w)"
    by (rule unwrap_contents [OF assms(1) [unfolded unmarshalCell_def] assms(2)])
  note get = decodeStruct_get [OF w(1) low _ w(3), unfolded w(2)]
  have "(case memberFor ?ms ''carrier_id'' of None \<Rightarrow> Some (CarrierID zeroCell) | Some w \<Rightarrow> decodeUint 32 w (CarrierID zeroCell)) = Some (CarrierID c)"
    by (rule get) (auto simp: cellMember_def)
  then show "CarrierID c = numberField 32 ?ms ''carrier_id''" unfolding numberField_def by (rule decodeUint_zero [rotated]) (simp add: zeroCell_def)
  have "(case memberFor ?ms ''pci'' of None \<Rightarrow> Some (PCI zeroCell) | Some w \<Rightarrow> decodeUint 32 w (PCI zeroCell)) = Some (PCI c)"
    by (rule get) (auto simp: cellMember_def)
  then show "PCI c = numberField 32 ?ms ''pci''" unfolding numberField_def by (rule decodeUint_zero [rotated]) (simp add: zeroCell_def)
  have "(case memberFor ?ms ''ue_list'' of None \<Rightarrow> Some (UEList zeroCell) | Some w \<Rightarrow> decodeSlice unmarshalUE zeroUE w (UEList zeroCell)) = Some (UEList c)"
    by (rule get) (auto simp: cellMember_def)
  then show "list_all2 (\<lambda>v u. unmarshalUE v zeroUE = Some u) (entries (memberFor ?ms ''ue_list'')) (fst (UEList c))"
    by (rule slice_zero [rotated]) (simp add: zeroCell_def)
qed

lemma zeroFields_map: "map_of (zeroFields table) tag = map_option zeroField (map_of table tag)"
  by (induction table) (auto simp: zeroFields_def)

lemma ue_field:
  assumes "unmarshalUE v zeroUE = Some u" "tidy v" "map_of ueFields tag = Some kind"
  shows "\<exists>f. map_of (ueScalars u) tag = Some f
    \<and> (case memberFor (contents ''ue_container'' v) tag of None \<Rightarrow> Some (zeroField kind) | Some w \<Rightarrow> literalStore kind w (zeroField kind)) = Some f"
proof -
  let ?tags = "map fst ueFields @ [''bearer_list'']" and ?ms = "contents ''ue_container'' v"
  define get where "get = (\<lambda>u :: UEContainer. map_of (ueScalars u) tag)"
  define dec where "dec = (\<lambda>w old. case old of None \<Rightarrow> Some None | Some x \<Rightarrow> map_option Some (literalStore kind w x))"
  have low: "lowerTags ?tags" by code_simp
  have "map_of ueFields ''bearer_list'' = None" by code_simp
  then have tag: "tag \<in> set ?tags" "tag \<noteq> ''bearer_list''" using assms(3) by (force dest: map_of_SomeD, auto)
  obtain w where w: "decodeStruct ?tags ueMember w zeroUE = Some u" "membersOf w = ?ms" "tidyKeys (membersOf w)"
    by (rule unwrap_contents [OF assms(1) [unfolded unmarshalUE_def] assms(2)])
  have run: "(case memberFor ?ms tag of None \<Rightarrow> Some (get zeroUE) | Some w \<Rightarrow> dec w (get zeroUE)) = Some (get u)"
  proof (rule decodeStruct_get [OF w(1) low tag(1) w(3), unfolded w(2)])
    show "get y = get x" if "t \<noteq> tag" "ueMember t v x = Some y" for t v x y
      using that by (auto simp: get_def ueMember_def decodeField_def update_conv' split: if_splits option.splits)
    show "dec v (get x) = Some (get y)" if "ueMember tag v x = Some y" for v x y
      using that tag(2) assms(3) by (auto simp: get_def dec_def ueMember_def decodeField_def update_conv' split: option.splits)
  qed
  have zero: "get zeroUE = Some (zeroField kind)" by (simp add: get_def zeroUE_def zeroFields_map assms(3))
  show ?thesis
  proof (cases "memberFor ?ms tag")
    case None
    then show ?thesis using run [unfolded zero, unfolded get_def] by (auto dest: sym)
  next
    case (Some w)
    then have "map_option Some (literalStore kind w (zeroField kind)) = Some (map_of (ueScalars u) tag)" using run [unfolded zero, unfolded get_def] by (simp add: dec_def)
    then show ?thesis using Some by (cases "literalStore kind w (zeroField kind)") (auto dest: sym)
  qed
qed

text \<open>The interface to the core network: what the container says, and its counters.\<close>

lemma rawMap_members:
  assumes "rawMap v = Some raw" "tidy v"
  shows "distinct (map fst raw)" "map_of raw = map_of (membersOf v)"
proof -
  have put: "sorted_wrt (<) (map fst acc) \<Longrightarrow>
      map_of (fold (\<lambda>(k, v). putMember k v) ms acc) = map_of acc ++ map_of (rev ms)" for ms acc :: "(string \<times> jval) list"
    by (induction ms arbitrary: acc) (auto simp: map_of_putMember sorted_putMember fun_eq_iff map_add_def split: option.splits)
  have raw: "raw = fold (\<lambda>(k, v). putMember k v) (membersOf v) []"
    using assms(1) by (cases v) (auto simp: rawMap_def membersOf_def)
  show "distinct (map fst raw)" using fold_put_sorted [of "[]" "membersOf v"] unfolding raw by (simp add: strict_sorted_iff)
  show "map_of raw = map_of (membersOf v)"
    using put [of "[]" "membersOf v"] tidy_members [OF assms(2)] map_of_rev_distinct [OF tidyKeys_distinct] unfolding raw by auto
qed

definition linkReady :: "(string \<times> jval) list \<Rightarrow> bool" where
  "linkReady ms \<longleftrightarrow> (\<exists>s. map_of ms ''s1ap_status'' = Some (JvStr s) \<and> equalFold (trimSpace s) ''ready'')
     \<or> (\<exists>lit. map_of ms ''s1ap_status_code'' = Some (JvNum lit) \<and> parseInt 64 lit = Some 1)"

lemma s1ap_fields:
  assumes "unmarshalS1AP p v c = Some c'" "tidy v" "s1Status c = []" "s1StatusCode c = 0"
  shows "equalFold (trimSpace (s1Status c')) ''ready'' \<or> s1StatusCode c' = 1 \<longleftrightarrow> linkReady (membersOf v)"
    "map_of (membersOf v) k = None \<Longrightarrow> k \<noteq> ''s1ap_status'' \<Longrightarrow> k \<noteq> ''s1ap_status_code'' \<Longrightarrow> map_of (s1Counters c') k = None"
proof -
  obtain raw where raw: "rawMap v = Some raw" "foldMembers (s1apMember p) raw (c\<lparr>s1Counters := []\<rparr>) = Some c'"
    using assms(1) by (auto simp: unmarshalS1AP_def split: option.splits)
  note keys = rawMap_members [OF raw(1) assms(2)]
  note get = foldMembers_get [OF raw(2) keys(1), unfolded keys(2)]
  have "(case map_of (membersOf v) ''s1ap_status'' of None \<Rightarrow> Some (s1Status (c\<lparr>s1Counters := []\<rparr>))
      | Some w \<Rightarrow> decodeString w (s1Status (c\<lparr>s1Counters := []\<rparr>))) = Some (s1Status c')"
    by (rule get) (auto simp: s1apMember_def split: if_splits)
  then have status: "s1Status c' = (case map_of (membersOf v) ''s1ap_status'' of Some (JvStr s) \<Rightarrow> s | _ \<Rightarrow> [])"
    using assms(3) by (auto simp: decodeString_def literalStore_def split: option.splits jval.splits if_splits)
  have "(case map_of (membersOf v) ''s1ap_status_code'' of None \<Rightarrow> Some (s1StatusCode (c\<lparr>s1Counters := []\<rparr>))
      | Some w \<Rightarrow> decodeInt 64 w (s1StatusCode (c\<lparr>s1Counters := []\<rparr>))) = Some (s1StatusCode c')"
    by (rule get) (auto simp: s1apMember_def split: if_splits)
  then have code: "s1StatusCode c' = 1 \<longleftrightarrow> (\<exists>lit. map_of (membersOf v) ''s1ap_status_code'' = Some (JvNum lit) \<and> parseInt 64 lit = Some 1)"
    using assms(4) by (auto simp: decodeInt_def literalStore_def split: option.splits jval.splits if_splits)
  have "\<not> equalFold (trimSpace []) ''ready''" by code_simp
  then show "equalFold (trimSpace (s1Status c')) ''ready'' \<or> s1StatusCode c' = 1 \<longleftrightarrow> linkReady (membersOf v)"
    unfolding code status linkReady_def by (auto split: option.splits jval.splits)
  assume k: "map_of (membersOf v) k = None" "k \<noteq> ''s1ap_status''" "k \<noteq> ''s1ap_status_code''"
  have "(case map_of (membersOf v) k of None \<Rightarrow> Some (map_of (s1Counters (c\<lparr>s1Counters := []\<rparr>)) k)
      | Some w \<Rightarrow> map_option Some (parseUint64 p w)) = Some (map_of (s1Counters c') k)"
    by (rule get [where dec = "\<lambda>w old. map_option Some (parseUint64 p w)"]) (use k in \<open>auto simp: s1apMember_def update_conv' split: if_splits\<close>)
  then show "map_of (s1Counters c') k = None" using k(1) by simp
qed

lemma enb_link:
  assumes "decodeEnb p v = Some m" "tidy v"
  shows "equalFold (trimSpace (s1Status (emS1AP m))) ''ready'' \<or> s1StatusCode (emS1AP m) = 1
      \<longleftrightarrow> linkReady (case memberFor (membersOf v) ''s1ap_container'' of None \<Rightarrow> [] | Some w \<Rightarrow> membersOf w)"
    "map_of (case memberFor (membersOf v) ''s1ap_container'' of None \<Rightarrow> [] | Some w \<Rightarrow> membersOf w) ''ready'' = None \<Longrightarrow>
       map_of (s1Counters (emS1AP m)) ''ready'' = None"
proof -
  have low: "lowerTags enbTags" by code_simp
  note run = assms(1) [unfolded decodeEnb_def]
  have s1: "(case memberFor (membersOf v) ''s1ap_container'' of None \<Rightarrow> Some (emS1AP zeroEnb)
      | Some w \<Rightarrow> unmarshalS1AP p w (emS1AP zeroEnb)) = Some (emS1AP m)"
    by (rule decodeStruct_get [OF run low]) (use tidy_members [OF assms(2)] in \<open>auto simp: enbTags_def enbMember_def\<close>)
  have zero: "s1Status (emS1AP zeroEnb) = []" "s1StatusCode (emS1AP zeroEnb) = 0" "s1Counters (emS1AP zeroEnb) = []"
    by (simp_all add: zeroEnb_def)
  have none: "\<not> equalFold (trimSpace []) ''ready''" by code_simp
  have tidy: "tidy w" if "memberFor (membersOf v) ''s1ap_container'' = Some w" for w
    using memberFor_mem [OF that] tidy_members [OF assms(2)] by blast
  show "equalFold (trimSpace (s1Status (emS1AP m))) ''ready'' \<or> s1StatusCode (emS1AP m) = 1
      \<longleftrightarrow> linkReady (case memberFor (membersOf v) ''s1ap_container'' of None \<Rightarrow> [] | Some w \<Rightarrow> membersOf w)"
    using s1 s1ap_fields(1) [OF _ tidy zero(1,2)] zero none by (auto simp: linkReady_def split: option.splits)
  show "map_of (s1Counters (emS1AP m)) ''ready'' = None"
    if "map_of (case memberFor (membersOf v) ''s1ap_container'' of None \<Rightarrow> [] | Some w \<Rightarrow> membersOf w) ''ready'' = None"
    using s1 s1ap_fields(2) [OF _ tidy zero(1,2)] zero that by (auto split: option.splits)
qed

end
