(* ===== verification/Monitoring.thy ===== *)
theory Monitoring
  imports PM Notifications
begin

text \<open>
  The services between the bus and the engines: the threshold service
  (\<^verbatim>\<open>internal/ems/services/tca_service.go\<close>), the queueing of alarm events as NETCONF
  notifications (\<^verbatim>\<open>netconf_notifications.go\<close>) and the telemetry cache
  (\<^verbatim>\<open>telemetry_cache.go\<close>, \<^verbatim>\<open>telemetry/store.go\<close>). Each is a loop over the messages of
  its subscription, and returns when the context is done or the subscription is closed. What the
  bus does between them is the subject of the theory on the bus.

  The lemmas follow one rule of the threshold engine, the interface to the core network, from the
  report to the alarm list.
\<close>

section \<open>Messages and services\<close>

datatype busMsg = TelemetryEvent "Sample list" | PMEvent PMReport | AlarmEvent Event | OtherEvent

datatype serviceInput = ServiceDone | ServiceClosed | Incoming time busMsg

text \<open>The threshold engine reads the end and the values of a report; this is that part of it.\<close>

definition tcaReport :: "PMReport \<Rightarrow> Report" where
  "tcaReport r = \<lparr>repEnd = pmEnd r, ByDN = map (\<lambda>(dn, out). (dn, map (\<lambda>(n, v). (n, pvValue v)) out)) (pmByDN r)\<rparr>"

definition TCAEnabled :: "Engine \<Rightarrow> bool" where
  "TCAEnabled e \<longleftrightarrow> cfgEnabled (tcfg e)"

fun serveTCA :: "AlarmCodec \<Rightarrow> serviceInput list \<Rightarrow> Engine \<Rightarrow> Event list \<times> Engine" where
  "serveTCA codec [] e = ([], e)"
| "serveTCA codec (ServiceDone # ins) e = ([], e)"
| "serveTCA codec (ServiceClosed # ins) e = ([], e)"
| "serveTCA codec (Incoming now msg # ins) e = (case msg of
     PMEvent r \<Rightarrow> (case Evaluate codec now (tcaReport r) e of (evs, e1) \<Rightarrow>
       (case serveTCA codec ins e1 of (out, e2) \<Rightarrow> (evs @ out, e2)))
   | _ \<Rightarrow> serveTCA codec ins e)"

definition RunTCAService :: "AlarmCodec \<Rightarrow> serviceInput list \<Rightarrow> Engine \<Rightarrow> Event list \<times> Engine" where
  "RunTCAService codec ins e = (if \<not> TCAEnabled e then ([], e) else serveTCA codec ins e)"

fun RunTelemetryCache :: "serviceInput list \<Rightarrow> Sample list \<Rightarrow> Sample list" where
  "RunTelemetryCache [] latest = latest"
| "RunTelemetryCache (ServiceDone # ins) latest = RunTelemetryCache ins latest"
| "RunTelemetryCache (ServiceClosed # ins) latest = latest"
| "RunTelemetryCache (Incoming now msg # ins) latest = RunTelemetryCache ins
     (case msg of TelemetryEvent samples \<Rightarrow> samples | _ \<Rightarrow> latest)"

fun RunNotifications :: "serviceInput list \<Rightarrow> NotificationQueue \<Rightarrow> NotificationQueue" where
  "RunNotifications [] q = q"
| "RunNotifications (ServiceDone # ins) q = q"
| "RunNotifications (ServiceClosed # ins) q = q"
| "RunNotifications (Incoming now msg # ins) q = RunNotifications ins
     (case msg of AlarmEvent evt \<Rightarrow> AppendAlarmEvent now evt q | _ \<Rightarrow> q)"

section \<open>One rule from the report to the alarm\<close>

definition linkKey :: "string \<Rightarrow> stateKey" where
  "linkKey dn = tcaKey RuleS1InterfaceDown dn AlarmS1InterfaceDown"

definition linkStep :: "RuleConfig \<Rightarrow> time \<Rightarrow> float64 option \<Rightarrow> ruleState option \<Rightarrow> ruleState option" where
  "linkStep c now value s = (case value of None \<Rightarrow> s
     | Some v \<Rightarrow> if f64_isNaN v \<or> f64_isInf v then s
         else snd (advance c now (f64_lt v (RaiseThreshold c)) (f64_le (ClearThreshold c) v) (readState s)))"

lemma transition_frame:
  "tcfg (snd (transition codec now rule moi v viol clear detail e)) = tcfg e"
  "k \<noteq> tcaKey (trName rule) moi (trCode rule) \<Longrightarrow> states (snd (transition codec now rule moi v viol clear detail e)) k = states e k"
  by (simp_all add: transition_automaton split: prod.split)

lemma later_codes: "list_all (\<lambda>(n, c). c \<noteq> AlarmS1InterfaceDown) (tl ruleCodes)"
  by code_simp

interpretation link: rule_invariant codec "\<lambda>e. states e (linkKey dn) = s \<and> tcfg e = cfg" "set (tl ruleCodes)" for codec dn s cfg
proof
  fix e :: Engine and rule :: thresholdRule and now moi v viol clear detail
  assume e: "states e (linkKey dn) = s \<and> tcfg e = cfg" and "(trName rule, trCode rule) \<in> set (tl ruleCodes)"
  then have "linkKey dn \<noteq> tcaKey (trName rule) moi (trCode rule)"
    using later_codes by (auto simp: linkKey_def list_all_iff)
  with e show "states (snd (transition codec now rule moi v viol clear detail e)) (linkKey dn) = s
    \<and> tcfg (snd (transition codec now rule moi v viol clear detail e)) = cfg" by (simp add: transition_frame)
qed

lemma s1_collect:
  assumes "distinct (map fst xs)"
  shows "states (snd (collect (perDNStep codec now (plainRule RuleS1InterfaceDown AlarmS1InterfaceDown c) vf
      (\<lambda>v c. f64_lt v (RaiseThreshold c)) (\<lambda>v c. f64_le (ClearThreshold c) v)) xs e)) (linkKey dn)
    = linkStep c now (Option.bind (map_of xs dn) vf) (states e (linkKey dn))
   \<and> tcfg (snd (collect (perDNStep codec now (plainRule RuleS1InterfaceDown AlarmS1InterfaceDown c) vf
      (\<lambda>v c. f64_lt v (RaiseThreshold c)) (\<lambda>v c. f64_le (ClearThreshold c) v)) xs e)) = tcfg e"
  using assms
proof (induction xs arbitrary: e)
  case (Cons x xs)
  let ?step = "perDNStep codec now (plainRule RuleS1InterfaceDown AlarmS1InterfaceDown c) vf
      (\<lambda>v c. f64_lt v (RaiseThreshold c)) (\<lambda>v c. f64_le (ClearThreshold c) v)"
  obtain d vs where x: "x = (d, vs)" by (cases x)
  have one: "states (snd (?step x e)) (linkKey dn) = linkStep c now (if d = dn then vf vs else None) (states e (linkKey dn))
      \<and> tcfg (snd (?step x e)) = tcfg e"
    by (auto simp: x perDNStep_def linkStep_def transition_automaton linkKey_def plainRule_def stateOf_def readState_def
        split: option.split prod.split)
  have rest: "snd (collect ?step (x # xs) e) = snd (collect ?step xs (snd (?step x e)))" by (simp split: prod.split)
  have "d = dn \<Longrightarrow> map_of xs dn = None" using Cons.prems by (auto simp: x map_of_eq_None_iff)
  then show ?case using Cons.IH [of "snd (?step x e)"] Cons.prems one unfolding rest
    by (cases "d = dn") (simp_all add: x linkStep_def split: option.split)
qed (simp add: linkStep_def)

lemma Evaluate_link:
  assumes "cfgEnabled (tcfg e)" "rcEnabled (Rule (tcfg e) RuleS1InterfaceDown)" "distinct (map fst (ByDN report))"
  shows "\<exists>now. states (snd (Evaluate codec clk report e)) (linkKey dn) =
      linkStep (Rule (tcfg e) RuleS1InterfaceDown) now
        (Option.bind (map_of (ByDN report) dn) (firstMetricValue [CanonicalS1APReady, CanonicalNGAPReady])) (states e (linkKey dn))
    \<and> tcfg (snd (Evaluate codec clk report e)) = tcfg e"
proof -
  define now where "now = (if isZero (repEnd report) then clk else repEnd report)"
  let ?e1 = "snd (evaluateS1Interface codec report now e)"
  have 1: "states ?e1 (linkKey dn) = linkStep (Rule (tcfg e) RuleS1InterfaceDown) now
        (Option.bind (map_of (ByDN report) dn) (firstMetricValue [CanonicalS1APReady, CanonicalNGAPReady])) (states e (linkKey dn))
      \<and> tcfg ?e1 = tcfg e"
    using s1_collect [OF assms(3)] assms(2) by (simp add: evaluateS1Interface_def evaluatePerDNWithRule_def Let_def)
  have "snd (Evaluate codec clk report e) = snd (collect (\<lambda>f. f) (laterEvaluations codec report now) ?e1)"
    using assms(1) by (simp add: Evaluate_split now_def Let_def)
  with link.laterRules [OF subset_refl, of ?e1 dn "states ?e1 (linkKey dn)" "tcfg ?e1" codec report now] 1
  show ?thesis by (intro exI [of _ now]) simp
qed

subsection \<open>What a report says of the link of an object\<close>

definition linkValue :: "(string \<Rightarrow> PMValue option) \<Rightarrow> float64 option" where
  "linkValue metric = map_option pvValue (case metric CanonicalS1APReady of Some v \<Rightarrow> Some v | None \<Rightarrow> metric CanonicalNGAPReady)"

definition isDown :: "RuleConfig \<Rightarrow> float64 option \<Rightarrow> bool" where
  "isDown c value \<longleftrightarrow> (case value of None \<Rightarrow> False
     | Some v \<Rightarrow> \<not> f64_isNaN v \<and> \<not> f64_isInf v \<and> f64_lt v (RaiseThreshold c))"

lemma tcaReport_link:
  "Option.bind (map_of (ByDN (tcaReport r)) dn) (firstMetricValue [CanonicalS1APReady, CanonicalNGAPReady]) = linkValue (reportValue r dn)"
proof -
  have vals: "map_of (map (\<lambda>(n, v). (n, pvValue v)) out) k = map_option pvValue (map_of out k)" for out :: "(string \<times> PMValue) list" and k
    by (induction out) auto
  have "map_of (ByDN (tcaReport r)) dn = map_option (map (\<lambda>(n, v). (n, pvValue v))) (map_of (pmByDN r) dn)"
  proof -
    have "map_of (map (\<lambda>(d, out). (d, map (\<lambda>(n, v). (n, pvValue v)) out)) xs) dn =
      map_option (map (\<lambda>(n, v). (n, pvValue v))) (map_of xs dn)" for xs :: "(DN \<times> (string \<times> PMValue) list) list"
      by (induction xs) auto
    then show ?thesis by (simp add: tcaReport_def)
  qed
  then show ?thesis
    by (cases "map_of (pmByDN r) dn") (auto simp: linkValue_def reportValue_def firstMetricValue_def vals split: option.split)
qed

lemma distinct_tcaReport: "distinct (map fst (pmByDN r)) \<Longrightarrow> distinct (map fst (ByDN (tcaReport r)))"
  by (simp add: tcaReport_def o_def case_prod_unfold)

subsection \<open>A rule that raises at once\<close>

definition promptRule :: "RuleConfig \<Rightarrow> bool" where
  "promptRule c \<longleftrightarrow> rcEnabled c \<and> RaiseDuration c = 0 \<and> f64_le (RaiseThreshold c) (ClearThreshold c)"

definition settledState :: "ruleState option \<Rightarrow> bool" where
  "settledState s \<longleftrightarrow> (case s of None \<Rightarrow> True | Some t \<Rightarrow> active t)"

lemma down_not_clear: "f64_lt v x \<Longrightarrow> f64_le x y \<Longrightarrow> \<not> f64_le y v"
  unfolding f64_le_def f64_lt_def f64_eq_def prod_eq_iff by linarith

lemma advance_prompt:
  assumes "RaiseDuration c = 0" "settledState s" "\<not> (violation \<and> clear)"
  shows "settledState (snd (advance c now violation clear (readState s)))
    \<and> (violation \<longrightarrow> snd (advance c now violation clear (readState s)) \<noteq> None)
    \<and> (snd (advance c now violation clear (readState s)) \<noteq> None \<longrightarrow> s \<noteq> None \<or> violation)"
proof (cases s)
  case None
  then show ?thesis using assms
    by (cases "now = 0") (auto simp: advance_def readState_def zeroState_def settledState_def timeSub_def Let_def)
next
  case (Some t)
  then show ?thesis using assms
    by (auto simp: advance_def readState_def settledState_def Let_def)
qed

lemma linkStep_settled:
  assumes "promptRule c" "settledState s"
  shows "settledState (linkStep c now value s)"
    and "isDown c value \<Longrightarrow> linkStep c now value s \<noteq> None"
    and "linkStep c now value s \<noteq> None \<Longrightarrow> s \<noteq> None \<or> isDown c value"
proof -
  have down: "\<not> (f64_lt v (RaiseThreshold c) \<and> f64_le (ClearThreshold c) v)" for v
    using assms(1) down_not_clear by (auto simp: promptRule_def)
  have c: "RaiseDuration c = 0" using assms(1) by (simp add: promptRule_def)
  note step = advance_prompt [OF c assms(2) down]
  show "settledState (linkStep c now value s)" "isDown c value \<Longrightarrow> linkStep c now value s \<noteq> None"
    "linkStep c now value s \<noteq> None \<Longrightarrow> s \<noteq> None \<or> isDown c value"
    using step [where now = now] assms(2) by (auto simp: linkStep_def isDown_def split: option.splits if_splits)
qed

lemma serveTCA_link:
  assumes "list_all2 (describes cfg) rs ws" "length clks = length rs"
    and "cfgEnabled (tcfg e)" "Rule (tcfg e) RuleS1InterfaceDown = c" "promptRule c" "settledState (states e (linkKey dn))"
    and "e' = snd (serveTCA codec (map2 (\<lambda>clk r. Incoming clk (PMEvent r)) clks rs) e)"
  shows "settledState (states e' (linkKey dn))
    \<and> (ws \<noteq> [] \<and> isDown c (linkValue (expectedValue cfg (snd (last ws)) dn)) \<longrightarrow> states e' (linkKey dn) \<noteq> None)
    \<and> (states e' (linkKey dn) \<noteq> None \<longrightarrow> states e (linkKey dn) \<noteq> None
        \<or> (\<exists>w \<in> set ws. isDown c (linkValue (expectedValue cfg (snd w) dn))))"
  using assms
proof (induction rs ws arbitrary: e clks rule: list_all2_induct)
  case Nil
  then show ?case by simp
next
  case (Cons r rs w ws)
  obtain clk clks' where clks: "clks = clk # clks'" using Cons.prems(1) by (cases clks) auto
  define e1 where "e1 = snd (Evaluate codec clk (tcaReport r) e)"
  have val: "linkValue (reportValue r dn) = linkValue (expectedValue cfg (snd w) dn)"
    using Cons.hyps(1) by (simp add: describes_def linkValue_def cong: option.case_cong)
  obtain now where e1: "states e1 (linkKey dn) = linkStep c now (linkValue (expectedValue cfg (snd w) dn)) (states e (linkKey dn))" "tcfg e1 = tcfg e"
    using Evaluate_link [of e "tcaReport r" codec clk dn] Cons.prems(2-4) Cons.hyps(1)
    by (auto simp: e1_def promptRule_def describes_def distinct_tcaReport tcaReport_link simp flip: val)
  have e': "e' = snd (serveTCA codec (map2 (\<lambda>clk r. Incoming clk (PMEvent r)) clks' rs) e1)"
    using Cons.prems(6) by (simp add: clks e1_def split: prod.splits)
  then have single: "e' = e1" if "ws = []" using that Cons.hyps(2) by simp
  note ih = Cons.IH [of clks' e1, OF _ _ _ Cons.prems(4) _ e']
  have "settledState (states e1 (linkKey dn))" using linkStep_settled(1) [OF Cons.prems(4,5)] e1(1) by simp
  with ih have "settledState (states e' (linkKey dn))
    \<and> (ws \<noteq> [] \<and> isDown c (linkValue (expectedValue cfg (snd (last ws)) dn)) \<longrightarrow> states e' (linkKey dn) \<noteq> None)
    \<and> (states e' (linkKey dn) \<noteq> None \<longrightarrow> states e1 (linkKey dn) \<noteq> None
        \<or> (\<exists>w \<in> set ws. isDown c (linkValue (expectedValue cfg (snd w) dn))))"
    using Cons.prems(1-3) e1(2) clks by simp
  moreover have "isDown c (linkValue (expectedValue cfg (snd w) dn)) \<Longrightarrow> states e1 (linkKey dn) \<noteq> None"
    "states e1 (linkKey dn) \<noteq> None \<Longrightarrow> states e (linkKey dn) \<noteq> None \<or> isDown c (linkValue (expectedValue cfg (snd w) dn))"
    unfolding e1(1) by (rule linkStep_settled [OF Cons.prems(4,5)], assumption)+
  ultimately show ?case using single by (cases "ws = []") auto
qed

lemma serveTCA_OK: "tcaOK e \<Longrightarrow> tcaOK (snd (serveTCA codec ins e))"
proof (induction ins arbitrary: e)
  case (Cons inp ins)
  have eval: "tcaOK (snd (Evaluate codec now report e))" for now report
    by (rule tca.evaluation [OF subset_refl Cons.prems])
  show ?case
  proof (cases inp)
    case (Incoming now msg)
    show ?thesis
    proof (cases msg)
      case (PMEvent r)
      then show ?thesis using Incoming Cons.IH [OF eval, of now "tcaReport r"] by (simp add: case_prod_unfold)
    qed (use Incoming Cons in simp_all)
  qed (use Cons in simp_all)
qed simp

lemma settled_link_status:
  assumes "tcaOK e" "settledState (states e (linkKey dn))"
  shows "statusOf (tmanager e) (tcaAlarm dn AlarmS1InterfaceDown) = Some StatusActive \<longleftrightarrow> states e (linkKey dn) \<noteq> None"
proof -
  have "(RuleS1InterfaceDown, AlarmS1InterfaceDown) \<in> set ruleCodes" by (simp add: ruleCodes_def)
  from tcaOK_D [OF assms(1) this, of dn] have "statusOf (tmanager e) (tcaAlarm dn AlarmS1InterfaceDown) = Some StatusActive
      \<longleftrightarrow> (case states e (linkKey dn) of Some s \<Rightarrow> active s | None \<Rightarrow> False)"
    by (simp only: isActive_def linkKey_def)
  then show ?thesis using assms(2) by (cases "states e (linkKey dn)") (simp_all add: settledState_def)
qed

end
