(* ===== verification/Mediation.thy ===== *)
theory Mediation
  imports MetricStructs Monitoring
begin

text \<open>
  \<^verbatim>\<open>mediation/rules.go\<close>, \<^verbatim>\<open>mediation/srsran/defs.go\<close>, \<^verbatim>\<open>mediation/srsran/mapper.go\<close> and
  \<^verbatim>\<open>services/metrics_consumer.go\<close>: from the text of a metrics document to canonical samples. A Go map that
  is only built here is an association list without repeated keys; where the code ranges over a map,
  the model follows the order of the keys, which the result does not depend on as a map.
\<close>

section \<open>Field rules\<close>

record FieldRule =
  JSONTag :: string
  ruleKey :: string
  ruleType :: string
  ruleUnit :: string

definition fieldRule :: "string \<Rightarrow> string \<Rightarrow> string \<Rightarrow> string \<Rightarrow> FieldRule" where
  "fieldRule tag key typ unit = \<lparr>JSONTag = tag, ruleKey = key, ruleType = typ, ruleUnit = unit\<rparr>"

definition toFloat64 :: "fieldVal \<Rightarrow> float64 option" where
  "toFloat64 v = (case v of
       FvFloat f \<Rightarrow> Some f
     | FvInt i \<Rightarrow> Some (round64 (of_int i))
     | FvUint n \<Rightarrow> Some (round64 (of_nat n))
     | FvString s \<Rightarrow> None)"

definition ApplyFieldRules :: "(string \<times> Metric) list \<Rightarrow> fields \<Rightarrow> FieldRule list \<Rightarrow> (string \<times> Metric) list" where
  "ApplyFieldRules dst src rules = foldl (\<lambda>dst r. case map_of src (JSONTag r) of
       None \<Rightarrow> dst
     | Some f \<Rightarrow>
         (case toFloat64 f of
            None \<Rightarrow> dst
          | Some val \<Rightarrow> AList.update (ruleKey r) \<lparr>mName = ruleKey r, mType = ruleType r, mValue = val, mUnit = ruleUnit r\<rparr> dst)) dst rules"

definition UEFieldRules :: "FieldRule list" where
  "UEFieldRules =
    [fieldRule ''dl_cqi'' ''ue.dl_cqi'' Gauge [], fieldRule ''dl_mcs'' ''ue.dl_mcs'' Gauge [],
     fieldRule ''dl_bitrate'' ''ue.dl_bitrate'' Gauge ''bps'', fieldRule ''dl_bler'' ''ue.dl_bler'' Gauge [],
     fieldRule ''ul_snr'' ''ue.ul_snr'' Gauge ''dB'', fieldRule ''ul_mcs'' ''ue.ul_mcs'' Gauge [],
     fieldRule ''ul_bitrate'' ''ue.ul_bitrate'' Gauge ''bps'', fieldRule ''ul_bler'' ''ue.ul_bler'' Gauge [],
     fieldRule ''ul_pusch_rssi'' ''ue.ul_pusch_rssi'' Gauge ''dBm'', fieldRule ''ul_pucch_rssi'' ''ue.ul_pucch_rssi'' Gauge ''dBm'',
     fieldRule ''ul_pucch_ni'' ''ue.ul_pucch_ni'' Gauge ''dBm'', fieldRule ''dl_cqi_offset'' ''ue.dl_cqi_offset'' Gauge [],
     fieldRule ''ul_snr_offset'' ''ue.ul_snr_offset'' Gauge [], fieldRule ''ul_phr'' ''ue.ul_phr'' Gauge ''dB'',
     fieldRule ''ul_bsr'' ''ue.ul_bsr'' Gauge ''bytes'', fieldRule ''rrc_state'' ''ue.rrc_state'' Gauge ''count'',
     fieldRule ''rrc_drb_count'' ''ue.rrc_drb_count'' Gauge ''count'', fieldRule ''rrc_nof_cells'' ''ue.rrc_nof_cells'' Gauge ''count'',
     fieldRule ''rrc_rlf_cnt'' ''ue.rrc_rlf_cnt'' Counter ''count'']"

definition BearerFieldRules :: "FieldRule list" where
  "BearerFieldRules =
    [fieldRule ''dl_total_bytes'' ''dl_total_bytes'' Counter ''bytes'', fieldRule ''ul_total_bytes'' ''ul_total_bytes'' Counter ''bytes'',
     fieldRule ''dl_latency'' ''dl_latency'' Gauge [], fieldRule ''ul_latency'' ''ul_latency'' Gauge [],
     fieldRule ''dl_buffered_bytes'' ''dl_buffered_bytes'' Gauge ''bytes'', fieldRule ''ul_buffered_bytes'' ''ul_buffered_bytes'' Gauge ''bytes'']"

section \<open>Samples of an LTE document\<close>

definition putCounter :: "(string \<times> Metric) list \<Rightarrow> string \<Rightarrow> string \<Rightarrow> float64 \<Rightarrow> (string \<times> Metric) list" where
  "putCounter dst name unit v = AList.update name \<lparr>mName = name, mType = Counter, mValue = v, mUnit = unit\<rparr> dst"

definition putGauge :: "(string \<times> Metric) list \<Rightarrow> string \<Rightarrow> string \<Rightarrow> float64 \<Rightarrow> (string \<times> Metric) list" where
  "putGauge dst name unit v = AList.update name \<lparr>mName = name, mType = Gauge, mValue = v, mUnit = unit\<rparr> dst"

definition KeyS1APStatusCode :: string where "KeyS1APStatusCode = ''s1ap.status_code''"
definition KeyRRCConnectedUES :: string where "KeyRRCConnectedUES = ''rrc.rrc_connected_ues''"
definition KeyCellNoFRACH :: string where "KeyCellNoFRACH = ''cell.nof_rach''"

definition s1apReady :: "S1APContainer \<Rightarrow> float64" where
  "s1apReady c = (if equalFold (trimSpace (s1Status c)) ''ready'' \<or> s1StatusCode c = 1 then Fin 1 else Fin 0)"

definition nodeMetrics :: "EnbMetrics \<Rightarrow> (string \<times> Metric) list" where
  "nodeMetrics m =
     (let ms = putGauge [] CanonicalS1APReady ''boolean'' (s1apReady (emS1AP m));
          ms = putGauge ms KeyS1APStatusCode ''count'' (round64 (of_int (s1StatusCode (emS1AP m))));
          ms = foldl (\<lambda>ms (k, v). putCounter ms (''s1ap.'' @ k) ''count'' (round64 (of_nat (unat v)))) ms (s1Counters (emS1AP m))
      in foldl (\<lambda>ms (k, v).
             if k = ''rrc_connected_ues'' then putGauge ms KeyRRCConnectedUES ''count'' (round64 (of_nat (unat v)))
             else putCounter ms (''rrc.'' @ k) ''count'' (round64 (of_nat (unat v)))) ms (emRRC m))"

definition mapNode :: "int64 \<Rightarrow> string \<Rightarrow> EnbMetrics \<Rightarrow> Sample" where
  "mapNode tsMillis sourceID m =
     \<lparr>sTimestamp = tsMillis, sSourceID = sourceID, sScope = ''node'', sMetrics = nodeMetrics m,
      sAttrs = [(''type'', emType m), (''enb_serial'', EnbSerial m), (''s1ap_status'', s1Status (emS1AP m))]\<rparr>"

definition uintField :: "fields \<Rightarrow> string \<Rightarrow> nat" where
  "uintField fs tag = (case map_of fs tag of Some (FvUint n) \<Rightarrow> n | _ \<Rightarrow> 0)"

definition stringField :: "fields \<Rightarrow> string \<Rightarrow> string" where
  "stringField fs tag = (case map_of fs tag of Some (FvString s) \<Rightarrow> s | _ \<Rightarrow> [])"

definition bearerKey :: "fields \<Rightarrow> string" where
  "bearerKey b = ''bearer.'' @ formatNat (uintField b ''bearer_id'') @ ''.''"

definition mapBearer :: "fields \<Rightarrow> Sample \<Rightarrow> Sample" where
  "mapBearer b s = s\<lparr>
     sMetrics := foldl (\<lambda>ms (k, v). AList.update (bearerKey b @ k) (v\<lparr>mName := ''bearer.'' @ k\<rparr>) ms) (sMetrics s)
                   (ApplyFieldRules [] b BearerFieldRules),
     sAttrs := AList.update (bearerKey b @ ''qci'') (formatNat (uintField b ''qci'')) (sAttrs s)\<rparr>"

definition mapUE :: "int64 \<Rightarrow> string \<Rightarrow> string \<Rightarrow> UEContainer \<Rightarrow> Sample" where
  "mapUE tsMillis sourceID cellID u =
     (let rnti = formatNat (uintField (ueScalars u) ''ue_rnti'');
          cause = stringField (ueScalars u) ''rrc_release_cause'';
          inactivity = (if equalFold (trimSpace cause) ''inactivity'' then Fin 1 else Fin 0)
      in fold mapBearer (fst (BearerList u))
           \<lparr>sTimestamp = tsMillis, sSourceID = sourceID, sScope = cellID @ ''/ue:rnti='' @ rnti,
            sMetrics = putGauge (ApplyFieldRules [] (ueScalars u) UEFieldRules) CanonicalUERRCInactivity ''boolean'' inactivity,
            sAttrs = [(''ue_rnti'', rnti), (''rrc_state_str'', stringField (ueScalars u) ''rrc_state_str''), (''rrc_release_cause'', cause)]\<rparr>)"

definition cellScope :: "CellContainer \<Rightarrow> string" where
  "cellScope c = ''cell:carrier='' @ formatNat (CarrierID c) @ '',pci='' @ formatNat (PCI c)"

definition mapCell :: "int64 \<Rightarrow> string \<Rightarrow> CellContainer \<Rightarrow> Sample list" where
  "mapCell tsMillis sourceID c =
     \<lparr>sTimestamp = tsMillis, sSourceID = sourceID, sScope = cellScope c,
      sMetrics = putCounter [] KeyCellNoFRACH ''count'' (round64 (of_nat (NoFRACH c))),
      sAttrs = [(''carrier_id'', formatNat (CarrierID c)), (''pci'', formatNat (PCI c))]\<rparr>
     # map (mapUE tsMillis sourceID (cellScope c)) (fst (UEList c))"

definition mapCells :: "int64 \<Rightarrow> string \<Rightarrow> CellContainer list \<Rightarrow> Sample list" where
  "mapCells tsMillis sourceID cells = concat (map (mapCell tsMillis sourceID) cells)"

section \<open>The mapper\<close>

datatype mapError = EmptyPayload | InvalidEnvelope | InvalidMetricsJSON | UnexpectedType | MissingRootFields | InvalidGnbEnvelope

definition f64_mul_pos :: "float64 \<Rightarrow> rat \<Rightarrow> float64" where
  "f64_mul_pos x q = (case x of Fin p \<Rightarrow> round64 (p * q) | y \<Rightarrow> y)"

definition parseEnbMetrics :: "Platform \<Rightarrow> string \<Rightarrow> mapError + EnbMetrics" where
  "parseEnbMetrics p raw = (case Option.bind (decodeFirst raw) (decodeEnb p) of
       None \<Rightarrow> Inl InvalidMetricsJSON
     | Some m \<Rightarrow>
         if emType m \<noteq> ''enb_metrics'' then Inl UnexpectedType
         else if EnbSerial m = [] \<or> f64_eq (emTimestamp m) (Fin 0) then Inl MissingRootFields
         else Inr m)"

definition mapNRCounters :: "(string \<times> Metric) list \<Rightarrow> string \<Rightarrow> (string \<times> jval) list \<Rightarrow> (string \<times> Metric) list" where
  "mapNRCounters dst pre vs = foldl (\<lambda>dst (k, raw). case raw of
       JvNum lit \<Rightarrow>
         (case parseFloat lit of
            None \<Rightarrow> dst
          | Some v \<Rightarrow>
              if pre = ''rrc'' \<and> k = ''rrc_connected_ues'' then putGauge dst CanonicalRRCConnectedUES ''count'' v
              else putCounter dst (pre @ ''.'' @ k) ''count'' v)
     | _ \<Rightarrow> dst) dst vs"

definition nrReady :: "(string \<times> jval) list \<Rightarrow> float64 option" where
  "nrReady vs =
     (let ready = (\<lambda>s. if equalFold s ''ready'' \<or> equalFold s ''connected'' then Fin 1 else Fin 0)
      in case map_of vs ''ngap_status'' of
           Some (JvStr s) \<Rightarrow> Some (ready s)
         | _ \<Rightarrow> (case map_of vs ''status'' of Some (JvStr s) \<Rightarrow> Some (ready s) | _ \<Rightarrow> None))"

definition mapNRUE :: "int64 \<Rightarrow> string \<Rightarrow> string \<Rightarrow> NRUEContainer \<Rightarrow> Sample" where
  "mapNRUE ts source cellID u =
     \<lparr>sTimestamp = ts, sSourceID = source, sScope = cellID @ ''/ue:rnti='' @ formatNat (nuRNTI u),
      sMetrics =
        putGauge (putGauge (putGauge (putGauge (putGauge (putGauge (putGauge [] CanonicalUEDLCQI ''index'' (nuDLCQI u))
          CanonicalUEDLBitrate ''bps'' (nuDLBitrate u)) CanonicalUEDLBLER ''ratio'' (nuDLBLER u)) CanonicalUEULSNR ''dB'' (nuULSINR u))
          CanonicalUEULBitrate ''bps'' (nuULBitrate u)) CanonicalUEULBLER ''ratio'' (nuULBLER u)) CanonicalUEULPHR ''dB'' (nuULPHR u),
      sAttrs = [(''ue_rnti'', formatNat (nuRNTI u))]\<rparr>"

definition mapNRCell :: "int64 \<Rightarrow> string \<Rightarrow> NRCellContainer \<Rightarrow> Sample list" where
  "mapNRCell ts source c =
     (let cellID = ''cell:nr='' @ NRCellIdentity c
      in \<lparr>sTimestamp = ts, sSourceID = source, sScope = cellID, sMetrics = [],
          sAttrs = [(''nci'', ncNCI c), (''nr_cell_id'', ncNRCellID c), (''pci'', formatNat (ncPCI c))]\<rparr>
         # map (mapNRUE ts source cellID) (fst (ncUEList c)))"

definition mapGNB :: "Platform \<Rightarrow> string \<Rightarrow> string \<Rightarrow> mapError + Sample list" where
  "mapGNB p sourceID raw = (case Option.bind (decodeWhole raw) (decodeGnb False) of
       None \<Rightarrow> Inl InvalidMetricsJSON
     | Some g \<Rightarrow>
         if gmType g \<noteq> ''gnb_metrics'' \<or> f64_eq (gmTimestamp g) (Fin 0) \<or> GnbIdentity g = [] then Inl InvalidGnbEnvelope
         else
           let source = (if sourceID = [] then GnbIdentity g else sourceID);
               ts = floatToInt64 p (f64_mul_pos (gmTimestamp g) 1000);
               ms = mapNRCounters (mapNRCounters [] ''ngap'' (gmNGAP g)) ''rrc'' (gmRRC g);
               ms = (case nrReady (gmNGAP g) of Some ready \<Rightarrow> putGauge ms CanonicalNGAPReady ''boolean'' ready | None \<Rightarrow> ms)
           in Inr (\<lparr>sTimestamp = ts, sSourceID = source, sScope = ''node'', sMetrics = ms,
                     sAttrs = [(''type'', gmType g), (''gnb_id'', GnbIdentity g)]\<rparr>
                   # concat (map (mapNRCell ts source) (fst (gmCellList g)))))"

definition envelopeType :: "string \<Rightarrow> string option" where
  "envelopeType raw = Option.bind (decodeWhole raw) (\<lambda>v. decodeStruct [''type''] (\<lambda>tag. decodeString) v [])"

definition MapMetrics :: "Platform \<Rightarrow> string \<Rightarrow> string \<Rightarrow> mapError + Sample list" where
  "MapMetrics p sourceID raw =
     (if raw = [] then Inl EmptyPayload
      else case envelopeType raw of
        None \<Rightarrow> Inl InvalidEnvelope
      | Some typ \<Rightarrow>
          if typ = ''gnb_metrics'' then mapGNB p sourceID raw
          else case parseEnbMetrics p raw of
            Inl e \<Rightarrow> Inl e
          | Inr parsed \<Rightarrow>
              let tsMillis = floatToInt64 p (f64_mul_pos (emTimestamp parsed) 1000);
                  source = (if sourceID = [] then EnbSerial parsed else sourceID)
              in Inr (mapNode tsMillis source parsed # mapCells tsMillis source (fst (emCellList parsed))))"

section \<open>The consumer\<close>

datatype rawInput = RawDone | RawClosed | RawSample string

text \<open>The messages that the loop of the service publishes.\<close>

fun consumeMetrics :: "(string \<Rightarrow> mapError + Sample list) \<Rightarrow> rawInput list \<Rightarrow> busMsg list" where
  "consumeMetrics mapper [] = []"
| "consumeMetrics mapper (RawDone # ins) = []"
| "consumeMetrics mapper (RawClosed # ins) = []"
| "consumeMetrics mapper (RawSample raw # ins) = (case mapper raw of
       Inl e \<Rightarrow> consumeMetrics mapper ins
     | Inr samples \<Rightarrow> if samples = [] then consumeMetrics mapper ins else TelemetryEvent samples # consumeMetrics mapper ins)"

section \<open>From the document to the samples\<close>

text \<open>The value of a rule reaches its key, and no later entry of the sample replaces it.\<close>

lemma rules_frame: "\<forall>r \<in> set rules. ruleKey r \<noteq> key \<Longrightarrow> map_of (ApplyFieldRules dst src rules) key = map_of dst key"
  by (induction rules arbitrary: dst) (auto simp: ApplyFieldRules_def update_conv' split: option.splits)

lemma rules_apply:
  assumes "r \<in> set rules" "distinct (map ruleKey rules)" "map_of src (JSONTag r) = Some f" "toFloat64 f = Some val"
  shows "map_of (ApplyFieldRules dst src rules) (ruleKey r) = Some \<lparr>mName = ruleKey r, mType = ruleType r, mValue = val, mUnit = ruleUnit r\<rparr>"
  using assms(1,2)
proof (induction rules arbitrary: dst)
  case (Cons q rules)
  show ?case
  proof (cases "q = r")
    case True
    then have "ruleKey r \<notin> ruleKey ` set rules" using Cons.prems(2) by simp
    then have "\<forall>r' \<in> set rules. ruleKey r' \<noteq> ruleKey r" by (metis image_eqI)
    from rules_frame [OF this] True show ?thesis using assms(3,4) by (simp add: ApplyFieldRules_def update_conv')
  next
    case False
    then show ?thesis using Cons by (simp add: ApplyFieldRules_def)
  qed
qed simp

lemma foldl_frame: "(\<And>ms x. x \<in> set xs \<Longrightarrow> map_of (f ms x) key = map_of ms key) \<Longrightarrow> map_of (foldl f dst xs) key = map_of dst key"
  by (induction xs arbitrary: dst) auto

lemma mapBearer_frame: "\<not> hasPrefix key ''bearer.'' \<Longrightarrow> map_of (sMetrics (mapBearer b s)) key = map_of (sMetrics s) key"
  unfolding mapBearer_def by (auto simp: bearerKey_def hasPrefix_def prefix_def update_conv' intro!: foldl_frame)

lemma mapBearers_frame: "\<not> hasPrefix key ''bearer.'' \<Longrightarrow> map_of (sMetrics (fold mapBearer bs s)) key = map_of (sMetrics s) key"
  by (induction bs arbitrary: s) (simp_all add: mapBearer_frame)

lemma mapBearers_scope: "sScope (fold mapBearer bs s) = sScope s"
  by (induction bs arbitrary: s) (simp_all add: mapBearer_def)

lemma UERules: "distinct (map ruleKey UEFieldRules)" "r \<in> set UEFieldRules \<Longrightarrow> ruleKey r \<noteq> CanonicalUERRCInactivity \<and> \<not> hasPrefix (ruleKey r) ''bearer.''"
proof -
  show "distinct (map ruleKey UEFieldRules)" by code_simp
  have "list_all (\<lambda>r. ruleKey r \<noteq> CanonicalUERRCInactivity \<and> \<not> hasPrefix (ruleKey r) ''bearer.'') UEFieldRules" by code_simp
  then show "r \<in> set UEFieldRules \<Longrightarrow> ruleKey r \<noteq> CanonicalUERRCInactivity \<and> \<not> hasPrefix (ruleKey r) ''bearer.''" by (simp add: list_all_iff)
qed

lemma mapUE_metric:
  assumes "r \<in> set UEFieldRules" "map_of (ueScalars u) (JSONTag r) = Some f" "toFloat64 f = Some val"
  shows "map_of (sMetrics (mapUE ts src cell u)) (ruleKey r) = Some \<lparr>mName = ruleKey r, mType = ruleType r, mValue = val, mUnit = ruleUnit r\<rparr>"
  using rules_apply [OF assms(1) UERules(1) assms(2,3)] UERules(2) [OF assms(1)]
  by (simp add: mapUE_def Let_def mapBearers_frame putGauge_def update_conv')

lemma mapUE_scope: "sScope (mapUE ts src cell u) = cell @ ''/ue:rnti='' @ formatNat (uintField (ueScalars u) ''ue_rnti'')"
  by (simp add: mapUE_def Let_def mapBearers_scope)

lemma node_ready:
  assumes "map_of (s1Counters (emS1AP m)) ''ready'' = None"
  shows "map_of (nodeMetrics m) CanonicalS1APReady =
    Some \<lparr>mName = CanonicalS1APReady, mType = Gauge, mValue = s1apReady (emS1AP m), mUnit = ''boolean''\<rparr>"
proof -
  have "k \<noteq> ''ready''" if "(k, v) \<in> set (s1Counters (emS1AP m))" for k v
    using assms that by (force simp: map_of_eq_None_iff)
  then have s1: "x \<in> set (s1Counters (emS1AP m)) \<Longrightarrow> fst x \<noteq> ''ready''" for x by (cases x) auto
  show ?thesis
    unfolding nodeMetrics_def Let_def
    by (subst foldl_frame, force simp: putGauge_def putCounter_def update_conv' CanonicalS1APReady_def KeyRRCConnectedUES_def,
        subst foldl_frame, use s1 in \<open>force simp: putCounter_def update_conv' CanonicalS1APReady_def\<close>)
      (simp add: putGauge_def update_conv' CanonicalS1APReady_def KeyS1APStatusCode_def)
qed

text \<open>The samples of a UE: the scope that the document gives it.\<close>

definition ueScope :: "jval \<Rightarrow> jval \<Rightarrow> string" where
  "ueScope cell ue = ''cell:carrier='' @ formatNat (numberField 32 (contents ''cell_container'' cell) ''carrier_id'')
     @ '',pci='' @ formatNat (numberField 32 (contents ''cell_container'' cell) ''pci'')
     @ ''/ue:rnti='' @ formatNat (numberField 16 (contents ''ue_container'' ue) ''ue_rnti'')"

definition ueNumber :: "string \<Rightarrow> string \<Rightarrow> float64 option" where
  "ueNumber tag lit = (case map_of ueFields tag of
       Some (FkUint bits) \<Rightarrow> map_option (\<lambda>n. round64 (of_nat n)) (parseUint bits lit)
     | Some FkFloat \<Rightarrow> parseFloat lit
     | _ \<Rightarrow> None)"

abbreviation uesOf :: "jval \<Rightarrow> jval list" where
  "uesOf cell \<equiv> entries (memberFor (contents ''cell_container'' cell) ''ue_list'')"

lemma ue_sample:
  assumes "unmarshalUE ue zeroUE = Some u" "tidy ue" "r \<in> set UEFieldRules"
    and "memberFor (contents ''ue_container'' ue) (JSONTag r) = Some (JvNum lit)"
  shows "\<exists>val. ueNumber (JSONTag r) lit = Some val
    \<and> map_of (sMetrics (mapUE ts src cell u)) (ruleKey r) = Some \<lparr>mName = ruleKey r, mType = ruleType r, mValue = val, mUnit = ruleUnit r\<rparr>"
proof -
  have "list_all (\<lambda>r. map_of ueFields (JSONTag r) = Some FkFloat \<or> map_of ueFields (JSONTag r) = Some (FkUint 32)) UEFieldRules" by code_simp
  then have kind: "map_of ueFields (JSONTag r) = Some FkFloat \<or> map_of ueFields (JSONTag r) = Some (FkUint 32)"
    using assms(3) by (simp add: list_all_iff)
  then obtain k where k: "map_of ueFields (JSONTag r) = Some k" "k = FkFloat \<or> k = FkUint 32" by blast
  obtain f where f: "map_of (ueScalars u) (JSONTag r) = Some f" "literalStore k (JvNum lit) (zeroField k) = Some f"
    using ue_field [OF assms(1,2) k(1)] assms(4) by auto
  then obtain val where "toFloat64 f = Some val" "ueNumber (JSONTag r) lit = Some val"
    using k by (auto simp: literalStore_def toFloat64_def ueNumber_def)
  then show ?thesis using mapUE_metric [OF assms(3) f(1)] by blast
qed

lemma ue_scope:
  assumes "unmarshalUE ue zeroUE = Some u" "tidy ue"
  shows "uintField (ueScalars u) ''ue_rnti'' = numberField 16 (contents ''ue_container'' ue) ''ue_rnti''"
proof -
  have "map_of ueFields ''ue_rnti'' = Some (FkUint 16)" by code_simp
  from ue_field [OF assms this] show ?thesis
    by (auto simp: uintField_def numberField_def zeroField_def literalStore_def split: option.splits jval.splits)
qed

lemma decode_first: "decodeWhole raw = Some doc \<Longrightarrow> decodeFirst raw = Some doc"
  by (auto simp: decodeWhole_def decodeFirst_def split: option.splits if_splits)

lemma MapMetrics_enb:
  assumes "MapMetrics p src raw = Inr samples" "decodeWhole raw = Some doc" "tidy doc"
    and "memberFor (membersOf doc) ''type'' = Some (JvStr ''enb_metrics'')"
  obtains m ts source where "decodeEnb p doc = Some m" "samples = mapNode ts source m # mapCells ts source (fst (emCellList m))"
proof -
  have low: "lowerTags [''type'']" by code_simp
  have nonempty: "raw \<noteq> []" using assms(1) by (auto simp: MapMetrics_def)
  have first: "decodeFirst raw = Some doc" using assms(2) by (rule decode_first)
  obtain name where name: "envelopeType raw = Some name" using assms(1) nonempty by (auto simp: MapMetrics_def split: option.splits)
  have "(case memberFor (membersOf doc) ''type'' of None \<Rightarrow> Some [] | Some w \<Rightarrow> decodeString w []) = Some name"
    using name assms(2) tidy_members [OF assms(3)]
    by (intro decodeStruct_get [OF _ low, where f = "\<lambda>tag. decodeString" and get = id, unfolded id_apply]) (auto simp: envelopeType_def)
  then have "name = ''enb_metrics''" using assms(4) by (simp add: decodeString_def literalStore_def)
  then show thesis using assms(1) nonempty name first that
    by (auto simp: MapMetrics_def parseEnbMetrics_def Let_def split: sum.splits option.splits if_splits)
qed

lemma list_all2_partner: "list_all2 P xs ys \<Longrightarrow> x \<in> set xs \<Longrightarrow> \<exists>y \<in> set ys. P x y"
  by (induction rule: list_all2_induct) auto

lemma mapCells_length:
  "list_all2 (\<lambda>v c. unmarshalCell v zeroCell = Some c) cells cs \<Longrightarrow> (\<And>cell. cell \<in> set cells \<Longrightarrow> tidy cell) \<Longrightarrow>
     length (mapCells ts source cs) = (\<Sum>cell \<leftarrow> cells. 1 + length (uesOf cell))"
proof (induction rule: list_all2_induct)
  case (Cons cell cells c cs)
  have "length (mapCell ts source c) = 1 + length (uesOf cell)"
    using list_all2_lengthD [OF cell_fields(3) [OF Cons(1)]] Cons(4) by (simp add: mapCell_def)
  then show ?case using Cons(3,4) by (simp add: mapCells_def)
qed (simp add: mapCells_def)


definition examplePlatform :: Platform where
  "examplePlatform = \<lparr>outUint64 = (\<lambda>_. 0), outInt64 = (\<lambda>_. 0)\<rparr>"

definition exampleDoc :: jval where
  "exampleDoc = JvObj [(''type'', JvStr ''enb_metrics''), (''enb_serial'', JvStr ''e1''), (''timestamp'', JvNum ''1''),
     (''s1ap_container'', JvObj [(''s1ap_status'', JvStr ''Ready'')]),
     (''cell_list'', JvArr [JvObj [(''cell_container'', JvObj [(''pci'', JvNum ''7''),
        (''ue_list'', JvArr [JvObj [(''ue_rnti'', JvNum ''70''), (''rrc_state'', JvNum ''3'')]])])]])]"

lemma parseUint_code [code]: "parseUint bits s = (case parseNat s of None \<Rightarrow> None | Some n \<Rightarrow> if int n < 2 ^ bits then Some n else None)"
  by (simp add: parseUint_def split: option.splits)

text \<open>For the evaluation of the example: whole numbers below \<open>2\<^sup>5\<^sup>3\<close> are values of \<^verbatim>\<open>float64\<close>.\<close>

definition roundRational :: "rat \<Rightarrow> float64" where
  "roundRational q = round64 q"

lemmas roundRational_code [code] = roundRational_def [unfolded round64_def]

lemma round64_code [code]:
  "round64 q = (case quotient_of q of (a, b) \<Rightarrow> if b = 1 \<and> \<bar>a\<bar> < 2 ^ 53 then Fin (of_int a) else roundRational q)"
proof (cases "quotient_of q")
  case (Pair a b)
  have "round64 q = Fin (of_int a)" if "b = 1" "\<bar>a\<bar> < 2 ^ 53"
    using quotient_of_div [OF Pair] round64_int that by simp
  then show ?thesis by (simp add: Pair roundRational_def)
qed


end
