(* ===== verification/Normalize.thy ===== *)
theory Normalize
  imports JsonText
begin

text \<open>
  \<^verbatim>\<open>mediation/srsran/normalize.go\<close>: the metrics document of the station is prepared for a strict YANG
  parser. The keys of list entries are copied out of their containers, and the numbers that the model
  types as 64-bit or decimal become strings. Go works in place on nested maps; the functions here
  return the changed map. The entries of a map are the members of an object sorted by key.
\<close>

type_synonym members = "(string \<times> jval) list"

section \<open>Structure\<close>

text \<open>\<^verbatim>\<open>asMap\<close> of the member under a key, and the map that holds the fields of a list entry: its
  container, or the entry itself where there is none.\<close>

definition asMap :: "jval option \<Rightarrow> members option" where
  "asMap v = (case v of Some (JvObj ms) \<Rightarrow> Some ms | _ \<Rightarrow> None)"

definition asSlice :: "jval option \<Rightarrow> jval list option" where
  "asSlice v = (case v of Some (JvArr vs) \<Rightarrow> Some vs | _ \<Rightarrow> None)"

definition bodyOf :: "string \<Rightarrow> members \<Rightarrow> members" where
  "bodyOf cont entry = (case asMap (map_of entry cont) of Some inner \<Rightarrow> inner | None \<Rightarrow> entry)"

text \<open>One \<^verbatim>\<open>if\<close> of the source: a key that the entry lacks is taken from its body.\<close>

definition liftKey :: "string \<Rightarrow> string \<Rightarrow> members \<Rightarrow> members" where
  "liftKey cont k entry =
     (if map_of entry k \<noteq> None then entry
      else case map_of (bodyOf cont entry) k of Some v \<Rightarrow> putMember k v entry | None \<Rightarrow> entry)"

text \<open>The change of a list below a map, and of the body of an entry.\<close>

definition overList :: "string \<Rightarrow> (jval \<Rightarrow> jval) \<Rightarrow> members \<Rightarrow> members" where
  "overList k f ms = (case asSlice (map_of ms k) of Some vs \<Rightarrow> putMember k (JvArr (map f vs)) ms | None \<Rightarrow> ms)"

definition overBody :: "string \<Rightarrow> (members \<Rightarrow> members) \<Rightarrow> members \<Rightarrow> members" where
  "overBody cont f entry = (case asMap (map_of entry cont) of
       Some inner \<Rightarrow> putMember cont (JvObj (f inner)) entry
     | None \<Rightarrow> f entry)"

definition onMap :: "(members \<Rightarrow> members) \<Rightarrow> jval \<Rightarrow> jval" where
  "onMap f v = (case v of JvObj ms \<Rightarrow> JvObj (f ms) | _ \<Rightarrow> v)"

definition bearerEntry :: "jval \<Rightarrow> jval" where
  "bearerEntry = onMap (liftKey ''bearer_container'' ''bearer_id'')"

definition ueEntry :: "jval \<Rightarrow> jval" where
  "ueEntry = onMap (\<lambda>e. overBody ''ue_container'' (overList ''bearer_list'' bearerEntry) (liftKey ''ue_container'' ''ue_rnti'' e))"

definition cellEntry :: "jval \<Rightarrow> jval" where
  "cellEntry = onMap (\<lambda>e. overBody ''cell_container'' (overList ''ue_list'' ueEntry)
     (liftKey ''cell_container'' ''pci'' (liftKey ''cell_container'' ''carrier_id'' e)))"

definition normalizeStructure :: "members \<Rightarrow> members" where
  "normalizeStructure = overList ''cell_list'' cellEntry"

section \<open>Types\<close>

text \<open>The decoder keeps numbers as literals, so that of the cases of each switch only this one
  occurs.\<close>

definition toUintString :: "jval \<Rightarrow> string option" where
  "toUintString v = (case v of JvNum lit \<Rightarrow> Some lit | _ \<Rightarrow> None)"

definition toInt64String :: "jval \<Rightarrow> string option" where
  "toInt64String v = (case v of JvNum lit \<Rightarrow> Some lit | _ \<Rightarrow> None)"

definition toDecimalString :: "jval \<Rightarrow> string option" where
  "toDecimalString v = (case v of
       JvNum lit \<Rightarrow> (case parseFloat lit of Some f \<Rightarrow> Some (formatFixed 6 f) | None \<Rightarrow> None)
     | _ \<Rightarrow> None)"

definition decimalKeys :: "string list" where
  "decimalKeys = [''timestamp'', ''dl_cqi'', ''dl_mcs'', ''dl_bitrate'', ''dl_bler'', ''ul_snr'', ''ul_mcs'', ''ul_bitrate'', ''ul_bler'',
     ''ul_phr'', ''ul_pusch_rssi'', ''ul_pucch_rssi'', ''ul_pucch_ni'', ''dl_cqi_offset'', ''ul_snr_offset'', ''dl_latency'', ''ul_latency'']"

definition convertValue :: "string \<Rightarrow> jval \<Rightarrow> string option" where
  "convertValue k v =
     (if hasPrefix k ''nas_'' then toUintString v
      else if k \<in> set decimalKeys then toDecimalString v
      else if k = ''dl_total_bytes'' \<or> k = ''ul_total_bytes'' then toUintString v
      else if k = ''ul_pusch_tpc'' \<or> k = ''ul_pucch_tpc'' then toInt64String v
      else None)"

fun walkAndConvert :: "jval \<Rightarrow> jval" where
  "walkAndConvert (JvObj ms) = JvObj (map (\<lambda>(k, v). (k, case convertValue k v of Some s \<Rightarrow> JvStr s | None \<Rightarrow> walkAndConvert v)) ms)"
| "walkAndConvert (JvArr vs) = JvArr (map walkAndConvert vs)"
| "walkAndConvert v = v"

definition normalizeMember :: "string \<Rightarrow> jval \<Rightarrow> jval" where
  "normalizeMember k v = (case convertValue k v of Some s \<Rightarrow> JvStr s | None \<Rightarrow> walkAndConvert v)"

definition normalizeTypes :: "members \<Rightarrow> members" where
  "normalizeTypes ms = map (\<lambda>(k, v). (k, normalizeMember k v)) ms"

lemma walk_object: "walkAndConvert (JvObj ms) = JvObj (normalizeTypes ms)"
  by (simp add: normalizeTypes_def normalizeMember_def)

section \<open>Documents\<close>

text \<open>Decoding into a map accepts an object and \<^verbatim>\<open>null\<close>, which leaves the map nil.\<close>

definition NormalizeForNetconf :: "string \<Rightarrow> string option" where
  "NormalizeForNetconf raw = (case map_option toAny (decodeFirst raw) of
       Some (JvObj doc) \<Rightarrow> Some (marshalVal (JvObj (normalizeTypes (normalizeStructure doc))))
     | Some JvNull \<Rightarrow> Some (marshalVal JvNull)
     | _ \<Rightarrow> None)"

section \<open>Converting types\<close>

lemma map_of_types: "map_of (normalizeTypes ms) k = map_option (normalizeMember k) (map_of ms k)"
  by (induction ms) (auto simp: normalizeTypes_def)

lemma types_put: "normalizeTypes (putMember k v ms) = putMember k (normalizeMember k v) (normalizeTypes ms)"
  by (induction k v ms rule: putMember.induct) (auto simp: normalizeTypes_def)

lemma convert_number: "convertValue k v = Some s \<Longrightarrow> \<exists>lit. v = JvNum lit"
  by (auto simp: convertValue_def toUintString_def toInt64String_def toDecimalString_def split: if_splits jval.splits)

lemma convert_other [simp]:
  "convertValue k (JvObj ms) = None" "convertValue k (JvArr vs) = None" "convertValue k (JvStr s) = None"
  "convertValue k JvNull = None" "convertValue k (JvBool b) = None"
  using convert_number by (meson jval.distinct not_Some_eq)+

lemma normalizeMember_object [simp]: "normalizeMember k (JvObj ms) = JvObj (normalizeTypes ms)"
  by (simp add: normalizeMember_def walk_object del: walkAndConvert.simps)

lemma normalizeMember_array [simp]: "normalizeMember k (JvArr vs) = JvArr (map walkAndConvert vs)"
  by (simp add: normalizeMember_def)

lemma normalizeMember_scalar:
  "\<nexists>ms. v = JvObj ms \<Longrightarrow> \<nexists>vs. v = JvArr vs \<Longrightarrow> normalizeMember k v = v \<or> (\<exists>s. normalizeMember k v = JvStr s)"
  by (cases v) (auto simp: normalizeMember_def split: option.splits)

lemma asMap_types: "asMap (map_option (normalizeMember k) v) = map_option normalizeTypes (asMap v)"
proof (cases "(\<exists>ms. v = Some (JvObj ms)) \<or> (\<exists>vs. v = Some (JvArr vs)) \<or> v = None")
  case False
  then obtain x where "v = Some x" "\<nexists>ms. x = JvObj ms" "\<nexists>vs. x = JvArr vs" by blast
  then show ?thesis using normalizeMember_scalar [of x k] by (auto simp: asMap_def split: jval.splits)
qed (auto simp: asMap_def)

text \<open>No number is left that the conversion would turn into a string, so that a second conversion
  changes nothing.\<close>

fun converted :: "jval \<Rightarrow> bool" where
  "converted (JvObj ms) = list_all (\<lambda>(k, v). convertValue k v = None \<and> converted v) ms"
| "converted (JvArr vs) = list_all converted vs"
| "converted v = True"

lemma walk_converted: "converted (walkAndConvert v)"
proof (induction v rule: walkAndConvert.induct)
  case (1 ms)
  have "convertValue k (normalizeMember k v) = None \<and> converted (normalizeMember k v)" if "(k, v) \<in> set ms" for k v
  proof (cases "convertValue k v")
    case None
    then have "normalizeMember k v = walkAndConvert v" by (simp add: normalizeMember_def)
    moreover have "convertValue k (walkAndConvert v) = None" using None by (cases v) simp_all
    ultimately show ?thesis using 1 that None by auto
  qed (simp add: normalizeMember_def)
  then show ?case unfolding walk_object normalizeTypes_def by (auto simp: list_all_iff)
qed (auto simp: list_all_iff)

lemma walk_same: "converted v \<Longrightarrow> walkAndConvert v = v"
  by (induction v rule: walkAndConvert.induct) (auto simp: list_all_iff intro!: map_idI)

section \<open>Lifting keys\<close>

text \<open>The key of an entry is where a strict parser looks for it.\<close>

definition keyed :: "string \<Rightarrow> string \<Rightarrow> members \<Rightarrow> bool" where
  "keyed cont k e \<longleftrightarrow> map_of e k \<noteq> None \<or> map_of (bodyOf cont e) k = None"

definition listed :: "string \<Rightarrow> (jval \<Rightarrow> bool) \<Rightarrow> members \<Rightarrow> bool" where
  "listed k P ms = (case asSlice (map_of ms k) of Some vs \<Rightarrow> list_all P vs | None \<Rightarrow> True)"

definition ofMap :: "(members \<Rightarrow> bool) \<Rightarrow> jval \<Rightarrow> bool" where
  "ofMap P v = (case v of JvObj ms \<Rightarrow> P ms | _ \<Rightarrow> True)"

definition keyedBearer :: "jval \<Rightarrow> bool" where
  "keyedBearer = ofMap (keyed ''bearer_container'' ''bearer_id'')"

definition keyedUE :: "jval \<Rightarrow> bool" where
  "keyedUE = ofMap (\<lambda>e. keyed ''ue_container'' ''ue_rnti'' e \<and> listed ''bearer_list'' keyedBearer (bodyOf ''ue_container'' e))"

definition keyedCell :: "jval \<Rightarrow> bool" where
  "keyedCell = ofMap (\<lambda>e. keyed ''cell_container'' ''carrier_id'' e \<and> keyed ''cell_container'' ''pci'' e
     \<and> listed ''ue_list'' keyedUE (bodyOf ''cell_container'' e))"

text \<open>An entry that has its keys is left as it is.\<close>

lemma put_keeps: "map_of (putMember k v ms) k' = (if k' = k then Some v else map_of ms k')"
  by (induction k v ms rule: putMember.induct) auto

lemma put_body: "k \<noteq> cont \<Longrightarrow> bodyOf cont (putMember k v e) = (case asMap (map_of e cont) of Some inner \<Rightarrow> inner | None \<Rightarrow> putMember k v e)"
  by (simp add: bodyOf_def put_keeps split: option.splits)

lemma lift_keyed: "k \<noteq> cont \<Longrightarrow> keyed cont k (liftKey cont k e)"
  by (auto simp: keyed_def liftKey_def put_keeps put_body split: option.splits)

lemma lift_same: "keyed cont k e \<Longrightarrow> liftKey cont k e = e"
  by (auto simp: keyed_def liftKey_def split: option.splits)

lemma lift_keeps_keyed: "keyed cont k e \<Longrightarrow> k' \<noteq> cont \<Longrightarrow> k' \<noteq> k \<Longrightarrow> keyed cont k (liftKey cont k' e)"
  by (auto simp: keyed_def liftKey_def put_keeps put_body bodyOf_def split: option.splits)

lemma list_keeps: "k \<noteq> l \<Longrightarrow> map_of (overList l f ms) k = map_of ms k"
  by (simp add: overList_def put_keeps split: option.splits)

lemma body_list: "cont \<noteq> l \<Longrightarrow> bodyOf cont (overBody cont (overList l f) e) = overList l f (bodyOf cont e)"
  by (auto simp: bodyOf_def overBody_def put_keeps list_keeps asMap_def split: option.splits jval.splits)

lemma body_keeps_keyed: "keyed cont k e \<Longrightarrow> cont \<noteq> l \<Longrightarrow> k \<noteq> l \<Longrightarrow> k \<noteq> cont \<Longrightarrow> keyed cont k (overBody cont (overList l f) e)"
  by (auto simp: keyed_def body_list list_keeps) (auto simp: overBody_def put_keeps list_keeps split: option.splits)

lemma list_listed: "(\<And>v. P (f v)) \<Longrightarrow> listed l P (overList l f ms)"
  by (auto simp: listed_def overList_def put_keeps asSlice_def list_all_iff split: option.splits jval.splits)

lemma onMap_ofMap: "(\<And>ms. P (f ms)) \<Longrightarrow> ofMap P (onMap f v)"
  by (auto simp: ofMap_def onMap_def split: jval.splits)

lemma bearer_keyed: "keyedBearer (bearerEntry v)"
  unfolding keyedBearer_def bearerEntry_def by (intro onMap_ofMap lift_keyed) simp

lemma ue_keyed: "keyedUE (ueEntry v)"
  unfolding keyedUE_def ueEntry_def
  by (intro onMap_ofMap conjI body_keeps_keyed lift_keyed) (simp_all add: body_list list_listed bearer_keyed)

lemma cell_keyed: "keyedCell (cellEntry v)"
  unfolding keyedCell_def cellEntry_def
  by (intro onMap_ofMap conjI body_keeps_keyed lift_keeps_keyed lift_keyed) (simp_all add: body_list list_listed ue_keyed)

lemma structure_keyed: "listed ''cell_list'' keyedCell (normalizeStructure ms)"
  unfolding normalizeStructure_def by (intro list_listed cell_keyed)

text \<open>The conversion does not take keys away.\<close>

lemma body_types: "bodyOf cont (normalizeTypes e) = normalizeTypes (bodyOf cont e)"
  by (simp add: bodyOf_def map_of_types asMap_types split: option.splits)

lemma keyed_types: "keyed cont k (normalizeTypes e) = keyed cont k e"
  by (simp add: keyed_def body_types map_of_types)

lemma ofMap_walk: "(\<And>ms. P ms \<Longrightarrow> P (normalizeTypes ms)) \<Longrightarrow> ofMap P v \<Longrightarrow> ofMap P (walkAndConvert v)"
  unfolding ofMap_def by (cases v) (simp_all add: walk_object del: walkAndConvert.simps(1))

lemma asSlice_types: "asSlice (map_option (normalizeMember k) v) = map_option (map walkAndConvert) (asSlice v)"
proof (cases "(\<exists>ms. v = Some (JvObj ms)) \<or> (\<exists>vs. v = Some (JvArr vs)) \<or> v = None")
  case False
  then obtain x where "v = Some x" "\<nexists>ms. x = JvObj ms" "\<nexists>vs. x = JvArr vs" by blast
  then show ?thesis using normalizeMember_scalar [of x k] by (auto simp: asSlice_def split: jval.splits)
qed (auto simp: asSlice_def)

lemma listed_types: "(\<And>v. P v \<Longrightarrow> P (walkAndConvert v)) \<Longrightarrow> listed l P ms \<Longrightarrow> listed l P (normalizeTypes ms)"
  by (auto simp: listed_def map_of_types asSlice_types list_all_iff split: option.splits)

lemma bearer_types: "keyedBearer v \<Longrightarrow> keyedBearer (walkAndConvert v)"
  unfolding keyedBearer_def by (rule ofMap_walk) (simp_all add: keyed_types)

lemma ue_types: "keyedUE v \<Longrightarrow> keyedUE (walkAndConvert v)"
  unfolding keyedUE_def by (rule ofMap_walk) (simp_all add: keyed_types body_types listed_types bearer_types)

lemma cell_types: "keyedCell v \<Longrightarrow> keyedCell (walkAndConvert v)"
  unfolding keyedCell_def by (rule ofMap_walk) (simp_all add: keyed_types body_types listed_types ue_types)

section \<open>Well-formed maps\<close>

text \<open>A value that the encoder can write and the decoder reads reads: a Go value of valid strings and
  numbers that is not nested too deeply.\<close>

definition good :: "int \<Rightarrow> jval \<Rightarrow> bool" where
  "good n v \<longleftrightarrow> isAny v \<and> wellFormed v \<and> depth v \<le> n"

definition goodMap :: "int \<Rightarrow> members \<Rightarrow> bool" where
  "goodMap n ms \<longleftrightarrow> 0 \<le> n \<and> sorted_wrt (<) (map fst ms) \<and> (\<forall>(k, v) \<in> set ms. validText k \<and> good n v)"

lemma good_obj: "good n (JvObj ms) \<longleftrightarrow> goodMap (n - 1) ms"
  unfolding good_def goodMap_def depth_le by (fastforce simp: list_all_iff)

lemma good_arr: "good n (JvArr vs) \<longleftrightarrow> 1 \<le> n \<and> (\<forall>v \<in> set vs. good (n - 1) v)"
  unfolding good_def depth_le by (auto simp: list_all_iff)

lemma good_mono: "good n v \<Longrightarrow> n \<le> m \<Longrightarrow> good m v"
  by (simp add: good_def)

lemma good_member: "goodMap n ms \<Longrightarrow> map_of ms k = Some v \<Longrightarrow> validText k \<and> good n v"
  by (auto simp: goodMap_def dest: map_of_SomeD)

lemma good_put: "goodMap n ms \<Longrightarrow> validText k \<Longrightarrow> good n v \<Longrightarrow> goodMap n (putMember k v ms)"
  using set_putMember [of k v ms] by (auto simp: goodMap_def intro: sorted_putMember)

lemma good_body: "goodMap n e \<Longrightarrow> map_of (bodyOf cont e) k = Some v \<Longrightarrow> validText k \<and> good n v"
proof (cases "asMap (map_of e cont)")
  case (Some inner)
  assume g: "goodMap n e" and m: "map_of (bodyOf cont e) k = Some v"
  have "map_of e cont = Some (JvObj inner)" using Some by (auto simp: asMap_def split: option.splits jval.splits)
  then have "goodMap (n - 1) inner" using good_member [OF g] good_obj by blast
  then show ?thesis using good_member m Some good_mono by (fastforce simp: bodyOf_def)
qed (simp add: bodyOf_def good_member)

lemma good_lift: "goodMap n e \<Longrightarrow> goodMap n (liftKey cont k e)"
  by (auto simp: liftKey_def split: option.splits dest: good_body intro: good_put)

lemma good_list:
  assumes "goodMap n ms" "\<And>n v. good n v \<Longrightarrow> good n (f v)"
  shows "goodMap n (overList l f ms)"
proof (cases "asSlice (map_of ms l)")
  case (Some vs)
  then have m: "map_of ms l = Some (JvArr vs)" by (auto simp: asSlice_def split: option.splits jval.splits)
  note g = good_member [OF assms(1) m]
  then have "good n (JvArr (map f vs))" using assms(2) by (auto simp: good_arr)
  then show ?thesis using Some g assms(1) by (simp add: overList_def good_put)
qed (simp add: overList_def assms)

lemma good_over:
  assumes "goodMap n e" "\<And>n ms. goodMap n ms \<Longrightarrow> goodMap n (f ms)"
  shows "goodMap n (overBody cont f e)"
proof (cases "asMap (map_of e cont)")
  case (Some inner)
  then have m: "map_of e cont = Some (JvObj inner)" by (auto simp: asMap_def split: option.splits jval.splits)
  note g = good_member [OF assms(1) m]
  then have "good n (JvObj (f inner))" using assms(2) by (simp add: good_obj)
  then show ?thesis using Some g assms(1) by (simp add: overBody_def good_put)
qed (simp add: overBody_def assms)

lemma good_onMap: "(\<And>n ms. goodMap n ms \<Longrightarrow> goodMap n (f ms)) \<Longrightarrow> good n v \<Longrightarrow> good n (onMap f v)"
  by (auto simp: onMap_def good_obj split: jval.splits)

lemma good_bearer: "good n v \<Longrightarrow> good n (bearerEntry v)"
  unfolding bearerEntry_def by (rule good_onMap) (rule good_lift)

lemma good_ue: "good n v \<Longrightarrow> good n (ueEntry v)"
  unfolding ueEntry_def by (erule good_onMap [rotated]) (intro good_over good_lift good_list good_bearer)

lemma good_cell: "good n v \<Longrightarrow> good n (cellEntry v)"
  unfolding cellEntry_def by (erule good_onMap [rotated]) (intro good_over good_lift good_list good_ue)

lemma good_structure: "goodMap n ms \<Longrightarrow> goodMap n (normalizeStructure ms)"
  unfolding normalizeStructure_def by (intro good_list good_cell)

lemma validText_ascii: "list_all (byteIn 0 127) s \<Longrightarrow> validText s"
proof (induction s)
  case (Cons c s)
  then show ?case using validText.rune [of "[c]" s] isRune_ascii [of c] by simp
qed simp

lemma numberChar_ascii: "numberChar c \<Longrightarrow> byteIn 0 127 c"
  by (auto simp: numberChar_def isDigit_def byteIn_def)

lemma formatFixed_ascii: "list_all (byteIn 0 127) (formatFixed p f)"
proof -
  have nat: "list_all (byteIn 0 127) (formatNat m)" for m
    using formatNat_digits [of m] by (auto simp: list_all_iff isDigit_def byteIn_def)
  then have "list_all (byteIn 0 127) (formatFixedAbs p q)" for q
    by (auto simp: formatFixedAbs_def Let_def padLeft_def list_all_iff byteIn_def)
  then show ?thesis by (cases f) (simp_all add: byteIn_def)
qed

lemma convert_valid: "convertValue k v = Some s \<Longrightarrow> wellFormed v \<Longrightarrow> validText s"
proof -
  assume c: "convertValue k v = Some s" and w: "wellFormed v"
  obtain lit where v: "v = JvNum lit" using convert_number [OF c] by blast
  have "s = lit \<or> (\<exists>f. s = formatFixed 6 f)"
    using c by (auto simp: v convertValue_def toUintString_def toInt64String_def toDecimalString_def split: if_splits option.splits)
  moreover have "list_all (byteIn 0 127) lit" using w numberChar_ascii by (simp add: v list_all_iff)
  ultimately show ?thesis using formatFixed_ascii by (intro validText_ascii) auto
qed

lemma good_walk: "good n v \<Longrightarrow> good n (walkAndConvert v)"
proof (induction v arbitrary: n rule: walkAndConvert.induct)
  case (1 ms)
  have "good (n - 1) (normalizeMember k v)" if "(k, v) \<in> set ms" for k v
  proof -
    have v: "good (n - 1) v" and n: "1 \<le> n" using 1(2) that by (auto simp: good_obj goodMap_def)
    show ?thesis
    proof (cases "convertValue k v")
      case None
      then show ?thesis using 1(1) [OF that refl None v] by (simp add: normalizeMember_def)
    next
      case (Some s)
      then show ?thesis using convert_valid v n by (auto simp: normalizeMember_def good_def)
    qed
  qed
  moreover have "map fst (normalizeTypes ms) = map fst ms" by (simp add: normalizeTypes_def case_prod_beta comp_def)
  moreover have "(k, v) \<in> set (normalizeTypes ms) \<longleftrightarrow> (\<exists>v'. (k, v') \<in> set ms \<and> v = normalizeMember k v')" for k v
    by (auto simp: normalizeTypes_def)
  ultimately show ?case using 1(2) unfolding walk_object good_obj goodMap_def by auto
qed (auto simp: good_arr)

section \<open>A normalized document\<close>

lemma list_same:
  assumes "goodMap n ms" "listed l P ms" "\<And>n v. good n v \<Longrightarrow> P v \<Longrightarrow> f v = v"
  shows "overList l f ms = ms"
proof (cases "asSlice (map_of ms l)")
  case (Some vs)
  then have m: "map_of ms l = Some (JvArr vs)" by (auto simp: asSlice_def split: option.splits jval.splits)
  have "map f vs = vs" using good_member [OF assms(1) m] assms(2,3) Some by (intro map_idI) (auto simp: good_arr listed_def list_all_iff)
  then show ?thesis using Some putMember_same [OF _ m] assms(1) by (simp add: overList_def goodMap_def)
qed (simp add: overList_def)

lemma over_same:
  assumes "goodMap n e" "\<And>n. goodMap n (bodyOf cont e) \<Longrightarrow> f (bodyOf cont e) = bodyOf cont e"
  shows "overBody cont f e = e"
proof (cases "asMap (map_of e cont)")
  case (Some inner)
  then have m: "map_of e cont = Some (JvObj inner)" by (auto simp: asMap_def split: option.splits jval.splits)
  then have "goodMap (n - 1) inner" using good_member [OF assms(1) m] by (simp add: good_obj)
  then have "f inner = inner" using assms(2) Some by (simp add: bodyOf_def)
  then show ?thesis using Some putMember_same [OF _ m] assms(1) by (simp add: overBody_def goodMap_def)
qed (use assms in \<open>simp add: overBody_def bodyOf_def\<close>)

lemma onMap_same: "good n v \<Longrightarrow> ofMap P v \<Longrightarrow> (\<And>n ms. goodMap n ms \<Longrightarrow> P ms \<Longrightarrow> f ms = ms) \<Longrightarrow> onMap f v = v"
  by (auto simp: onMap_def ofMap_def good_obj split: jval.splits)

lemma bearer_same: "good n v \<Longrightarrow> keyedBearer v \<Longrightarrow> bearerEntry v = v"
  unfolding keyedBearer_def bearerEntry_def by (erule (1) onMap_same) (rule lift_same)

lemma ue_same: "good n v \<Longrightarrow> keyedUE v \<Longrightarrow> ueEntry v = v"
  unfolding keyedUE_def ueEntry_def
  by (erule (1) onMap_same) (auto simp: lift_same intro!: over_same list_same intro: bearer_same)

lemma cell_same: "good n v \<Longrightarrow> keyedCell v \<Longrightarrow> cellEntry v = v"
  unfolding keyedCell_def cellEntry_def
  by (erule (1) onMap_same) (auto simp: lift_same intro!: over_same list_same intro: ue_same)

lemma structure_same: "goodMap n ms \<Longrightarrow> listed ''cell_list'' keyedCell ms \<Longrightarrow> normalizeStructure ms = ms"
  unfolding normalizeStructure_def by (rule list_same [where P = keyedCell]) (auto intro: cell_same)

lemma normalize_cases:
  assumes "NormalizeForNetconf raw = Some out"
  obtains doc where "good maxNestingDepth doc" "out = marshalVal (walkAndConvert (onMap normalizeStructure doc))"
    "map_option toAny (decodeFirst raw) = Some doc" "doc = JvNull \<or> (\<exists>ms. doc = JvObj ms)"
proof -
  from assms obtain v doc where v: "decodeFirst raw = Some v" "toAny v = doc" and d: "doc = JvNull \<or> (\<exists>ms. doc = JvObj ms)"
      and out: "out = marshalVal (walkAndConvert (onMap normalizeStructure doc))"
    unfolding NormalizeForNetconf_def by (auto simp: onMap_def walk_object simp del: walkAndConvert.simps(1) split: option.splits jval.splits)
  have "good maxNestingDepth doc"
    using decodeFirst_ok [OF v(1)] toAny_isAny toAny_wellFormed toAny_depth v(2) unfolding good_def by blast
  with out v d show thesis by (intro that [of doc]) simp_all
qed

definition memberOf :: "string \<Rightarrow> jval \<Rightarrow> jval option" where
  "memberOf k v = (case v of JvObj ms \<Rightarrow> map_of ms k | _ \<Rightarrow> None)"

text \<open>C40: A document that the normalisation accepts becomes a text that reads
  back as one document, in which every number that the model types as text has been converted, every
  cell, UE and bearer entry shows the keys that its container holds, and every other member of the
  root is the converted member of the input. Normalizing the result again gives the same text.\<close>

theorem normalized_snapshot_is_stable:
  assumes "NormalizeForNetconf raw = Some out"
  shows "NormalizeForNetconf out = Some out
    \<and> (\<exists>doc res. map_option toAny (decodeFirst raw) = Some doc \<and> decodeWhole out = Some res
          \<and> converted res \<and> ofMap (listed ''cell_list'' keyedCell) res
          \<and> (\<forall>k. k \<noteq> ''cell_list'' \<longrightarrow> memberOf k res = map_option (normalizeMember k) (memberOf k doc)))"
proof -
  from assms obtain doc where doc: "good maxNestingDepth doc" "map_option toAny (decodeFirst raw) = Some doc" "doc = JvNull \<or> (\<exists>ms. doc = JvObj ms)"
    and out: "out = marshalVal (walkAndConvert (onMap normalizeStructure doc))" by (rule normalize_cases)
  define res where "res = walkAndConvert (onMap normalizeStructure doc)"
  have g: "good maxNestingDepth res" unfolding res_def by (intro good_walk good_onMap good_structure doc(1))
  have reads: "decodeFirst out = Some res" "decodeWhole out = Some res"
    unfolding out res_def [symmetric] by (intro decode_marshal; use g in \<open>simp add: good_def\<close>)+
  have c: "converted res" unfolding res_def by (rule walk_converted)
  have k: "ofMap (listed ''cell_list'' keyedCell) res"
    unfolding res_def by (intro ofMap_walk listed_types cell_types onMap_ofMap structure_keyed)
  have "onMap normalizeStructure res = res" using g k by (rule onMap_same) (rule structure_same)
  moreover have "toAny res = res" using g by (intro toAny_same) (simp add: good_def)
  moreover have "res = JvNull \<or> (\<exists>ms. res = JvObj ms)"
    using doc(3) by (auto simp: res_def onMap_def walk_object simp del: walkAndConvert.simps(1))
  moreover have "out = marshalVal res" using out by (simp add: res_def)
  ultimately have "NormalizeForNetconf out = Some out"
    using walk_same [OF c] reads(1)
    by (auto simp: NormalizeForNetconf_def onMap_def walk_object simp del: walkAndConvert.simps(1))
  moreover have "memberOf k res = map_option (normalizeMember k) (memberOf k doc)" if "k \<noteq> ''cell_list''" for k
    using doc(3) that by (auto simp: res_def onMap_def memberOf_def walk_object map_of_types normalizeStructure_def list_keeps
        simp del: walkAndConvert.simps(1))
  ultimately show ?thesis using doc(2) reads(2) c k by blast
qed

definition exampleSnapshot :: string where
  "exampleSnapshot = ''{'' @ quoteJSON ''nas_up'' @ '': 7, '' @ quoteJSON ''cell_list'' @ '':[{'' @ quoteJSON ''cell_container'' @ '':{''
     @ quoteJSON ''pci'' @ '':1}}]} ''"

theorem normalized_snapshot_is_stable_witness:
  "\<exists>out. NormalizeForNetconf exampleSnapshot = Some out \<and> NormalizeForNetconf out = Some out
     \<and> out = ''{'' @ quoteJSON ''cell_list'' @ '':[{'' @ quoteJSON ''cell_container'' @ '':{'' @ quoteJSON ''pci'' @ '':1},''
         @ quoteJSON ''pci'' @ '':1}],'' @ quoteJSON ''nas_up'' @ '':'' @ quoteJSON ''7'' @ ''}''"
proof -
  let ?out = "''{'' @ quoteJSON ''cell_list'' @ '':[{'' @ quoteJSON ''cell_container'' @ '':{'' @ quoteJSON ''pci'' @ '':1},''
         @ quoteJSON ''pci'' @ '':1}],'' @ quoteJSON ''nas_up'' @ '':'' @ quoteJSON ''7'' @ ''}''"
  have run: "NormalizeForNetconf exampleSnapshot = Some ?out" by code_simp
  show ?thesis using normalized_snapshot_is_stable [OF run] run by blast
qed

end
