(* ===== verification/Spec2Isabelle.thy ===== *)
theory Spec2Isabelle
  imports Wiring Faults Worker Mediation Normalize
begin

text \<open>
  \<^bold>\<open>A verification of the LTE element manager.\<close> The program (Go, \<^verbatim>\<open>src/\<close>) is the agent of a
  base station: it serves the configuration of the station to NETCONF clients, collects its
  telemetry, derives performance reports and alarms from it, and supervises its own workers and
  the containers of the station. The theories model the Go code of these parts function by
  function and prove what makes them correct. Names follow the code; where a Go name is taken
  (several packages have a \<^verbatim>\<open>Config\<close>, a \<^verbatim>\<open>Store\<close>, a \<^verbatim>\<open>New\<close>) the definition has a
  name of its own.

  \<^bold>\<open>Configuration.\<close>
  \<^item> \<^theory_text>\<open>EditableConfig\<close>: \<^verbatim>\<open>configuration/store.go\<close>, the record of editable settings, the conversion
    of dynamic values, \<^verbatim>\<open>applyChange\<close> and \<^verbatim>\<open>validate\<close>. The locale \<open>slot_store\<close> states that a
    change of a key sets one slot and keeps the others; everything about sequences of edits is
    proved in it.
  \<^item> \<^theory_text>\<open>LibconfigScan\<close>, \<^theory_text>\<open>Renderer\<close>: \<^verbatim>\<open>configuration/renderer.go\<close>, the scanner of libconfig files and
    the patches of \<^verbatim>\<open>enb.conf\<close>, \<^verbatim>\<open>rr.conf\<close>, \<^verbatim>\<open>sib.conf\<close> and \<^verbatim>\<open>rb.conf\<close>; a patch
    changes the bytes of one value, and reading it back gives what was written.
  \<^item> \<^theory_text>\<open>SrsranConf\<close>, \<^theory_text>\<open>SibRbConf\<close>: \<^verbatim>\<open>configuration/srsranconf\<close>, the readers of these files.
  \<^item> \<^theory_text>\<open>FileSys\<close>, \<^theory_text>\<open>ConfigStore\<close>: the file primitives over a disk on which any call may fail, and the
    store with its running and candidate configuration, dirty marks, staged commit, backup and
    rollback. A commit is atomic under one fault, never tears a file under any, and loses no edit.
  \<^item> \<^theory_text>\<open>Bindings\<close>, \<^theory_text>\<open>Locks\<close>, \<^theory_text>\<open>Manager\<close>: \<^verbatim>\<open>netconfcm\<close>, the YANG leaves of the settings, the
    datastore locks with sessions and expiry, and the NETCONF operations over all of the above.
    The locale \<open>exclusion\<close> of \<^theory_text>\<open>Traces\<close> says what a lock promises over runs; it is interpreted on
    the lock manager, on the configuration manager and on its HTTP front end.
  \<^item> \<^theory_text>\<open>ConfigControl\<close>: \<^verbatim>\<open>services/config_control.go\<close>, the HTTP handlers of that manager: every
    request is a call of it in the name of the sessions that the request names, so what the locks
    promise holds over the wire; the error a client sees names the holder of the lock.

  \<^bold>\<open>Faults.\<close>
  \<^item> \<^theory_text>\<open>EmsErrors\<close>, \<^theory_text>\<open>AlarmDictionary\<close>, \<^theory_text>\<open>AlarmStore\<close>: \<^verbatim>\<open>internal/errors\<close> and \<^verbatim>\<open>fcaps/alarms\<close>, typed
    errors, the alarm definitions, the alarm list with its file, and the events of the manager.
  \<^item> \<^theory_text>\<open>Health\<close>, \<^theory_text>\<open>Faults\<close>: \<^verbatim>\<open>health/health.go\<close> and \<^verbatim>\<open>services/fault_service.go\<close>; the tracker is
    a step relation, because it sends its events outside its mutex. The locale \<open>announced\<close> says
    that replaying the events gives the state; the alarm list and the tracker are instances.
  \<^item> \<^theory_text>\<open>Channels\<close>, \<^theory_text>\<open>Bus\<close>: \<^verbatim>\<open>bus/bus.go\<close>, bounded channels and concurrent publishers, subscribers and
    cancellations as interleaved steps.
  \<^item> \<^theory_text>\<open>GoMarshal\<close>, \<^theory_text>\<open>Notifications\<close>: \<^verbatim>\<open>fcaps/alarms/notifications.go\<close>, the queue of NETCONF
    notifications and their JSON payload.

  \<^bold>\<open>Telemetry.\<close>
  \<^item> \<^theory_text>\<open>MetricStructs\<close>: \<^verbatim>\<open>domain/metrics.go\<close>, \<^verbatim>\<open>domain/nr_metrics.go\<close> and \<^verbatim>\<open>fcaps/metrics/parser.go\<close>, the
    documents of LTE and NR stations and their decoding; what a decoded field holds in terms of the
    document.
  \<^item> \<^theory_text>\<open>Mediation\<close>: \<^verbatim>\<open>mediation/rules.go\<close>, \<^verbatim>\<open>mediation/srsran\<close> and the metrics consumer, from a document to
    canonical samples; the state of the core-network interface and the values of the UEs reach them.
  \<^item> \<^theory_text>\<open>Normalize\<close>: \<^verbatim>\<open>mediation/srsran/normalize.go\<close>, the document prepared for a strict YANG parser; the
    result reads back, has its keys and types in place, and is stable.

  \<^bold>\<open>Performance.\<close>
  \<^item> \<^theory_text>\<open>NRM\<close>: \<^verbatim>\<open>domain/nrm\<close> and \<^verbatim>\<open>domain/canonical\<close>, distinguished names and the registry of
    objects. The locale \<open>naming\<close> states that a name does not depend on what was named before.
  \<^item> \<^theory_text>\<open>PM\<close>: \<^verbatim>\<open>domain/pm\<close> and \<^verbatim>\<open>fcaps/pm\<close>, the loop that aggregates samples; it refines a
    specification that looks at the samples of each window as a list.
  \<^item> \<^theory_text>\<open>TCA\<close>: \<^verbatim>\<open>fcaps/tca\<close>, the threshold rules and their time to trigger. The locale
    \<open>rule_invariant\<close> lifts what the transitions of rules keep to the evaluation of a report.
  \<^item> \<^theory_text>\<open>Monitoring\<close>: the services that connect these over the bus. This theory holds the property that
    spans them, from a sample to the alarm list.

  \<^bold>\<open>Supervision.\<close>
  \<^item> \<^theory_text>\<open>Worker\<close>, \<^theory_text>\<open>Lifecycle\<close>: \<^verbatim>\<open>worker\<close>, the exponential backoff, the restart loop, and the ordered
    restart of containers over a script of replies of the Docker daemon.
  \<^item> \<^theory_text>\<open>AgentConfig\<close>: \<^verbatim>\<open>config/config.go\<close>, the settings of the agent from defaults, file and environment,
    and which of them wins.
  \<^item> \<^theory_text>\<open>Wiring\<close>: \<^verbatim>\<open>wiring\<close>, which services, restart targets and plans the settings give; an agent that
    assembles is consistent.

  \<^bold>\<open>Foundations.\<close> \<^theory_text>\<open>EMS_Prelude\<close> (byte strings and numbers of Go), \<^theory_text>\<open>GoTime\<close>, \<^theory_text>\<open>GoFloat\<close> (the values
  of \<^verbatim>\<open>float64\<close> with rounding, infinities, NaN and the negative zero), \<^theory_text>\<open>GoDuration\<close> (durations
  and addresses as text), \<^theory_text>\<open>GoJson\<close>, \<^theory_text>\<open>JsonText\<close> (the decoder and encoder of \<^verbatim>\<open>encoding/json\<close>, with the
  round trip through the text), \<^theory_text>\<open>GoMaps\<close>, \<^theory_text>\<open>NetIP\<close> and \<^theory_text>\<open>Traces\<close> (runs of a step relation, invariants
  and histories).

  \<^bold>\<open>Correspondence.\<close> A struct is a record, a Go map an association list without repeated keys or a
  function to an option, an error a value of a sum type. A method that holds its mutex throughout
  is one step; where the code releases the mutex in between, the steps are separate and
  interleave. Integers keep their width where the code can wrap: configuration values are words,
  the backoff is computed in 64 bits. Times are nanoseconds; the difference of two times saturates
  as in Go. Numbers of retries come from the code: 10000 names are tried for a temporary file,
  a container is started up to five times, and readiness is polled each 500 ms for 15 s, which is
  at most 30 inspections; the recursions follow these bounds and need no other fuel. The JSON
  parser recurses with fuel twice the length of the text plus one; each call consumes a character,
  and a lemma shows that more fuel changes nothing. The restart
  loop of a worker can run forever; it runs over a finite script of what happens, and the property
  says when it returns.

  \<^bold>\<open>Parameters.\<close> Code outside the repository is an argument: libyang (the tree of an edit), the JSON
  codec of alarm records, the encoder of the published configuration, the YAML decoder of the
  settings, the Docker daemon, and the result of converting a floating-point number that an integer
  type cannot hold, which Go leaves open. What is
  assumed of them stands as a hypothesis of the property and is met by the instance of its
  witness. In the configuration manager the restart of the station is an argument too, so that
  its properties hold for every outcome of it.

  \<^bold>\<open>Not modelled.\<close> Log messages and stack traces; \<^verbatim>\<open>ToLower\<close> and \<^verbatim>\<open>EqualFold\<close> outside ASCII; the
  entry points (\<^verbatim>\<open>app\<close>, \<^verbatim>\<open>cmd\<close>, \<^verbatim>\<open>service\<close>), which start the wired services and wait; the readers of
  sockets and log files (\<^verbatim>\<open>adapters\<close>, \<^verbatim>\<open>services\<close>); the NETCONF process and its snapshots
  (\<^verbatim>\<open>netconf\<close>); the C programs under \<^verbatim>\<open>cmd/netconf-server\<close> and \<^verbatim>\<open>cmd/netconf-client\<close> and the bridge to
  libyang. Of the conversions in \<^verbatim>\<open>normalize.go\<close> only the case of a \<^verbatim>\<open>json.Number\<close> occurs, and only it is
  modelled.
\<close>

section \<open>From telemetry to the alarm list\<close>

lemma NormalizeConfig_enabled: "cfgEnabled (NormalizeConfig tc) = cfgEnabled tc"
  by (simp add: NormalizeConfig_def DemoSafeConfig_def)


definition readySample :: "float64 \<Rightarrow> Sample" where
  "readySample v = (scoped ''node'')\<lparr>sMetrics := [(''s1ap.ready'', \<lparr>mName = ''s1ap.ready'', mType = Gauge, mValue = v, mUnit = []\<rparr>)]\<rparr>"

definition lossRun :: "pmInput list" where
  "lossRun = [TelemetryMsg 1 [readySample (Fin 1)], Tick 10, TelemetryMsg 11 [readySample (Fin 0)], Tick 20]"

lemma readySample_fields:
  "sScope (readySample v) = ''node''" "sMetrics (readySample v) = [(''s1ap.ready'', \<lparr>mName = ''s1ap.ready'', mType = Gauge, mValue = v, mUnit = []\<rparr>)]"
  by (simp_all add: readySample_def)

lemma readySample_name: "sScope (readySample v) = ''node''" "cellKeyFromSample (readySample v) = []"
  by (simp_all add: readySample_fields node_has_no_cell)


end
